(* ===== verification/Prelude.thy ===== *)
theory Prelude
  imports Main "HOL-Library.Word"
begin

text \<open>
  Vocabulary shared by every theory of the development: the machine integers of the
  source as words, byte strings, big-endian encoding and decoding, fixed-size chunking of
  slices, and the few facts about lists and words that the components share.

  The standard-library operations of Rust that the code calls are written here once:
  \<open>to_be_bytes\<close> and \<open>from_be_bytes\<close> of the unsigned integers, \<open>as_chunks\<close> and
  \<open>to_ascii_uppercase\<close>.
\<close>

unbundle bit_operations_syntax

section \<open>Types and collections of facts\<close>

type_synonym u8 = "8 word"
type_synonym u16 = "16 word"
type_synonym u32 = "32 word"
type_synonym u64 = "64 word"
type_synonym u128 = "128 word"
type_synonym bytes = "u8 list"

text \<open>
  \<open>usize\<close> is the 64-bit size type of the supported targets; lengths and indices are
  natural numbers below \<open>usize_limit\<close>. The dynamic size of a Rust value never exceeds
  \<open>isize::MAX\<close>.
\<close>

abbreviation (input) usize_limit :: nat where "usize_limit \<equiv> 18446744073709551616"
abbreviation (input) isize_max :: nat where "isize_max \<equiv> 9223372036854775807"

named_theorems be_simps \<open>big-endian encoding and decoding\<close>
named_theorems len_simps \<open>lengths of encoded data\<close>

section \<open>Big-endian integers\<close>

text \<open>The value of a byte string read as a big-endian unsigned number.\<close>

definition be_nat :: "bytes \<Rightarrow> nat" where
  "be_nat bs = foldl (\<lambda>acc b. 256 * acc + unat b) 0 bs"

text \<open>The \<open>n\<close> lowest bytes of a number, most significant byte first.\<close>

fun nat_be :: "nat \<Rightarrow> nat \<Rightarrow> bytes" where
  "nat_be 0 v = []"
| "nat_be (Suc n) v = nat_be n (v div 256) @ [word_of_nat (v mod 256)]"

definition u16_to_be_bytes :: "u16 \<Rightarrow> bytes" where
  "u16_to_be_bytes w = nat_be 2 (unat w)"

definition u16_from_be_bytes :: "bytes \<Rightarrow> u16" where
  "u16_from_be_bytes bs = word_of_nat (be_nat bs)"

definition u32_to_be_bytes :: "u32 \<Rightarrow> bytes" where
  "u32_to_be_bytes w = nat_be 4 (unat w)"

definition u32_from_be_bytes :: "bytes \<Rightarrow> u32" where
  "u32_from_be_bytes bs = word_of_nat (be_nat bs)"

definition u64_from_be_bytes :: "bytes \<Rightarrow> u64" where
  "u64_from_be_bytes bs = word_of_nat (be_nat bs)"

lemma be_nat_Nil [simp]: "be_nat [] = 0"
  by (simp add: be_nat_def)

lemma be_nat_snoc [simp]: "be_nat (bs @ [b]) = 256 * be_nat bs + unat b"
  by (simp add: be_nat_def)

lemma unat_u8_bound [simp]: "unat (b :: u8) < 256"
  using unsigned_less [of b] by simp

lemma unat_u16_bound [simp]: "unat (w :: u16) < 65536"
  using unsigned_less [of w] by simp

lemma unat_u32_bound [simp]: "unat (w :: u32) < 4294967296"
  using unsigned_less [of w] by simp

lemma unat_u128_bound: "unat (w :: u128) < 340282366920938463463374607431768211456"
  using unsigned_less [of w] by simp

lemma be_nat_append: "be_nat (xs @ ys) = 256 ^ length ys * be_nat xs + be_nat ys"
proof (induction ys rule: rev_induct)
  case Nil
  then show ?case by simp
next
  case (snoc y ys)
  have "be_nat (xs @ ys @ [y]) = 256 * be_nat (xs @ ys) + unat y"
    by (metis append_assoc be_nat_snoc)
  then show ?case by (simp add: snoc.IH algebra_simps)
qed

lemma be_nat_Cons: "be_nat (b # bs) = 256 ^ length bs * unat b + be_nat bs"
  using be_nat_append [of "[b]" bs] be_nat_snoc [of "[]" b] by simp

lemma be_nat_bound: "be_nat bs < 256 ^ length bs"
proof (induction bs rule: rev_induct)
  case Nil
  then show ?case by simp
next
  case (snoc b bs)
  have "256 * be_nat bs + unat b < 256 * Suc (be_nat bs)"
    by simp
  also have "\<dots> \<le> 256 * 256 ^ length bs"
    using snoc.IH by (intro mult_le_mono2) simp
  finally show ?case by simp
qed

lemma length_nat_be [simp, len_simps]: "length (nat_be n v) = n"
  by (induction n arbitrary: v) auto

lemma be_nat_nat_be [be_simps]: "be_nat (nat_be n v) = v mod 256 ^ n"
proof (induction n arbitrary: v)
  case 0
  then show ?case by simp
next
  case (Suc n)
  have "unat (word_of_nat (v mod 256) :: u8) = v mod 256"
    by (simp add: unat_of_nat take_bit_nat_def)
  then show ?case
    by (simp add: Suc.IH mod_mult2_eq)
qed

lemma nat_be_be_nat [be_simps]: "nat_be (length bs) (be_nat bs) = bs"
proof (induction bs rule: rev_induct)
  case Nil
  then show ?case by simp
next
  case (snoc b bs)
  have "(256 * be_nat bs + unat b) div 256 = be_nat bs"
    and "(256 * be_nat bs + unat b) mod 256 = unat b"
    by (simp_all add: div_mult_self4)
  then show ?case by (simp add: snoc.IH)
qed

lemma length_u16_to_be_bytes [simp, len_simps]: "length (u16_to_be_bytes w) = 2"
  by (simp add: u16_to_be_bytes_def)

lemma length_u32_to_be_bytes [simp, len_simps]: "length (u32_to_be_bytes w) = 4"
  by (simp add: u32_to_be_bytes_def)

lemma be_nat_u16 [be_simps]: "be_nat (u16_to_be_bytes w) = unat w"
  by (simp add: u16_to_be_bytes_def be_simps)

lemma be_nat_u32 [be_simps]: "be_nat (u32_to_be_bytes w) = unat w"
  by (simp add: u32_to_be_bytes_def be_simps)

lemma u16_to_be_bytes_0 [simp]: "u16_to_be_bytes 0 = [0, 0]"
  by (simp add: u16_to_be_bytes_def numeral_2_eq_2)

lemma u16_from_to_be [simp, be_simps]: "u16_from_be_bytes (u16_to_be_bytes w) = w"
  by (simp add: u16_from_be_bytes_def be_simps)

lemma u32_from_to_be [simp, be_simps]: "u32_from_be_bytes (u32_to_be_bytes w) = w"
  by (simp add: u32_from_be_bytes_def be_simps)

lemma unat_u16_from_be: "length bs = 2 \<Longrightarrow> unat (u16_from_be_bytes bs) = be_nat bs"
  using be_nat_bound [of bs]
  by (simp add: u16_from_be_bytes_def unat_of_nat take_bit_nat_def)

lemma u16_to_from_be: "length bs = 2 \<Longrightarrow> u16_to_be_bytes (u16_from_be_bytes bs) = bs"
  using nat_be_be_nat [of bs] by (simp add: u16_to_be_bytes_def unat_u16_from_be)

lemma unat_u32_from_be: "length bs = 4 \<Longrightarrow> unat (u32_from_be_bytes bs) = be_nat bs"
  using be_nat_bound [of bs]
  by (simp add: u32_from_be_bytes_def unat_of_nat take_bit_nat_def)

lemma unat_u64_from_be: "length bs = 8 \<Longrightarrow> unat (u64_from_be_bytes bs) = be_nat bs"
  using be_nat_bound [of bs]
  by (simp add: u64_from_be_bytes_def unat_of_nat take_bit_nat_def)

section \<open>Slices\<close>

text \<open>
  \<open>as_chunks n\<close> splits a slice into as many arrays of \<open>n\<close> elements as fit and the
  remainder, like \<open><[T]>::as_chunks\<close>.
\<close>

function as_chunks :: "nat \<Rightarrow> 'a list \<Rightarrow> 'a list list \<times> 'a list" where
  "as_chunks n xs =
     (if n = 0 \<or> length xs < n then ([], xs)
      else (take n xs # fst (as_chunks n (drop n xs)), snd (as_chunks n (drop n xs))))"
  by pat_completeness auto
termination
  by (relation "measure (\<lambda>(n, xs). length xs)") auto

declare as_chunks.simps [simp del]

lemma as_chunks_short [simp]: "length xs < n \<Longrightarrow> as_chunks n xs = ([], xs)"
  by (simp add: as_chunks.simps)

lemma as_chunks_step:
  "0 < n \<Longrightarrow> length c = n \<Longrightarrow>
   as_chunks n (c @ xs) = (c # fst (as_chunks n xs), snd (as_chunks n xs))"
  by (subst as_chunks.simps) simp

text \<open>Induction over the chunks of a slice: a remainder first, then one chunk at a time.\<close>

lemma chunk_induct [consumes 1, case_names rest chunk]:
  assumes "0 < n"
    and rest: "\<And>xs. length xs < n \<Longrightarrow> P xs"
    and chunk: "\<And>c xs. length c = n \<Longrightarrow> P xs \<Longrightarrow> P (c @ xs)"
  shows "P xs"
proof (induction xs rule: measure_induct_rule [of length])
  case (less xs)
  show ?case
  proof (cases "length xs < n")
    case True
    then show ?thesis by (rule rest)
  next
    case False
    with \<open>0 < n\<close> have "P (drop n xs)" by (intro less.IH) simp
    with False have "P (take n xs @ drop n xs)" by (intro chunk) simp_all
    then show ?thesis by simp
  qed
qed

text \<open>\<open>u8::to_ascii_uppercase\<close>.\<close>

definition to_ascii_uppercase :: "u8 \<Rightarrow> u8" where
  "to_ascii_uppercase b = (if 0x61 \<le> b \<and> b \<le> 0x7A then b - 0x20 else b)"

lemma to_ascii_uppercase_idem [simp]:
  "to_ascii_uppercase (to_ascii_uppercase b) = to_ascii_uppercase b"
proof (cases "0x61 \<le> b \<and> b \<le> 0x7A")
  case True
  then have "unat (b - 0x20) = unat b - 32"
    by (simp add: unat_sub word_le_nat_alt)
  moreover have "\<not> 97 \<le> unat b - 32" if "unat b \<le> 122"
    using that by linarith
  ultimately show ?thesis
    using True by (simp add: to_ascii_uppercase_def word_le_nat_alt)
next
  case False
  then show ?thesis by (auto simp: to_ascii_uppercase_def)
qed

section \<open>Lists and words\<close>

lemma length_eq_2_conv: "length xs = 2 \<longleftrightarrow> (\<exists>a b. xs = [a, b])"
  by (auto simp: length_Suc_conv numeral_2_eq_2)

lemma length_eq_4_E:
  assumes "length xs = 4"
  obtains a b c d where "xs = [a, b, c, d]"
  using assms by (auto simp: length_Suc_conv eval_nat_numeral)

lemma u16_bytes_E:
  obtains a b where "u16_to_be_bytes w = [a, b]" and "u16_from_be_bytes [a, b] = w"
  using iffD1 [OF length_eq_2_conv length_u16_to_be_bytes [of w]] u16_from_to_be [of w] by metis

lemma u32_bytes_E:
  obtains a b c d where "u32_to_be_bytes w = [a, b, c, d]" and "u32_from_be_bytes [a, b, c, d] = w"
  using length_eq_4_E [OF length_u32_to_be_bytes [of w]] u32_from_to_be [of w] by metis

lemma length_eq_8_E:
  assumes "length xs = 8"
  obtains a b c d e f g h where "xs = [a, b, c, d, e, f, g, h]"
  using assms by (auto simp: length_Suc_conv eval_nat_numeral)

lemma unat_add_small:
  "unat (a :: 'a::len word) + unat b < 2 ^ LENGTH('a) \<Longrightarrow> unat (a + b) = unat a + unat b"
  by (simp add: unat_word_ariths)

lemma unat_of_nat_small: "n < 2 ^ LENGTH('a) \<Longrightarrow> unat (word_of_nat n :: 'a::len word) = n"
  by (simp add: unat_of_nat take_bit_nat_def)

lemma mod_add_cancel: "(a + c) mod k = (b + c) mod k \<longleftrightarrow> a mod k = b mod k" for a b c k :: nat
proof (cases "a \<le> b")
  case True
  then show ?thesis
    using mod_eq_dvd_iff_nat [of a b k] mod_eq_dvd_iff_nat [of "a + c" "b + c" k] by fastforce
next
  case False
  then show ?thesis
    using mod_eq_dvd_iff_nat [of b a k] mod_eq_dvd_iff_nat [of "b + c" "a + c" k] by fastforce
qed

lemma unat_ucast_small:
  "unat w < 2 ^ LENGTH('b) \<Longrightarrow> unat (ucast (w :: 'a::len word) :: 'b::len word) = unat w"
  by (simp add: unsigned_ucast_eq take_bit_eq_mod)

lemma filter_eq_self: "(\<And>x. x \<in> set xs \<Longrightarrow> P x) \<Longrightarrow> filter P xs = xs"
  by (induction xs) auto

end
