(* ===== verification/Checksum.thy ===== *)
theory Checksum
  imports Prelude
begin

text \<open>
  The Internet checksum of \<open>stack/src/checksum.rs\<close>: the production routine \<open>calculate\<close>,
  which sums 64-bit words into a 128-bit accumulator and folds at the end, and the three
  16-bit-at-a-time routines the crate keeps for tests and benchmarks.

  The reference is RFC 1071 on natural numbers: the one's complement sum of the big-endian
  16-bit words of the data, an odd last byte padded with zeros on the right. The locale
  \<open>inet_checksum\<close> is the contract (an implementation returns the complement of that sum on
  the data it accepts); the facts every user of a checksum needs are proved inside it, and
  each routine interprets it with the largest inputs it is right for.
\<close>

unbundle bit_operations_syntax

section \<open>The production routine\<close>

text \<open>Folds the bottom two 16-bit lanes together.\<close>

definition fold_lanes :: "u128 \<Rightarrow> u128" where
  "fold_lanes y = (y AND 0xFFFF) + drop_bit 16 y"

lemma unat_fold_lanes: "unat (fold_lanes y) = unat y mod 65536 + unat y div 65536"
proof -
  have m: "unat (y AND 0xFFFF) = unat y mod 65536"
  proof -
    have "y AND 0xFFFF = take_bit 16 y" by (simp add: take_bit_eq_mask mask_eq_exp_minus_1)
    then have "unat (y AND 0xFFFF) = take_bit 16 (unat y)" by (simp add: unsigned_take_bit_eq)
    then show ?thesis by (simp add: take_bit_eq_mod)
  qed
  have d: "unat (drop_bit 16 y) = unat y div 65536"
    by (subst unat_drop_bit_eq) (simp add: drop_bit_eq_div)
  have "unat y mod 65536 + unat y div 65536 \<le> unat y"
    using div_mult_mod_eq [of "unat y" 65536] by linarith
  also have "\<dots> < 2 ^ 128" using unsigned_less [of y] by simp
  finally show ?thesis
    unfolding fold_lanes_def by (subst unat_add_small) (simp_all add: m d)
qed

text \<open>Folds 128 bits into 16 bits and returns the one's complement.\<close>

function fold_and_flip :: "u128 \<Rightarrow> u16" where
  "fold_and_flip x = (if x > 0xFFFF then fold_and_flip (fold_lanes x) else ucast (NOT x))"
  by pat_completeness auto
termination
proof (relation "measure unat")
  fix x :: u128
  assume "x > 0xFFFF"
  then have "65535 < unat x" by (simp add: word_less_nat_alt)
  then have "0 < unat x div 65536" by (simp add: div_greater_zero_iff)
  then have "unat x mod 65536 + unat x div 65536 < unat x"
    using div_mult_mod_eq [of "unat x" 65536] by linarith
  then show "(fold_lanes x, x) \<in> measure unat" by (simp add: unat_fold_lanes)
qed simp

declare fold_and_flip.simps [simp del]

text \<open>The bytes left after the last full group, in the high bytes of one 64-bit word.\<close>

definition pad_remainder :: "bytes \<Rightarrow> bytes" where
  "pad_remainder r = map (\<lambda>i. if i < length r then r ! i else 0) [0..<8]"

definition calculate :: "bytes \<Rightarrow> u16" where
  "calculate data =
     (let (byte_groups, remainder_bytes) = as_chunks 8 data
      in fold_and_flip
           (foldl (\<lambda>acc chunk. acc + ucast (u64_from_be_bytes chunk))
              (ucast (u64_from_be_bytes (pad_remainder remainder_bytes))) byte_groups))"

section \<open>The routines kept for comparison\<close>

definition deferred_carries_max_bytes :: nat where
  "deferred_carries_max_bytes = (2 ^ 32 - 1) div (2 ^ 16 - 1) * 2"

definition one_carry_fold :: "u32 \<Rightarrow> u32" where
  "one_carry_fold x = (x AND 0xFFFF) + drop_bit 16 x"

definition always_folded_cksum :: "bytes \<Rightarrow> u16" where
  "always_folded_cksum data =
     (let (byte_pairs, maybe_odd_byte) = as_chunks 2 data
      in NOT (foldl
           (\<lambda>sum byte_pair.
              let new_sum = sum + u16_from_be_bytes byte_pair;
                  overflowed = (unat sum + unat (u16_from_be_bytes byte_pair) \<ge> 65536)
              in new_sum + (if overflowed then 1 else 0))
           (case maybe_odd_byte of [] \<Rightarrow> 0 | b # _ \<Rightarrow> u16_from_be_bytes [b, 0]) byte_pairs))"

definition naive_wrapping_cksum :: "bytes \<Rightarrow> u16" where
  "naive_wrapping_cksum data =
     (let (byte_pairs, maybe_odd_byte) = as_chunks 2 data;
          sum = foldl (\<lambda>sum byte_pair. sum + u32_from_be_bytes ([0, 0] @ byte_pair))
                  (case maybe_odd_byte of [] \<Rightarrow> 0 | b # _ \<Rightarrow> u32_from_be_bytes [0, 0, b, 0]) byte_pairs
      in NOT (ucast (one_carry_fold (one_carry_fold sum))))"

definition would_overflow :: u32 where
  "would_overflow = 0xFFFFFFFF - 0xFFFF + 1"

definition range_checked_cksum :: "bytes \<Rightarrow> u16" where
  "range_checked_cksum data =
     (let (byte_pairs, maybe_odd_byte) = as_chunks 2 data;
          sum = foldl
                  (\<lambda>sum byte_pair.
                     let s = sum + u32_from_be_bytes ([0, 0] @ byte_pair)
                     in if s < would_overflow then s else one_carry_fold s)
                  (case maybe_odd_byte of [] \<Rightarrow> 0 | b # _ \<Rightarrow> u32_from_be_bytes [0, 0, b, 0]) byte_pairs
      in NOT (ucast (one_carry_fold (one_carry_fold sum))))"

section \<open>The reference: RFC 1071 on natural numbers\<close>

text \<open>The sum of the 16-bit words of the data.\<close>

fun word_sum :: "bytes \<Rightarrow> nat" where
  "word_sum [] = 0"
| "word_sum [b] = 256 * unat b"
| "word_sum (a # b # bs) = 256 * unat a + unat b + word_sum bs"

text \<open>
  End-around carry reduces a sum modulo 65535 but never turns a positive sum into 0: both
  representations of zero stay apart.
\<close>

definition ones_sum :: "nat \<Rightarrow> nat" where
  "ones_sum n = (if n = 0 then 0 else (n - 1) mod 65535 + 1)"

lemma ones_sum_bound: "ones_sum n \<le> 65535"
  using mod_less_divisor [of 65535 "n - 1"] by (auto simp: ones_sum_def simp del: mod_less_divisor)

lemma ones_sum_small [simp]: "n \<le> 65535 \<Longrightarrow> ones_sum n = n"
  by (auto simp: ones_sum_def)

lemma ones_sum_mod: "ones_sum n mod 65535 = n mod 65535"
proof (cases n)
  case (Suc m)
  then show ?thesis using mod_Suc_eq [of m 65535] by (simp add: ones_sum_def)
qed (simp add: ones_sum_def)

lemma ones_sum_eq_iff:
  "ones_sum a = ones_sum b \<longleftrightarrow> (a = 0 \<longleftrightarrow> b = 0) \<and> a mod 65535 = b mod 65535"
proof
  assume "ones_sum a = ones_sum b"
  then have "a mod 65535 = b mod 65535" using ones_sum_mod [of a] ones_sum_mod [of b] by simp
  moreover have "a = 0 \<longleftrightarrow> b = 0"
    using \<open>ones_sum a = ones_sum b\<close> by (auto simp: ones_sum_def split: if_splits)
  ultimately show "(a = 0 \<longleftrightarrow> b = 0) \<and> a mod 65535 = b mod 65535" by simp
next
  assume *: "(a = 0 \<longleftrightarrow> b = 0) \<and> a mod 65535 = b mod 65535"
  show "ones_sum a = ones_sum b"
  proof (cases "a = 0")
    case False
    with * obtain m n where "a = Suc m" and "b = Suc n" by (meson not0_implies_Suc)
    moreover have "m mod 65535 = n mod 65535"
      using * \<open>a = Suc m\<close> \<open>b = Suc n\<close> mod_add_cancel [of m 1 65535 n] by simp
    ultimately show ?thesis by (simp add: ones_sum_def)
  qed (use * in \<open>simp add: ones_sum_def\<close>)
qed

lemma ones_sum_fold: "ones_sum (n mod 65536 + n div 65536) = ones_sum n"
proof -
  have n: "n = (n mod 65536 + n div 65536) + 65535 * (n div 65536)"
    using div_mult_mod_eq [of n 65536] by linarith
  have "(n mod 65536 + n div 65536) mod 65535 = n mod 65535"
    by (subst (3) n) (simp only: mod_mult_self2)
  moreover have "n mod 65536 + n div 65536 = 0 \<longleftrightarrow> n = 0"
    by (metis n add_is_0 div_0 mod_0 mult_0_right)
  ultimately show ?thesis by (simp add: ones_sum_eq_iff)
qed

lemma ones_sum_add: "ones_sum (ones_sum a + b) = ones_sum (a + b)"
proof -
  have "ones_sum a = 0 \<longleftrightarrow> a = 0" by (simp add: ones_sum_def)
  moreover have "(ones_sum a + b) mod 65535 = (a + b) mod 65535"
    using ones_sum_mod [of a] by (metis mod_add_left_eq)
  ultimately show ?thesis by (simp add: ones_sum_eq_iff)
qed

text \<open>Adding the complement of a sum gives negative zero, the receiver's check.\<close>

lemma ones_sum_complement: "ones_sum (n + (65535 - ones_sum n)) = 65535"
proof -
  have "ones_sum (n + (65535 - ones_sum n)) = ones_sum (ones_sum n + (65535 - ones_sum n))"
    by (simp add: ones_sum_add)
  also have "\<dots> = 65535" using ones_sum_bound [of n] by simp
  finally show ?thesis .
qed

lemma word_sum_append: "even (length xs) \<Longrightarrow> word_sum (xs @ ys) = word_sum xs + word_sum ys"
  by (induction xs rule: word_sum.induct) auto

lemma word_sum_zeros [simp]: "word_sum (replicate n 0) = 0"
proof (induction n rule: less_induct)
  case (less n)
  consider "n = 0" | "n = 1" | m where "n = Suc (Suc m)"
    by (metis One_nat_def not0_implies_Suc)
  then show ?case by cases (use less in auto)
qed

lemma word_sum_pad: "word_sum (xs @ replicate n 0) = word_sum xs"
proof (induction xs rule: word_sum.induct)
  case (2 b)
  then show ?case by (cases n) auto
qed auto

lemma word_sum_bound: "word_sum xs \<le> 65535 * ((length xs + 1) div 2)"
proof (induction xs rule: word_sum.induct)
  case (2 b)
  have "unat b \<le> 255" using unat_u8_bound [of b] by linarith
  then show ?case by simp
next
  case (3 a b bs)
  have "unat a \<le> 255" and "unat b \<le> 255" using unat_u8_bound [of a] unat_u8_bound [of b] by linarith+
  with 3 show ?case by simp
qed simp

lemma word_sum_be_nat:
  "even (length xs) \<Longrightarrow> ones_sum (be_nat xs) = ones_sum (word_sum xs)"
proof -
  assume "even (length xs)"
  then have "be_nat xs mod 65535 = word_sum xs mod 65535 \<and> (be_nat xs = 0 \<longleftrightarrow> word_sum xs = 0)"
  proof (induction xs rule: word_sum.induct)
    case (3 a b bs)
    then obtain k where k: "length bs = 2 * k" by auto
    have p: "(256 :: nat) ^ (2 * k) mod 65535 = 1"
      by (simp add: power_mult power_mod [symmetric, of "65536 :: nat"])
    have e: "be_nat (a # b # bs) = 256 ^ (2 * k) * (256 * unat a + unat b) + be_nat bs"
      by (simp add: be_nat_Cons k algebra_simps)
    have "be_nat (a # b # bs) mod 65535 = (256 * unat a + unat b + be_nat bs) mod 65535"
      unfolding e using p by (metis mod_add_left_eq mod_mult_left_eq mult_1)
    also have "\<dots> = (256 * unat a + unat b + word_sum bs) mod 65535"
      using 3 by (metis even_Suc length_Cons mod_add_right_eq)
    finally show ?case using 3 by (auto simp: e)
  qed auto
  then show ?thesis by (simp add: ones_sum_eq_iff)
qed

section \<open>The contract of a checksum routine\<close>

text \<open>
  What the protocols rely on: on the data it accepts, a routine returns the complement of
  the one's complement sum.
\<close>

locale inet_checksum =
  fixes cksum :: "bytes \<Rightarrow> u16"
    and accepts :: "bytes \<Rightarrow> bool"
  assumes cksum_ones: "accepts data \<Longrightarrow> unat (cksum data) = 65535 - ones_sum (word_sum data)"
begin

text \<open>The result depends on the sum of the words only, so not on their order.\<close>

lemma cksum_sum_cong:
  "accepts xs \<Longrightarrow> accepts ys \<Longrightarrow> word_sum xs = word_sum ys \<Longrightarrow> cksum xs = cksum ys"
  by (metis cksum_ones word_unat_eq_iff)

lemma cksum_zero_iff: "accepts data \<Longrightarrow> cksum data = 0 \<longleftrightarrow> ones_sum (word_sum data) = 65535"
  using ones_sum_bound [of "word_sum data"] cksum_ones [of data]
  by (auto simp: unat_eq_0 [symmetric])

text \<open>Data with its checksum stored in a zeroed word at an even offset sums to zero.\<close>

lemma cksum_embedded:
  assumes even: "even (length pre)"
    and acc: "accepts (pre @ [0, 0] @ post)"
      "accepts (pre @ u16_to_be_bytes (cksum (pre @ [0, 0] @ post)) @ post)"
  shows "cksum (pre @ u16_to_be_bytes (cksum (pre @ [0, 0] @ post)) @ post) = 0"
proof -
  let ?c = "cksum (pre @ [0, 0] @ post)"
  have f: "word_sum (u16_to_be_bytes w @ ys) = unat w + word_sum ys" for w ys
  proof -
    obtain a b where ab: "u16_to_be_bytes w = [a, b]"
      using iffD1 [OF length_eq_2_conv length_u16_to_be_bytes [of w]] by blast
    moreover have "unat w = 256 * unat a + unat b"
      using be_nat_u16 [of w] by (simp add: ab be_nat_def)
    ultimately show ?thesis by simp
  qed
  have z: "word_sum (pre @ [0, 0] @ post) = word_sum pre + word_sum post"
    using even by (simp add: word_sum_append)
  have "word_sum (pre @ u16_to_be_bytes ?c @ post) = word_sum pre + word_sum post + unat ?c"
    using even by (simp add: word_sum_append f)
  then show ?thesis
    using acc ones_sum_complement [of "word_sum pre + word_sum post"] z
    by (simp add: cksum_zero_iff cksum_ones)
qed

text \<open>So does data whose computed checksum is 0 when the other zero, 0xFFFF, is stored for it.\<close>

lemma cksum_embedded_ffff:
  assumes even: "even (length pre)"
    and acc: "accepts (pre @ [0, 0] @ post)" "accepts (pre @ u16_to_be_bytes 0xFFFF @ post)"
    and zero: "cksum (pre @ [0, 0] @ post) = 0"
  shows "cksum (pre @ u16_to_be_bytes 0xFFFF @ post) = 0"
proof -
  have f: "u16_to_be_bytes 0xFFFF = [0xFF, 0xFF]"
    using u16_to_from_be [of "[0xFF, 0xFF]"] by (simp add: u16_from_be_bytes_def be_nat_def)
  let ?s = "word_sum pre + word_sum post"
  have z: "word_sum (pre @ [0, 0] @ post) = ?s" and "word_sum (pre @ u16_to_be_bytes 0xFFFF @ post) = ?s + 65535"
    using even by (simp_all add: word_sum_append f)
  moreover have "ones_sum ?s = 65535"
    using zero acc(1) z by (simp add: cksum_zero_iff)
  then have "ones_sum (?s + 65535) = 65535"
  proof -
    have "?s \<noteq> 0" "(?s - 1) mod 65535 = 65534"
      using \<open>ones_sum ?s = 65535\<close> by (auto simp: ones_sum_def split: if_splits)
    moreover have "?s + 65535 - 1 = (?s - 1) + 65535" using \<open>?s \<noteq> 0\<close> by simp
    moreover have "((?s - 1) + 65535) mod 65535 = (?s - 1) mod 65535" by (rule mod_add_self2)
    ultimately have "(?s + 65535 - 1) mod 65535 = 65534" by (simp only:)
    then show ?thesis by (simp only: ones_sum_def) simp
  qed
  ultimately show ?thesis using acc(2) by (simp add: cksum_zero_iff)
qed

text \<open>
  Replacing one 16-bit word is detected unless the two words are the two representations
  of zero, 0x0000 and 0xFFFF.
\<close>

lemma cksum_detects:
  assumes "even (length pre)" and "length w = 2" and "length w' = 2"
    and "accepts (pre @ w @ post)" and "accepts (pre @ w' @ post)"
    and "be_nat w mod 65535 \<noteq> be_nat w' mod 65535"
  shows "cksum (pre @ w @ post) \<noteq> cksum (pre @ w' @ post)"
proof
  assume eq: "cksum (pre @ w @ post) = cksum (pre @ w' @ post)"
  have s: "word_sum (pre @ v @ post) = be_nat v + (word_sum pre + word_sum post)"
    if v: "length v = 2" for v
  proof -
    obtain a b where "v = [a, b]" using v by (auto simp: length_eq_2_conv)
    then show ?thesis using assms(1) by (simp add: word_sum_append be_nat_def)
  qed
  have "ones_sum (word_sum (pre @ w @ post)) = ones_sum (word_sum (pre @ w' @ post))"
    using cksum_ones [OF assms(4)] cksum_ones [OF assms(5)] eq
      ones_sum_bound [of "word_sum (pre @ w @ post)"] ones_sum_bound [of "word_sum (pre @ w' @ post)"]
    by (metis diff_diff_cancel)
  then have "(be_nat w + (word_sum pre + word_sum post)) mod 65535 =
      (be_nat w' + (word_sum pre + word_sum post)) mod 65535"
    by (simp add: ones_sum_eq_iff s assms(2,3))
  then have "be_nat w mod 65535 = be_nat w' mod 65535"
    by (simp only: mod_add_cancel)
  with assms(6) show False by simp
qed

end

section \<open>The production routine meets the contract\<close>

lemma ucast_not_u128: "x \<le> 0xFFFF \<Longrightarrow> unat (ucast (NOT x) :: u16) = 65535 - unat (x :: u128)"
proof -
  assume "x \<le> 0xFFFF"
  then have u: "unat x \<le> 65535" by (simp add: word_le_nat_alt)
  have "ucast (NOT x) = NOT (ucast x :: u16)"
    by (rule bit_word_eqI) (simp add: bit_simps)
  also have "\<dots> = - 1 - ucast x" by (simp add: not_eq_complement)
  finally have "unat (ucast (NOT x) :: u16) = unat (- 1 - ucast x :: u16)" by simp
  also have "\<dots> = unat (- 1 :: u16) - unat (ucast x :: u16)"
    by (rule unat_sub) simp
  also have "unat (ucast x :: u16) = unat x"
    using u by (intro unat_ucast_small) simp
  also have "unat (- 1 :: u16) = 65535" by (simp add: unsigned_minus_1_eq_mask mask_eq_exp_minus_1)
  finally show ?thesis .
qed

lemma unat_fold_and_flip: "unat (fold_and_flip x) = 65535 - ones_sum (unat x)"
proof (induction x rule: fold_and_flip.induct)
  case (1 x)
  show ?case
  proof (cases "x > 0xFFFF")
    case True
    then show ?thesis
      using 1 by (subst fold_and_flip.simps) (simp add: unat_fold_lanes ones_sum_fold)
  next
    case False
    then have "x \<le> 0xFFFF" by simp
    moreover from this have "unat x \<le> 65535" by (simp add: word_le_nat_alt)
    ultimately show ?thesis
      using False by (subst fold_and_flip.simps) (simp add: ucast_not_u128)
  qed
qed

lemma length_pad_remainder [simp]: "length (pad_remainder r) = 8"
  by (simp add: pad_remainder_def)

lemma pad_remainder_eq: "length r \<le> 8 \<Longrightarrow> pad_remainder r = r @ replicate (8 - length r) 0"
  by (rule nth_equalityI) (auto simp: pad_remainder_def nth_append)

lemma as_chunks_lengths:
  assumes n: "0 < n"
  shows "(\<forall>c \<in> set (fst (as_chunks n xs)). length c = n) \<and> length (snd (as_chunks n xs)) < n \<and>
     length (fst (as_chunks n xs)) = length xs div n"
  using n
proof (induction xs rule: chunk_induct)
  case (chunk c xs)
  from chunk(1) have "length (c @ xs) = n + length xs" by simp
  then have "length (c @ xs) div n = Suc (length xs div n)"
    using n div_add_self1 [of n "length xs"] by simp
  with chunk n show ?case by (auto simp: as_chunks_step)
qed simp

lemma word_sum_chunks:
  assumes n: "0 < n" "even n"
  shows "word_sum xs = word_sum (snd (as_chunks n xs)) + sum_list (map word_sum (fst (as_chunks n xs)))"
  using n(1)
proof (induction xs rule: chunk_induct)
  case (chunk c xs)
  then show ?case using n as_chunks_step [of n c xs] by (simp add: word_sum_append)
qed simp

lemma unat_accumulate:
  fixes acc :: u128
  assumes "\<forall>c \<in> set cs. length c = 8" and "unat acc + length cs * 2 ^ 64 < 2 ^ 128"
  shows "unat (foldl (\<lambda>acc chunk. acc + ucast (u64_from_be_bytes chunk)) acc cs)
    = unat acc + sum_list (map be_nat cs)"
  using assms
proof (induction cs arbitrary: acc)
  case (Cons c cs)
  let ?w = "ucast (u64_from_be_bytes c) :: u128"
  have b: "be_nat c < 2 ^ 64" using be_nat_bound [of c] Cons.prems(1) by simp
  have w: "unat ?w = be_nat c"
    using Cons.prems(1) b by (subst unat_ucast_small) (simp_all add: unat_u64_from_be)
  have "unat (acc + ?w) = unat acc + be_nat c"
    using Cons.prems(2) b w by (subst unat_add_small) auto
  then show ?case using Cons b by auto
qed simp

lemma ones_sum_sum_list:
  "\<forall>x \<in> set xs. ones_sum (f x) = ones_sum (g x) \<Longrightarrow>
   ones_sum (a + sum_list (map f xs)) = ones_sum (a + sum_list (map g xs))"
proof (induction xs arbitrary: a)
  case (Cons x xs)
  have "ones_sum (a + (f x + sum_list (map f xs))) = ones_sum ((a + f x) + sum_list (map g xs))"
    using Cons by (simp add: add.assoc [symmetric])
  also have "\<dots> = ones_sum (ones_sum (f x) + (a + sum_list (map g xs)))"
    by (subst ones_sum_add) (simp add: ac_simps)
  also have "\<dots> = ones_sum (ones_sum (g x) + (a + sum_list (map g xs)))"
    using Cons.prems by simp
  also have "\<dots> = ones_sum (a + (g x + sum_list (map g xs)))"
    by (subst ones_sum_add) (simp add: ac_simps)
  finally show ?case by simp
qed simp

lemma calculate_ones:
  assumes "length data \<le> isize_max"
  shows "unat (calculate data) = 65535 - ones_sum (word_sum data)"
proof -
  obtain groups rest where gr: "as_chunks 8 data = (groups, rest)" by fastforce
  have len: "\<forall>c \<in> set groups. length c = 8" "length rest < 8" "length groups = length data div 8"
    using as_chunks_lengths [of 8 data] by (simp_all add: gr)
  let ?p = "u64_from_be_bytes (pad_remainder rest)"
  have p: "unat (ucast ?p :: u128) = be_nat (pad_remainder rest)"
    using be_nat_bound [of "pad_remainder rest"]
    by (subst unat_ucast_small) (simp_all add: unat_u64_from_be)
  have pb: "be_nat (pad_remainder rest) < 2 ^ 64"
    using be_nat_bound [of "pad_remainder rest"] by simp
  have s: "unat (foldl (\<lambda>acc chunk. acc + ucast (u64_from_be_bytes chunk)) (ucast ?p :: u128) groups)
      = be_nat (pad_remainder rest) + sum_list (map be_nat groups)"
    using len assms pb by (subst unat_accumulate) (auto simp: p)
  have r: "ones_sum (be_nat (pad_remainder rest)) = ones_sum (word_sum rest)"
    using len(2) word_sum_be_nat [of "pad_remainder rest"]
    by (simp add: pad_remainder_eq word_sum_pad)
  have "ones_sum (be_nat (pad_remainder rest) + sum_list (map be_nat groups))
      = ones_sum (be_nat (pad_remainder rest) + sum_list (map word_sum groups))"
    using len(1) by (intro ones_sum_sum_list) (simp add: word_sum_be_nat)
  also have "\<dots> = ones_sum (word_sum rest + sum_list (map word_sum groups))"
    by (metis ones_sum_add r)
  also have "\<dots> = ones_sum (word_sum data)"
    using word_sum_chunks [of 8 data] by (simp add: gr)
  finally show ?thesis
    unfolding calculate_def Let_def gr prod.case unat_fold_and_flip s by simp
qed

interpretation production: inet_checksum calculate "\<lambda>data. length data \<le> isize_max"
  by unfold_locales (rule calculate_ones)

section \<open>The comparison routines meet it too\<close>

lemma unat_not_u16: "unat (NOT (w :: u16)) = 65535 - unat w"
proof -
  have "NOT w = - 1 - w" by (simp add: not_eq_complement)
  then have "unat (NOT w) = unat (- 1 - w :: u16)" by (simp only:)
  also have "\<dots> = unat (- 1 :: u16) - unat w" by (rule unat_sub) simp
  also have "unat (- 1 :: u16) = 65535" by (simp add: unsigned_minus_1_eq_mask mask_eq_exp_minus_1)
  finally show ?thesis .
qed

lemma unat_one_carry_fold: "unat (one_carry_fold x) = unat x mod 65536 + unat x div 65536"
proof -
  have m: "unat (x AND 0xFFFF) = unat x mod 65536"
  proof -
    have "x AND 0xFFFF = take_bit 16 x" by (simp add: take_bit_eq_mask mask_eq_exp_minus_1)
    then have "unat (x AND 0xFFFF) = take_bit 16 (unat x)" by (simp add: unsigned_take_bit_eq)
    then show ?thesis by (simp add: take_bit_eq_mod)
  qed
  have d: "unat (drop_bit 16 x) = unat x div 65536"
    by (subst unat_drop_bit_eq) (simp add: drop_bit_eq_div)
  have "unat x mod 65536 + unat x div 65536 \<le> unat x"
    using div_mult_mod_eq [of "unat x" 65536] by linarith
  also have "\<dots> < 2 ^ 32" using unsigned_less [of x] by simp
  finally show ?thesis
    unfolding one_carry_fold_def by (subst unat_add_small) (simp_all add: m d)
qed

lemma fold_once: "n \<le> 131070 \<Longrightarrow> n mod 65536 + n div 65536 \<le> 65535" for n :: nat
proof (cases "n < 65536")
  case False
  then obtain k where "n = 65536 + k" by (metis le_iff_add not_less)
  moreover assume "n \<le> 131070"
  ultimately show ?thesis by simp
qed simp

text \<open>Two folds bring any 32-bit accumulator into 16 bits.\<close>

lemma two_folds: "unat (one_carry_fold (one_carry_fold x)) = ones_sum (unat x)"
proof -
  let ?y = "one_carry_fold x"
  have q: "unat x div 65536 \<le> 65535"
    using unat_u32_bound [of x] by (simp add: less_mult_imp_div_less flip: less_Suc_eq_le)
  have r: "unat x mod 65536 \<le> 65535"
    using mod_less_divisor [of 65536 "unat x"] by linarith
  have y: "unat ?y = unat x mod 65536 + unat x div 65536" by (rule unat_one_carry_fold)
  have "unat (one_carry_fold ?y) \<le> 65535"
    unfolding unat_one_carry_fold [of ?y] by (rule fold_once) (use q r y in linarith)
  moreover have "ones_sum (unat (one_carry_fold ?y)) = ones_sum (unat x)"
    by (simp add: unat_one_carry_fold ones_sum_fold)
  ultimately show ?thesis by simp
qed

lemma unat_finish: "unat (NOT (ucast (one_carry_fold (one_carry_fold s))) :: u16) = 65535 - ones_sum (unat s)"
  using ones_sum_bound [of "unat s"]
  by (simp add: unat_not_u16 two_folds unat_ucast_small)

text \<open>A fold over byte pairs whose steps keep the one's complement sum.\<close>

lemma foldl_ones:
  assumes "\<forall>c \<in> set cs. length c = 2" and "I acc"
    and step: "\<And>acc c. I acc \<Longrightarrow> length c = 2 \<Longrightarrow>
      I (f acc c) \<and> ones_sum (m (f acc c)) = ones_sum (m acc + be_nat c)"
  shows "I (foldl f acc cs) \<and>
    ones_sum (m (foldl f acc cs)) = ones_sum (m acc + sum_list (map be_nat cs))"
  using assms(1,2)
proof (induction cs arbitrary: acc)
  case (Cons c cs)
  have s: "I (f acc c)" "ones_sum (m (f acc c)) = ones_sum (m acc + be_nat c)"
    using Cons.prems step by simp_all
  have "ones_sum (m (f acc c) + sum_list (map be_nat cs))
      = ones_sum (m acc + be_nat c + sum_list (map be_nat cs))"
    by (metis ones_sum_add s(2))
  then show ?case using Cons s by (simp add: add.assoc)
qed simp

lemma word_sum_pairs:
  "length c = 2 \<Longrightarrow> word_sum c = be_nat c"
  by (auto simp: length_eq_2_conv be_nat_def)

lemma pairs_total:
  assumes "as_chunks 2 data = (pairs, od)"
  shows "\<forall>c \<in> set pairs. length c = 2" and "length od < 2"
    and "word_sum od + sum_list (map be_nat pairs) = word_sum data"
proof -
  show l: "\<forall>c \<in> set pairs. length c = 2" and "length od < 2"
    using as_chunks_lengths [of 2 data] by (simp_all add: assms)
  have "sum_list (map be_nat pairs) = sum_list (map word_sum pairs)"
    using l by (intro arg_cong [where f = sum_list] map_cong) (simp_all add: word_sum_pairs)
  then show "word_sum od + sum_list (map be_nat pairs) = word_sum data"
    using word_sum_chunks [of 2 data] by (simp add: assms)
qed

lemma odd_byte_u16:
  "length od < 2 \<Longrightarrow>
   unat (case od of [] \<Rightarrow> 0 | b # _ \<Rightarrow> u16_from_be_bytes [b, 0]) = word_sum od"
  by (cases od) (auto simp: unat_u16_from_be be_nat_def)

lemma odd_byte_u32:
  "length od < 2 \<Longrightarrow>
   unat (case od of [] \<Rightarrow> 0 | b # _ \<Rightarrow> u32_from_be_bytes [0, 0, b, 0]) = word_sum od"
  by (cases od) (auto simp: unat_u32_from_be be_nat_def)

lemma unat_pair_u32: "length c = 2 \<Longrightarrow> unat (u32_from_be_bytes ([0, 0] @ c)) = be_nat c"
  by (auto simp: length_eq_2_conv unat_u32_from_be be_nat_def)

lemma be_nat_pair_bound: "length c = 2 \<Longrightarrow> be_nat c \<le> 65535"
  using be_nat_bound [of c] by simp

lemma always_folded_step:
  assumes "length c = 2"
  defines "w \<equiv> u16_from_be_bytes c"
  shows "ones_sum (unat ((s :: u16) + w + (if unat s + unat w \<ge> 65536 then 1 else 0)))
    = ones_sum (unat s + be_nat c)"
proof -
  have w: "unat w = be_nat c" using assms by (simp add: unat_u16_from_be)
  show ?thesis
  proof (cases "unat s + unat w \<ge> 65536")
    case True
    have lt: "unat s < 65536" "unat w < 65536" by simp_all
    then have u: "unat (s + w) = unat s + unat w - 65536"
      using True lt by (simp add: unat_word_ariths le_mod_geq del: unat_u16_bound)
    have "unat s + unat w - 65536 < 65535" using lt by linarith
    then have "unat (s + w + 1) = unat s + unat w - 65535"
      using True by (subst unat_add_small) (simp_all add: u)
    moreover have "ones_sum (unat s + unat w - 65535) = ones_sum (unat s + unat w)"
    proof -
      define k where "k = unat s + unat w - 65535"
      have "unat s + unat w = k + 65535" and "0 < k" using True by (simp_all add: k_def)
      then show ?thesis by (simp add: ones_sum_eq_iff)
    qed
    ultimately show ?thesis using True by (simp add: w)
  next
    case False
    then show ?thesis by (simp add: w unat_add_small)
  qed
qed

interpretation always_folded: inet_checksum always_folded_cksum "\<lambda>_. True"
proof
  fix data :: bytes
  obtain pairs od where po: "as_chunks 2 data = (pairs, od)" by fastforce
  note facts = pairs_total [OF po]
  let ?s = "foldl (\<lambda>sum byte_pair. sum + u16_from_be_bytes byte_pair +
      (if unat sum + unat (u16_from_be_bytes byte_pair) \<ge> 65536 then 1 else 0))
      (case od of [] \<Rightarrow> 0 | b # _ \<Rightarrow> u16_from_be_bytes [b, 0]) pairs"
  have "True \<and> ones_sum (unat ?s) =
      ones_sum (unat (case od of [] \<Rightarrow> 0 | b # _ \<Rightarrow> u16_from_be_bytes [b, 0]) + sum_list (map be_nat pairs))"
    by (rule foldl_ones [where I = "\<lambda>_. True" and m = unat, OF facts(1) TrueI])
      (simp only: always_folded_step simp_thms)
  then have "ones_sum (unat ?s) = ones_sum (word_sum od + sum_list (map be_nat pairs))"
    by (simp only: odd_byte_u16 [OF facts(2)] simp_thms)
  moreover have "ones_sum (unat ?s) = unat ?s"
    using unat_u16_bound [of ?s] by (intro ones_sum_small) linarith
  ultimately show "unat (always_folded_cksum data) = 65535 - ones_sum (word_sum data)"
    by (simp add: always_folded_cksum_def po Let_def unat_not_u16 facts(3))
qed

lemma range_checked_step:
  assumes "length c = 2" and "s < would_overflow"
  defines "t \<equiv> s + u32_from_be_bytes ([0, 0] @ c)"
  shows "(if t < would_overflow then t else one_carry_fold t) < would_overflow \<and>
    ones_sum (unat (if t < would_overflow then t else one_carry_fold t)) = ones_sum (unat s + be_nat c)"
proof -
  have wo: "unat would_overflow = 4294901761" by (simp add: would_overflow_def)
  have "unat t = unat s + be_nat c"
    using assms(2) be_nat_pair_bound [OF assms(1)] unfolding t_def
    by (subst unat_add_small) (simp_all add: unat_pair_u32 [OF assms(1), simplified] word_less_nat_alt wo)
  moreover have "unat (one_carry_fold t) < unat would_overflow"
  proof -
    have "unat t mod 65536 < 65536" and "unat t div 65536 < 65536"
      using unat_u32_bound [of t] by (simp_all add: less_mult_imp_div_less)
    then show ?thesis by (simp add: unat_one_carry_fold wo)
  qed
  ultimately show ?thesis
    by (simp add: word_less_nat_alt unat_one_carry_fold ones_sum_fold)
qed

interpretation range_checked: inet_checksum range_checked_cksum "\<lambda>_. True"
proof
  fix data :: bytes
  obtain pairs od where po: "as_chunks 2 data = (pairs, od)" by fastforce
  note facts = pairs_total [OF po]
  let ?init = "case od of [] \<Rightarrow> 0 | b # _ \<Rightarrow> u32_from_be_bytes [0, 0, b, 0]"
  let ?f = "\<lambda>sum byte_pair. let s = sum + u32_from_be_bytes ([0, 0] @ byte_pair)
      in if s < would_overflow then s else one_carry_fold s"
  have "word_sum od \<le> 65535" using word_sum_bound [of od] facts(2) by simp
  then have "?init < would_overflow"
    unfolding word_less_nat_alt odd_byte_u32 [OF facts(2)] by (simp add: would_overflow_def)
  then have "ones_sum (unat (foldl ?f ?init pairs))
      = ones_sum (word_sum od + sum_list (map be_nat pairs))"
    using foldl_ones [where I = "\<lambda>s. s < would_overflow" and m = unat and f = ?f and acc = ?init, OF facts(1)]
      range_checked_step
    unfolding Let_def odd_byte_u32 [OF facts(2)] by blast
  then show "unat (range_checked_cksum data) = 65535 - ones_sum (word_sum data)"
    unfolding range_checked_cksum_def po Let_def prod.case unat_finish by (simp add: facts(3))
qed

lemma unat_naive_sum:
  fixes acc :: u32
  assumes "\<forall>c \<in> set cs. length c = 2"
  shows "unat (foldl (\<lambda>sum byte_pair. sum + u32_from_be_bytes ([0, 0] @ byte_pair)) acc cs)
    = (unat acc + sum_list (map be_nat cs)) mod 2 ^ 32"
  using assms
proof (induction cs arbitrary: acc)
  case (Cons c cs)
  have "unat (acc + u32_from_be_bytes ([0, 0] @ c)) = (unat acc + be_nat c) mod 2 ^ 32"
    using Cons.prems by (simp add: unat_word_ariths unat_pair_u32 [simplified])
  with Cons show ?case by (simp add: mod_add_left_eq add.assoc)
qed simp

lemma unat_naive:
  "unat (naive_wrapping_cksum data) = 65535 - ones_sum (word_sum data mod 2 ^ 32)"
proof -
  obtain pairs od where po: "as_chunks 2 data = (pairs, od)" by fastforce
  note facts = pairs_total [OF po]
  show ?thesis
    unfolding naive_wrapping_cksum_def po Let_def prod.case unat_finish unat_naive_sum [OF facts(1)]
    by (simp add: odd_byte_u32 [OF facts(2)] facts(3))
qed

interpretation naive_wrapping:
  inet_checksum naive_wrapping_cksum "\<lambda>data. length data \<le> deferred_carries_max_bytes"
proof
  fix data :: bytes
  assume len: "length data \<le> deferred_carries_max_bytes"
  have "(length data + 1) div 2 \<le> 65537" using len by (simp add: deferred_carries_max_bytes_def)
  then have "word_sum data \<le> 65535 * 65537"
    using word_sum_bound [of data] by (meson le_trans mult_le_mono2)
  then show "unat (naive_wrapping_cksum data) = 65535 - ones_sum (word_sum data)"
    by (simp add: unat_naive)
qed

lemma word_sum_all_ones: "word_sum (replicate (2 * k) 0xFF) = 65535 * k"
  by (induction k) auto

lemma ones_sum_multiple: "0 < k \<Longrightarrow> ones_sum (65535 * k) = 65535"
  by (simp add: ones_sum_eq_iff [of "65535 * k" 65535, simplified])

text \<open>The fold needs at most eight calls from any 128-bit accumulator.\<close>

lemma fold_lanes_bound:
  assumes "unat x \<le> 65536 * q + 65534"
  shows "unat (fold_lanes x) \<le> q + 65534"
proof (cases "unat x div 65536 = q")
  case True
  then have "unat x mod 65536 \<le> 65534"
    using assms div_mult_mod_eq [of "unat x" 65536] by linarith
  with True show ?thesis by (simp add: unat_fold_lanes)
next
  case False
  have "65536 * (unat x div 65536) \<le> 65536 * q + 65534"
    using assms div_mult_mod_eq [of "unat x" 65536] by linarith
  with False have "unat x div 65536 < q" by linarith
  moreover have "unat x mod 65536 \<le> 65535"
    using mod_less_divisor [of 65536 "unat x"] by linarith
  ultimately show ?thesis unfolding unat_fold_lanes by linarith
qed

lemma iterated_fold_bound:
  "k \<le> 8 \<Longrightarrow> unat ((fold_lanes ^^ k) x) \<le> 65536 ^ (8 - k) + 65534"
proof (induction k)
  case 0
  then show ?case using unat_u128_bound [of x] by simp
next
  case (Suc k)
  then have "(65536 :: nat) ^ (8 - k) = 65536 * 65536 ^ (8 - Suc k)"
    by (simp add: Suc_diff_Suc flip: power_Suc)
  with Suc have "unat ((fold_lanes ^^ k) x) \<le> 65536 * 65536 ^ (8 - Suc k) + 65534" by simp
  from fold_lanes_bound [OF this] show ?case by simp
qed

text \<open>The checksum by evaluation: natural-number arithmetic instead of 128-bit words.\<close>

lemma calculate_compute:
  assumes "length data \<le> isize_max"
  shows "calculate data = word_of_nat (65535 - ones_sum (word_sum data))"
  by (simp flip: production.cksum_ones [OF assms])

section \<open>Properties\<close>

text \<open>C30: \<open>calculate\<close> is the RFC 1071 checksum: on every slice a Rust program can hold, its result
  is the one's complement of the one's complement sum of the big-endian 16-bit words, an odd
  last byte padded with zeros; the 128-bit accumulator of 64-bit words never overflows.\<close>

theorem calculate_rfc1071:
  assumes "length data \<le> isize_max"
  shows "unat (calculate data) = 65535 - ones_sum (word_sum data)"
  using assms by (rule production.cksum_ones)

theorem calculate_rfc1071_witness:
  "length [0x12, 0x34, 0x56 :: u8] \<le> isize_max \<and> unat (calculate [0x12, 0x34, 0x56]) = 0x97CB"
  using calculate_rfc1071 [of "[0x12, 0x34, 0x56]"] by (simp add: ones_sum_def)

text \<open>The optimised production routine and the two correct comparison routines compute the same
  function, and so does the naive 32-bit routine up to \<open>DEFERRED_CARRIES_MAX_BYTES\<close> bytes.\<close>

theorem implementations_agree:
  assumes "length data \<le> isize_max"
  shows "calculate data = always_folded_cksum data \<and> calculate data = range_checked_cksum data \<and>
    (length data \<le> deferred_carries_max_bytes \<longrightarrow> calculate data = naive_wrapping_cksum data)"
  using production.cksum_ones [OF assms] always_folded.cksum_ones [of data]
    range_checked.cksum_ones [of data] naive_wrapping.cksum_ones [of data]
  by (auto simp: word_unat_eq_iff)

theorem implementations_agree_witness:
  "length [0x12, 0x34, 0x56 :: u8] \<le> isize_max \<and>
   length [0x12, 0x34, 0x56 :: u8] \<le> deferred_carries_max_bytes \<and>
   calculate [0x12, 0x34, 0x56] = always_folded_cksum [0x12, 0x34, 0x56] \<and>
   calculate [0x12, 0x34, 0x56] = naive_wrapping_cksum [0x12, 0x34, 0x56]"
  using implementations_agree [of "[0x12, 0x34, 0x56]"] by (auto simp: deferred_carries_max_bytes_def)

text \<open>the bound of the naive routine is sharp: on \<open>0xFF\<close> bytes, every even length just above it
  (up to twice the bound) makes its accumulator wrap and the result differ from the checksum.\<close>

theorem naive_wrapping_wraps:
  assumes "1 \<le> j" and "j \<le> 65537"
  shows "unat (naive_wrapping_cksum (replicate (deferred_carries_max_bytes + 2 * j) 0xFF)) = 1 \<and>
    unat (calculate (replicate (deferred_carries_max_bytes + 2 * j) 0xFF)) = 0"
proof -
  have l: "deferred_carries_max_bytes + 2 * j = 2 * (65537 + j)"
    by (simp add: deferred_carries_max_bytes_def)
  obtain i where i: "j = Suc i" using assms(1) by (cases j) auto
  have "65535 * (65537 + j) = (65535 * i + 65534) + 4294967296" by (simp add: i)
  then have "65535 * (65537 + j) mod 4294967296 = (65535 * i + 65534) mod 4294967296"
    by (simp only: mod_add_self2)
  also have "\<dots> = 65535 * i + 65534" using assms(2) i by (intro mod_less) linarith
  finally have m: "65535 * (65537 + j) mod 2 ^ 32 = 65535 * i + 65534" by simp
  have "ones_sum (65535 * i + 65534) = ones_sum 65534"
    unfolding ones_sum_eq_iff by simp
  then have "unat (naive_wrapping_cksum (replicate (2 * (65537 + j)) 0xFF)) = 1"
    by (simp only: unat_naive word_sum_all_ones m) simp
  moreover have "unat (calculate (replicate (2 * (65537 + j)) 0xFF)) = 0"
    using assms production.cksum_ones [of "replicate (2 * (65537 + j)) 0xFF"]
    by (simp only: word_sum_all_ones ones_sum_multiple length_replicate) simp
  ultimately show ?thesis by (simp only: l simp_thms)
qed

theorem naive_wrapping_wraps_witness:
  "(1 :: nat) \<le> 3 \<and> (3 :: nat) \<le> 65537 \<and>
   unat (naive_wrapping_cksum (replicate (deferred_carries_max_bytes + 2 * 3) 0xFF)) = 1"
  using naive_wrapping_wraps [of 3] by simp

text \<open>the recursion of \<open>fold_and_flip\<close> is at most eight calls deep: eight folds bring every
  128-bit value into 16 bits.\<close>

theorem eight_folds_suffice: "unat ((fold_lanes ^^ 8) x) \<le> 65535"
proof -
  have 7: "unat ((fold_lanes ^^ 7) x) \<le> 131070"
    using iterated_fold_bound [of 7 x] by simp
  have "(fold_lanes ^^ 8) x = fold_lanes ((fold_lanes ^^ 7) x)"
    by (simp add: numeral_eq_Suc)
  then show ?thesis using fold_once [OF 7] by (simp only: unat_fold_lanes)
qed

end
