(* ===== verification/Addr_Pairs.thy ===== *)
theory Addr_Pairs
  imports Prelude
begin

text \<open>
  Directions of traffic (\<open>stack/src/direction.rs\<close>), the address and port pairs tagged with them
  (\<open>stack/src/addr_pairs.rs\<close>), and the application hook of the stack
  (\<open>stack/src/application.rs\<close>).

  The marker types \<open>In\<close> and \<open>Out\<close> are types here as well, and a pair carries its direction as
  a phantom type argument, so the model rules out the same mix-ups the Rust types rule out. The
  associated type \<open>D::Rev\<close> has no counterpart in HOL: a definition that reverses a direction
  has it in its type where it is used at a fixed one.
\<close>

datatype dir_in = In
datatype dir_out = Out

section \<open>Addresses\<close>

datatype ipv4_addr = Ipv4Addr u8 u8 u8 u8

fun octets :: "ipv4_addr \<Rightarrow> bytes" where
  "octets (Ipv4Addr a b c d) = [a, b, c, d]"

lemma length_octets [simp, len_simps]: "length (octets a) = 4"
  by (cases a) simp

lemma octets_inject [simp]: "octets a = octets b \<longleftrightarrow> a = b"
  by (cases a; cases b) simp

datatype 'd ipv4_addr_pair = Ipv4AddrPair (ip_src: ipv4_addr) (ip_dst: ipv4_addr)

definition ip_swapped :: "'d ipv4_addr_pair \<Rightarrow> 'r ipv4_addr_pair" where
  "ip_swapped p = Ipv4AddrPair (ip_dst p) (ip_src p)"

datatype 'd port_pair = PortPair (port_src: u16) (port_dst: u16)

definition port_swapped :: "'d port_pair \<Rightarrow> 'r port_pair" where
  "port_swapped p = PortPair (port_dst p) (port_src p)"

lemma ip_swapped_sel [simp]: "ip_src (ip_swapped p) = ip_dst p" "ip_dst (ip_swapped p) = ip_src p"
  by (simp_all add: ip_swapped_def)

lemma port_swapped_sel [simp]:
  "port_src (port_swapped p) = port_dst p" "port_dst (port_swapped p) = port_src p"
  by (simp_all add: port_swapped_def)

lemma ip_swapped_twice [simp]: "ip_swapped (ip_swapped p) = p"
  by (simp add: ip_swapped_def)

lemma port_swapped_twice [simp]: "port_swapped (port_swapped p) = p"
  by (simp add: port_swapped_def)

section \<open>Applications\<close>

text \<open>
  The trait \<open>Application\<close>: two operations on the application's own state. \<open>handle_tcp\<close> is given
  the connection's send buffer only as \<open>impl Extend<u8>\<close>, so all it can do to it is append; the
  model returns the bytes it appends.
\<close>

record 'a application =
  handle_udp :: "'a \<Rightarrow> bytes \<Rightarrow> 'a \<times> bytes"
  handle_tcp :: "'a \<Rightarrow> bytes \<Rightarrow> 'a \<times> bytes"

text \<open>The applications of this crate's tests, \<open>TestApp\<close> and \<open>ShoutingTestApp\<close>.\<close>

definition test_app :: "unit application" where
  "test_app = \<lparr>handle_udp = (\<lambda>_ payload. ((), payload)), handle_tcp = (\<lambda>_ data. ((), data))\<rparr>"

definition shouting_test_app :: "unit application" where
  "shouting_test_app =
     \<lparr>handle_udp = (\<lambda>_ payload. ((), map to_ascii_uppercase payload)),
      handle_tcp = (\<lambda>_ data. ((), map to_ascii_uppercase data))\<rparr>"

end
