(* ===== verification/Utils.thy ===== *)
theory Utils
  imports Prelude
begin

text \<open>
  The crate \<open>typenet-utils\<close>: the error type of the whole program (\<open>error.rs\<close>), the
  fallible addition and slice access used by every encoder (\<open>try_ops.rs\<close>), and reading
  randomness and environment variables (\<open>sys.rs\<close>).

  A fallible function returns \<open>fault + 'a\<close>. \<open>Inl (Err e)\<close> is a Rust \<open>Err(e)\<close>;
  \<open>Inl Panic\<close> is a panic of a standard-library call (\<open>copy_from_slice\<close> on slices of
  different lengths, an index out of bounds), so that "no panicking", a goal the README
  states, is a theorem about the model and not a convention of it. The optional backtrace
  of \<open>TraceableError\<close> is left out: it is only shown by \<open>Debug\<close>.
\<close>

section \<open>Errors\<close>

datatype io_kind = Interrupted | OtherKind

datatype io_error = IoError (io_error_kind: io_kind) (io_error_text: string)

datatype traceable_error_kind =
    Static string
  | Dynamic string
  | Io io_error
  | TryFromInt
  | Fmt

datatype fault = Err traceable_error_kind | Panic

type_synonym 'a result = "fault + 'a"

fun display_error :: "traceable_error_kind \<Rightarrow> string" where
  "display_error (Static s) = s"
| "display_error (Dynamic s) = s"
| "display_error (Io e) = ''I/O error: '' @ io_error_text e"
| "display_error TryFromInt =
     ''Integer conversion error: out of range integral type conversion attempted''"
| "display_error Fmt =
     ''Formatting error: an error occurred when formatting an argument''"

text \<open>The payload of a panicking thread: a \<open>String\<close>, a \<open>&'static str\<close> or anything else.\<close>

datatype panic_payload = PanicString string | PanicStr string | PanicOther

fun thread_panic_msg :: "panic_payload \<Rightarrow> string" where
  "thread_panic_msg (PanicString s) = s"
| "thread_panic_msg (PanicStr s) = s"
| "thread_panic_msg PanicOther = ''<non-string panic payload>''"

section \<open>Sequencing\<close>

text \<open>The \<open>?\<close> operator: stop at the first fault.\<close>

fun and_then :: "'a result \<Rightarrow> ('a \<Rightarrow> 'b result) \<Rightarrow> 'b result" where
  "and_then (Inl e) f = Inl e"
| "and_then (Inr x) f = f x"

text \<open>\<open>Result::map_err\<close>: only an \<open>Err\<close> is mapped, a panic unwinds through it.\<close>

fun map_err :: "(traceable_error_kind \<Rightarrow> traceable_error_kind) \<Rightarrow> 'a result \<Rightarrow> 'a result" where
  "map_err g (Inl (Err e)) = Inl (Err (g e))"
| "map_err g (Inl Panic) = Inl Panic"
| "map_err g (Inr x) = Inr x"

definition ok_or :: "'a option \<Rightarrow> traceable_error_kind \<Rightarrow> 'a result" where
  "ok_or opt e = (case opt of None \<Rightarrow> Inl (Err e) | Some x \<Rightarrow> Inr x)"

lemma and_then_Inr_iff: "and_then r f = Inr y \<longleftrightarrow> (\<exists>x. r = Inr x \<and> f x = Inr y)"
  by (cases r) auto

lemma and_then_Inr_E:
  assumes "and_then r f = Inr y"
  obtains x where "r = Inr x" and "f x = Inr y"
  using assms by (auto simp: and_then_Inr_iff)

lemma and_then_Panic_iff:
  "and_then r f = Inl Panic \<longleftrightarrow> r = Inl Panic \<or> (\<exists>x. r = Inr x \<and> f x = Inl Panic)"
  by (cases r) auto

lemma map_err_Inr_iff [simp]: "map_err g r = Inr x \<longleftrightarrow> r = Inr x"
  by (cases "(g, r)" rule: map_err.cases) auto

lemma ok_or_simps [simp]: "ok_or None e = Inl (Err e)" "ok_or (Some x) e = Inr x"
  by (simp_all add: ok_or_def)

lemma ok_or_Inr_iff [simp]: "ok_or opt e = Inr x \<longleftrightarrow> opt = Some x"
  by (cases opt) auto

text \<open>
  A function that mutates state of type \<open>'s\<close> through a reference and may fail returns the state
  beside the result: what it changed before an error stays changed. \<open>run_then\<close> is \<open>?\<close> for these.
\<close>

type_synonym ('s, 'a) stateful = "'s \<times> 'a result"

fun run_then :: "('s, 'a) stateful \<Rightarrow> ('s \<Rightarrow> 'a \<Rightarrow> ('s, 'b) stateful) \<Rightarrow> ('s, 'b) stateful" where
  "run_then (s, Inl e) f = (s, Inl e)"
| "run_then (s, Inr x) f = f s x"

lemma run_then_cases:
  "run_then r f = (case snd r of Inl e \<Rightarrow> (fst r, Inl e) | Inr x \<Rightarrow> f (fst r) x)"
  by (cases "(r, f)" rule: run_then.cases) auto

section \<open>Decimal formatting\<close>

fun show_nat :: "nat \<Rightarrow> string" where
  "show_nat n = (if n < 10 then [char_of (48 + n)] else show_nat (n div 10) @ [char_of (48 + n mod 10)])"

declare show_nat.simps [simp del]

section \<open>Fallible addition\<close>

definition try_add_u16 :: "u16 \<Rightarrow> u16 \<Rightarrow> u16 result" where
  "try_add_u16 a b =
     (if unat a + unat b < 65536 then Inr (a + b)
      else Inl (Err (Dynamic (''Overflowed `u16` adding '' @ show_nat (unat a) @ '' and '' @ show_nat (unat b)))))"

definition try_add_usize :: "nat \<Rightarrow> nat \<Rightarrow> nat result" where
  "try_add_usize a b =
     (if a + b < usize_limit then Inr (a + b)
      else Inl (Err (Dynamic (''Overflowed `usize` adding '' @ show_nat a @ '' and '' @ show_nat b))))"

text \<open>\<open>u16::try_from(usize)\<close>.\<close>

definition u16_try_from :: "nat \<Rightarrow> u16 result" where
  "u16_try_from n = (if n < 65536 then Inr (word_of_nat n) else Inl (Err TryFromInt))"

lemma try_add_u16_Inr: "try_add_u16 a b = Inr c \<longleftrightarrow> unat a + unat b < 65536 \<and> c = a + b"
  by (auto simp: try_add_u16_def)

lemma try_add_u16_unat: "try_add_u16 a b = Inr c \<Longrightarrow> unat c = unat a + unat b"
  by (auto simp: try_add_u16_Inr unat_add_small)

lemma try_add_usize_Inr: "try_add_usize a b = Inr c \<longleftrightarrow> a + b < usize_limit \<and> c = a + b"
  by (auto simp: try_add_usize_def)

lemma u16_try_from_Inr: "u16_try_from n = Inr w \<longleftrightarrow> n < 65536 \<and> w = word_of_nat n"
  by (auto simp: u16_try_from_def)

lemma u16_try_from_unat: "u16_try_from n = Inr w \<Longrightarrow> unat w = n"
  by (auto simp: u16_try_from_Inr unat_of_nat_small)

section \<open>Fallible slice access\<close>

text \<open>
  \<open>SliceIndex\<close>: the ranges the encoders use, with the text \<open>Debug\<close> prints for them. A
  range denotes a start and an end for a slice of length \<open>n\<close>; it is in bounds when the
  start does not pass the end and the end does not pass \<open>n\<close>.
\<close>

datatype slice_index = Range nat nat | RangeTo nat

fun index_start :: "slice_index \<Rightarrow> nat" where
  "index_start (Range a b) = a"
| "index_start (RangeTo b) = 0"

fun index_end :: "slice_index \<Rightarrow> nat" where
  "index_end (Range a b) = b"
| "index_end (RangeTo b) = b"

fun show_index :: "slice_index \<Rightarrow> string" where
  "show_index (Range a b) = show_nat a @ ''..'' @ show_nat b"
| "show_index (RangeTo b) = ''..'' @ show_nat b"

definition out_of_range :: "string \<Rightarrow> nat \<Rightarrow> traceable_error_kind" where
  "out_of_range idx n =
     Dynamic (''Index '' @ idx @ '' out of range on `[u8]` of length '' @ show_nat n)"

definition in_bounds :: "slice_index \<Rightarrow> bytes \<Rightarrow> bool" where
  "in_bounds i buf \<longleftrightarrow> index_start i \<le> index_end i \<and> index_end i \<le> length buf"

definition try_get :: "bytes \<Rightarrow> slice_index \<Rightarrow> bytes result" where
  "try_get buf i =
     (if in_bounds i buf then Inr (take (index_end i - index_start i) (drop (index_start i) buf))
      else Inl (Err (out_of_range (show_index i) (length buf))))"

text \<open>
  Overwriting part of a buffer. \<open>copy_from_slice\<close> panics when the two lengths differ;
  \<open>buf.try_get_mut(i)?.copy_from_slice(src)\<close> first fails when \<open>i\<close> is out of range, and
  \<open>buf[a..b].copy_from_slice(src)\<close> panics in both cases.
\<close>

definition overwrite :: "bytes \<Rightarrow> nat \<Rightarrow> bytes \<Rightarrow> bytes" where
  "overwrite buf a src = take a buf @ src @ drop (a + length src) buf"

definition try_write :: "slice_index \<Rightarrow> bytes \<Rightarrow> bytes \<Rightarrow> bytes result" where
  "try_write i src buf =
     (if \<not> in_bounds i buf then Inl (Err (out_of_range (show_index i) (length buf)))
      else if length src \<noteq> index_end i - index_start i then Inl Panic
      else Inr (overwrite buf (index_start i) src))"

text \<open>\<open>*buf.try_get_mut(i)? = b\<close>.\<close>

definition try_write_byte :: "nat \<Rightarrow> u8 \<Rightarrow> bytes \<Rightarrow> bytes result" where
  "try_write_byte i b buf =
     (if i < length buf then Inr (buf[i := b])
      else Inl (Err (out_of_range (show_nat i) (length buf))))"

definition index_write :: "nat \<Rightarrow> nat \<Rightarrow> bytes \<Rightarrow> bytes \<Rightarrow> bytes result" where
  "index_write a b src buf =
     (if a \<le> b \<and> b \<le> length buf \<and> length src = b - a then Inr (overwrite buf a src) else Inl Panic)"

definition index_write_byte :: "nat \<Rightarrow> u8 \<Rightarrow> bytes \<Rightarrow> bytes result" where
  "index_write_byte i b buf = (if i < length buf then Inr (buf[i := b]) else Inl Panic)"

lemma try_get_Inr:
  "try_get buf i = Inr xs \<longleftrightarrow>
     in_bounds i buf \<and> xs = take (index_end i - index_start i) (drop (index_start i) buf)"
  by (auto simp: try_get_def)

lemma length_overwrite [simp]: "a + length src \<le> length buf \<Longrightarrow> length (overwrite buf a src) = length buf"
  by (simp add: overwrite_def)

lemma nth_overwrite:
  "a + length src \<le> length buf \<Longrightarrow> k < length buf \<Longrightarrow>
   overwrite buf a src ! k = (if a \<le> k \<and> k < a + length src then src ! (k - a) else buf ! k)"
  by (auto simp: overwrite_def nth_append min_def)

lemma overwrite_slice:
  "a + length src \<le> length buf \<Longrightarrow> take (length src) (drop a (overwrite buf a src)) = src"
  by (simp add: overwrite_def)

lemma drop_overwrite:
  "a + length src \<le> n \<Longrightarrow> n \<le> length buf \<Longrightarrow> drop n (overwrite buf a src) = drop n buf"
  by (simp add: overwrite_def)

lemma byte_as_overwrite: "i < length buf \<Longrightarrow> buf[i := b] = overwrite buf i [b]"
  by (simp add: overwrite_def upd_conv_take_nth_drop)

lemma try_write_fits:
  "index_start i \<le> index_end i \<Longrightarrow> index_end i \<le> length buf \<Longrightarrow>
   length src = index_end i - index_start i \<Longrightarrow>
   try_write i src buf = Inr (overwrite buf (index_start i) src)"
  by (simp add: try_write_def in_bounds_def)

lemma try_write_byte_fits: "i < length buf \<Longrightarrow> try_write_byte i b buf = Inr (overwrite buf i [b])"
  by (simp add: try_write_byte_def byte_as_overwrite)

lemma index_write_fits:
  "a \<le> b \<Longrightarrow> b \<le> length buf \<Longrightarrow> length src = b - a \<Longrightarrow>
   index_write a b src buf = Inr (overwrite buf a src)"
  by (simp add: index_write_def)

lemma index_write_byte_fits: "i < length buf \<Longrightarrow> index_write_byte i b buf = Inr (overwrite buf i [b])"
  by (simp add: index_write_byte_def byte_as_overwrite)

text \<open>
  A header is written front to back: once the first \<open>a\<close> bytes are known, a write at \<open>a\<close>
  extends the known prefix, a field that is skipped keeps its old bytes, and a field inside the
  prefix is replaced.
\<close>

lemma overwrite_extend:
  "length known = a \<Longrightarrow> a + length src \<le> length buf \<Longrightarrow>
   overwrite (known @ drop a buf) a src = (known @ src) @ drop (a + length src) buf"
  by (simp add: overwrite_def add.commute)

lemma overwrite_first: "length src \<le> length buf \<Longrightarrow> overwrite buf 0 src = src @ drop (length src) buf"
  by (simp add: overwrite_def)

lemma overwrite_within:
  "length pre = a \<Longrightarrow> length old = length src \<Longrightarrow> overwrite (pre @ old @ post) a src = pre @ src @ post"
  by (simp add: overwrite_def)

lemma drop_split_skip: "drop a buf = take k (drop a buf) @ drop (a + k) buf"
  by (metis add.commute append_take_drop_id drop_drop)

lemmas write_fits = try_write_fits try_write_byte_fits index_write_fits index_write_byte_fits

text \<open>A buffer whose first bytes are known, and the writes that extend or revise them.\<close>

definition patched :: "bytes \<Rightarrow> bytes \<Rightarrow> bytes" where
  "patched known buf = known @ drop (length known) buf"

named_theorems patch_simps \<open>writes into a buffer with a known prefix\<close>

lemma patched_Nil: "patched [] buf = buf"
  by (simp add: patched_def)

lemma length_patched: "length known \<le> length buf \<Longrightarrow> length (patched known buf) = length buf"
  by (simp add: patched_def)

lemma take_patched [patch_simps]: "length known = n \<Longrightarrow> take n (patched known buf) = known"
  by (simp add: patched_def)

lemma try_get_patched [patch_simps]:
  "length known = n \<Longrightarrow> n \<le> length buf \<Longrightarrow> try_get (patched known buf) (RangeTo n) = Inr known"
  by (simp add: try_get_def in_bounds_def patched_def)

lemma patched_extend:
  "length known = a \<Longrightarrow> a + length src \<le> length buf \<Longrightarrow>
   overwrite (patched known buf) a src = patched (known @ src) buf"
  using overwrite_extend [of known a src buf] by (simp add: patched_def)

lemma patched_skip: "length known + k \<le> length buf \<Longrightarrow>
  patched known buf = patched (known @ take k (drop (length known) buf)) buf"
  using drop_split_skip [of "length known" buf k] by (simp add: patched_def)

lemma try_write_patched [patch_simps]:
  "length known = a \<Longrightarrow> a \<le> b \<Longrightarrow> b \<le> length buf \<Longrightarrow> length src = b - a \<Longrightarrow>
   try_write (Range a b) src (patched known buf) = Inr (patched (known @ src) buf)"
  by (simp add: try_write_fits length_patched patched_extend)

lemma try_write_to_patched [patch_simps]:
  "b \<le> length buf \<Longrightarrow> length src = b \<Longrightarrow>
   try_write (RangeTo b) src (patched [] buf) = Inr (patched src buf)"
  by (simp add: try_write_fits length_patched patched_extend)

lemma try_write_patched_oob [patch_simps]:
  "length known \<le> length buf \<Longrightarrow> length buf < b \<Longrightarrow>
   try_write (Range a b) src (patched known buf) = Inl (Err (out_of_range (show_index (Range a b)) (length buf)))"
  by (simp add: try_write_def in_bounds_def length_patched)

lemma try_write_to_patched_oob [patch_simps]:
  "length buf < b \<Longrightarrow>
   try_write (RangeTo b) src (patched [] buf) = Inl (Err (out_of_range (show_index (RangeTo b)) (length buf)))"
  by (simp add: try_write_def in_bounds_def length_patched)

lemma try_write_byte_patched_oob [patch_simps]:
  "length known \<le> length buf \<Longrightarrow> length buf \<le> a \<Longrightarrow>
   try_write_byte a b (patched known buf) = Inl (Err (out_of_range (show_nat a) (length buf)))"
  by (simp add: try_write_byte_def length_patched)

lemma try_write_byte_patched [patch_simps]:
  "length known = a \<Longrightarrow> a < length buf \<Longrightarrow>
   try_write_byte a b (patched known buf) = Inr (patched (known @ [b]) buf)"
  by (simp add: try_write_byte_fits length_patched patched_extend)

lemma index_write_patched [patch_simps]:
  "length known = a \<Longrightarrow> a \<le> b \<Longrightarrow> b \<le> length buf \<Longrightarrow> length src = b - a \<Longrightarrow>
   index_write a b src (patched known buf) = Inr (patched (known @ src) buf)"
  by (simp add: index_write_fits length_patched patched_extend)

lemma index_write_byte_patched [patch_simps]:
  "length known = a \<Longrightarrow> a < length buf \<Longrightarrow>
   index_write_byte a b (patched known buf) = Inr (patched (known @ [b]) buf)"
  by (simp add: index_write_byte_fits length_patched patched_extend)

lemma overwrite_patched:
  "length pre = a \<Longrightarrow> length old = length src \<Longrightarrow>
   overwrite (patched (pre @ old @ post) buf) a src = patched (pre @ src @ post) buf"
  using overwrite_within [of pre a old src "post @ drop (length (pre @ src @ post)) buf"]
  by (simp add: patched_def)

lemma try_rewrite_patched:
  "length pre = a \<Longrightarrow> length old = length src \<Longrightarrow> length src = b - a \<Longrightarrow> a \<le> b \<Longrightarrow>
   length (pre @ old @ post) \<le> length buf \<Longrightarrow>
   try_write (Range a b) src (patched (pre @ old @ post) buf) = Inr (patched (pre @ src @ post) buf)"
  by (simp add: try_write_fits length_patched overwrite_patched)

lemma index_rewrite_patched:
  "length pre = a \<Longrightarrow> length old = length src \<Longrightarrow> length src = b - a \<Longrightarrow> a \<le> b \<Longrightarrow>
   length (pre @ old @ post) \<le> length buf \<Longrightarrow>
   index_write a b src (patched (pre @ old @ post) buf) = Inr (patched (pre @ src @ post) buf)"
  by (simp add: index_write_fits length_patched overwrite_patched)

section \<open>Randomness and the environment\<close>

text \<open>
  The four bytes read from \<open>/dev/urandom\<close>, or the error of opening or reading it, are a
  parameter; \<open>from_ne_bytes\<close> is little-endian on the supported targets.
\<close>

definition random_u32 :: "io_error + bytes \<Rightarrow> u32 result" where
  "random_u32 urandom =
     (case urandom of Inl e \<Rightarrow> Inl (Err (Io e)) | Inr buf \<Rightarrow> Inr (u32_from_be_bytes (rev buf)))"

datatype env_var = NotPresent | NotUnicode | Present string

definition parse_env :: "string \<Rightarrow> string \<Rightarrow> (string \<Rightarrow> string + 'a) \<Rightarrow> env_var \<Rightarrow> 'a option result" where
  "parse_env key tname parse v =
     (case v of
        NotPresent \<Rightarrow> Inr None
      | NotUnicode \<Rightarrow>
          Inl (Err (Dynamic (''Environment variable '' @ key @ '' present but not valid Unicode'')))
      | Present val \<Rightarrow>
          (case parse val of
             Inl e \<Rightarrow>
               Inl (Err (Dynamic (''Environment variable '' @ key @
                 '' present but could not be parsed as '' @ tname @ '': '' @ e)))
           | Inr x \<Rightarrow> Inr (Some x)))"

end
