(* ===== verification/Protocol.thy ===== *)
theory Protocol
  imports Addr_Pairs Utils Checksum
begin

text \<open>
  \<open>stack/src/protocol.rs\<close>: the supported protocols, the checksum of the TCP/UDP pseudo-header
  followed by a segment, and the trait \<open>Encode\<close>, whose contract is the locale \<open>encode\<close>.
\<close>

abbreviation (input) ethernet_mtu :: nat where "ethernet_mtu \<equiv> 1500"

datatype protocol = Icmp | Tcp | Udp

fun protocol_to_u8 :: "protocol \<Rightarrow> u8" where
  "protocol_to_u8 Icmp = 1"
| "protocol_to_u8 Tcp = 6"
| "protocol_to_u8 Udp = 17"

definition protocol_try_from :: "u8 \<Rightarrow> protocol result" where
  "protocol_try_from value =
     (if value = 1 then Inr Icmp
      else if value = 6 then Inr Tcp
      else if value = 17 then Inr Udp
      else Inl (Err (Dynamic (''Unsupported protocol '' @ show_nat (unat value)))))"

lemma protocol_roundtrip [simp]: "protocol_try_from (protocol_to_u8 p) = Inr p"
  by (cases p) (simp_all add: protocol_try_from_def)

lemma protocol_try_from_Inr: "protocol_try_from b = Inr p \<longleftrightarrow> b = protocol_to_u8 p"
  by (cases p) (auto simp: protocol_try_from_def)

section \<open>The pseudo-header checksum\<close>

abbreviation (input) pseudo_hdr_len :: nat where "pseudo_hdr_len \<equiv> 12"

definition pseudo_hdr_cksum :: "bytes \<Rightarrow> 'd ipv4_addr_pair \<Rightarrow> protocol \<Rightarrow> u16 result" where
  "pseudo_hdr_cksum data ip_pair protocol =
     and_then (u16_try_from (length data)) (\<lambda>proto_len.
     let cksum_len = pseudo_hdr_len + unat proto_len in
     and_then (index_write 0 4 (octets (ip_src ip_pair)) (replicate (pseudo_hdr_len + ethernet_mtu) 0)) (\<lambda>b.
     and_then (index_write 4 8 (octets (ip_dst ip_pair)) b) (\<lambda>b.
     and_then (index_write_byte 9 (protocol_to_u8 protocol) b) (\<lambda>b.
     and_then (index_write 10 12 (u16_to_be_bytes proto_len) b) (\<lambda>b.
     and_then (try_write (Range pseudo_hdr_len cksum_len) data b) (\<lambda>b.
     and_then (try_get b (RangeTo cksum_len)) (\<lambda>d.
     Inr (calculate d))))))))"

text \<open>The twelve bytes of the pseudo-header.\<close>

definition pseudo_header :: "'d ipv4_addr_pair \<Rightarrow> protocol \<Rightarrow> nat \<Rightarrow> bytes" where
  "pseudo_header ip_pair protocol n =
     octets (ip_src ip_pair) @ octets (ip_dst ip_pair) @ [0, protocol_to_u8 protocol] @
     u16_to_be_bytes (word_of_nat n)"

lemma length_pseudo_header [simp]: "length (pseudo_header ip p n) = 12"
  by (simp add: pseudo_header_def)

lemma pseudo_hdr_cksum_unfold:
  assumes "length data < 65536"
  shows "pseudo_hdr_cksum data ip p =
    and_then (try_write (Range 12 (12 + length data)) data
        (pseudo_header ip p (length data) @ replicate ethernet_mtu 0)) (\<lambda>b.
    and_then (try_get b (RangeTo (12 + length data))) (\<lambda>d. Inr (calculate d)))"
proof -
  define z where "z = replicate (pseudo_hdr_len + ethernet_mtu) (0 :: u8)"
  have z: "length z = 1512" "take 1 (drop 8 z) = [0]" "drop 12 z = replicate 1500 0"
    by (simp_all add: z_def)
  define w :: u16 where "w = word_of_nat (length data)"
  have w: "u16_try_from (length data) = Inr w" "unat w = length data"
    using assms by (simp_all add: u16_try_from_def w_def unat_of_nat_small)
  let ?o = "octets (ip_src ip) @ octets (ip_dst ip)"
  have gap: "?o @ drop 8 z = (?o @ [0]) @ drop 9 z"
    using drop_split_skip [of 8 z 1] z by simp
  have "index_write 0 4 (octets (ip_src ip)) z = Inr (octets (ip_src ip) @ drop 4 z)"
    by (simp add: write_fits z overwrite_first)
  moreover have "index_write 4 8 (octets (ip_dst ip)) (octets (ip_src ip) @ drop 4 z) = Inr (?o @ drop 8 z)"
    by (simp add: write_fits z overwrite_extend)
  moreover have "index_write_byte 9 b (?o @ drop 8 z) = Inr ((?o @ [0, b]) @ drop 10 z)" for b
    using overwrite_extend [of "?o @ [0]" 9 "[b]" z] z unfolding gap
    by (subst write_fits) simp_all
  moreover have "index_write 10 12 (u16_to_be_bytes w) ((?o @ [0, b]) @ drop 10 z)
      = Inr ((?o @ [0, b] @ u16_to_be_bytes w) @ drop 12 z)" for b
    using overwrite_extend [of "?o @ [0, b]" 10 "u16_to_be_bytes w" z] z
    by (subst write_fits) simp_all
  ultimately show ?thesis
    unfolding pseudo_hdr_cksum_def z_def [symmetric]
    by (simp add: w Let_def pseudo_header_def w_def [symmetric] z)
qed

lemma pseudo_hdr_cksum_fits:
  assumes "length data \<le> ethernet_mtu"
  shows "pseudo_hdr_cksum data ip p = Inr (calculate (pseudo_header ip p (length data) @ data))"
proof -
  let ?z = "replicate ethernet_mtu (0 :: u8)"
  have "try_write (Range 12 (12 + length data)) data (h @ ?z) = Inr ((h @ data) @ drop (length data) ?z)"
    if "length h = 12" for h
    using assms that overwrite_extend [of h 12 data "h @ ?z"] by (simp add: write_fits)
  moreover have "try_get ((h @ data) @ r) (RangeTo (12 + length data)) = Inr (h @ data)"
    if "length h = 12" for h r
    using that by (simp add: try_get_def in_bounds_def)
  ultimately show ?thesis
    using assms by (simp add: pseudo_hdr_cksum_unfold)
qed

lemma pseudo_hdr_cksum_too_long:
  assumes "ethernet_mtu < length data"
  shows "\<exists>e. pseudo_hdr_cksum data ip p = Inl (Err e)"
proof (cases "length data < 65536")
  case True
  with assms show ?thesis
    by (simp add: pseudo_hdr_cksum_unfold try_write_def in_bounds_def)
qed (simp add: pseudo_hdr_cksum_def u16_try_from_def)

text \<open>
  What a sender stores verifies at the receiver: the checksum field sits at an even offset of the
  data, is zero while the checksum is computed, and either the result or, for UDP, its other
  representation of zero is stored.
\<close>

lemma pseudo_cksum_verifies:
  fixes ip :: "'d ipv4_addr_pair" and ip' :: "'e ipv4_addr_pair"
  assumes "even (length pre)" and "length (pre @ [0, 0] @ post) \<le> ethernet_mtu"
    and "pseudo_header ip' p (length (pre @ [0, 0] @ post)) = pseudo_header ip p (length (pre @ [0, 0] @ post))"
    and "c = calculate (pseudo_header ip p (length (pre @ [0, 0] @ post)) @ pre @ [0, 0] @ post)"
  shows "pseudo_hdr_cksum (pre @ u16_to_be_bytes c @ post) ip' p = Inr 0"
proof -
  let ?h = "pseudo_header ip p (length (pre @ [0, 0] @ post))"
  have "calculate ((?h @ pre) @ u16_to_be_bytes (calculate ((?h @ pre) @ [0, 0] @ post)) @ post) = 0"
    using assms(1,2) by (intro production.cksum_embedded) simp_all
  then show ?thesis
    using assms by (simp add: pseudo_hdr_cksum_fits)
qed

lemma pseudo_cksum_verifies_ffff:
  fixes ip :: "'d ipv4_addr_pair" and ip' :: "'e ipv4_addr_pair"
  assumes "even (length pre)" and "length (pre @ [0, 0] @ post) \<le> ethernet_mtu"
    and "pseudo_header ip' p (length (pre @ [0, 0] @ post)) = pseudo_header ip p (length (pre @ [0, 0] @ post))"
    and "calculate (pseudo_header ip p (length (pre @ [0, 0] @ post)) @ pre @ [0, 0] @ post) = 0"
  shows "pseudo_hdr_cksum (pre @ u16_to_be_bytes 0xFFFF @ post) ip' p = Inr 0"
proof -
  let ?h = "pseudo_header ip p (length (pre @ [0, 0] @ post))"
  have "calculate ((?h @ pre) @ u16_to_be_bytes 0xFFFF @ post) = 0"
    using assms by (intro production.cksum_embedded_ffff) simp_all
  then show ?thesis
    using assms by (simp add: pseudo_hdr_cksum_fits)
qed

section \<open>The trait Encode\<close>

text \<open>
  What a type that can be encoded promises to its caller. \<open>encodable\<close> is the well-formedness its
  constructors establish; \<open>encoding\<close> is the abstract specification, the bytes of a value. On a
  buffer that has room for them, \<open>write_into\<close> succeeds, writes exactly these bytes at the front
  and leaves the rest alone; on a shorter one it returns an error. It never panics. \<open>proto_len\<close>
  is the number of bytes, and fails exactly when that number is no \<open>u16\<close>.
\<close>

locale encode =
  fixes encodable :: "'a \<Rightarrow> bool"
    and encoding :: "'a \<Rightarrow> bytes"
    and write_into :: "'a \<Rightarrow> bytes \<Rightarrow> bytes result"
    and proto :: "'a \<Rightarrow> protocol"
    and get_ip_pair :: "'a \<Rightarrow> dir_out ipv4_addr_pair"
    and proto_len :: "'a \<Rightarrow> u16 result"
  assumes writes_encoding:
      "encodable x \<Longrightarrow> length (encoding x) \<le> length buf \<Longrightarrow> length (encoding x) \<le> ethernet_mtu \<Longrightarrow>
       write_into x buf = Inr (encoding x @ drop (length (encoding x)) buf)"
    and write_too_short:
      "encodable x \<Longrightarrow> length buf < length (encoding x) \<Longrightarrow> \<exists>e. write_into x buf = Inl (Err e)"
    and proto_len_fits:
      "encodable x \<Longrightarrow> length (encoding x) < 65536 \<Longrightarrow> proto_len x = Inr (word_of_nat (length (encoding x)))"
    and proto_len_overflow:
      "encodable x \<Longrightarrow> 65536 \<le> length (encoding x) \<Longrightarrow> \<exists>e. proto_len x = Inl (Err e)"
begin

lemma proto_len_unat: "encodable x \<Longrightarrow> proto_len x = Inr n \<Longrightarrow> unat n = length (encoding x)"
  using proto_len_fits [of x] proto_len_overflow [of x]
  by (cases "length (encoding x) < 65536") (auto simp: unat_of_nat_small)

lemma write_keeps_length:
  "encodable x \<Longrightarrow> length buf \<le> ethernet_mtu \<Longrightarrow> write_into x buf = Inr buf' \<Longrightarrow> length buf' = length buf"
  using writes_encoding [of x buf] write_too_short [of x buf]
  by (cases "length (encoding x) \<le> length buf") auto

lemma write_no_panic: "encodable x \<Longrightarrow> length buf \<le> ethernet_mtu \<Longrightarrow> write_into x buf \<noteq> Inl Panic"
  using writes_encoding [of x buf] write_too_short [of x buf]
  by (cases "length (encoding x) \<le> length buf") auto

lemma proto_len_no_panic: "encodable x \<Longrightarrow> proto_len x \<noteq> Inl Panic"
  using proto_len_fits [of x] proto_len_overflow [of x]
  by (cases "length (encoding x) < 65536") auto

end

end
