(* ===== verification/Ipv4_Header.thy ===== *)
theory Ipv4_Header
  imports Protocol
begin

text \<open>
  \<open>stack/src/ipv4_header.rs\<close>: parsing and writing IPv4 headers. \<open>inner_parse\<close>,
  \<open>inner_try_new\<close> and \<open>inner_write_into\<close> are polymorphic in the direction, as in the source;
  their production uses \<open>parse\<close> (incoming), \<open>try_new\<close> and \<open>write_into\<close> (outgoing) are the
  abbreviations at one direction.
\<close>

unbundle bit_operations_syntax

abbreviation (input) ipv4_hdr_min_len :: nat where "ipv4_hdr_min_len \<equiv> 20"

datatype 'd ipv4_header =
  Ipv4Header (total_len: u16) (hdr_protocol: protocol) (hdr_ip_pair: "'d ipv4_addr_pair")

definition inner_parse_ipv4 :: "bytes \<Rightarrow> ('d ipv4_header \<times> bytes) result" where
  "inner_parse_ipv4 data =
     (if length data < ipv4_hdr_min_len then
        Inl (Err (Dynamic (''Too short for IPv4 header ('' @ show_nat (length data) @ '' bytes)'')))
      else
        let ip_hdr = take ipv4_hdr_min_len data;
            version = drop_bit 4 (ip_hdr ! 0)
        in if version = 6 then Inl (Err (Static ''IPv6 packet''))
           else if version \<noteq> 4 then
             Inl (Err (Dynamic (''Unexpected IP version '' @ show_nat (unat version))))
           else if calculate ip_hdr \<noteq> 0 then Inl (Err (Static ''Invalid IPv4 header checksum''))
           else
             let ihl_bytes = unat (ip_hdr ! 0 AND 0xF) * 4 in
             and_then (protocol_try_from (ip_hdr ! 9)) (\<lambda>protocol.
             and_then (if ihl_bytes \<le> length data then Inr (drop ihl_bytes data)
                       else Inl (Err (Static ''IPv4 data shorter than its IHL''))) (\<lambda>payload.
             Inr (Ipv4Header
                    (u16_from_be_bytes [ip_hdr ! 2, ip_hdr ! 3])
                    protocol
                    (Ipv4AddrPair
                       (Ipv4Addr (ip_hdr ! 12) (ip_hdr ! 13) (ip_hdr ! 14) (ip_hdr ! 15))
                       (Ipv4Addr (ip_hdr ! 16) (ip_hdr ! 17) (ip_hdr ! 18) (ip_hdr ! 19))),
                  payload))))"

abbreviation parse_ipv4_header :: "bytes \<Rightarrow> (dir_in ipv4_header \<times> bytes) result" where
  "parse_ipv4_header \<equiv> inner_parse_ipv4"

definition inner_try_new_ipv4 ::
    "protocol \<Rightarrow> 'd ipv4_addr_pair \<Rightarrow> u16 \<Rightarrow> 'd ipv4_header result" where
  "inner_try_new_ipv4 protocol ip_pair proto_len =
     and_then (try_add_u16 20 proto_len) (\<lambda>total_len. Inr (Ipv4Header total_len protocol ip_pair))"

abbreviation try_new_ipv4_header ::
    "protocol \<Rightarrow> dir_out ipv4_addr_pair \<Rightarrow> u16 \<Rightarrow> dir_out ipv4_header result" where
  "try_new_ipv4_header \<equiv> inner_try_new_ipv4"

definition inner_write_into_ipv4 :: "'d ipv4_header \<Rightarrow> bytes \<Rightarrow> bytes result" where
  "inner_write_into_ipv4 self buf =
     and_then (index_write_byte 0 (0x40 OR (20 div 4)) buf) (\<lambda>buf.
     and_then (index_write_byte 1 0x00 buf) (\<lambda>buf.
     and_then (index_write 2 4 (u16_to_be_bytes (total_len self)) buf) (\<lambda>buf.
     and_then (index_write 4 6 [0x00, 0x00] buf) (\<lambda>buf.
     and_then (index_write 6 8 [0x40, 0x00] buf) (\<lambda>buf.
     and_then (index_write_byte 8 64 buf) (\<lambda>buf.
     and_then (index_write_byte 9 (protocol_to_u8 (hdr_protocol self)) buf) (\<lambda>buf.
     and_then (index_write 10 12 [0x00, 0x00] buf) (\<lambda>buf.
     and_then (index_write 12 16 (octets (ip_src (hdr_ip_pair self))) buf) (\<lambda>buf.
     and_then (index_write 16 20 (octets (ip_dst (hdr_ip_pair self))) buf) (\<lambda>buf.
     let ip_cksum = calculate (take ipv4_hdr_min_len buf) in
     index_write 10 12 (u16_to_be_bytes ip_cksum) buf))))))))))"

abbreviation write_ipv4_header :: "dir_out ipv4_header \<Rightarrow> bytes \<Rightarrow> bytes result" where
  "write_ipv4_header \<equiv> inner_write_into_ipv4"

section \<open>The bytes of a header\<close>

definition ipv4_header_bytes :: "'d ipv4_header \<Rightarrow> u16 \<Rightarrow> bytes" where
  "ipv4_header_bytes h cksum =
     ([0x45, 0x00] @ u16_to_be_bytes (total_len h) @
      [0x00, 0x00, 0x40, 0x00, 64, protocol_to_u8 (hdr_protocol h)]) @
     u16_to_be_bytes cksum @
     (octets (ip_src (hdr_ip_pair h)) @ octets (ip_dst (hdr_ip_pair h)))"

definition ipv4_header_encoding :: "'d ipv4_header \<Rightarrow> bytes" where
  "ipv4_header_encoding h = ipv4_header_bytes h (calculate (ipv4_header_bytes h 0))"

lemma length_ipv4_header_bytes [simp]: "length (ipv4_header_bytes h c) = 20"
  by (simp add: ipv4_header_bytes_def)

lemma length_ipv4_header_encoding [simp]: "length (ipv4_header_encoding h) = 20"
  by (simp add: ipv4_header_encoding_def)

lemma inner_write_into_ipv4_eq:
  assumes "20 \<le> length buf"
  shows "inner_write_into_ipv4 h buf = Inr (ipv4_header_encoding h @ drop 20 buf)"
proof -
  let ?pre = "[0x45, 0x00] @ u16_to_be_bytes (total_len h) @
      [0x00, 0x00, 0x40, 0x00, 64, protocol_to_u8 (hdr_protocol h)]"
  let ?post = "octets (ip_src (hdr_ip_pair h)) @ octets (ip_dst (hdr_ip_pair h))"
  have "inner_write_into_ipv4 h buf = inner_write_into_ipv4 h (patched [] buf)"
    by (simp add: patched_Nil)
  also have "\<dots> = index_write 10 12 (u16_to_be_bytes (calculate (?pre @ [0, 0] @ ?post)))
      (patched (?pre @ [0, 0] @ ?post) buf)"
  proof -
    have "buf \<noteq> []" using assms by auto
    then show ?thesis
      unfolding inner_write_into_ipv4_def using assms by (simp add: patch_simps)
  qed
  also have "\<dots> = Inr (patched (?pre @ u16_to_be_bytes (calculate (?pre @ [0, 0] @ ?post)) @ ?post) buf)"
    using assms by (intro index_rewrite_patched) simp_all
  finally show ?thesis
    by (simp add: patched_def ipv4_header_encoding_def ipv4_header_bytes_def)
qed

lemma calculate_ipv4_header_encoding: "calculate (ipv4_header_encoding h) = 0"
proof -
  let ?pre = "[0x45, 0x00] @ u16_to_be_bytes (total_len h) @
      [0x00, 0x00, 0x40, 0x00, 64, protocol_to_u8 (hdr_protocol h)]"
  let ?post = "octets (ip_src (hdr_ip_pair h)) @ octets (ip_dst (hdr_ip_pair h))"
  have "calculate (?pre @ u16_to_be_bytes (calculate (?pre @ [0, 0] @ ?post)) @ ?post) = 0"
    by (rule production.cksum_embedded) simp_all
  then show ?thesis by (simp add: ipv4_header_encoding_def ipv4_header_bytes_def)
qed

text \<open>The receiver reads back exactly the fields that were written, and the bytes behind them.\<close>

lemma inner_parse_ipv4_encoding:
  "inner_parse_ipv4 (ipv4_header_encoding h @ rest) = Inr (h, rest)"
proof -
  let ?e = "ipv4_header_encoding h"
  obtain t p s d where h: "h = Ipv4Header t p (Ipv4AddrPair s d)"
    by (metis ipv4_addr_pair.exhaust ipv4_header.exhaust)
  obtain s1 s2 s3 s4 where s: "s = Ipv4Addr s1 s2 s3 s4" by (cases s)
  obtain d1 d2 d3 d4 where d: "d = Ipv4Addr d1 d2 d3 d4" by (cases d)
  obtain t1 t2 where t: "u16_to_be_bytes t = [t1, t2]"
    using iffD1 [OF length_eq_2_conv length_u16_to_be_bytes [of t]] by blast
  obtain c1 c2 where e: "?e = [0x45, 0, t1, t2, 0, 0, 0x40, 0, 64, protocol_to_u8 p, c1, c2,
      s1, s2, s3, s4, d1, d2, d3, d4]"
  proof -
    obtain c1 c2 where "u16_to_be_bytes (calculate (ipv4_header_bytes h 0)) = [c1, c2]"
      using iffD1 [OF length_eq_2_conv length_u16_to_be_bytes] by blast
    then show ?thesis
      by (intro that) (simp add: ipv4_header_encoding_def ipv4_header_bytes_def h s d t)
  qed
  have t': "u16_from_be_bytes [t1, t2] = t" by (metis t u16_from_to_be)
  define bs where "bs = ?e"
  have bs: "length bs = 20" "calculate bs = 0"
    by (simp_all add: bs_def calculate_ipv4_header_encoding)
  have n: "bs ! 0 = 0x45" "bs ! 2 = t1" "bs ! 3 = t2" "bs ! 9 = protocol_to_u8 p"
    "bs ! 12 = s1" "bs ! 13 = s2" "bs ! 14 = s3" "bs ! 15 = s4"
    "bs ! 16 = d1" "bs ! 17 = d2" "bs ! 18 = d3" "bs ! 19 = d4"
    by (simp_all add: bs_def e)
  have v: "drop_bit 4 (0x45 :: u8) = 4" "(0x45 :: u8) AND 0xF = 5" by simp_all
  show ?thesis
    unfolding inner_parse_ipv4_def bs_def [symmetric]
    by (simp add: bs n v t' h s d)
qed

section \<open>Properties\<close>

text \<open>
  C31: A header that can be built is written to the first 20 bytes of any buffer that has them,
  with the total length of header and payload, a checksum that verifies, and is read back by the
  parser as the same header with whatever follows as its payload.
\<close>

theorem ipv4_header_roundtrip:
  assumes "inner_try_new_ipv4 p ip n = Inr h" and "20 \<le> length buf"
  shows "unat (total_len h) = 20 + unat n \<and>
    inner_write_into_ipv4 h buf = Inr (ipv4_header_encoding h @ drop 20 buf) \<and>
    calculate (ipv4_header_encoding h) = 0 \<and>
    inner_parse_ipv4 (ipv4_header_encoding h @ rest) = Inr (Ipv4Header (20 + n) p ip, rest)"
proof -
  obtain t where "try_add_u16 20 n = Inr t" and h: "h = Ipv4Header t p ip"
    using assms(1) by (auto simp: inner_try_new_ipv4_def and_then_Inr_iff)
  then have "t = 20 + n" "unat t = 20 + unat n"
    using try_add_u16_unat [of 20 n t] by (simp_all add: try_add_u16_Inr)
  then show ?thesis
    by (simp add: h inner_write_into_ipv4_eq [OF assms(2)] calculate_ipv4_header_encoding
        inner_parse_ipv4_encoding)
qed

theorem ipv4_header_roundtrip_witness:
  "inner_try_new_ipv4 Tcp (Ipv4AddrPair (Ipv4Addr 10 0 0 1) (Ipv4Addr 10 0 0 2) :: dir_out ipv4_addr_pair) 20 =
     Inr (Ipv4Header 40 Tcp (Ipv4AddrPair (Ipv4Addr 10 0 0 1) (Ipv4Addr 10 0 0 2))) \<and>
   inner_parse_ipv4 (ipv4_header_encoding
     (Ipv4Header 40 Tcp (Ipv4AddrPair (Ipv4Addr 10 0 0 1) (Ipv4Addr 10 0 0 2) :: dir_out ipv4_addr_pair)) @ [1, 2]) =
     Inr (Ipv4Header 40 Tcp (Ipv4AddrPair (Ipv4Addr 10 0 0 1) (Ipv4Addr 10 0 0 2) :: dir_out ipv4_addr_pair), [1, 2])"
proof -
  have "inner_try_new_ipv4 Tcp (Ipv4AddrPair (Ipv4Addr 10 0 0 1) (Ipv4Addr 10 0 0 2) :: dir_out ipv4_addr_pair) 20 =
     Inr (Ipv4Header 40 Tcp (Ipv4AddrPair (Ipv4Addr 10 0 0 1) (Ipv4Addr 10 0 0 2)))"
    by (simp add: inner_try_new_ipv4_def try_add_u16_def)
  from this ipv4_header_roundtrip [OF this, of "replicate 20 0" "[1, 2]"] show ?thesis by simp
qed

lemma inner_parse_ipv4_checked:
  assumes "inner_parse_ipv4 data = Inr x"
  shows "20 \<le> length data" and "calculate (take 20 data) = 0"
  using assms by (auto simp: inner_parse_ipv4_def Let_def split: if_splits)

lemma inner_parse_ipv4_bad_checksum:
  assumes "calculate (take 20 data) \<noteq> 0"
  shows "\<exists>e. inner_parse_ipv4 data = Inl (Err e)"
  using assms by (auto simp: inner_parse_ipv4_def Let_def)

text \<open>
  Damage to one aligned 16-bit word of the header of an accepted packet is always noticed and
  reported as an error, unless it exchanges the two representations of zero, 0x0000 and 0xFFFF.
\<close>

theorem ipv4_damage_detected:
  assumes "inner_parse_ipv4 (pre @ w @ post) = Inr x" and "even (length pre)" and "length pre \<le> 18"
    and "length w = 2" and "length w' = 2" and "be_nat w mod 65535 \<noteq> be_nat w' mod 65535"
  shows "\<exists>e. (inner_parse_ipv4 (pre @ w' @ post) :: ('d ipv4_header \<times> bytes) result) = Inl (Err e)"
proof (rule inner_parse_ipv4_bad_checksum)
  let ?q = "take (18 - length pre) post"
  have "length (pre @ w @ post) \<ge> 20" and 0: "calculate (take 20 (pre @ w @ post)) = 0"
    using inner_parse_ipv4_checked [OF assms(1)] by simp_all
  have t: "take 20 (pre @ v @ post) = pre @ v @ ?q" if "length v = 2" for v
    using that assms(3) by simp
  have "calculate (pre @ w @ ?q) \<noteq> calculate (pre @ w' @ ?q)"
    using assms by (intro production.cksum_detects) simp_all
  then show "calculate (take 20 (pre @ w' @ post)) \<noteq> 0"
    using 0 by (simp only: t assms)
qed

theorem ipv4_damage_detected_witness:
  "\<exists>e. (inner_parse_ipv4 ([] @ [0x46, 0] @ drop 2 (ipv4_header_encoding
     (Ipv4Header 40 Tcp (Ipv4AddrPair (Ipv4Addr 10 0 0 1) (Ipv4Addr 10 0 0 2) :: dir_in ipv4_addr_pair)))) ::
     (dir_in ipv4_header \<times> bytes) result) = Inl (Err e)"
proof (rule ipv4_damage_detected)
  let ?h = "Ipv4Header 40 Tcp (Ipv4AddrPair (Ipv4Addr 10 0 0 1) (Ipv4Addr 10 0 0 2) :: dir_in ipv4_addr_pair)"
  have "[] @ [0x45, 0] @ drop 2 (ipv4_header_encoding ?h) = ipv4_header_encoding ?h @ []"
    by (simp add: ipv4_header_encoding_def ipv4_header_bytes_def)
  then show "inner_parse_ipv4 ([] @ [0x45, 0] @ drop 2 (ipv4_header_encoding ?h)) = Inr (?h, [])"
    by (simp only: inner_parse_ipv4_encoding)
qed (simp_all add: be_nat_def)

end
