(* ===== verification/Icmp_Echo.thy ===== *)
theory Icmp_Echo
  imports Protocol
begin

text \<open>
  \<open>stack/src/protocol/icmp_echo.rs\<close>: ICMP Echo Requests and the replies to them. The
  interpretation \<open>icmp\<close> at the end discharges the contract of the trait \<open>Encode\<close>.
\<close>

abbreviation (input) icmp_hdr_len :: u16 where "icmp_hdr_len \<equiv> 8"
abbreviation (input) icmp_type_echo_request :: u8 where "icmp_type_echo_request \<equiv> 8"
abbreviation (input) icmp_type_echo_reply :: u8 where "icmp_type_echo_reply \<equiv> 0"
abbreviation (input) icmp_code_echo :: u8 where "icmp_code_echo \<equiv> 0"

datatype 'd icmp_echo_msg =
  IcmpEchoMsg (icmp_ip_pair: "'d ipv4_addr_pair") (icmp_type: u8) (icmp_identifier: u16)
    (icmp_sequence: u16) (icmp_payload: bytes)

definition parse_icmp :: "bytes \<Rightarrow> dir_in ipv4_addr_pair \<Rightarrow> dir_in icmp_echo_msg result" where
  "parse_icmp data ip_pair =
     (if length data < 8 then
        Inl (Err (Dynamic (''Too short for ICMP header ('' @ show_nat (length data) @ '' bytes)'')))
      else if calculate data \<noteq> 0 then Inl (Err (Static ''Invalid ICMP checksum''))
      else
        let icmp_hdr = take 8 data; payload = drop 8 data;
            type = icmp_hdr ! 0; code = icmp_hdr ! 1
        in if type \<noteq> icmp_type_echo_request \<or> code \<noteq> icmp_code_echo then
             Inl (Err (Dynamic (''Not an Echo Request: got type='' @ show_nat (unat type) @
               '', code='' @ show_nat (unat code))))
           else
             Inr (IcmpEchoMsg ip_pair type
               (u16_from_be_bytes [icmp_hdr ! 4, icmp_hdr ! 5])
               (u16_from_be_bytes [icmp_hdr ! 6, icmp_hdr ! 7])
               payload))"

definition create_icmp_reply :: "dir_in icmp_echo_msg \<Rightarrow> dir_out icmp_echo_msg" where
  "create_icmp_reply self =
     IcmpEchoMsg (ip_swapped (icmp_ip_pair self)) icmp_type_echo_reply (icmp_identifier self)
       (icmp_sequence self) (icmp_payload self)"

definition icmp_proto_len :: "'d icmp_echo_msg \<Rightarrow> u16 result" where
  "icmp_proto_len self =
     and_then (u16_try_from (length (icmp_payload self))) (\<lambda>n. try_add_u16 icmp_hdr_len n)"

definition write_icmp :: "dir_out icmp_echo_msg \<Rightarrow> bytes \<Rightarrow> bytes result" where
  "write_icmp self buf =
     and_then (try_add_usize 8 (length (icmp_payload self))) (\<lambda>end.
     and_then (try_write (Range 8 end) (icmp_payload self) buf) (\<lambda>buf.
     and_then (try_write_byte 0 (icmp_type self) buf) (\<lambda>buf.
     and_then (try_write_byte 1 icmp_code_echo buf) (\<lambda>buf.
     and_then (try_write (Range 2 4) [0x00, 0x00] buf) (\<lambda>buf.
     and_then (try_write (Range 4 6) (u16_to_be_bytes (icmp_identifier self)) buf) (\<lambda>buf.
     and_then (try_write (Range 6 8) (u16_to_be_bytes (icmp_sequence self)) buf) (\<lambda>buf.
     and_then (icmp_proto_len self) (\<lambda>n.
     and_then (try_get buf (RangeTo (unat n))) (\<lambda>d.
     try_write (Range 2 4) (u16_to_be_bytes (calculate d)) buf)))))))))"

section \<open>The bytes of a message\<close>

definition icmp_bytes :: "'d icmp_echo_msg \<Rightarrow> u16 \<Rightarrow> bytes" where
  "icmp_bytes m cksum =
     [icmp_type m, icmp_code_echo] @ u16_to_be_bytes cksum @
     (u16_to_be_bytes (icmp_identifier m) @ u16_to_be_bytes (icmp_sequence m) @ icmp_payload m)"

definition icmp_encoding :: "'d icmp_echo_msg \<Rightarrow> bytes" where
  "icmp_encoding m = icmp_bytes m (calculate (icmp_bytes m 0))"

lemma length_icmp_bytes [simp]: "length (icmp_bytes m c) = 8 + length (icmp_payload m)"
  by (simp add: icmp_bytes_def)

lemma length_icmp_encoding [simp]: "length (icmp_encoding m) = 8 + length (icmp_payload m)"
  by (simp add: icmp_encoding_def)

lemma icmp_proto_len_fits:
  "8 + length (icmp_payload m) < 65536 \<Longrightarrow>
   icmp_proto_len m = Inr (word_of_nat (8 + length (icmp_payload m)))"
  by (simp add: icmp_proto_len_def u16_try_from_def try_add_u16_def unat_of_nat_small)

lemma icmp_proto_len_overflow:
  "65536 \<le> 8 + length (icmp_payload m) \<Longrightarrow> \<exists>e. icmp_proto_len m = Inl (Err e)"
  by (cases "length (icmp_payload m) < 65536")
    (simp_all add: icmp_proto_len_def u16_try_from_def try_add_u16_def unat_of_nat_small)

lemma write_icmp_too_short:
  "length buf < 8 + length (icmp_payload m) \<Longrightarrow> \<exists>e. write_icmp m buf = Inl (Err e)"
  by (simp add: write_icmp_def try_add_usize_def try_write_def in_bounds_def)

lemma write_icmp_fits:
  assumes "8 + length (icmp_payload m) \<le> length buf" and "length (icmp_payload m) < 65528"
  shows "write_icmp m buf = Inr (icmp_encoding m @ drop (8 + length (icmp_payload m)) buf)"
proof -
  let ?n = "length (icmp_payload m)"
  let ?pre = "[icmp_type m, icmp_code_echo]"
  let ?ids = "u16_to_be_bytes (icmp_identifier m) @ u16_to_be_bytes (icmp_sequence m)"
  define rest where "rest = drop (8 + ?n) buf"
  define buf1 where "buf1 = take 8 buf @ icmp_payload m @ rest"
  have take8: "length (take 8 buf) = 8" using assms by simp
  then have buf1: "8 \<le> length buf1" "drop 8 buf1 = icmp_payload m @ rest"
    unfolding buf1_def by (metis le_add1 length_append, metis append_eq_conv_conj)
  then have buf1_ne: "buf1 \<noteq> []" by auto
  have add: "try_add_usize 8 ?n = Inr (8 + ?n)" using assms(2) by (simp add: try_add_usize_def)
  have payload: "try_write (Range 8 (8 + ?n)) (icmp_payload m) buf = Inr (patched [] buf1)"
    using assms by (simp add: try_write_fits overwrite_def buf1_def rest_def patched_Nil)
  define hdr where "hdr = ?pre @ [0, 0] @ ?ids"
  have full: "patched hdr buf1 = icmp_bytes m 0 @ rest"
  proof -
    have "length hdr = 8" by (simp add: hdr_def)
    then show ?thesis by (simp only: patched_def buf1) (simp add: hdr_def icmp_bytes_def)
  qed
  have "write_icmp m buf =
      and_then (try_get (patched hdr buf1) (RangeTo (8 + ?n))) (\<lambda>d.
      try_write (Range 2 4) (u16_to_be_bytes (calculate d)) (patched hdr buf1))"
    using assms buf1 buf1_ne unfolding write_icmp_def hdr_def add and_then.simps
    by (simp add: payload patch_simps icmp_proto_len_fits unat_of_nat_small del: of_nat_add)
  also have "try_get (patched hdr buf1) (RangeTo (8 + ?n)) = Inr (icmp_bytes m 0)"
    unfolding full by (simp add: try_get_def in_bounds_def)
  also have "and_then (Inr (icmp_bytes m 0)) (\<lambda>d.
      try_write (Range 2 4) (u16_to_be_bytes (calculate d)) (patched hdr buf1))
      = Inr (patched (?pre @ u16_to_be_bytes (calculate (icmp_bytes m 0)) @ ?ids) buf1)"
    unfolding hdr_def and_then.simps using buf1 by (intro try_rewrite_patched) simp_all
  finally show ?thesis
    by (simp add: patched_def buf1 icmp_encoding_def icmp_bytes_def rest_def)
qed

lemma calculate_icmp_encoding:
  assumes "length (icmp_payload m) < 65528"
  shows "calculate (icmp_encoding m) = 0"
proof -
  let ?pre = "[icmp_type m, icmp_code_echo]"
  let ?post = "u16_to_be_bytes (icmp_identifier m) @ u16_to_be_bytes (icmp_sequence m) @ icmp_payload m"
  have "calculate (?pre @ u16_to_be_bytes (calculate (?pre @ [0, 0] @ ?post)) @ ?post) = 0"
    using assms by (intro production.cksum_embedded) simp_all
  then show ?thesis
    by (simp add: icmp_encoding_def icmp_bytes_def)
qed

abbreviation icmp_proto :: "'d icmp_echo_msg \<Rightarrow> protocol" where "icmp_proto \<equiv> \<lambda>_. Icmp"

interpretation icmp: encode "\<lambda>_. True" icmp_encoding write_icmp icmp_proto icmp_ip_pair icmp_proto_len
proof unfold_locales
  fix x :: "dir_out icmp_echo_msg" and buf
  show "length (icmp_encoding x) \<le> length buf \<Longrightarrow> length (icmp_encoding x) \<le> ethernet_mtu \<Longrightarrow>
      write_icmp x buf = Inr (icmp_encoding x @ drop (length (icmp_encoding x)) buf)"
    using write_icmp_fits [of x buf] by simp
  show "length buf < length (icmp_encoding x) \<Longrightarrow> \<exists>e. write_icmp x buf = Inl (Err e)"
    using write_icmp_too_short [of buf x] by simp
  show "length (icmp_encoding x) < 65536 \<Longrightarrow>
      icmp_proto_len x = Inr (word_of_nat (length (icmp_encoding x)))"
    using icmp_proto_len_fits [of x] by (simp only: length_icmp_encoding)
  show "65536 \<le> length (icmp_encoding x) \<Longrightarrow> \<exists>e. icmp_proto_len x = Inl (Err e)"
    using icmp_proto_len_overflow [of x] by (simp only: length_icmp_encoding)
qed

lemma parse_icmp_Inr:
  assumes "parse_icmp data ip = Inr m"
  shows "8 \<le> length data" and "calculate data = 0" and "icmp_type m = 8"
    and "data = [8, 0] @ take 2 (drop 2 data) @
      u16_to_be_bytes (icmp_identifier m) @ u16_to_be_bytes (icmp_sequence m) @ icmp_payload m"
    and "drop 4 data =
      u16_to_be_bytes (icmp_identifier m) @ u16_to_be_bytes (icmp_sequence m) @ icmp_payload m"
    and "icmp_ip_pair m = ip"
proof -
  show len: "8 \<le> length data" and "calculate data = 0" and "icmp_type m = 8" and "icmp_ip_pair m = ip"
    using assms by (auto simp: parse_icmp_def Let_def split: if_splits)
  obtain a b c d e f g h rest where data: "data = [a, b, c, d, e, f, g, h] @ rest"
  proof -
    have "length (take 8 data) = 8" using len by simp
    then obtain a b c d e f g h where "take 8 data = [a, b, c, d, e, f, g, h]"
      by (rule length_eq_8_E)
    then show ?thesis by (metis append_take_drop_id that)
  qed
  have "u16_to_be_bytes (u16_from_be_bytes [x, y]) = [x, y]" for x y
    by (simp add: u16_to_from_be)
  then show "data = [8, 0] @ take 2 (drop 2 data) @
      u16_to_be_bytes (icmp_identifier m) @ u16_to_be_bytes (icmp_sequence m) @ icmp_payload m"
    and "drop 4 data =
      u16_to_be_bytes (icmp_identifier m) @ u16_to_be_bytes (icmp_sequence m) @ icmp_payload m"
    using assms by (auto simp: parse_icmp_def Let_def data split: if_splits)
qed

section \<open>Answering a ping\<close>

lemma icmp_reply_encoding:
  assumes "parse_icmp data ip = Inr m"
  shows "icmp_encoding (create_icmp_reply m) =
    [0, 0] @ u16_to_be_bytes (calculate ([0, 0, 0, 0] @ drop 4 data)) @ drop 4 data"
  using parse_icmp_Inr(5) [OF assms]
  by (simp add: icmp_encoding_def icmp_bytes_def create_icmp_reply_def)

text \<open>
  C33: An accepted Echo Request is answered, to its sender, by the same message with the type
  changed from request to reply and the checksum recomputed: identifier, sequence number and
  payload come back unchanged, the reply fits wherever the request fitted, and its checksum
  verifies.
\<close>

theorem icmp_echo_reply:
  assumes "parse_icmp data ip = Inr m" and "length data \<le> length buf" and "length data \<le> ethernet_mtu"
  shows "let reply = create_icmp_reply m;
             bs = [0, 0] @ u16_to_be_bytes (calculate ([0, 0, 0, 0] @ drop 4 data)) @ drop 4 data
         in write_icmp reply buf = Inr (bs @ drop (length data) buf) \<and> calculate bs = 0 \<and>
            length bs = length data \<and> icmp_ip_pair reply = ip_swapped ip"
proof -
  let ?r = "create_icmp_reply m"
  have "8 \<le> length data" and ip: "icmp_ip_pair m = ip"
    using parse_icmp_Inr [OF assms(1)] by simp_all
  then have len: "length (icmp_encoding ?r) = length data"
    unfolding icmp_reply_encoding [OF assms(1)] by simp
  then have "length (icmp_payload ?r) < 65528"
    using assms(3) by simp
  from calculate_icmp_encoding [OF this] icmp.writes_encoding [of ?r buf] len assms(2,3) ip
  show ?thesis
    unfolding Let_def icmp_reply_encoding [OF assms(1), symmetric]
    by (simp add: create_icmp_reply_def)
qed

theorem icmp_echo_reply_witness:
  "write_icmp (create_icmp_reply
     (IcmpEchoMsg (Ipv4AddrPair (Ipv4Addr 10 0 0 2) (Ipv4Addr 10 0 0 1)) 8 0x1234 1 [0x61, 0x62]))
     (replicate 12 7) = Inr [0, 0, 0x8c, 0x68, 0x12, 0x34, 0, 1, 0x61, 0x62, 7, 7]"
proof -
  let ?ip = "Ipv4AddrPair (Ipv4Addr 10 0 0 2) (Ipv4Addr 10 0 0 1) :: dir_in ipv4_addr_pair"
  let ?data = "[8, 0, 0x84, 0x68, 0x12, 0x34, 0, 1, 0x61, 0x62] :: bytes"
  have "calculate ?data = 0"
    by (simp add: calculate_compute ones_sum_def)
  then have "parse_icmp ?data ?ip = Inr (IcmpEchoMsg ?ip 8 0x1234 1 [0x61, 0x62])"
    by (simp add: parse_icmp_def u16_from_be_bytes_def be_nat_def)
  note p = icmp_echo_reply [OF this, of "replicate 12 7"]
  have "calculate ([0, 0, 0, 0] @ drop 4 ?data) = 0x8c68"
    by (simp add: calculate_compute ones_sum_def)
  moreover have "u16_to_be_bytes 0x8c68 = [0x8c, 0x68]"
    using u16_to_from_be [of "[0x8c, 0x68]"] by (simp add: u16_from_be_bytes_def be_nat_def)
  ultimately show ?thesis using p by (simp add: Let_def numeral_eq_Suc)
qed

end
