(* ===== verification/Udp.thy ===== *)
theory Udp
  imports Protocol
begin

text \<open>
  \<open>stack/src/protocol/udp.rs\<close>: UDP datagrams, the replies the application makes to them, and
  the interpretation \<open>udp\<close> of the trait \<open>Encode\<close>.
\<close>

abbreviation (input) udp_hdr_len :: u16 where "udp_hdr_len \<equiv> 8"

datatype 'd udp_datagram =
  UdpDatagram (udp_ip_pair: "'d ipv4_addr_pair") (udp_ports: "'d port_pair") (udp_payload: bytes)

definition parse_udp :: "bytes \<Rightarrow> dir_in ipv4_addr_pair \<Rightarrow> dir_in udp_datagram result" where
  "parse_udp data ip_pair =
     (if length data < 8 then
        Inl (Err (Dynamic (''Too short for UDP header ('' @ show_nat (length data) @ '' bytes)'')))
      else
        let udp_hdr = take 8 data; payload = drop 8 data in
        and_then
          (if u16_from_be_bytes [udp_hdr ! 6, udp_hdr ! 7] \<noteq> 0
           then and_then (pseudo_hdr_cksum data ip_pair Udp) (\<lambda>cksum. Inr (cksum \<noteq> 0))
           else Inr False) (\<lambda>invalid.
        if invalid then Inl (Err (Static ''Invalid UDP checksum''))
        else Inr (UdpDatagram ip_pair
               (PortPair (u16_from_be_bytes [udp_hdr ! 0, udp_hdr ! 1])
                         (u16_from_be_bytes [udp_hdr ! 2, udp_hdr ! 3]))
               payload)))"

definition create_udp_reply ::
    "'a application \<Rightarrow> 'a \<Rightarrow> dir_in udp_datagram \<Rightarrow> 'a \<times> dir_out udp_datagram" where
  "create_udp_reply ops app self =
     (let (app', payload) = handle_udp ops app (udp_payload self)
      in (app', UdpDatagram (ip_swapped (udp_ip_pair self)) (port_swapped (udp_ports self)) payload))"

definition udp_proto_len :: "'d udp_datagram \<Rightarrow> u16 result" where
  "udp_proto_len self =
     and_then (u16_try_from (length (udp_payload self))) (\<lambda>n. try_add_u16 udp_hdr_len n)"

definition write_udp :: "dir_out udp_datagram \<Rightarrow> bytes \<Rightarrow> bytes result" where
  "write_udp self buf =
     and_then (try_write (RangeTo 2) (u16_to_be_bytes (port_src (udp_ports self))) buf) (\<lambda>buf.
     and_then (try_write (Range 2 4) (u16_to_be_bytes (port_dst (udp_ports self))) buf) (\<lambda>buf.
     and_then (udp_proto_len self) (\<lambda>udp_len.
     and_then (try_write (Range 4 6) (u16_to_be_bytes udp_len) buf) (\<lambda>buf.
     and_then (try_write (Range 8 (unat udp_len)) (udp_payload self) buf) (\<lambda>buf.
     and_then (try_write (Range 6 8) [0x00, 0x00] buf) (\<lambda>buf.
     and_then (try_get buf (RangeTo (unat udp_len))) (\<lambda>d.
     and_then (pseudo_hdr_cksum d (udp_ip_pair self) Udp) (\<lambda>udp_cksum.
     try_write (Range 6 8)
       (u16_to_be_bytes (if udp_cksum = 0 then 0xFFFF else udp_cksum)) buf))))))))"

section \<open>The bytes of a datagram\<close>

definition udp_bytes :: "'d udp_datagram \<Rightarrow> u16 \<Rightarrow> bytes" where
  "udp_bytes d cksum =
     (u16_to_be_bytes (port_src (udp_ports d)) @ u16_to_be_bytes (port_dst (udp_ports d)) @
      u16_to_be_bytes (word_of_nat (8 + length (udp_payload d)))) @
     u16_to_be_bytes cksum @ udp_payload d"

definition udp_checksum :: "'d udp_datagram \<Rightarrow> u16" where
  "udp_checksum d =
     (let c = calculate (pseudo_header (udp_ip_pair d) Udp (8 + length (udp_payload d)) @ udp_bytes d 0)
      in if c = 0 then 0xFFFF else c)"

definition udp_encoding :: "'d udp_datagram \<Rightarrow> bytes" where
  "udp_encoding d = udp_bytes d (udp_checksum d)"

lemma length_udp_bytes [simp]: "length (udp_bytes d c) = 8 + length (udp_payload d)"
  by (simp add: udp_bytes_def)

lemma length_udp_encoding [simp]: "length (udp_encoding d) = 8 + length (udp_payload d)"
  by (simp add: udp_encoding_def)

lemma udp_proto_len_fits:
  "8 + length (udp_payload d) < 65536 \<Longrightarrow>
   udp_proto_len d = Inr (word_of_nat (8 + length (udp_payload d)))"
  by (simp add: udp_proto_len_def u16_try_from_def try_add_u16_def unat_of_nat_small)

lemma udp_proto_len_overflow:
  "65536 \<le> 8 + length (udp_payload d) \<Longrightarrow> \<exists>e. udp_proto_len d = Inl (Err e)"
  by (cases "length (udp_payload d) < 65536")
    (simp_all add: udp_proto_len_def u16_try_from_def try_add_u16_def unat_of_nat_small)

lemma write_udp_fits:
  assumes "8 + length (udp_payload d) \<le> length buf" and "8 + length (udp_payload d) \<le> ethernet_mtu"
  shows "write_udp d buf = Inr (udp_encoding d @ drop (8 + length (udp_payload d)) buf)"
proof -
  let ?n = "8 + length (udp_payload d)"
  let ?len = "word_of_nat ?n :: u16"
  let ?pre = "u16_to_be_bytes (port_src (udp_ports d)) @ u16_to_be_bytes (port_dst (udp_ports d)) @
      u16_to_be_bytes ?len"
  define gap where "gap = take 2 (drop 6 buf)"
  define c where "c = calculate (pseudo_header (udp_ip_pair d) Udp ?n @ udp_bytes d 0)"
  have len: "udp_proto_len d = Inr ?len" "unat ?len = ?n"
    using assms udp_proto_len_fits [of d] by (simp_all add: unat_of_nat_small del: of_nat_add)
  have gap: "length gap = 2" "patched ?pre buf = patched (?pre @ gap) buf"
    using assms patched_skip [of ?pre 2 buf] by (simp_all add: gap_def)
  have payload: "try_write (Range 8 ?n) (udp_payload d) (patched ?pre buf) =
      Inr (patched (?pre @ gap @ udp_payload d) buf)"
    unfolding gap(2) using assms gap(1) try_write_patched [of "?pre @ gap" 8 ?n buf "udp_payload d"]
    by simp
  have zero: "try_write (Range 6 8) [0, 0] (patched (?pre @ gap @ udp_payload d) buf) =
      Inr (patched (?pre @ [0, 0] @ udp_payload d) buf)"
    using assms gap(1) by (intro try_rewrite_patched) simp_all
  have read: "try_get (patched (?pre @ [0, 0] @ udp_payload d) buf) (RangeTo ?n) = Inr (udp_bytes d 0)"
    using assms by (subst try_get_patched) (simp_all add: udp_bytes_def)
  have cksum: "pseudo_hdr_cksum (udp_bytes d 0) (udp_ip_pair d) Udp = Inr c"
    using assms by (subst pseudo_hdr_cksum_fits) (simp_all add: c_def)
  have final: "try_write (Range 6 8) (u16_to_be_bytes (if c = 0 then 0xFFFF else c))
      (patched (?pre @ [0, 0] @ udp_payload d) buf) =
      Inr (patched (?pre @ u16_to_be_bytes (if c = 0 then 0xFFFF else c) @ udp_payload d) buf)"
    using assms by (intro try_rewrite_patched) simp_all
  have "write_udp d buf = write_udp d (patched [] buf)"
    by (simp add: patched_Nil)
  also have "\<dots> = and_then (try_write (Range 8 ?n) (udp_payload d) (patched ?pre buf)) (\<lambda>buf.
     and_then (try_write (Range 6 8) [0x00, 0x00] buf) (\<lambda>buf.
     and_then (try_get buf (RangeTo ?n)) (\<lambda>bs.
     and_then (pseudo_hdr_cksum bs (udp_ip_pair d) Udp) (\<lambda>udp_cksum.
     try_write (Range 6 8)
       (u16_to_be_bytes (if udp_cksum = 0 then 0xFFFF else udp_cksum)) buf))))"
    unfolding write_udp_def len and_then.simps using assms
    by (simp add: patch_simps len del: of_nat_add)
  also have "\<dots> = Inr (patched (?pre @ u16_to_be_bytes (if c = 0 then 0xFFFF else c) @ udp_payload d) buf)"
    unfolding payload and_then.simps zero read cksum final ..
  also have "\<dots> = Inr (patched (udp_encoding d) buf)"
    by (simp add: udp_encoding_def udp_checksum_def udp_bytes_def c_def)
  finally show ?thesis by (simp add: patched_def)
qed

lemma write_udp_too_short:
  assumes "length buf < 8 + length (udp_payload d)"
  shows "\<exists>e. write_udp d buf = Inl (Err e)"
proof -
  let ?n = "8 + length (udp_payload d)"
  have patch: "write_udp d buf = write_udp d (patched [] buf)"
    by (simp add: patched_Nil)
  consider "length buf < 2" | "2 \<le> length buf" "length buf < 4"
    | "4 \<le> length buf" "65536 \<le> ?n" | "4 \<le> length buf" "length buf < 6" "?n < 65536"
    | "6 \<le> length buf" "?n < 65536"
    by linarith
  then show ?thesis
  proof cases
    case 1
    then show ?thesis unfolding patch by (simp add: write_udp_def patch_simps)
  next
    case 2
    then show ?thesis unfolding patch by (simp add: write_udp_def patch_simps)
  next
    case 3
    then show ?thesis
      unfolding patch using udp_proto_len_overflow [of d] by (auto simp: write_udp_def patch_simps)
  next
    case 4
    then show ?thesis
      unfolding patch using udp_proto_len_fits [of d] by (simp add: write_udp_def patch_simps)
  next
    case 5
    have "unat (word_of_nat ?n :: u16) = ?n" using 5 by (intro unat_of_nat_small) simp
    with 5 show ?thesis
      unfolding patch using udp_proto_len_fits [of d] assms
      by (simp add: write_udp_def patch_simps del: of_nat_add)
  qed
qed

abbreviation udp_proto :: "'d udp_datagram \<Rightarrow> protocol" where "udp_proto \<equiv> \<lambda>_. Udp"

interpretation udp: encode "\<lambda>_. True" udp_encoding write_udp udp_proto udp_ip_pair udp_proto_len
proof unfold_locales
  fix x :: "dir_out udp_datagram" and buf
  show "length (udp_encoding x) \<le> length buf \<Longrightarrow> length (udp_encoding x) \<le> ethernet_mtu \<Longrightarrow>
      write_udp x buf = Inr (udp_encoding x @ drop (length (udp_encoding x)) buf)"
    using write_udp_fits [of x buf] by simp
  show "length buf < length (udp_encoding x) \<Longrightarrow> \<exists>e. write_udp x buf = Inl (Err e)"
    using write_udp_too_short [of buf x] by simp
  show "length (udp_encoding x) < 65536 \<Longrightarrow>
      udp_proto_len x = Inr (word_of_nat (length (udp_encoding x)))"
    using udp_proto_len_fits [of x] by (simp only: length_udp_encoding)
  show "65536 \<le> length (udp_encoding x) \<Longrightarrow> \<exists>e. udp_proto_len x = Inl (Err e)"
    using udp_proto_len_overflow [of x] by (simp only: length_udp_encoding)
qed

section \<open>What the receiver of a datagram sees\<close>

text \<open>
  The stored checksum is never 0, and the data verifies: a computed 0 is stored as 0xFFFF, which
  is the other one's complement zero.
\<close>

lemma udp_checksum_nonzero: "udp_checksum d \<noteq> 0"
  by (simp add: udp_checksum_def Let_def)

lemma udp_encoding_verifies:
  fixes ip :: "'e ipv4_addr_pair"
  assumes "8 + length (udp_payload d) \<le> ethernet_mtu"
    and "ip_src ip = ip_src (udp_ip_pair d)" "ip_dst ip = ip_dst (udp_ip_pair d)"
  shows "pseudo_hdr_cksum (udp_encoding d) ip Udp = Inr 0"
proof -
  let ?n = "8 + length (udp_payload d)"
  let ?pre = "u16_to_be_bytes (port_src (udp_ports d)) @ u16_to_be_bytes (port_dst (udp_ports d)) @
      u16_to_be_bytes (word_of_nat ?n)"
  let ?z = "?pre @ [0, 0] @ udp_payload d"
  define c where "c = calculate (pseudo_header (udp_ip_pair d) Udp ?n @ ?z)"
  have n: "length ?z = ?n" by simp
  have h: "pseudo_header ip Udp k = pseudo_header (udp_ip_pair d) Udp k" for k
    by (simp add: pseudo_header_def assms)
  have e: "udp_encoding d = ?pre @ u16_to_be_bytes (if c = 0 then 0xFFFF else c) @ udp_payload d"
    by (simp add: udp_encoding_def udp_checksum_def udp_bytes_def c_def Let_def)
  have len: "length ?z \<le> ethernet_mtu" using assms(1) by (simp only: n)
  show ?thesis
  proof (cases "c = 0")
    case True
    have "pseudo_hdr_cksum (?pre @ u16_to_be_bytes 0xFFFF @ udp_payload d) ip Udp = Inr 0"
      by (rule pseudo_cksum_verifies_ffff [of _ _ _ _ "udp_ip_pair d"])
        (use len True in \<open>simp_all only: n h c_def\<close>, simp)
    with True show ?thesis by (simp add: e)
  next
    case False
    have "pseudo_hdr_cksum (?pre @ u16_to_be_bytes c @ udp_payload d) ip Udp = Inr 0"
      by (rule pseudo_cksum_verifies [of _ _ _ _ "udp_ip_pair d"])
        (use len in \<open>simp_all only: n h c_def\<close>, simp)
    with False show ?thesis by (simp add: e)
  qed
qed

lemma parse_udp_encoding:
  assumes "8 + length (udp_payload d) \<le> ethernet_mtu"
    and "ip_src ip = ip_src (udp_ip_pair d)" "ip_dst ip = ip_dst (udp_ip_pair d)"
  shows "parse_udp (udp_encoding d) ip =
    Inr (UdpDatagram ip (PortPair (port_src (udp_ports d)) (port_dst (udp_ports d))) (udp_payload d))"
proof -
  obtain s1 s2 where s: "u16_to_be_bytes (port_src (udp_ports d)) = [s1, s2]"
    using iffD1 [OF length_eq_2_conv length_u16_to_be_bytes] by blast
  obtain d1 d2 where d: "u16_to_be_bytes (port_dst (udp_ports d)) = [d1, d2]"
    using iffD1 [OF length_eq_2_conv length_u16_to_be_bytes] by blast
  obtain l1 l2 where l: "u16_to_be_bytes (word_of_nat (8 + length (udp_payload d))) = [l1, l2]"
    using iffD1 [OF length_eq_2_conv length_u16_to_be_bytes] by blast
  obtain c1 c2 where c: "u16_to_be_bytes (udp_checksum d) = [c1, c2]"
    using iffD1 [OF length_eq_2_conv length_u16_to_be_bytes] by blast
  have e: "udp_encoding d = [s1, s2, d1, d2, l1, l2, c1, c2] @ udp_payload d"
    using l by (simp add: udp_encoding_def udp_bytes_def s d c)
  have f: "u16_from_be_bytes [s1, s2] = port_src (udp_ports d)"
    "u16_from_be_bytes [d1, d2] = port_dst (udp_ports d)"
    "u16_from_be_bytes [c1, c2] = udp_checksum d"
    by (metis s u16_from_to_be, metis d u16_from_to_be, metis c u16_from_to_be)
  have t: "take 8 (udp_encoding d) = [s1, s2, d1, d2, l1, l2, c1, c2]"
    "drop 8 (udp_encoding d) = udp_payload d"
    by (simp_all add: e)
  show ?thesis
    unfolding parse_udp_def Let_def t
    by (simp add: f udp_checksum_nonzero udp_encoding_verifies [OF assms])
qed

text \<open>
  C32: Whatever an application answers to a datagram goes back, from the addressed port to the
  sending one, and can be read by the sender: for an answer of up to 1492 bytes, writing succeeds
  in any buffer with room, and a receiver that checks the checksum accepts the bytes and reads
  exactly the application's answer. The stored checksum is never the 0 that would mean "not
  computed".
\<close>

theorem udp_reply_delivers:
  assumes "create_udp_reply ops app d = (app', r)"
    and "8 + length (udp_payload r) \<le> ethernet_mtu" and "8 + length (udp_payload r) \<le> length buf"
  shows "(app', udp_payload r) = handle_udp ops app (udp_payload d) \<and>
    write_udp r buf = Inr (udp_encoding r @ drop (8 + length (udp_payload r)) buf) \<and>
    take 2 (drop 6 (udp_encoding r)) \<noteq> [0, 0] \<and>
    parse_udp (udp_encoding r) (Ipv4AddrPair (ip_dst (udp_ip_pair d)) (ip_src (udp_ip_pair d))) =
      Inr (UdpDatagram (Ipv4AddrPair (ip_dst (udp_ip_pair d)) (ip_src (udp_ip_pair d)))
        (PortPair (port_dst (udp_ports d)) (port_src (udp_ports d)))
        (snd (handle_udp ops app (udp_payload d))))"
proof -
  have r: "r = UdpDatagram (ip_swapped (udp_ip_pair d)) (port_swapped (udp_ports d))
      (snd (handle_udp ops app (udp_payload d)))" "(app', udp_payload r) = handle_udp ops app (udp_payload d)"
    using assms(1) by (auto simp: create_udp_reply_def split: prod.splits)
  have "take 2 (drop 6 (udp_encoding r)) = u16_to_be_bytes (udp_checksum r)"
    by (simp add: udp_encoding_def udp_bytes_def)
  then have "take 2 (drop 6 (udp_encoding r)) \<noteq> [0, 0]"
    by (metis u16_from_to_be u16_to_be_bytes_0 udp_checksum_nonzero)
  moreover have "udp_payload r = snd (handle_udp ops app (udp_payload d))"
    using r(1) by simp
  ultimately show ?thesis
    using write_udp_fits [OF assms(3,2)] r
      parse_udp_encoding [OF assms(2), of "Ipv4AddrPair (ip_dst (udp_ip_pair d)) (ip_src (udp_ip_pair d))"]
    by (simp add: ip_swapped_def port_swapped_def)
qed

theorem udp_reply_delivers_witness:
  "parse_udp (udp_encoding (snd (create_udp_reply shouting_test_app ()
       (UdpDatagram (Ipv4AddrPair (Ipv4Addr 10 0 0 2) (Ipv4Addr 10 0 0 1)) (PortPair 1234 53) [0x68, 0x69]))))
     (Ipv4AddrPair (Ipv4Addr 10 0 0 1) (Ipv4Addr 10 0 0 2)) =
   Inr (UdpDatagram (Ipv4AddrPair (Ipv4Addr 10 0 0 1) (Ipv4Addr 10 0 0 2)) (PortPair 53 1234) [0x48, 0x49])"
proof -
  define d :: "dir_in udp_datagram" where
    "d = UdpDatagram (Ipv4AddrPair (Ipv4Addr 10 0 0 2) (Ipv4Addr 10 0 0 1)) (PortPair 1234 53) [0x68, 0x69]"
  define r where "r = snd (create_udp_reply shouting_test_app () d)"
  have "create_udp_reply shouting_test_app () d = ((), r)" by (simp add: r_def prod_eq_iff)
  moreover have "8 + length (udp_payload r) \<le> ethernet_mtu" "8 + length (udp_payload r) \<le> length (replicate 10 (0 :: u8))"
    by (simp_all add: r_def d_def create_udp_reply_def shouting_test_app_def)
  ultimately show ?thesis
    using udp_reply_delivers [of shouting_test_app "()" d "()" r "replicate 10 0"]
    by (simp add: r_def d_def shouting_test_app_def to_ascii_uppercase_def)
qed

end
