(* ===== verification/Seq_Space.thy ===== *)
theory Seq_Space
  imports Addr_Pairs Utils
begin

text \<open>
  \<open>stack/src/protocol/tcp/seq_space.rs\<close>: points in TCP sequence number space and offsets between
  them, tagged with the direction of the stream they belong to. A point wraps modulo \<open>2 ^ 32\<close>; the
  difference of two points is a signed 32-bit number, kept as the integer it denotes.

  \<open>ahead a b\<close> is how far \<open>b\<close> lies ahead of \<open>a\<close> going round the circle. The comparisons of the source
  are intervals of it, and this is the form in which the TCP theories use them.
\<close>

datatype 'd seq_point = SeqPoint (wrapping: u32)

datatype ('t, 'd) seq_offset = SeqOffset (offset: 't)

type_synonym i32 = int

definition seq_to_be_bytes :: "'d seq_point \<Rightarrow> bytes" where
  "seq_to_be_bytes self = u32_to_be_bytes (wrapping self)"

definition seq_add :: "'d seq_point \<Rightarrow> (u32, 'd) seq_offset \<Rightarrow> 'd seq_point" where
  "seq_add self rhs = SeqPoint (wrapping self + offset rhs)"

definition seq_sub :: "'d seq_point \<Rightarrow> 'd seq_point \<Rightarrow> (i32, 'd) seq_offset" where
  "seq_sub self rhs = SeqOffset (sint (wrapping self - wrapping rhs))"

definition precedes :: "'d seq_point \<Rightarrow> 'd seq_point \<Rightarrow> bool" where
  "precedes self other \<longleftrightarrow> offset (seq_sub self other) < 0"

definition precedes_or_eq :: "'d seq_point \<Rightarrow> 'd seq_point \<Rightarrow> bool" where
  "precedes_or_eq self other \<longleftrightarrow> self = other \<or> precedes self other"

definition in_window :: "'d seq_point \<Rightarrow> 'd seq_point \<Rightarrow> (u32, 'd) seq_offset \<Rightarrow> bool" where
  "in_window self wnd_start wnd_len \<longleftrightarrow>
     precedes_or_eq wnd_start self \<and> precedes self (seq_add wnd_start wnd_len)"

text \<open>The conversions between offsets: \<open>From\<close> and \<open>TryFrom\<close> of the source.\<close>

definition offset_u32_from_u16 :: "(u16, 'd) seq_offset \<Rightarrow> (u32, 'd) seq_offset" where
  "offset_u32_from_u16 value = SeqOffset (ucast (offset value))"

definition offset_from_len :: "u16 \<Rightarrow> (u32, 'd) seq_offset" where
  "offset_from_len value = SeqOffset (ucast value)"

definition offset_to_be_bytes :: "(u16, 'd) seq_offset \<Rightarrow> bytes" where
  "offset_to_be_bytes self = u16_to_be_bytes (offset self)"

definition usize_from_offset :: "(u16, 'd) seq_offset \<Rightarrow> nat" where
  "usize_from_offset value = unat (offset value)"

definition usize_try_from_offset :: "(i32, 'd) seq_offset \<Rightarrow> nat result" where
  "usize_try_from_offset value =
     (if offset value < 0 then Inl (Err TryFromInt) else Inr (nat (offset value)))"

section \<open>Going round the circle\<close>

definition ahead :: "'d seq_point \<Rightarrow> 'd seq_point \<Rightarrow> nat" where
  "ahead a b = unat (wrapping b - wrapping a)"

named_theorems seq_simps \<open>comparisons in sequence number space as distances\<close>

lemma ahead_bound [simp]: "ahead a b < 4294967296"
  by (simp add: ahead_def)

lemma ahead_self [simp]: "ahead a a = 0"
  by (simp add: ahead_def)

lemma ahead_eq_0 [simp]: "ahead a b = 0 \<longleftrightarrow> a = b"
  by (cases a; cases b) (auto simp: ahead_def unat_eq_0)

lemma unat_minus_u32: "unat (- x :: u32) = (if x = 0 then 0 else 4294967296 - unat x)"
proof (cases "x = 0")
  case False
  have "unat (x + - x) = (unat x + unat (- x)) mod 4294967296"
    by (simp only: unat_word_ariths) simp
  then have 0: "(unat x + unat (- x)) mod 4294967296 = 0" by simp
  have "0 < unat x" using False by (simp add: unat_gt_0)
  moreover have "unat x < 4294967296" "unat (- x) < 4294967296" by (rule unat_u32_bound)+
  ultimately have "unat x + unat (- x) = 4294967296"
    using 0 mod_less [of "unat x + unat (- x)" 4294967296]
      le_mod_geq [of 4294967296 "unat x + unat (- x)"]
      mod_less [of "unat x + unat (- x) - 4294967296" 4294967296]
    by (cases "unat x + unat (- x) < 4294967296") linarith+
  with False show ?thesis by simp
qed simp

lemma unat_sub_chain: "unat (x - z :: u32) = (unat (y - z) + unat (x - y)) mod 4294967296"
proof -
  have "unat ((y - z) + (x - y)) = (unat (y - z) + unat (x - y)) mod 4294967296"
    by (simp only: unat_word_ariths) simp
  then show ?thesis by simp
qed

lemma ahead_swap: "ahead b a = (if a = b then 0 else 4294967296 - ahead a b)"
proof (cases "a = b")
  case False
  then have "wrapping b - wrapping a \<noteq> 0" by (cases a; cases b) simp
  then show ?thesis
    using False unat_minus_u32 [of "wrapping b - wrapping a"] by (simp add: ahead_def)
qed simp

lemma ahead_trans: "ahead a c = (ahead a b + ahead b c) mod 4294967296"
  unfolding ahead_def by (rule unat_sub_chain)

lemma ahead_add: "ahead a (seq_add b n) = (ahead a b + unat (offset n)) mod 4294967296"
  using ahead_trans [of a "seq_add b n" b] by (simp add: ahead_def seq_add_def)

lemma ahead_self_add [simp]: "ahead a (seq_add a n) = unat (offset n)"
  by (simp add: ahead_def seq_add_def)

lemma uint_u32_bound [simp]: "uint (w :: u32) < 4294967296"
  using unsigned_less [of w] by simp

lemma sint_u32: "sint (x :: u32) = (if unat x < 2147483648 then int (unat x) else int (unat x) - 4294967296)"
proof -
  define n where "n = int (unat x)"
  have n: "0 \<le> n" "n < 4294967296" using unat_u32_bound [of x] by (simp_all add: n_def)
  have "sint x = (n + 2147483648) mod 4294967296 - 2147483648"
    by (simp add: n_def sint_uint signed_take_bit_eq_take_bit_shift take_bit_eq_mod)
  also have "(n + 2147483648) mod 4294967296 =
      (if n < 2147483648 then n + 2147483648 else n - 2147483648)"
  proof (cases "n < 2147483648")
    case True
    then show ?thesis using n by (simp add: mod_pos_pos_trivial)
  next
    case False
    have "(n - 2147483648 + 4294967296) mod 4294967296 = (n - 2147483648) mod 4294967296"
      by (rule mod_add_self2)
    moreover have "(n - 2147483648) mod 4294967296 = n - 2147483648"
      using False n by (intro mod_pos_pos_trivial) linarith+
    ultimately show ?thesis using False by (simp add: algebra_simps)
  qed
  finally have "sint x = (if n < 2147483648 then n else n - 4294967296)" by simp
  moreover have "n < 2147483648 \<longleftrightarrow> unat x < 2147483648" unfolding n_def by linarith
  ultimately show ?thesis by (simp only: n_def)
qed

lemma precedes_iff [seq_simps]: "precedes a b \<longleftrightarrow> 0 < ahead a b \<and> ahead a b \<le> 2147483648"
proof -
  have "precedes a b \<longleftrightarrow> 2147483648 \<le> ahead b a"
    using ahead_bound [of b a] unfolding precedes_def seq_sub_def seq_offset.sel sint_u32 ahead_def
    by (simp add: not_less)
  also have "\<dots> \<longleftrightarrow> a \<noteq> b \<and> ahead a b \<le> 2147483648"
    unfolding ahead_swap [of b a] using ahead_bound [of a b] by (auto simp: le_diff_conv2)
  finally show ?thesis using ahead_eq_0 [of a b] by (auto simp only: neq0_conv [symmetric])
qed

lemma precedes_self [simp]: "\<not> precedes a a"
  by (simp add: precedes_iff)

lemma precedes_or_eq_self [simp]: "precedes_or_eq a a"
  by (simp add: precedes_or_eq_def)

lemma precedes_or_eq_iff [seq_simps]: "precedes_or_eq a b \<longleftrightarrow> ahead a b \<le> 2147483648"
proof (cases "a = b")
  case False
  then have "0 < ahead a b" by (simp only: neq0_conv [symmetric] ahead_eq_0 not_False_eq_True)
  with False show ?thesis by (simp add: precedes_or_eq_def precedes_iff)
qed (simp add: precedes_or_eq_def)

lemma in_window_iff [seq_simps]:
  assumes "0 < unat (offset len)" and "unat (offset len) \<le> 2147483648"
  shows "in_window p s len \<longleftrightarrow> ahead s p < unat (offset len)"
proof (cases "s = p")
  case True
  then show ?thesis using assms by (simp add: in_window_def precedes_iff precedes_or_eq_iff)
next
  case False
  define k where "k = ahead s p"
  define n where "n = unat (offset len)"
  have k: "0 < k" "k < 4294967296"
    using False by (simp_all add: k_def flip: neq0_conv)
  have ps: "ahead p s = 4294967296 - k"
    using False ahead_swap [of p s] by (simp add: k_def)
  have m: "ahead p (seq_add s len) = (4294967296 - k + n) mod 4294967296"
    unfolding ahead_add ps n_def ..
  have "(4294967296 - k + n) mod 4294967296 = (if k \<le> n then n - k else 4294967296 - k + n)"
  proof (cases "k \<le> n")
    case True
    then have "4294967296 - k + n = n - k + 4294967296" using k by linarith
    moreover have "(n - k + 4294967296) mod 4294967296 = (n - k) mod 4294967296" by (rule mod_add_self2)
    moreover have "(n - k) mod 4294967296 = n - k" using assms(2) by (intro mod_less) (simp add: n_def)
    ultimately show ?thesis using True by simp
  next
    case False
    then show ?thesis using k by (intro trans [OF mod_less]) simp_all
  qed
  then have "in_window p s len \<longleftrightarrow>
      k \<le> 2147483648 \<and> 0 < (if k \<le> n then n - k else 4294967296 - k + n) \<and>
      (if k \<le> n then n - k else 4294967296 - k + n) \<le> 2147483648"
    by (simp add: in_window_def precedes_iff precedes_or_eq_iff m k_def [symmetric])
  also have "\<dots> \<longleftrightarrow> k < n"
    using k assms by (auto simp: n_def [symmetric])
  finally show ?thesis by (simp add: k_def n_def)
qed

lemma usize_try_from_sub:
  "usize_try_from_offset (seq_sub b a) =
     (if ahead a b < 2147483648 then Inr (ahead a b) else Inl (Err TryFromInt))"
  using ahead_bound [of a b]
  unfolding usize_try_from_offset_def seq_sub_def seq_offset.sel sint_u32 ahead_def
  by (simp add: not_less)

section \<open>Properties\<close>

text \<open>The point at a position of an unbounded stream.\<close>

definition seq_at :: "int \<Rightarrow> 'd seq_point" where
  "seq_at n = SeqPoint (of_int n)"

lemma ahead_seq_at: "ahead (seq_at m :: 'a seq_point) (seq_at n) = nat ((n - m) mod 4294967296)"
proof -
  have "int (ahead (seq_at m :: 'a seq_point) (seq_at n)) = uint (of_int (n - m) :: u32)"
    by (simp add: ahead_def seq_at_def)
  also have "\<dots> = (n - m) mod 4294967296"
    by (simp only: uint_word_of_int_eq take_bit_eq_mod) simp
  finally show ?thesis by linarith
qed

lemma ahead_seq_at_less:
  assumes "m \<le> n" and "n < m + 4294967296"
  shows "ahead (seq_at m) (seq_at n) = nat (n - m)"
  unfolding ahead_seq_at using assms by (simp add: mod_pos_pos_trivial)

lemma seq_at_order:
  assumes "\<bar>x - y\<bar> < 2147483648"
  shows "(precedes (seq_at x :: 'd seq_point) (seq_at y) \<longleftrightarrow> x < y) \<and>
    (precedes_or_eq (seq_at x :: 'd seq_point) (seq_at y) \<longleftrightarrow> x \<le> y) \<and>
    (seq_at x = (seq_at y :: 'd seq_point) \<longleftrightarrow> x = y)"
proof (cases "x \<le> y")
  case True
  then have "ahead (seq_at x :: 'd seq_point) (seq_at y) = nat (y - x)"
    using assms by (intro ahead_seq_at_less) simp_all
  then show ?thesis
    using True assms ahead_eq_0 [of "seq_at x :: 'd seq_point" "seq_at y"]
    by (auto simp: precedes_iff precedes_or_eq_iff)
next
  case False
  then have a: "ahead (seq_at y :: 'd seq_point) (seq_at x) = nat (x - y)"
    using assms by (intro ahead_seq_at_less) simp_all
  have ne: "seq_at y \<noteq> (seq_at x :: 'd seq_point)"
  proof
    assume "seq_at y = (seq_at x :: 'd seq_point)"
    then have "ahead (seq_at y) (seq_at x :: 'd seq_point) = 0" by simp
    with False show False using a by simp
  qed
  have "ahead (seq_at x :: 'd seq_point) (seq_at y) = 4294967296 - nat (x - y)"
    using a ne ahead_swap [of "seq_at x :: 'd seq_point" "seq_at y"] by simp
  then show ?thesis
    using False assms ne by (auto simp: precedes_iff precedes_or_eq_iff)
qed

lemma seq_add_seq_at: "seq_add (seq_at n) d = seq_at (n + int (unat (offset d)))"
  by (simp add: seq_add_def seq_at_def)

text \<open>
  Two stream positions less than \<open>2 ^ 31\<close> apart are compared as the numbers they are,
  wherever the 32-bit space wraps between them.
\<close>

theorem precedes_is_stream_order:
  assumes "\<bar>x - y\<bar> < 2147483648"
  shows "(precedes (seq_at x :: 'd seq_point) (seq_at y) \<longleftrightarrow> x < y) \<and>
    (precedes_or_eq (seq_at x :: 'd seq_point) (seq_at y) \<longleftrightarrow> x \<le> y) \<and>
    (seq_at x = (seq_at y :: 'd seq_point) \<longleftrightarrow> x = y)"
  using assms by (rule seq_at_order)

theorem precedes_is_stream_order_witness:
  "precedes (seq_at 4294967295 :: dir_in seq_point) (seq_at 4294967297)"
  using precedes_is_stream_order [of 4294967295 4294967297, where 'd = dir_in] by simp

text \<open>
  The window test is exact for every window the stack uses: a point is in the window of
  length \<open>n\<close> at \<open>s\<close> iff it is one of the points \<open>s, s + 1, ..., s + n - 1\<close>, also where the window
  wraps.
\<close>

theorem in_window_exact:
  assumes "0 < n" and "n \<le> 2147483648"
  shows "in_window p s (SeqOffset (word_of_nat n)) \<longleftrightarrow> (\<exists>k < n. p = seq_add s (SeqOffset (word_of_nat k)))"
proof -
  have n: "unat (word_of_nat n :: u32) = n" using assms by (intro unat_of_nat_small) simp
  have "in_window p s (SeqOffset (word_of_nat n)) \<longleftrightarrow> ahead s p < n"
    using assms n by (subst in_window_iff) simp_all
  also have "\<dots> \<longleftrightarrow> (\<exists>k < n. p = seq_add s (SeqOffset (word_of_nat k)))"
  proof
    assume "ahead s p < n"
    moreover have "p = seq_add s (SeqOffset (word_of_nat (ahead s p)))"
      by (cases p; cases s) (simp add: seq_add_def ahead_def)
    ultimately show "\<exists>k < n. p = seq_add s (SeqOffset (word_of_nat k))" by blast
  next
    assume "\<exists>k < n. p = seq_add s (SeqOffset (word_of_nat k))"
    then obtain k where k: "k < n" "p = seq_add s (SeqOffset (word_of_nat k))" by blast
    then have "unat (word_of_nat k :: u32) = k" using assms by (intro unat_of_nat_small) simp
    with k show "ahead s p < n" by simp
  qed
  finally show ?thesis .
qed

theorem in_window_exact_witness:
  "in_window (SeqPoint 1) (SeqPoint 0xFFFFFFFF :: dir_in seq_point) (SeqOffset (word_of_nat 65535))"
proof -
  have "SeqPoint 1 = seq_add (SeqPoint 0xFFFFFFFF) (SeqOffset (word_of_nat 2)) \<and> (2 :: nat) < 65535"
    by (simp add: seq_add_def)
  then show ?thesis using in_window_exact [of 65535 "SeqPoint 1 :: dir_in seq_point" "SeqPoint 0xFFFFFFFF"] by fastforce
qed

text \<open>
  The order is antisymmetric everywhere except at antipodes: each of two points precedes the
  other exactly when they are \<open>2 ^ 31\<close> apart.
\<close>

theorem antipodes_precede_each_other:
  "precedes a b \<and> precedes b a \<longleftrightarrow> wrapping b = wrapping a + 0x80000000"
proof -
  have "precedes a b \<and> precedes b a \<longleftrightarrow> ahead a b = 2147483648"
    unfolding precedes_iff ahead_swap [of b a] by (auto simp: le_diff_conv2)
  also have "\<dots> \<longleftrightarrow> unat (wrapping b - wrapping a) = unat (0x80000000 :: u32)"
    by (simp add: ahead_def)
  also have "\<dots> \<longleftrightarrow> wrapping b = wrapping a + 0x80000000"
    unfolding word_unat_eq_iff [symmetric] by (auto simp: algebra_simps)
  finally show ?thesis .
qed

end
