(* ===== verification/Tcp_Payload.thy ===== *)
theory Tcp_Payload
  imports Seq_Space
begin

text \<open>
  The flags of a TCP segment (\<open>stack/src/protocol/tcp/flags.rs\<close>) and its payload
  (\<open>stack/src/protocol/tcp/payload.rs\<close>): a byte string with its length as a \<open>NonZeroU16\<close>.
\<close>

unbundle bit_operations_syntax

section \<open>Flags\<close>

datatype tcp_flags = Syn | SynAck | Ack | FinAck | Rst | RstAck

abbreviation (input) ack_bit :: u8 where "ack_bit \<equiv> 16"
abbreviation (input) rst_bit :: u8 where "rst_bit \<equiv> 4"
abbreviation (input) syn_bit :: u8 where "syn_bit \<equiv> 2"
abbreviation (input) fin_bit :: u8 where "fin_bit \<equiv> 1"

fun flags_to_u8 :: "tcp_flags \<Rightarrow> u8" where
  "flags_to_u8 Syn = syn_bit"
| "flags_to_u8 SynAck = syn_bit OR ack_bit"
| "flags_to_u8 Ack = ack_bit"
| "flags_to_u8 FinAck = fin_bit OR ack_bit"
| "flags_to_u8 Rst = rst_bit"
| "flags_to_u8 RstAck = rst_bit OR ack_bit"

definition show_bool :: "bool \<Rightarrow> string" where
  "show_bool b = (if b then ''true'' else ''false'')"

definition flags_try_from :: "u8 \<Rightarrow> tcp_flags result" where
  "flags_try_from value =
     (let masked = value AND (ack_bit OR rst_bit OR syn_bit OR fin_bit) in
      if masked = syn_bit then Inr Syn
      else if masked = ack_bit then Inr Ack
      else if masked = rst_bit then Inr Rst
      else if masked = flags_to_u8 SynAck then Inr SynAck
      else if masked = flags_to_u8 FinAck then Inr FinAck
      else if masked = flags_to_u8 RstAck then Inr RstAck
      else Inl (Err (Dynamic (''Invalid TCP flag combination: ACK='' @ show_bool (masked AND ack_bit \<noteq> 0) @
        '' RST='' @ show_bool (masked AND rst_bit \<noteq> 0) @
        '' SYN='' @ show_bool (masked AND syn_bit \<noteq> 0) @
        '' FIN='' @ show_bool (masked AND fin_bit \<noteq> 0)))))"

lemma flags_roundtrip [simp]: "flags_try_from (flags_to_u8 f) = Inr f"
  by (cases f) (simp_all add: flags_try_from_def)

lemma flags_try_from_no_panic: "flags_try_from b \<noteq> Inl Panic"
  by (simp add: flags_try_from_def Let_def)

text \<open>The bits the program does not consider (CWR, ECE, URG, PSH) make no difference.\<close>

lemma flags_mask_irrelevant: "flags_try_from (b OR (c AND 0xE8)) = flags_try_from b"
proof -
  have "(b OR (c AND 0xE8)) AND (ack_bit OR rst_bit OR syn_bit OR fin_bit) =
      b AND (ack_bit OR rst_bit OR syn_bit OR fin_bit)"
  proof -
    have "(c AND 0xE8) AND 0x17 = (c AND (0xE8 AND 0x17 :: u8))"
      by (simp only: and.assoc)
    also have "\<dots> = 0" by simp
    finally show ?thesis by (simp add: bit.conj_disj_distrib2 and.assoc)
  qed
  then show ?thesis by (simp only: flags_try_from_def)
qed

section \<open>Payloads\<close>

record tcp_payload =
  payload_data :: bytes
  payload_len :: u16

definition payload_wf :: "tcp_payload \<Rightarrow> bool" where
  "payload_wf p \<longleftrightarrow> length (payload_data p) = unat (payload_len p) \<and> payload_len p \<noteq> 0"

text \<open>\<open>len_or_default\<close> at the types the program uses it with: \<open>u16\<close> and \<open>SeqOffset<u32, _>\<close>.\<close>

definition len_or_default_u16 :: "tcp_payload option \<Rightarrow> u16" where
  "len_or_default_u16 self = (case self of None \<Rightarrow> 0 | Some p \<Rightarrow> payload_len p)"

definition len_or_default_offset :: "tcp_payload option \<Rightarrow> (u32, 'd) seq_offset" where
  "len_or_default_offset self =
     (case self of None \<Rightarrow> SeqOffset 0 | Some p \<Rightarrow> offset_from_len (payload_len p))"

definition try_from_iter :: "bytes \<Rightarrow> tcp_payload option result" where
  "try_from_iter iter =
     (case iter of
        [] \<Rightarrow> Inr None
      | first # it \<Rightarrow>
          let data = first # it in
          and_then
            (map_err
              (\<lambda>_. Static ''Attempted to create a `TcpPayload` from an iterator longer than `u16::MAX`'')
              (u16_try_from (length data))) (\<lambda>maybe_zero_len.
          Inr (if maybe_zero_len = 0 then None
               else Some \<lparr>payload_data = data, payload_len = maybe_zero_len\<rparr>)))"

abbreviation payload_opt_wf :: "tcp_payload option \<Rightarrow> bool" where
  "payload_opt_wf p \<equiv> pred_option payload_wf p"

definition payload_bytes :: "tcp_payload option \<Rightarrow> bytes" where
  "payload_bytes p = (case p of None \<Rightarrow> [] | Some q \<Rightarrow> payload_data q)"

lemma payload_bytes_simps [simp]: "payload_bytes None = []" "payload_bytes (Some p) = payload_data p"
  by (simp_all add: payload_bytes_def)

lemma payload_wf_nonempty: "payload_wf p \<Longrightarrow> payload_data p \<noteq> []"
  by (auto simp: payload_wf_def unat_eq_0)

lemma payload_wf_len: "payload_wf p \<Longrightarrow> unat (payload_len p) = length (payload_data p)"
  by (simp add: payload_wf_def)

lemma payload_wf_bound: "payload_wf p \<Longrightarrow> length (payload_data p) < 65536"
  by (simp add: payload_wf_def)

lemma payload_eqI:
  "payload_wf p \<Longrightarrow> payload_wf q \<Longrightarrow> payload_data p = payload_data q \<Longrightarrow> p = q"
  by (cases p; cases q) (auto simp: payload_wf_def word_unat_eq_iff)

lemma unat_len_or_default_u16: "payload_opt_wf p \<Longrightarrow> unat (len_or_default_u16 p) = length (payload_bytes p)"
  by (cases p) (simp_all add: len_or_default_u16_def payload_wf_len)

lemma unat_offset_from_len [simp]: "unat (offset (offset_from_len n)) = unat n"
  by (simp add: offset_from_len_def unat_ucast_small order_less_trans [OF unat_u16_bound])

lemma unat_len_or_default_offset:
  "payload_opt_wf p \<Longrightarrow> unat (offset (len_or_default_offset p)) = length (payload_bytes p)"
  by (cases p) (simp_all add: len_or_default_offset_def payload_wf_len)

text \<open>
  \<open>try_from_iter\<close> is total, total in particular on the empty iterator; what it builds satisfies
  the invariant of the type, so its \<open>NonZeroU16\<close> is the number of bytes.
\<close>

lemma try_from_iter_Nil [simp]: "try_from_iter [] = Inr None"
  by (simp add: try_from_iter_def)

lemma try_from_iter_fits:
  assumes "xs \<noteq> []" and "length xs < 65536"
  shows "try_from_iter xs = Inr (Some \<lparr>payload_data = xs, payload_len = word_of_nat (length xs)\<rparr>)"
proof -
  have "unat (word_of_nat (length xs) :: u16) = length xs"
    using assms(2) by (intro unat_of_nat_small) simp
  then have "word_of_nat (length xs) \<noteq> (0 :: u16)"
    using assms(1) by (metis length_0_conv unsigned_0)
  then show ?thesis
    using assms by (cases xs) (simp_all add: try_from_iter_def u16_try_from_def Let_def)
qed

lemma try_from_iter_bytes:
  assumes "length xs < 65536"
  shows "\<exists>p. try_from_iter xs = Inr p \<and> payload_bytes p = xs \<and> payload_opt_wf p"
proof (cases "xs = []")
  case False
  then show ?thesis
    using assms unat_of_nat_small [of "length xs", where 'a = 16]
    by (auto simp: try_from_iter_fits payload_wf_def unat_eq_0 [symmetric])
qed simp

lemma try_from_iter_Inr:
  assumes "try_from_iter xs = Inr p"
  shows "payload_bytes p = xs" and "payload_opt_wf p" and "length xs < 65536"
proof -
  show l: "length xs < 65536"
  proof (rule ccontr)
    assume "\<not> length xs < 65536"
    then show False
      using assms by (cases xs) (auto simp: try_from_iter_def u16_try_from_def Let_def)
  qed
  show "payload_bytes p = xs" and "payload_opt_wf p"
    using try_from_iter_bytes [OF l] assms by auto
qed

lemma try_from_iter_wf:
  assumes "payload_opt_wf p"
  shows "try_from_iter (payload_bytes p) = Inr p"
proof (cases p)
  case (Some q)
  then have "payload_wf q" using assms by simp
  then show ?thesis
    using Some try_from_iter_fits [of "payload_data q"] payload_wf_nonempty [of q]
    by (cases q) (simp add: payload_wf_def)
qed simp

lemma try_from_iter_no_panic: "try_from_iter xs \<noteq> Inl Panic"
  by (cases xs) (auto simp: try_from_iter_def u16_try_from_def Let_def)

end
