(* ===== verification/Tcp_Segment.thy ===== *)
theory Tcp_Segment
  imports Tcp_Payload Protocol
begin

text \<open>
  \<open>stack/src/protocol/tcp.rs\<close>: TCP segments, their parsing and writing, and the interpretation
  \<open>tcp\<close> of the trait \<open>Encode\<close>. \<open>inner_parse\<close> and \<open>inner_write_into\<close> are polymorphic in the
  direction as in the source; the first type argument of a segment is the direction it flows in,
  the second the reverse direction.
\<close>

unbundle bit_operations_syntax

abbreviation (input) tcp_hdr_min_len :: u8 where "tcp_hdr_min_len \<equiv> 20"

abbreviation (input) syn_byte_out :: "(u32, dir_out) seq_offset" where "syn_byte_out \<equiv> SeqOffset 1"
abbreviation (input) fin_byte_out :: "(u32, dir_out) seq_offset" where "fin_byte_out \<equiv> SeqOffset 1"
abbreviation (input) syn_byte_in :: "(u32, dir_in) seq_offset" where "syn_byte_in \<equiv> SeqOffset 1"
abbreviation (input) fin_byte_in :: "(u32, dir_in) seq_offset" where "fin_byte_in \<equiv> SeqOffset 1"

record ('d, 'r) tcp_segment =
  seg_ip_pair :: "'d ipv4_addr_pair"
  seg_ports :: "'d port_pair"
  seg_seq_num :: "'d seq_point"
  seg_ack_num :: "'r seq_point"
  seg_offset_bytes :: u8
  seg_flags :: tcp_flags
  seg_window :: "(u16, 'r) seq_offset"
  seg_payload :: "tcp_payload option"

type_synonym in_segment = "(dir_in, dir_out) tcp_segment"
type_synonym out_segment = "(dir_out, dir_in) tcp_segment"

definition inner_parse_tcp :: "bytes \<Rightarrow> 'd ipv4_addr_pair \<Rightarrow> ('d, 'r) tcp_segment result" where
  "inner_parse_tcp data ip_pair =
     (if length data < 20 then
        Inl (Err (Dynamic (''Too short for TCP header ('' @ show_nat (length data) @ '' bytes)'')))
      else
        let tcp_hdr = take 20 data in
        and_then (pseudo_hdr_cksum data ip_pair Tcp) (\<lambda>cksum.
        if cksum \<noteq> 0 then Inl (Err (Static ''Invalid TCP checksum''))
        else
          let offset_bytes = push_bit 2 (drop_bit 4 (tcp_hdr ! 12)) in
          and_then (flags_try_from (tcp_hdr ! 13)) (\<lambda>flags.
          and_then
            (try_from_iter (if unat offset_bytes \<le> length data then drop (unat offset_bytes) data else []))
            (\<lambda>payload.
          Inr \<lparr>seg_ip_pair = ip_pair,
               seg_ports = PortPair (u16_from_be_bytes [tcp_hdr ! 0, tcp_hdr ! 1])
                                    (u16_from_be_bytes [tcp_hdr ! 2, tcp_hdr ! 3]),
               seg_seq_num = SeqPoint (u32_from_be_bytes
                 [tcp_hdr ! 4, tcp_hdr ! 5, tcp_hdr ! 6, tcp_hdr ! 7]),
               seg_ack_num = SeqPoint (u32_from_be_bytes
                 [tcp_hdr ! 8, tcp_hdr ! 9, tcp_hdr ! 10, tcp_hdr ! 11]),
               seg_offset_bytes = offset_bytes,
               seg_flags = flags,
               seg_window = SeqOffset (u16_from_be_bytes [tcp_hdr ! 14, tcp_hdr ! 15]),
               seg_payload = payload\<rparr>))))"

abbreviation parse_tcp :: "bytes \<Rightarrow> dir_in ipv4_addr_pair \<Rightarrow> in_segment result" where
  "parse_tcp \<equiv> inner_parse_tcp"

definition inner_tcp_proto_len :: "('d, 'r) tcp_segment \<Rightarrow> u16 result" where
  "inner_tcp_proto_len self = try_add_u16 (ucast tcp_hdr_min_len) (len_or_default_u16 (seg_payload self))"

definition inner_write_into_tcp :: "('d, 'r) tcp_segment \<Rightarrow> bytes \<Rightarrow> bytes result" where
  "inner_write_into_tcp self buf =
     and_then (try_write (RangeTo 2) (u16_to_be_bytes (port_src (seg_ports self))) buf) (\<lambda>buf.
     and_then (try_write (Range 2 4) (u16_to_be_bytes (port_dst (seg_ports self))) buf) (\<lambda>buf.
     and_then (try_write (Range 4 8) (seq_to_be_bytes (seg_seq_num self)) buf) (\<lambda>buf.
     and_then (try_write (Range 8 12) (seq_to_be_bytes (seg_ack_num self)) buf) (\<lambda>buf.
     and_then (try_write_byte 12 (push_bit 4 (seg_offset_bytes self div 4)) buf) (\<lambda>buf.
     and_then (try_write_byte 13 (flags_to_u8 (seg_flags self)) buf) (\<lambda>buf.
     and_then (try_write (Range 14 16) (offset_to_be_bytes (seg_window self)) buf) (\<lambda>buf.
     and_then (try_write (Range 18 20) [0x00, 0x00] buf) (\<lambda>buf.
     and_then (inner_tcp_proto_len self) (\<lambda>tcp_len.
     and_then
       (case seg_payload self of
          None \<Rightarrow> Inr buf
        | Some payload \<Rightarrow>
            try_write (Range 20 (unat tcp_len)) (payload_data payload) buf) (\<lambda>buf.
     and_then (try_write (Range 16 18) [0x00, 0x00] buf) (\<lambda>buf.
     and_then (try_get buf (RangeTo (unat tcp_len))) (\<lambda>d.
     and_then (pseudo_hdr_cksum d (seg_ip_pair self) Tcp) (\<lambda>tcp_cksum.
     try_write (Range 16 18) (u16_to_be_bytes tcp_cksum) buf)))))))))))))"

abbreviation write_tcp :: "out_segment \<Rightarrow> bytes \<Rightarrow> bytes result" where
  "write_tcp \<equiv> inner_write_into_tcp"

abbreviation tcp_proto_len :: "out_segment \<Rightarrow> u16 result" where
  "tcp_proto_len \<equiv> inner_tcp_proto_len"

text \<open>The receive window the stack advertises in every segment.\<close>

abbreviation (input) rcv_wnd :: "(u16, dir_in) seq_offset" where "rcv_wnd \<equiv> SeqOffset 0xFFFF"

text \<open>The fields that differ when deciding on a segment to send (\<open>SendInfo\<close> in \<open>send_info.rs\<close>).\<close>

record send_info =
  info_seq_num :: "dir_out seq_point"
  info_ack_num :: "dir_in seq_point"
  info_flags :: tcp_flags
  info_payload :: "tcp_payload option"

definition from_pairs_and_info ::
    "dir_out ipv4_addr_pair \<Rightarrow> dir_out port_pair \<Rightarrow> send_info \<Rightarrow> out_segment" where
  "from_pairs_and_info ip_pair ports info =
     \<lparr>seg_ip_pair = ip_pair, seg_ports = ports, seg_seq_num = info_seq_num info, seg_ack_num = info_ack_num info,
      seg_offset_bytes = tcp_hdr_min_len, seg_flags = info_flags info, seg_window = rcv_wnd,
      seg_payload = info_payload info\<rparr>"

section \<open>The bytes of a segment\<close>

definition tcp_header_front :: "('d, 'r) tcp_segment \<Rightarrow> bytes" where
  "tcp_header_front s =
     u16_to_be_bytes (port_src (seg_ports s)) @ u16_to_be_bytes (port_dst (seg_ports s)) @
     seq_to_be_bytes (seg_seq_num s) @ seq_to_be_bytes (seg_ack_num s) @
     [push_bit 4 (seg_offset_bytes s div 4), flags_to_u8 (seg_flags s)] @
     offset_to_be_bytes (seg_window s)"

definition tcp_bytes :: "('d, 'r) tcp_segment \<Rightarrow> u16 \<Rightarrow> bytes" where
  "tcp_bytes s cksum =
     tcp_header_front s @ u16_to_be_bytes cksum @ ([0, 0] @ payload_bytes (seg_payload s))"

definition tcp_checksum :: "('d, 'r) tcp_segment \<Rightarrow> u16" where
  "tcp_checksum s =
     calculate (pseudo_header (seg_ip_pair s) Tcp (20 + length (payload_bytes (seg_payload s))) @ tcp_bytes s 0)"

definition tcp_encoding :: "('d, 'r) tcp_segment \<Rightarrow> bytes" where
  "tcp_encoding s = tcp_bytes s (tcp_checksum s)"

lemma length_seq_to_be_bytes [simp]: "length (seq_to_be_bytes p) = 4"
  by (simp add: seq_to_be_bytes_def)

lemma length_offset_to_be_bytes [simp]: "length (offset_to_be_bytes w) = 2"
  by (simp add: offset_to_be_bytes_def)

lemma length_tcp_header_front [simp]: "length (tcp_header_front s) = 16"
  by (simp add: tcp_header_front_def)

lemma length_tcp_bytes [simp]: "length (tcp_bytes s c) = 20 + length (payload_bytes (seg_payload s))"
  by (simp add: tcp_bytes_def)

lemma length_tcp_encoding [simp]: "length (tcp_encoding s) = 20 + length (payload_bytes (seg_payload s))"
  by (simp add: tcp_encoding_def)

definition segment_wf :: "('d, 'r) tcp_segment \<Rightarrow> bool" where
  "segment_wf s \<longleftrightarrow> payload_opt_wf (seg_payload s)"

lemma tcp_proto_len_fits:
  assumes "segment_wf s" and "20 + length (payload_bytes (seg_payload s)) < 65536"
  shows "inner_tcp_proto_len s = Inr (word_of_nat (20 + length (payload_bytes (seg_payload s))))"
proof -
  have l: "unat (len_or_default_u16 (seg_payload s)) = length (payload_bytes (seg_payload s))"
    using assms(1) by (simp add: segment_wf_def unat_len_or_default_u16)
  have "len_or_default_u16 (seg_payload s) = word_of_nat (unat (len_or_default_u16 (seg_payload s)))"
    by simp
  then have "len_or_default_u16 (seg_payload s) = word_of_nat (length (payload_bytes (seg_payload s)))"
    unfolding l .
  then show ?thesis
    using assms(2) l by (simp add: inner_tcp_proto_len_def try_add_u16_def)
qed

lemma tcp_proto_len_overflow:
  assumes "segment_wf s" and "65536 \<le> 20 + length (payload_bytes (seg_payload s))"
  shows "\<exists>e. inner_tcp_proto_len s = Inl (Err e)"
  using assms unat_len_or_default_u16 [of "seg_payload s"]
  by (simp add: inner_tcp_proto_len_def try_add_u16_def segment_wf_def)

lemma tcp_payload_write:
  assumes "20 + length (payload_bytes p) \<le> length buf" and "length known = 20"
  shows "(case p of None \<Rightarrow> Inr (patched known buf)
     | Some payload \<Rightarrow> try_write (Range 20 (20 + length (payload_bytes p))) (payload_data payload) (patched known buf)) =
    Inr (patched (known @ payload_bytes p) buf)"
  using assms by (cases p) (simp_all add: patch_simps)

lemma write_tcp_fits:
  assumes "segment_wf s" and "20 + length (payload_bytes (seg_payload s)) \<le> length buf"
    and "20 + length (payload_bytes (seg_payload s)) \<le> ethernet_mtu"
  shows "inner_write_into_tcp s buf =
    Inr (tcp_encoding s @ drop (20 + length (payload_bytes (seg_payload s))) buf)"
proof -
  let ?p = "payload_bytes (seg_payload s)"
  let ?n = "20 + length ?p"
  let ?front = "tcp_header_front s"
  define gap where "gap = take 2 (drop 16 buf)"
  define c where "c = tcp_checksum s"
  have len: "inner_tcp_proto_len s = Inr (word_of_nat ?n)" "unat (word_of_nat ?n :: u16) = ?n"
    using assms tcp_proto_len_fits [of s] unat_of_nat_small [of ?n, where 'a = 16] by simp_all
  have gap: "length gap = 2" "patched ?front buf = patched (?front @ gap) buf"
    using assms patched_skip [of ?front 2 buf] by (simp_all add: gap_def)
  have front: "inner_write_into_tcp s (patched [] buf) =
     and_then (try_write (Range 18 20) [0x00, 0x00] (patched (?front @ gap) buf)) (\<lambda>buf.
     and_then
       (case seg_payload s of
          None \<Rightarrow> Inr buf
        | Some payload \<Rightarrow> try_write (Range 20 ?n) (payload_data payload) buf) (\<lambda>buf.
     and_then (try_write (Range 16 18) [0x00, 0x00] buf) (\<lambda>buf.
     and_then (try_get buf (RangeTo ?n)) (\<lambda>d.
     and_then (pseudo_hdr_cksum d (seg_ip_pair s) Tcp) (\<lambda>tcp_cksum.
     try_write (Range 16 18) (u16_to_be_bytes tcp_cksum) buf)))))"
    unfolding gap(2) [symmetric]
    unfolding inner_write_into_tcp_def len and_then.simps tcp_header_front_def using assms(2)
    by (simp add: patch_simps len del: of_nat_add)
  have urgent: "try_write (Range 18 20) [0, 0] (patched (?front @ gap) buf) =
      Inr (patched ((?front @ gap) @ [0, 0]) buf)"
    using assms gap(1) by (intro try_write_patched) simp_all
  have body: "(case seg_payload s of
          None \<Rightarrow> Inr (patched ((?front @ gap) @ [0, 0]) buf)
        | Some payload \<Rightarrow> try_write (Range 20 ?n) (payload_data payload) (patched ((?front @ gap) @ [0, 0]) buf)) =
      Inr (patched (?front @ gap @ ([0, 0] @ ?p)) buf)"
    using tcp_payload_write [of "seg_payload s" buf "(?front @ gap) @ [0, 0]"] assms gap(1) by simp
  have zero: "try_write (Range 16 18) [0, 0] (patched (?front @ gap @ ([0, 0] @ ?p)) buf) =
      Inr (patched (?front @ [0, 0] @ ([0, 0] @ ?p)) buf)"
    using assms gap(1) by (intro try_rewrite_patched) simp_all
  have read: "try_get (patched (?front @ [0, 0] @ ([0, 0] @ ?p)) buf) (RangeTo ?n) = Inr (tcp_bytes s 0)"
    using assms by (subst try_get_patched) (simp_all add: tcp_bytes_def)
  have cksum: "pseudo_hdr_cksum (tcp_bytes s 0) (seg_ip_pair s) Tcp = Inr c"
    using assms by (subst pseudo_hdr_cksum_fits) (simp_all add: c_def tcp_checksum_def)
  have final: "try_write (Range 16 18) (u16_to_be_bytes c) (patched (?front @ [0, 0] @ ([0, 0] @ ?p)) buf) =
      Inr (patched (?front @ u16_to_be_bytes c @ ([0, 0] @ ?p)) buf)"
    using assms by (intro try_rewrite_patched) simp_all
  have "inner_write_into_tcp s buf = inner_write_into_tcp s (patched [] buf)"
    by (simp add: patched_Nil)
  also have "\<dots> = Inr (patched (?front @ u16_to_be_bytes c @ ([0, 0] @ ?p)) buf)"
    unfolding front urgent and_then.simps body zero read cksum final ..
  also have "\<dots> = Inr (patched (tcp_encoding s) buf)"
    by (simp add: tcp_encoding_def tcp_bytes_def c_def)
  finally show ?thesis by (simp add: patched_def)
qed

lemma write_tcp_too_short:
  assumes "segment_wf s" and "length buf < 20 + length (payload_bytes (seg_payload s))"
  shows "\<exists>e. inner_write_into_tcp s buf = Inl (Err e)"
proof -
  have patch: "inner_write_into_tcp s buf = inner_write_into_tcp s (patched [] buf)"
    by (simp add: patched_Nil)
  let ?p = "payload_bytes (seg_payload s)"
  consider "length buf < 2" | "2 \<le> length buf" "length buf < 4" | "4 \<le> length buf" "length buf < 8"
    | "8 \<le> length buf" "length buf < 12" | "length buf = 12" | "length buf = 13"
    | "14 \<le> length buf" "length buf < 16" | "16 \<le> length buf" "length buf < 20"
    | "20 \<le> length buf" by linarith
  then show ?thesis
  proof cases
    case 9
    let ?front = "tcp_header_front s"
    define known where "known = (?front @ take 2 (drop 16 buf)) @ [0, 0]"
    have known: "length known = 20" using 9 by (simp add: known_def)
    have "patched ?front buf = patched (?front @ take 2 (drop 16 buf)) buf"
      using 9 patched_skip [of ?front 2 buf] by simp
    then have "try_write (Range 18 20) [0, 0] (patched ?front buf) = Inr (patched known buf)"
      using 9 try_write_patched [of "?front @ take 2 (drop 16 buf)" 18 20 buf "[0, 0]"]
      by (simp add: known_def)
    then have *: "inner_write_into_tcp s buf =
     and_then (inner_tcp_proto_len s) (\<lambda>tcp_len.
     and_then
       (case seg_payload s of
          None \<Rightarrow> Inr (patched known buf)
        | Some payload \<Rightarrow>
            try_write (Range 20 (unat tcp_len)) (payload_data payload) (patched known buf)) (\<lambda>buf.
     and_then (try_write (Range 16 18) [0x00, 0x00] buf) (\<lambda>buf.
     and_then (try_get buf (RangeTo (unat tcp_len))) (\<lambda>d.
     and_then (pseudo_hdr_cksum d (seg_ip_pair s) Tcp) (\<lambda>tcp_cksum.
     try_write (Range 16 18) (u16_to_be_bytes tcp_cksum) buf)))))"
      unfolding patch unfolding inner_write_into_tcp_def tcp_header_front_def using 9
      by (simp add: patch_simps)
    show ?thesis
    proof (cases "20 + length ?p < 65536")
      case True
      then have len: "inner_tcp_proto_len s = Inr (word_of_nat (20 + length ?p))"
        "unat (word_of_nat (20 + length ?p) :: u16) = 20 + length ?p"
        using assms(1) tcp_proto_len_fits [of s] unat_of_nat_small [of "20 + length ?p", where 'a = 16]
        by simp_all
      from 9 assms(2) obtain q where q: "seg_payload s = Some q"
        by (cases "seg_payload s") simp_all
      have "\<exists>e. try_write (Range 20 (20 + length ?p)) (payload_data q) (patched known buf) = Inl (Err e)"
        using known 9 assms(2) by (simp add: patch_simps)
      then show ?thesis unfolding * len and_then.simps using q by auto
    next
      case False
      then show ?thesis unfolding * using tcp_proto_len_overflow [OF assms(1)] by auto
    qed
  qed (unfold patch, simp_all add: inner_write_into_tcp_def patch_simps)
qed

abbreviation tcp_proto :: "out_segment \<Rightarrow> protocol" where "tcp_proto \<equiv> \<lambda>_. Tcp"

interpretation tcp: encode segment_wf tcp_encoding write_tcp tcp_proto seg_ip_pair tcp_proto_len
proof unfold_locales
  fix x :: out_segment and buf
  assume wf: "segment_wf x"
  show "length (tcp_encoding x) \<le> length buf \<Longrightarrow> length (tcp_encoding x) \<le> ethernet_mtu \<Longrightarrow>
      write_tcp x buf = Inr (tcp_encoding x @ drop (length (tcp_encoding x)) buf)"
    using write_tcp_fits [OF wf, of buf] by simp
  show "length buf < length (tcp_encoding x) \<Longrightarrow> \<exists>e. write_tcp x buf = Inl (Err e)"
    using write_tcp_too_short [OF wf, of buf] by simp
  show "length (tcp_encoding x) < 65536 \<Longrightarrow>
      tcp_proto_len x = Inr (word_of_nat (length (tcp_encoding x)))"
    using tcp_proto_len_fits [OF wf] by (simp only: length_tcp_encoding)
  show "65536 \<le> length (tcp_encoding x) \<Longrightarrow> \<exists>e. tcp_proto_len x = Inl (Err e)"
    using tcp_proto_len_overflow [OF wf] by (simp only: length_tcp_encoding)
qed

section \<open>What the receiver of a segment sees\<close>

lemma tcp_encoding_verifies:
  fixes ip :: "'e ipv4_addr_pair"
  assumes "20 + length (payload_bytes (seg_payload s)) \<le> ethernet_mtu"
    and "ip_src ip = ip_src (seg_ip_pair s)" "ip_dst ip = ip_dst (seg_ip_pair s)"
  shows "pseudo_hdr_cksum (tcp_encoding s) ip Tcp = Inr 0"
proof -
  let ?n = "20 + length (payload_bytes (seg_payload s))"
  let ?z = "tcp_header_front s @ [0, 0] @ ([0, 0] @ payload_bytes (seg_payload s))"
  have n: "length ?z = ?n" by simp
  have z: "tcp_bytes s 0 = ?z" by (simp add: tcp_bytes_def)
  have h: "pseudo_header ip Tcp k = pseudo_header (seg_ip_pair s) Tcp k" for k
    by (simp add: pseudo_header_def assms)
  have "pseudo_hdr_cksum (tcp_header_front s @ u16_to_be_bytes (tcp_checksum s) @
      ([0, 0] @ payload_bytes (seg_payload s))) ip Tcp = Inr 0"
  proof (rule pseudo_cksum_verifies [of _ _ _ _ "seg_ip_pair s"])
    show "length ?z \<le> ethernet_mtu" using assms(1) by (simp only: n)
    show "pseudo_header ip Tcp (length ?z) = pseudo_header (seg_ip_pair s) Tcp (length ?z)" by (rule h)
    show "tcp_checksum s = calculate (pseudo_header (seg_ip_pair s) Tcp (length ?z) @ ?z)"
      by (simp only: tcp_checksum_def z n)
  qed simp
  then show ?thesis by (simp add: tcp_encoding_def tcp_bytes_def)
qed

lemma parse_tcp_encoding:
  fixes s :: "('d, 'r) tcp_segment"
  assumes wf: "segment_wf s" and off: "seg_offset_bytes s = 20"
    and len: "20 + length (payload_bytes (seg_payload s)) \<le> ethernet_mtu"
  shows "inner_parse_tcp (tcp_encoding s) (seg_ip_pair s) = Inr s"
proof -
  obtain sp dp where ports: "seg_ports s = PortPair sp dp" by (cases "seg_ports s")
  obtain sn where sn: "seg_seq_num s = SeqPoint sn" by (cases "seg_seq_num s")
  obtain an where an: "seg_ack_num s = SeqPoint an" by (cases "seg_ack_num s")
  obtain w where w: "seg_window s = SeqOffset w" by (cases "seg_window s")
  obtain s1 s2 where s: "u16_to_be_bytes sp = [s1, s2]" "u16_from_be_bytes [s1, s2] = sp"
    by (rule u16_bytes_E)
  obtain d1 d2 where d: "u16_to_be_bytes dp = [d1, d2]" "u16_from_be_bytes [d1, d2] = dp"
    by (rule u16_bytes_E)
  obtain n1 n2 n3 n4 where n: "u32_to_be_bytes sn = [n1, n2, n3, n4]" "u32_from_be_bytes [n1, n2, n3, n4] = sn"
    by (rule u32_bytes_E)
  obtain a1 a2 a3 a4 where a: "u32_to_be_bytes an = [a1, a2, a3, a4]" "u32_from_be_bytes [a1, a2, a3, a4] = an"
    by (rule u32_bytes_E)
  obtain w1 w2 where wb: "u16_to_be_bytes w = [w1, w2]" "u16_from_be_bytes [w1, w2] = w"
    by (rule u16_bytes_E)
  obtain c1 c2 where c: "u16_to_be_bytes (tcp_checksum s) = [c1, c2]"
    by (rule u16_bytes_E)
  let ?hdr = "[s1, s2, d1, d2, n1, n2, n3, n4, a1, a2, a3, a4, 0x50, flags_to_u8 (seg_flags s), w1, w2,
      c1, c2, 0, 0]"
  have e: "tcp_encoding s = ?hdr @ payload_bytes (seg_payload s)"
    using off by (simp add: tcp_encoding_def tcp_bytes_def tcp_header_front_def ports sn an w
        seq_to_be_bytes_def offset_to_be_bytes_def s d n a wb c)
  have t: "take 20 (tcp_encoding s) = ?hdr" "drop 20 (tcp_encoding s) = payload_bytes (seg_payload s)"
    "length (tcp_encoding s) = 20 + length (payload_bytes (seg_payload s))"
    by (simp_all only: e append_eq_conv_conj length_append) simp_all
  have o: "push_bit 2 (drop_bit 4 (0x50 :: u8)) = 20" by simp
  have "try_from_iter (payload_bytes (seg_payload s)) = Inr (seg_payload s)"
    using wf by (intro try_from_iter_wf) (simp add: segment_wf_def)
  then show ?thesis
    unfolding inner_parse_tcp_def Let_def t(1,3)
    using tcp_encoding_verifies [OF len refl refl]
    by (simp add: o s d n a wb t(2) off flip: ports sn an w)
qed

text \<open>
  A segment built for sending and written to a buffer with room for it is read back by the
  same parser, at the addresses it was sent with, as the same segment: every field and the payload
  survive, the 20-byte header offset included, and the checksum verifies.
\<close>

theorem tcp_segment_roundtrip:
  assumes "payload_opt_wf (info_payload info)"
    and "20 + length (payload_bytes (info_payload info)) \<le> ethernet_mtu"
    and "20 + length (payload_bytes (info_payload info)) \<le> length buf"
  shows "let s = from_pairs_and_info ip ports info in
    write_tcp s buf = Inr (tcp_encoding s @ drop (length (tcp_encoding s)) buf) \<and>
    inner_parse_tcp (tcp_encoding s) ip = Inr s"
proof -
  let ?s = "from_pairs_and_info ip ports info"
  have s: "segment_wf ?s" "seg_offset_bytes ?s = 20" "seg_ip_pair ?s = ip"
    "seg_payload ?s = info_payload info"
    using assms(1) by (simp_all add: from_pairs_and_info_def segment_wf_def)
  have "inner_parse_tcp (tcp_encoding ?s) (seg_ip_pair ?s) = Inr ?s"
    using assms s by (intro parse_tcp_encoding) simp_all
  moreover have "write_tcp ?s buf = Inr (tcp_encoding ?s @ drop (length (tcp_encoding ?s)) buf)"
    using assms s by (intro tcp.writes_encoding) simp_all
  ultimately show ?thesis by (simp add: s(3) Let_def)
qed

theorem tcp_segment_roundtrip_witness:
  "let s = from_pairs_and_info (Ipv4AddrPair (Ipv4Addr 10 0 0 1) (Ipv4Addr 10 0 0 2)) (PortPair 80 4000)
     \<lparr>info_seq_num = SeqPoint 7, info_ack_num = SeqPoint 9, info_flags = Ack,
      info_payload = Some \<lparr>payload_data = [0x61, 0x62], payload_len = 2\<rparr>\<rparr> in
   inner_parse_tcp (tcp_encoding s) (Ipv4AddrPair (Ipv4Addr 10 0 0 1) (Ipv4Addr 10 0 0 2)) = Inr s"
  using tcp_segment_roundtrip
    [of "\<lparr>info_seq_num = SeqPoint 7, info_ack_num = SeqPoint 9, info_flags = Ack,
      info_payload = Some \<lparr>payload_data = [0x61, 0x62], payload_len = 2\<rparr>\<rparr>" "replicate 22 0"
      "Ipv4AddrPair (Ipv4Addr 10 0 0 1) (Ipv4Addr 10 0 0 2)" "PortPair 80 4000"]
  by (simp add: payload_wf_def Let_def)

end
