(* ===== verification/Pending_Segment.thy ===== *)
theory Pending_Segment
  imports Tcp_Segment
begin

text \<open>
  \<open>stack/src/protocol/tcp/pending_segment.rs\<close>: sent segments that are not yet acknowledged, with
  the retransmission timeouts of \<open>connections.rs\<close> they are timed by.

  A \<open>Duration\<close> is its number of nanoseconds, at most \<open>duration_max\<close>; an \<open>Instant\<close> is the number
  of nanoseconds since the clock's origin, at most \<open>instant_max\<close> (an \<open>i64\<close> number of seconds on
  the supported targets). Every reading of the clock is a parameter.
\<close>

type_synonym duration = nat
type_synonym instant = nat

definition duration_max :: duration where
  "duration_max = 18446744073709551615 * 1000000000 + 999999999"

definition instant_max :: instant where
  "instant_max = 9223372036854775807 * 1000000000 + 999999999"

definition checked_add_instant :: "instant \<Rightarrow> duration \<Rightarrow> instant option" where
  "checked_add_instant t d = (if t + d \<le> instant_max then Some (t + d) else None)"

definition saturating_mul :: "duration \<Rightarrow> nat \<Rightarrow> duration" where
  "saturating_mul d k = min (d * k) duration_max"

definition saturating_pow_2 :: "nat \<Rightarrow> nat" where
  "saturating_pow_2 k = min (2 ^ k) 4294967295"

text \<open>\<open>Ord::clamp\<close>, which the program only calls with \<open>lo \<le> hi\<close> (lemma \<open>rto_ordered_new\<close>).\<close>

definition clamp :: "nat \<Rightarrow> nat \<Rightarrow> nat \<Rightarrow> nat" where
  "clamp d lo hi = (if d < lo then lo else if hi < d then hi else d)"

record rto_config =
  rto_initial :: duration
  rto_min :: duration
  rto_max :: duration

definition tcp_rto_min :: duration where "tcp_rto_min = 200 * 1000000"
definition tcp_rto_max :: duration where "tcp_rto_max = 120 * 1000000000"

text \<open>The configuration that \<open>TcpConnections::new\<close> builds.\<close>

definition rto_config_new :: "duration \<Rightarrow> rto_config" where
  "rto_config_new initial_rto =
     \<lparr>rto_initial = initial_rto, rto_min = tcp_rto_min, rto_max = tcp_rto_max\<rparr>"

lemma rto_ordered_new: "rto_min (rto_config_new d) \<le> rto_max (rto_config_new d)"
  by (simp add: rto_config_new_def tcp_rto_min_def tcp_rto_max_def)

record pending_segment =
  pend_info :: send_info
  end_seq :: "dir_out seq_point"
  last_sent_at :: instant
  retries :: u8

definition consumes_flag :: "tcp_flags \<Rightarrow> bool" where
  "consumes_flag f \<longleftrightarrow> (case f of Syn \<Rightarrow> True | SynAck \<Rightarrow> True | FinAck \<Rightarrow> True | _ \<Rightarrow> False)"

definition pending_new :: "send_info \<Rightarrow> instant \<Rightarrow> pending_segment" where
  "pending_new info sent_at =
     \<lparr>pend_info = info,
      end_seq = seq_add (seq_add (info_seq_num info)
        (SeqOffset (if consumes_flag (info_flags info) then 1 else 0)))
        (len_or_default_offset (info_payload info)),
      last_sent_at = sent_at, retries = 0\<rparr>"

definition retransmission_timeout :: "rto_config \<Rightarrow> u8 \<Rightarrow> duration" where
  "retransmission_timeout cfg n =
     clamp (saturating_mul (rto_initial cfg) (saturating_pow_2 (unat n))) (rto_min cfg) (rto_max cfg)"

text \<open>\<open>now\<close> is the reading of the clock that is the fallback when the sum overflows.\<close>

definition time_due :: "instant \<Rightarrow> rto_config \<Rightarrow> pending_segment \<Rightarrow> instant" where
  "time_due now cfg self =
     (case checked_add_instant (last_sent_at self) (retransmission_timeout cfg (retries self)) of
        None \<Rightarrow> now
      | Some t \<Rightarrow> t)"

definition is_covered_by :: "dir_out seq_point \<Rightarrow> pending_segment \<Rightarrow> bool" where
  "is_covered_by ack_num self \<longleftrightarrow> precedes_or_eq (end_seq self) ack_num"

definition exhausted_retries :: "u8 \<Rightarrow> pending_segment \<Rightarrow> bool" where
  "exhausted_retries max_retries self \<longleftrightarrow> max_retries \<le> retries self"

definition saturating_inc :: "u8 \<Rightarrow> u8" where
  "saturating_inc n = (if n = 255 then 255 else n + 1)"

definition retransmit_info :: "instant \<Rightarrow> pending_segment \<Rightarrow> send_info \<times> pending_segment" where
  "retransmit_info now self =
     (pend_info self, self\<lparr>retries := saturating_inc (retries self), last_sent_at := now\<rparr>)"

section \<open>How much sequence space a segment covers\<close>

definition consumed :: "send_info \<Rightarrow> nat" where
  "consumed info = (if consumes_flag (info_flags info) then 1 else 0) + length (payload_bytes (info_payload info))"

lemma ahead_end_seq:
  assumes "payload_opt_wf (info_payload info)"
  shows "ahead (info_seq_num info) (end_seq (pending_new info t)) = consumed info"
proof -
  have "length (payload_bytes (info_payload info)) < 65536"
    using assms by (cases "info_payload info") (simp_all add: payload_wf_bound)
  then show ?thesis
    using assms by (simp add: pending_new_def consumed_def ahead_add unat_len_or_default_offset)
qed

section \<open>Timeouts\<close>

lemma clamp_bounds: "lo \<le> hi \<Longrightarrow> lo \<le> clamp d lo hi \<and> clamp d lo hi \<le> hi"
  by (simp add: clamp_def)

lemma clamp_mono: "d \<le> d' \<Longrightarrow> lo \<le> hi \<Longrightarrow> clamp d lo hi \<le> clamp d' lo hi"
  by (simp add: clamp_def)

lemma unat_saturating_inc: "unat (saturating_inc n) = (if unat n = 255 then 255 else unat n + 1)"
proof (cases "n = 255")
  case False
  then have "unat n \<noteq> 255" by (simp add: word_unat_eq_iff)
  moreover have "unat n < 256" by (rule unat_u8_bound)
  ultimately have "unat n < 255" by linarith
  then have "unat n + unat (1 :: u8) < 256" by simp
  then have "unat (n + 1) = unat n + 1" by (subst unat_add_small) simp_all
  then show ?thesis using False \<open>unat n \<noteq> 255\<close> by (simp add: saturating_inc_def)
qed (simp add: saturating_inc_def)

lemma saturating_mul_mono: "k \<le> k' \<Longrightarrow> saturating_mul d k \<le> saturating_mul d k'"
  unfolding saturating_mul_def by (intro min.mono mult_le_mono2) simp_all

lemma saturating_mul_double: "k' \<le> 2 * k \<Longrightarrow> saturating_mul d k' \<le> 2 * saturating_mul d k"
proof -
  assume "k' \<le> 2 * k"
  then have "d * k' \<le> 2 * (d * k)" using mult_le_mono2 [of k' "2 * k" d] by (simp add: ac_simps)
  moreover have "min a m \<le> 2 * min b m" if "a \<le> 2 * b" for a b m :: nat
    using that by (simp add: min_def)
  ultimately show ?thesis unfolding saturating_mul_def by blast
qed

lemma clamp_double: "x' \<le> 2 * x \<Longrightarrow> lo \<le> hi \<Longrightarrow> clamp x' lo hi \<le> 2 * clamp x lo hi"
  by (simp add: clamp_def)

lemma saturating_pow_2_step:
  "saturating_pow_2 k \<le> saturating_pow_2 (Suc k)" "saturating_pow_2 (Suc k) \<le> 2 * saturating_pow_2 k"
  by (simp_all add: saturating_pow_2_def min_def)

text \<open>A pending segment is due no later than one clamped timeout after it was last sent.\<close>

lemma time_due_bounds:
  assumes "last_sent_at p + rto_max cfg \<le> instant_max" and "rto_min cfg \<le> rto_max cfg"
  shows "last_sent_at p + rto_min cfg \<le> time_due now cfg p \<and> time_due now cfg p \<le> last_sent_at p + rto_max cfg"
proof -
  have "rto_min cfg \<le> retransmission_timeout cfg (retries p) \<and> retransmission_timeout cfg (retries p) \<le> rto_max cfg"
    unfolding retransmission_timeout_def by (rule clamp_bounds [OF assms(2)])
  then show ?thesis
    using assms(1) by (simp add: time_due_def checked_add_instant_def)
qed

section \<open>Properties\<close>

text \<open>
  Exponential backoff: under the configuration the program runs with, whatever the initial
  timeout, every retransmission timeout lies between 200 ms and 120 s, and each retransmission
  leaves it unchanged or raises it, at most doubling it, also where the retry counter, the power
  of two or the multiplication saturates.
\<close>

theorem backoff_bounds:
  "let rto = retransmission_timeout (rto_config_new initial_rto) in
    tcp_rto_min \<le> rto n \<and> rto n \<le> tcp_rto_max \<and>
    rto n \<le> rto (saturating_inc n) \<and> rto (saturating_inc n) \<le> 2 * rto n"
proof -
  let ?lo = tcp_rto_min and ?hi = tcp_rto_max
  have lohi: "?lo \<le> ?hi" by (simp add: tcp_rto_min_def tcp_rto_max_def)
  let ?f = "\<lambda>k. saturating_mul initial_rto (saturating_pow_2 k)"
  have eq: "retransmission_timeout (rto_config_new initial_rto) m = clamp (?f (unat m)) ?lo ?hi" for m
    by (simp add: retransmission_timeout_def rto_config_new_def)
  have step: "clamp (?f k) ?lo ?hi \<le> clamp (?f (Suc k)) ?lo ?hi"
    "clamp (?f (Suc k)) ?lo ?hi \<le> 2 * clamp (?f k) ?lo ?hi" for k
    using saturating_pow_2_step [of k] lohi
    by (intro clamp_mono clamp_double saturating_mul_mono saturating_mul_double; simp)+
  show ?thesis
    unfolding Let_def eq unat_saturating_inc
    using clamp_bounds [OF lohi] step [of "unat n"] by simp
qed

end
