(* ===== verification/Reassembly.thy ===== *)
theory Reassembly
  imports Tcp_Segment
begin

text \<open>
  \<open>stack/src/protocol/tcp/reassembly.rs\<close>: the buffer of segments that arrived ahead of RCV.NXT,
  and its refinement of the abstract view, the prefix of the peer's byte stream received so far.
\<close>

record tcp_reassembly =
  segments :: "(dir_in seq_point \<times> tcp_payload) list"
  fin_seq :: "dir_in seq_point option"

definition reassembly_new :: tcp_reassembly where
  "reassembly_new = \<lparr>segments = [], fin_seq = None\<rparr>"

definition mark_fin :: "dir_in seq_point \<Rightarrow> tcp_reassembly \<Rightarrow> tcp_reassembly" where
  "mark_fin seq self =
     self\<lparr>fin_seq := Some (case fin_seq self of None \<Rightarrow> seq | Some existing \<Rightarrow> existing)\<rparr>"

definition fin_reached :: "dir_in seq_point \<Rightarrow> tcp_reassembly \<Rightarrow> bool" where
  "fin_reached rcv_nxt self =
     (case fin_seq self of None \<Rightarrow> False | Some fin \<Rightarrow> precedes_or_eq fin rcv_nxt)"

fun insert_segment ::
    "dir_in seq_point \<Rightarrow> tcp_payload \<Rightarrow> (dir_in seq_point \<times> tcp_payload) list \<Rightarrow>
     (dir_in seq_point \<times> tcp_payload) list" where
  "insert_segment seq p [] = [(seq, p)]"
| "insert_segment seq p ((start, existing) # rest) =
     (if start = seq
      then (start, if payload_len existing < payload_len p then p else existing) # rest
      else (start, existing) # insert_segment seq p rest)"

definition reassembly_insert ::
    "dir_in seq_point \<Rightarrow> tcp_payload \<Rightarrow> tcp_reassembly \<Rightarrow> tcp_reassembly" where
  "reassembly_insert seq p self = self\<lparr>segments := insert_segment seq p (segments self)\<rparr>"

text \<open>
  One call of the iterator that \<open>drain_contiguous\<close> returns. \<open>extract_if\<close> walks the vector in
  order and removes each segment that does not start after RCV.NXT; \<open>find\<close> stops it at the first
  one that starts at RCV.NXT exactly, and the vector keeps what was not visited.
\<close>

fun extract_contiguous ::
    "dir_in seq_point \<Rightarrow> (dir_in seq_point \<times> tcp_payload) list \<Rightarrow>
     tcp_payload option \<times> (dir_in seq_point \<times> tcp_payload) list" where
  "extract_contiguous rcv_nxt [] = (None, [])"
| "extract_contiguous rcv_nxt ((start, p) # rest) =
     (if precedes_or_eq start rcv_nxt then
        if start = rcv_nxt then (Some p, rest) else extract_contiguous rcv_nxt rest
      else
        let (found, kept) = extract_contiguous rcv_nxt rest in (found, (start, p) # kept))"

lemma extract_contiguous_length:
  "extract_contiguous rcv_nxt segs = (found, kept) \<Longrightarrow>
   length kept \<le> length segs \<and> (found \<noteq> None \<longrightarrow> length kept < length segs)"
proof (induction rcv_nxt segs arbitrary: found kept rule: extract_contiguous.induct)
  case (2 rcv_nxt start p rest)
  obtain f k where "extract_contiguous rcv_nxt rest = (f, k)" by fastforce
  with 2 show ?case by (fastforce split: if_splits)
qed simp

text \<open>
  The callers consume the iterator to its end, handing each payload to the application, which
  cannot touch the buffer: the payloads in order, the new RCV.NXT and the remaining segments.
\<close>

function drain_segments ::
    "dir_in seq_point \<Rightarrow> (dir_in seq_point \<times> tcp_payload) list \<Rightarrow>
     tcp_payload list \<times> dir_in seq_point \<times> (dir_in seq_point \<times> tcp_payload) list" where
  "drain_segments rcv_nxt segs =
     (case extract_contiguous rcv_nxt segs of
        (None, kept) \<Rightarrow> ([], rcv_nxt, kept)
      | (Some p, kept) \<Rightarrow>
          let (ps, rcv_nxt', kept') =
                drain_segments (seq_add rcv_nxt (offset_from_len (payload_len p))) kept
          in (p # ps, rcv_nxt', kept'))"
  by pat_completeness auto
termination
proof (relation "measure (\<lambda>(_, segs). length segs)")
  fix rcv_nxt segs found kept p
  assume "(found, kept) = extract_contiguous rcv_nxt segs" and "found = Some p"
  then show "((seq_add rcv_nxt (offset_from_len (payload_len p)), kept), (rcv_nxt, segs))
      \<in> measure (\<lambda>(_, segs). length segs)"
    using extract_contiguous_length [of rcv_nxt segs found kept] by simp
qed simp

declare drain_segments.simps [simp del]

definition drain_contiguous ::
    "dir_in seq_point \<Rightarrow> tcp_reassembly \<Rightarrow> tcp_payload list \<times> dir_in seq_point \<times> tcp_reassembly" where
  "drain_contiguous rcv_nxt self =
     (let (ps, rcv_nxt', kept) = drain_segments rcv_nxt (segments self)
      in (ps, rcv_nxt', self\<lparr>segments := kept\<rparr>))"

section \<open>Well-formed buffers\<close>

text \<open>Every buffered payload is well formed, and no two segments start at the same point.\<close>

definition segments_wf :: "(dir_in seq_point \<times> tcp_payload) list \<Rightarrow> bool" where
  "segments_wf segs \<longleftrightarrow> (\<forall>(_, p) \<in> set segs. payload_wf p) \<and> distinct (map fst segs)"

lemma set_insert_segment_fst: "fst ` set (insert_segment seq p segs) = insert seq (fst ` set segs)"
  by (induction seq p segs rule: insert_segment.induct) auto

lemma segments_wf_insert:
  "segments_wf segs \<Longrightarrow> payload_wf p \<Longrightarrow> segments_wf (insert_segment seq p segs)"
proof (induction seq p segs rule: insert_segment.induct)
  case (2 seq p start existing rest)
  then show ?case
    using set_insert_segment_fst [of seq p rest] by (auto simp: segments_wf_def)
qed (simp add: segments_wf_def)

lemma insert_segment_members:
  "x \<in> set (insert_segment seq p segs) \<Longrightarrow> x = (seq, p) \<or> x \<in> set segs"
  by (induction seq p segs rule: insert_segment.induct) (auto split: if_splits)

lemma insert_segment_keeps:
  "distinct (map fst segs) \<Longrightarrow> map_of (insert_segment seq p segs) =
   (map_of segs)(seq \<mapsto> (case map_of segs seq of None \<Rightarrow> p
      | Some e \<Rightarrow> if payload_len e < payload_len p then p else e))"
  by (induction seq p segs rule: insert_segment.induct) (auto simp: fun_eq_iff)

text \<open>
  What one call does to any buffer: it returns a segment starting at RCV.NXT if there is one,
  drops segments that do not start after RCV.NXT only, and drops all of those when it finds none.
\<close>

definition starts_after :: "dir_in seq_point \<Rightarrow> dir_in seq_point \<times> tcp_payload \<Rightarrow> bool" where
  "starts_after rcv_nxt x \<longleftrightarrow> \<not> precedes_or_eq (fst x) rcv_nxt"

lemma extract_contiguous_spec:
  assumes "extract_contiguous rcv_nxt segs = (found, kept)"
  shows "set kept \<subseteq> set segs" and "distinct (map fst segs) \<Longrightarrow> distinct (map fst kept)"
    and "filter (starts_after rcv_nxt) kept = filter (starts_after rcv_nxt) segs"
    and "found = None \<Longrightarrow> kept = filter (starts_after rcv_nxt) segs \<and> rcv_nxt \<notin> fst ` set segs"
    and "found = Some p \<Longrightarrow> (rcv_nxt, p) \<in> set segs"
proof -
  have "set kept \<subseteq> set segs \<and> (distinct (map fst segs) \<longrightarrow> distinct (map fst kept)) \<and>
     filter (starts_after rcv_nxt) kept = filter (starts_after rcv_nxt) segs \<and>
     (found = None \<longrightarrow> kept = filter (starts_after rcv_nxt) segs \<and> rcv_nxt \<notin> fst ` set segs) \<and>
     (\<forall>p. found = Some p \<longrightarrow> (rcv_nxt, p) \<in> set segs)"
    using assms
  proof (induction rcv_nxt segs arbitrary: found kept rule: extract_contiguous.induct)
    case (2 rcv_nxt start p rest)
    obtain f k where fk: "extract_contiguous rcv_nxt rest = (f, k)" by fastforce
    show ?case
    proof (cases "precedes_or_eq start rcv_nxt")
      case True
      show ?thesis
      proof (cases "start = rcv_nxt")
        case eq: True
        then show ?thesis using 2(3) True by (auto simp: starts_after_def)
      next
        case False
        then have "extract_contiguous rcv_nxt rest = (found, kept)" using 2(3) True by simp
        from 2(1) [OF True False this] True False show ?thesis by (auto simp: starts_after_def)
      qed
    next
      case False
      then have k: "found = f" "kept = (start, p) # k" using 2(3) fk by simp_all
      have "start \<noteq> rcv_nxt" using False by (auto simp: precedes_or_eq_def)
      with 2(2) [OF False fk] False show ?thesis unfolding k by (auto simp: starts_after_def)
    qed
  qed simp
  then show "set kept \<subseteq> set segs" and "distinct (map fst segs) \<Longrightarrow> distinct (map fst kept)"
    and "filter (starts_after rcv_nxt) kept = filter (starts_after rcv_nxt) segs"
    and "found = None \<Longrightarrow> kept = filter (starts_after rcv_nxt) segs \<and> rcv_nxt \<notin> fst ` set segs"
    and "found = Some p \<Longrightarrow> (rcv_nxt, p) \<in> set segs"
    by simp_all
qed

lemma segments_wf_drain:
  "drain_segments rcv_nxt segs = (ps, rcv_nxt', segs') \<Longrightarrow> segments_wf segs \<Longrightarrow>
   segments_wf segs' \<and> list_all payload_wf ps"
proof (induction rcv_nxt segs arbitrary: ps rcv_nxt' segs' rule: drain_segments.induct)
  case (1 rcv_nxt segs)
  obtain found kept where e: "extract_contiguous rcv_nxt segs = (found, kept)" by fastforce
  note spec = extract_contiguous_spec [OF e]
  have wf: "segments_wf kept"
    using 1(3) spec(1,2) by (auto simp: segments_wf_def)
  show ?case
  proof (cases found)
    case None
    then show ?thesis using 1(2) wf e by (simp add: drain_segments.simps [of rcv_nxt])
  next
    case (Some p)
    obtain qs r k where d: "drain_segments (seq_add rcv_nxt (offset_from_len (payload_len p))) kept = (qs, r, k)"
      by (metis prod_cases3)
    have "payload_wf p" using spec(5) [OF Some] 1(3) by (auto simp: segments_wf_def)
    moreover have "segments_wf k \<and> list_all payload_wf qs"
      using 1(1) [OF e [symmetric] Some d wf] .
    ultimately show ?thesis using 1(2) e Some d by (auto simp: drain_segments.simps [of rcv_nxt])
  qed
qed

section \<open>The stream behind the buffer\<close>

text \<open>
  The abstract view: the peer's stream is a function \<open>s\<close> from positions to bytes; position \<open>k\<close>
  has the sequence number \<open>base + k\<close>. A buffer is genuine when every segment holds the bytes of the
  stream at its position, and its start lies in a receive window that begins at position \<open>lo\<close>.
\<close>

definition stream_pos :: "int \<Rightarrow> nat \<Rightarrow> dir_in seq_point" where
  "stream_pos base k = seq_at (base + int k)"

definition stream_slice :: "(nat \<Rightarrow> u8) \<Rightarrow> nat \<Rightarrow> nat \<Rightarrow> bytes" where
  "stream_slice s a b = map s [a..<b]"

definition genuine ::
    "(nat \<Rightarrow> u8) \<Rightarrow> int \<Rightarrow> nat \<Rightarrow> (dir_in seq_point \<times> tcp_payload) list \<Rightarrow> bool" where
  "genuine s base lo segs \<longleftrightarrow> (\<forall>(start, p) \<in> set segs. payload_wf p \<and>
     (\<exists>k. lo \<le> k \<and> k < lo + 65535 \<and> start = stream_pos base k \<and>
          payload_data p = stream_slice s k (k + length (payload_data p))))"

lemma stream_pos_order:
  assumes "a < b + 2147483648" and "b < a + 2147483648"
  shows "precedes_or_eq (stream_pos base a) (stream_pos base b) \<longleftrightarrow> a \<le> b"
    and "stream_pos base a = stream_pos base b \<longleftrightarrow> a = b"
  using assms seq_at_order [of "base + int a" "base + int b", where 'd = dir_in]
  by (simp_all add: stream_pos_def)

lemma stream_pos_add: "seq_add (stream_pos base a) d = stream_pos base (a + unat (offset d))"
  by (simp add: stream_pos_def seq_add_seq_at add.assoc)

lemma stream_slice_append: "a \<le> b \<Longrightarrow> b \<le> c \<Longrightarrow> stream_slice s a b @ stream_slice s b c = stream_slice s a c"
  unfolding stream_slice_def by (metis le_add_diff_inverse map_append upt_add_eq_append)

lemma length_stream_slice [simp]: "length (stream_slice s a b) = b - a"
  by (simp add: stream_slice_def)

lemma genuineE:
  assumes "genuine s base lo segs" and "(start, p) \<in> set segs"
  obtains k where "lo \<le> k" "k < lo + 65535" "start = stream_pos base k" "payload_wf p"
    "payload_data p = stream_slice s k (k + length (payload_data p))"
  using assms by (auto simp: genuine_def)

lemma genuine_subset: "genuine s base lo segs \<Longrightarrow> set segs' \<subseteq> set segs \<Longrightarrow> genuine s base lo segs'"
  by (auto simp: genuine_def)

lemma starts_after_stream_pos:
  assumes "lo \<le> k" and "k < lo + 65535" and "fst x = stream_pos base k"
    and "lo \<le> r" and "r \<le> lo + 131070"
  shows "starts_after (stream_pos base r) x \<longleftrightarrow> r < k" and "fst x = stream_pos base r \<longleftrightarrow> k = r"
  using assms stream_pos_order [of k r base] by (auto simp: starts_after_def not_le)

lemma drain_segments_stream:
  assumes "genuine s base lo segs" and "lo \<le> r" and "r \<le> lo + 131070"
    and "drain_segments (stream_pos base r) segs = (ps, rcv_nxt', segs')"
  shows "\<exists>r' \<ge> r. rcv_nxt' = stream_pos base r' \<and> r' \<le> lo + 131070 \<and>
    concat (map payload_data ps) = stream_slice s r r' \<and>
    segs' = filter (starts_after rcv_nxt') segs \<and> rcv_nxt' \<notin> fst ` set segs"
  using assms
proof (induction "stream_pos base r" segs arbitrary: r ps rcv_nxt' segs' rule: drain_segments.induct)
  case (1 segs)
  let ?pos = "stream_pos base"
  obtain found kept where e: "extract_contiguous (?pos r) segs = (found, kept)" by fastforce
  note spec = extract_contiguous_spec [OF e]
  have gen: "genuine s base lo kept" by (rule genuine_subset [OF 1(2) spec(1)])
  show ?case
  proof (cases found)
    case None
    then have "ps = []" "rcv_nxt' = ?pos r" "segs' = kept"
      using 1(5) e by (simp_all add: drain_segments.simps [of "?pos r"])
    then show ?thesis
      using spec(4) [OF None] 1(4) by (intro exI [of _ r]) (simp add: stream_slice_def)
  next
    case (Some p)
    obtain k where k: "k < lo + 65535" "?pos r = ?pos k" "payload_wf p"
      "payload_data p = stream_slice s k (k + length (payload_data p))" "lo \<le> k"
      using genuineE [OF 1(2) spec(5) [OF Some]] by metis
    then have "k = r" using 1(3,4) stream_pos_order(2) [of k r base] by simp
    define q where "q = r + length (payload_data p)"
    have p: "payload_data p = stream_slice s r q" "r < q" "q \<le> lo + 131070"
      using k \<open>k = r\<close> payload_wf_nonempty [of p] payload_wf_bound [of p] by (simp_all add: q_def)
    have next_pos: "seq_add (?pos r) (offset_from_len (payload_len p)) = ?pos q"
      using k(3) by (simp add: stream_pos_add q_def payload_wf_len)
    obtain qs t ks where d: "drain_segments (?pos q) kept = (qs, t, ks)"
      by (metis prod_cases3)
    have "\<exists>r' \<ge> q. t = ?pos r' \<and> r' \<le> lo + 131070 \<and> concat (map payload_data qs) = stream_slice s q r' \<and>
        ks = filter (starts_after t) kept \<and> t \<notin> fst ` set kept"
      using 1(1) [OF e [symmetric] Some next_pos gen] p 1(3) d by (simp add: next_pos)
    then obtain r' where r': "q \<le> r'" "t = ?pos r'" "r' \<le> lo + 131070"
      "concat (map payload_data qs) = stream_slice s q r'"
      "ks = filter (starts_after t) kept" "t \<notin> fst ` set kept" by blast
    have out: "ps = p # qs" "rcv_nxt' = t" "segs' = ks"
      using 1(5) e Some d by (simp_all add: drain_segments.simps [of "?pos r"] next_pos)
    have after: "starts_after t x \<Longrightarrow> starts_after (?pos r) x"
      and notin: "fst x = t \<Longrightarrow> starts_after (?pos r) x" if "x \<in> set segs" for x
    proof -
      obtain k where k: "lo \<le> k" "k < lo + 65535" "fst x = ?pos k"
        using genuineE [OF 1(2)] \<open>x \<in> set segs\<close> by (metis prod.collapse)
      note at = starts_after_stream_pos [OF k]
      show "starts_after t x \<Longrightarrow> starts_after (?pos r) x"
        and "fst x = t \<Longrightarrow> starts_after (?pos r) x"
        using r' p 1(3,4) at [of r] at [of r'] by auto
    qed
    have "filter (starts_after t) kept = filter (starts_after t) (filter (starts_after (?pos r)) kept)"
      using after spec(1) by (auto simp: filter_filter intro!: filter_cong)
    also have "\<dots> = filter (starts_after t) segs"
      unfolding spec(3) using after by (auto simp: filter_filter intro!: filter_cong)
    finally have keep: "segs' = filter (starts_after t) segs"
      by (simp add: out r'(5))
    have "t \<notin> fst ` set segs"
    proof
      assume "t \<in> fst ` set segs"
      then obtain x where x: "x \<in> set segs" "fst x = t" by auto
      then have "x \<in> set (filter (starts_after (?pos r)) segs)" using notin by simp
      then have "x \<in> set kept" using spec(3) by (metis filter_is_subset subsetD)
      with x r'(6) show False by auto
    qed
    then show ?thesis
      using r' p keep stream_slice_append [of r q r' s] by (intro exI [of _ r']) (simp add: out)
  qed
qed

lemma genuine_insert:
  assumes "genuine s base lo segs" and "payload_wf p" and "lo \<le> k" and "k < lo + 65535"
    and "payload_data p = stream_slice s k (k + length (payload_data p))"
  shows "genuine s base lo (insert_segment (stream_pos base k) p segs)"
  using assms unfolding genuine_def
  by (auto dest!: insert_segment_members)

section \<open>Properties\<close>

text \<open>
  Reassembly delivers the stream. Whatever segments of the peer's stream are buffered, in
  whatever order and with whatever overlaps, draining from position \<open>r\<close> hands out exactly the
  stream's bytes from \<open>r\<close> up to the new RCV.NXT, position \<open>r'\<close>, which is as far as the buffer reaches
  (no segment starts there); it drops the segments that do not start after \<open>r'\<close> and keeps all
  others. Sequence numbers may wrap anywhere.
\<close>

theorem drain_delivers_stream:
  assumes "genuine s base lo (segments self)" and "lo \<le> r" and "r \<le> lo + 131070"
    and "drain_contiguous (stream_pos base r) self = (ps, rcv_nxt', self')"
  shows "\<exists>r' \<ge> r. rcv_nxt' = stream_pos base r' \<and>
    concat (map payload_data ps) = stream_slice s r r' \<and>
    segments self' = filter (starts_after rcv_nxt') (segments self) \<and>
    rcv_nxt' \<notin> fst ` set (segments self) \<and> fin_seq self' = fin_seq self"
proof -
  obtain segs' where d: "drain_segments (stream_pos base r) (segments self) = (ps, rcv_nxt', segs')"
    and "self' = self\<lparr>segments := segs'\<rparr>"
    using assms(4) by (auto simp: drain_contiguous_def split: prod.splits)
  then show ?thesis
    using drain_segments_stream [OF assms(1-3) d] by auto
qed

theorem drain_delivers_stream_witness:
  "\<exists>ps rcv_nxt' self'.
     drain_contiguous (SeqPoint 0)
       \<lparr>segments = [(SeqPoint 2, \<lparr>payload_data = [3, 4], payload_len = 2\<rparr>),
                    (SeqPoint 0, \<lparr>payload_data = [1, 2], payload_len = 2\<rparr>)], fin_seq = None\<rparr>
       = (ps, rcv_nxt', self') \<and>
     (\<exists>r' \<ge> 1. rcv_nxt' = stream_pos (-1) r' \<and>
       concat (map payload_data ps) = stream_slice (\<lambda>k. of_nat k) 1 r')"
proof -
  define segs where "segs = [(SeqPoint 2 :: dir_in seq_point, \<lparr>payload_data = [3, 4 :: u8], payload_len = 2\<rparr>),
    (SeqPoint 0, \<lparr>payload_data = [1, 2], payload_len = 2\<rparr>)]"
  have "\<exists>k \<ge> 1. k < 65536 \<and> SeqPoint 2 = stream_pos (-1) k \<and> [3, 4] = stream_slice (\<lambda>k. of_nat k) k (k + length [0, 0 :: u8])"
    by (intro exI [of _ 3]) (simp add: stream_slice_def upt_rec stream_pos_def seq_at_def)
  moreover have "\<exists>k \<ge> 1. k < 65536 \<and> SeqPoint 0 = stream_pos (-1) k \<and> [1, 2] = stream_slice (\<lambda>k. of_nat k) k (k + length [0, 0 :: u8])"
    by (intro exI [of _ 1]) (simp add: stream_slice_def upt_rec stream_pos_def seq_at_def)
  ultimately have "genuine (\<lambda>k. of_nat k) (-1) 1 segs"
    by (simp add: genuine_def segs_def payload_wf_def)
  moreover obtain ps rcv_nxt' self' where
    d: "drain_contiguous (stream_pos (-1) 1) \<lparr>segments = segs, fin_seq = None\<rparr> = (ps, rcv_nxt', self')"
    by (metis prod_cases3)
  ultimately have "\<exists>r' \<ge> 1. rcv_nxt' = stream_pos (-1) r' \<and>
       concat (map payload_data ps) = stream_slice (\<lambda>k. of_nat k) 1 r'"
    using drain_delivers_stream [of "\<lambda>k. of_nat k" "-1" 1 "\<lparr>segments = segs, fin_seq = None\<rparr>" 1 ps rcv_nxt' self']
    by auto
  moreover have "stream_pos (-1) 1 = SeqPoint 0" by (simp add: stream_pos_def seq_at_def)
  ultimately show ?thesis
    using d unfolding segs_def by (intro exI [of _ ps] exI [of _ rcv_nxt'] exI [of _ self'] conjI) simp_all
qed

text \<open>
  Buffering a segment of the stream keeps the buffer genuine and loses no data: at the
  segment's start the longer of the old and the new payload is kept, every other start keeps its
  segment, and no start is ever buffered twice.
\<close>

theorem insert_keeps_longest:
  assumes "genuine s base lo (segments self)" and "segments_wf (segments self)" and "payload_wf p"
    and "lo \<le> k" and "k < lo + 65535"
    and "payload_data p = stream_slice s k (k + length (payload_data p))"
  shows "let self' = reassembly_insert (stream_pos base k) p self in
    genuine s base lo (segments self') \<and> segments_wf (segments self') \<and>
    map_of (segments self') = (map_of (segments self))(stream_pos base k \<mapsto>
      (case map_of (segments self) (stream_pos base k) of None \<Rightarrow> p
       | Some e \<Rightarrow> if payload_len e < payload_len p then p else e))"
  using genuine_insert [OF assms(1,3-6)] segments_wf_insert [OF assms(2,3)]
    insert_segment_keeps [of "segments self"] assms(2)
  by (simp add: reassembly_insert_def Let_def segments_wf_def)

theorem insert_keeps_longest_witness:
  "let self' = reassembly_insert (stream_pos 0 7) \<lparr>payload_data = [7, 8], payload_len = 2\<rparr>
       \<lparr>segments = [(stream_pos 0 7, \<lparr>payload_data = [7], payload_len = 1\<rparr>)], fin_seq = None\<rparr> in
    map_of (segments self') (stream_pos 0 7) = Some \<lparr>payload_data = [7, 8], payload_len = 2\<rparr>"
proof -
  have "stream_slice (\<lambda>k. of_nat k) 7 8 = [7]" "stream_slice (\<lambda>k. of_nat k) 7 9 = [7, 8]"
    by (simp_all add: stream_slice_def upt_rec)
  moreover from this have "genuine (\<lambda>k. of_nat k) 0 7 [(stream_pos 0 7, \<lparr>payload_data = [7], payload_len = 1\<rparr>)]"
    by (auto simp: genuine_def payload_wf_def)
  ultimately show ?thesis
    using insert_keeps_longest [of "\<lambda>k. of_nat k" 0 7
        "\<lparr>segments = [(stream_pos 0 7, \<lparr>payload_data = [7], payload_len = 1\<rparr>)], fin_seq = None\<rparr>"
        "\<lparr>payload_data = [7, 8], payload_len = 2\<rparr>" 7]
    by (simp add: segments_wf_def payload_wf_def Let_def)
qed

end
