(* ===== verification/Tcp_State.thy ===== *)
theory Tcp_State
  imports Pending_Segment Reassembly
begin

text \<open>
  \<open>stack/src/protocol/tcp/state.rs\<close>: the state of one connection, the TCP states and their
  transitions, the processing of acknowledgments and the draining of the send buffer. The second
  half states the send-side invariant and proves that both operations keep it.
\<close>

section \<open>Data\<close>

record window_state =
  snd_wnd :: "(u16, dir_out) seq_offset"
  snd_wl1 :: "dir_in seq_point"
  snd_wl2 :: "dir_out seq_point"

text \<open>
  The inner structs of the states are marker types; \<open>SyncedState<T>\<close> carries its marker as a
  phantom type argument, so the transitions below are the only ways to change it.
\<close>

datatype syn_received = SynReceivedMark
datatype established = EstablishedMark
datatype fin_wait_1 = FinWait1Mark
datatype fin_wait_2 = FinWait2Mark
datatype close_wait = CloseWaitMark
datatype closing = ClosingMark
datatype last_ack = LastAckMark

datatype 't synced_state = SyncedState (window_state_of: window_state)

datatype tcp_state =
    SynReceived syn_received
  | Established "established synced_state"
  | FinWait1 "fin_wait_1 synced_state"
  | FinWait2 "fin_wait_2 synced_state"
  | CloseWait "close_wait synced_state"
  | Closing "closing synced_state"
  | LastAck "last_ack synced_state"

record conn_state =
  tcp_state_of :: tcp_state
  snd_nxt :: "dir_out seq_point"
  rcv_nxt :: "dir_in seq_point"
  snd_una :: "dir_out seq_point"
  pending :: "pending_segment list"
  send_buffer :: bytes
  reassembly :: tcp_reassembly

section \<open>Operations\<close>

definition from_syn_ack :: "instant \<Rightarrow> send_info \<Rightarrow> conn_state result" where
  "from_syn_ack now info =
     (if info_flags info = SynAck then
        Inr \<lparr>tcp_state_of = SynReceived SynReceivedMark,
             snd_nxt = seq_add (info_seq_num info) syn_byte_out,
             rcv_nxt = info_ack_num info,
             snd_una = info_seq_num info,
             pending = [pending_new info now],
             send_buffer = [],
             reassembly = reassembly_new\<rparr>
      else
        Inl (Err (Static
          ''Attempted to create a new `ConnState` when sending something other than SYN-ACK'')))"

definition establish :: "syn_received \<Rightarrow> in_segment \<Rightarrow> established synced_state" where
  "establish self seg =
     SyncedState \<lparr>snd_wnd = seg_window seg, snd_wl1 = seg_seq_num seg, snd_wl2 = seg_ack_num seg\<rparr>"

definition rcv_fin :: "established synced_state \<Rightarrow> close_wait synced_state" where
  "rcv_fin self = SyncedState (window_state_of self)"

definition send_fin :: "close_wait synced_state \<Rightarrow> last_ack synced_state" where
  "send_fin self = SyncedState (window_state_of self)"

definition close :: "established synced_state \<Rightarrow> fin_wait_1 synced_state" where
  "close self = SyncedState (window_state_of self)"

definition rcv_ack_of_fin :: "fin_wait_1 synced_state \<Rightarrow> fin_wait_2 synced_state" where
  "rcv_ack_of_fin self = SyncedState (window_state_of self)"

definition rcv_fin_before_fin_is_acked :: "fin_wait_1 synced_state \<Rightarrow> closing synced_state" where
  "rcv_fin_before_fin_is_acked self = SyncedState (window_state_of self)"

definition incoming_ack_update ::
    "'t synced_state \<Rightarrow> in_segment \<Rightarrow> conn_state \<Rightarrow> 't synced_state \<times> conn_state" where
  "incoming_ack_update self seg conn =
     (let ack = seg_ack_num seg; ws = window_state_of self in
      if precedes_or_eq (snd_una conn) ack \<and> precedes_or_eq ack (snd_nxt conn) then
        let conn' =
              (if precedes (snd_una conn) ack
               then conn\<lparr>snd_una := ack, pending := filter (\<lambda>p. \<not> is_covered_by ack p) (pending conn)\<rparr>
               else conn)
        in if precedes (snd_wl1 ws) (seg_seq_num seg) \<or>
              snd_wl1 ws = seg_seq_num seg \<and> precedes_or_eq (snd_wl2 ws) ack
           then (SyncedState \<lparr>snd_wnd = seg_window seg, snd_wl1 = seg_seq_num seg, snd_wl2 = ack\<rparr>, conn')
           else (self, conn')
      else (self, conn))"

definition max_payload_len :: nat where
  "max_payload_len = ethernet_mtu - 20 - 20"

text \<open>\<open>VecDeque::drain(..n)\<close>: the first \<open>n\<close> elements and the rest. It panics if there are fewer than \<open>n\<close>.\<close>

definition drain_front :: "nat \<Rightarrow> 'b list \<Rightarrow> ('b list \<times> 'b list) result" where
  "drain_front n buf = (if n \<le> length buf then Inr (take n buf, drop n buf) else Inl Panic)"

text \<open>Whatever becomes of the bytes taken out, they are gone from the buffer when the iterator is dropped.\<close>

definition drain_transmittable ::
    "'t synced_state \<Rightarrow> conn_state \<Rightarrow> (conn_state, tcp_payload option) stateful" where
  "drain_transmittable self conn =
     (case usize_try_from_offset (seq_sub (snd_nxt conn) (snd_una conn)) of
        Inl e \<Rightarrow> (conn, Inl e)
      | Inr sent_but_not_acked \<Rightarrow>
          let space_in_window = usize_from_offset (snd_wnd (window_state_of self)) - sent_but_not_acked;
              bytes_to_send = min (min space_in_window (length (send_buffer conn))) max_payload_len
          in case drain_front bytes_to_send (send_buffer conn) of
               Inl e \<Rightarrow> (conn, Inl e)
             | Inr (drained, rest) \<Rightarrow> (conn\<lparr>send_buffer := rest\<rparr>, try_from_iter drained))"

text \<open>The bound by the length of the buffer keeps \<open>drain\<close> from panicking.\<close>

lemma drain_transmittable_run:
  "drain_transmittable self conn =
     (case usize_try_from_offset (seq_sub (snd_nxt conn) (snd_una conn)) of
        Inl e \<Rightarrow> (conn, Inl e)
      | Inr sent_but_not_acked \<Rightarrow>
          let space_in_window = usize_from_offset (snd_wnd (window_state_of self)) - sent_but_not_acked;
              bytes_to_send = min (min space_in_window (length (send_buffer conn))) max_payload_len
          in (conn\<lparr>send_buffer := drop bytes_to_send (send_buffer conn)\<rparr>,
              try_from_iter (take bytes_to_send (send_buffer conn))))"
  by (simp add: drain_transmittable_def drain_front_def Let_def min_le_iff_disj split: sum.split)

section \<open>The send side\<close>

text \<open>
  What is in flight: the sequence numbers from SND.UNA up to SND.NXT. A pending segment, seen from
  SND.NXT, ends \<open>ahead (end_seq p) SND.NXT\<close> back and reaches \<open>consumed\<close> further.
\<close>

definition in_flight :: "conn_state \<Rightarrow> nat" where
  "in_flight conn = ahead (snd_una conn) (snd_nxt conn)"

definition covers_back :: "dir_out seq_point \<Rightarrow> nat \<Rightarrow> pending_segment \<Rightarrow> bool" where
  "covers_back nxt k p \<longleftrightarrow>
     ahead (end_seq p) nxt \<le> k \<and> k < ahead (end_seq p) nxt + consumed (pend_info p)"

definition pending_wf :: "pending_segment \<Rightarrow> bool" where
  "pending_wf p \<longleftrightarrow> payload_opt_wf (info_payload (pend_info p)) \<and>
     length (payload_bytes (info_payload (pend_info p))) \<le> max_payload_len \<and>
     end_seq p = end_seq (pending_new (pend_info p) (last_sent_at p))"

text \<open>
  The send-side invariant: at most 65536 sequence numbers are in flight (a full window and a FIN);
  every pending segment is well formed and not yet fully acknowledged; and every sequence number
  in flight is covered by a pending segment, so that it can be retransmitted.
\<close>

definition send_inv :: "conn_state \<Rightarrow> bool" where
  "send_inv conn \<longleftrightarrow> in_flight conn \<le> 65536 \<and>
     (\<forall>p \<in> set (pending conn). pending_wf p \<and> ahead (end_seq p) (snd_nxt conn) < in_flight conn) \<and>
     (\<forall>k < in_flight conn. \<exists>p \<in> set (pending conn). covers_back (snd_nxt conn) k p)"

text \<open>The acknowledgment the comparisons cannot place: the antipode of SND.UNA.\<close>

definition ack_placeable :: "conn_state \<Rightarrow> in_segment \<Rightarrow> bool" where
  "ack_placeable conn seg \<longleftrightarrow> ahead (snd_una conn) (seg_ack_num seg) \<noteq> 2147483648"

text \<open>An acceptable acknowledgment lies in what is in flight.\<close>

lemma acceptable_ack_iff:
  assumes "in_flight conn \<le> 65536" and "ack_placeable conn seg"
  shows "precedes_or_eq (snd_una conn) (seg_ack_num seg) \<and> precedes_or_eq (seg_ack_num seg) (snd_nxt conn) \<longleftrightarrow>
    ahead (snd_una conn) (seg_ack_num seg) \<le> in_flight conn"
    and "ahead (snd_una conn) (seg_ack_num seg) \<le> in_flight conn \<Longrightarrow>
      ahead (seg_ack_num seg) (snd_nxt conn) = in_flight conn - ahead (snd_una conn) (seg_ack_num seg)"
proof -
  define f where "f = in_flight conn"
  define a where "a = ahead (snd_una conn) (seg_ack_num seg)"
  define b where "b = ahead (seg_ack_num seg) (snd_nxt conn)"
  have ab: "a < 4294967296" "b < 4294967296" by (simp_all add: a_def b_def)
  have sum: "f = (a + b) mod 4294967296"
    unfolding f_def a_def b_def in_flight_def by (rule ahead_trans)
  have f: "f \<le> 65536" and ne: "a \<noteq> 2147483648"
    using assms by (simp_all add: f_def a_def ack_placeable_def)
  have two: "f = a + b \<or> f + 4294967296 = a + b"
  proof (cases "a + b < 4294967296")
    case False
    then have "(a + b) mod 4294967296 = a + b - 4294967296"
      using ab by (simp add: le_mod_geq)
    then show ?thesis using sum False by simp
  qed (simp add: sum)
  then show "ahead (snd_una conn) (seg_ack_num seg) \<le> in_flight conn \<Longrightarrow> ahead (seg_ack_num seg) (snd_nxt conn) = in_flight conn - ahead (snd_una conn) (seg_ack_num seg)"
    unfolding f_def [symmetric] a_def [symmetric] b_def [symmetric] using ab f by linarith
  have "a \<le> 2147483648 \<and> b \<le> 2147483648 \<longleftrightarrow> a \<le> f"
    using two ab f ne by auto
  then show "precedes_or_eq (snd_una conn) (seg_ack_num seg) \<and> precedes_or_eq (seg_ack_num seg) (snd_nxt conn) \<longleftrightarrow>
    ahead (snd_una conn) (seg_ack_num seg) \<le> in_flight conn"
    by (simp add: precedes_or_eq_iff f_def a_def b_def)
qed

text \<open>What processing an acknowledgment does to the connection.\<close>

lemma incoming_ack_update_conn:
  assumes "in_flight conn \<le> 65536" and "ack_placeable conn seg"
  shows "snd (incoming_ack_update self seg conn) =
    (if 0 < ahead (snd_una conn) (seg_ack_num seg) \<and> ahead (snd_una conn) (seg_ack_num seg) \<le> in_flight conn
     then conn\<lparr>snd_una := seg_ack_num seg,
               pending := filter (\<lambda>p. \<not> is_covered_by (seg_ack_num seg) p) (pending conn)\<rparr>
     else conn)"
proof -
  have "precedes (snd_una conn) (seg_ack_num seg) \<longleftrightarrow> 0 < ahead (snd_una conn) (seg_ack_num seg)"
    if "ahead (snd_una conn) (seg_ack_num seg) \<le> in_flight conn"
    using that assms(1) by (simp add: precedes_iff)
  then show ?thesis
    unfolding incoming_ack_update_def Let_def acceptable_ack_iff(1) [OF assms] by simp
qed

lemma covered_iff_behind:
  assumes "ahead e nxt \<le> 1000000" and "ahead a nxt \<le> 1000000"
  shows "precedes_or_eq e a \<longleftrightarrow> ahead a nxt \<le> ahead e nxt"
proof -
  define x where "x = ahead e a"
  have e: "ahead e nxt = (x + ahead a nxt) mod 4294967296"
    unfolding x_def by (rule ahead_trans)
  have x: "x < 4294967296" by (simp add: x_def)
  show ?thesis
  proof (cases "x + ahead a nxt < 4294967296")
    case True
    then have "ahead e nxt = x + ahead a nxt" using e by simp
    then show ?thesis using assms by (simp add: precedes_or_eq_iff x_def [symmetric])
  next
    case False
    then have "ahead e nxt = x + ahead a nxt - 4294967296"
      using e x assms by (simp add: le_mod_geq)
    then show ?thesis using False x assms by (simp add: precedes_or_eq_iff x_def [symmetric])
  qed
qed

lemma send_inv_acked:
  assumes inv: "send_inv conn" and flight: "ahead a (snd_nxt conn) \<le> in_flight conn"
  shows "send_inv (conn\<lparr>snd_una := a, pending := filter (\<lambda>p. \<not> is_covered_by a p) (pending conn)\<rparr>)"
proof -
  have le: "in_flight conn \<le> 65536" using inv by (simp add: send_inv_def)
  have retained: "\<not> is_covered_by a p \<longleftrightarrow> ahead (end_seq p) (snd_nxt conn) < ahead a (snd_nxt conn)"
    if "p \<in> set (pending conn)" for p
  proof -
    have "ahead (end_seq p) (snd_nxt conn) < in_flight conn"
      using inv that by (simp add: send_inv_def)
    then show ?thesis
      using le flight by (simp add: is_covered_by_def covered_iff_behind [of _ "snd_nxt conn"] not_le)
  qed
  show ?thesis
    unfolding send_inv_def
  proof (intro conjI ballI allI impI)
    show "in_flight (conn\<lparr>snd_una := a, pending := filter (\<lambda>p. \<not> is_covered_by a p) (pending conn)\<rparr>) \<le> 65536"
      using flight le by (simp add: in_flight_def)
  next
    fix p assume "p \<in> set (pending (conn\<lparr>snd_una := a, pending := filter (\<lambda>p. \<not> is_covered_by a p) (pending conn)\<rparr>))"
    then have "p \<in> set (pending conn)" "\<not> is_covered_by a p" by simp_all
    then show "pending_wf p" and "ahead (end_seq p)
       (snd_nxt (conn\<lparr>snd_una := a, pending := filter (\<lambda>p. \<not> is_covered_by a p) (pending conn)\<rparr>))
       < in_flight (conn\<lparr>snd_una := a, pending := filter (\<lambda>p. \<not> is_covered_by a p) (pending conn)\<rparr>)"
      using inv retained by (simp_all add: send_inv_def in_flight_def)
  next
    fix k assume "k < in_flight (conn\<lparr>snd_una := a, pending := filter (\<lambda>p. \<not> is_covered_by a p) (pending conn)\<rparr>)"
    then have k: "k < ahead a (snd_nxt conn)" by (simp add: in_flight_def)
    then have "k < in_flight conn" using flight by simp
    then obtain p where p: "p \<in> set (pending conn)" "covers_back (snd_nxt conn) k p"
      using inv by (auto simp: send_inv_def)
    then have "\<not> is_covered_by a p"
      using retained k by (auto simp: covers_back_def)
    with p show "\<exists>p \<in> set (pending (conn\<lparr>snd_una := a, pending := filter (\<lambda>p. \<not> is_covered_by a p) (pending conn)\<rparr>)).
       covers_back (snd_nxt (conn\<lparr>snd_una := a, pending := filter (\<lambda>p. \<not> is_covered_by a p) (pending conn)\<rparr>)) k p"
      by auto
  qed
qed

lemma incoming_ack_update_inv:
  assumes "send_inv conn" and "ack_placeable conn seg"
  shows "send_inv (snd (incoming_ack_update self seg conn))"
    and "in_flight (snd (incoming_ack_update self seg conn)) \<le> in_flight conn"
proof -
  have le: "in_flight conn \<le> 65536" using assms(1) by (simp add: send_inv_def)
  note a = acceptable_ack_iff(2) [OF le assms(2)]
  show "send_inv (snd (incoming_ack_update self seg conn))"
    unfolding incoming_ack_update_conn [OF le assms(2)]
    using assms(1) a send_inv_acked [OF assms(1), of "seg_ack_num seg"] by simp
  show "in_flight (snd (incoming_ack_update self seg conn)) \<le> in_flight conn"
    unfolding incoming_ack_update_conn [OF le assms(2)] using a by (simp add: in_flight_def)
qed

text \<open>The fields an acknowledgment leaves alone, whatever it is.\<close>

lemma incoming_ack_update_frame [simp]:
  "snd_nxt (snd (incoming_ack_update self seg conn)) = snd_nxt conn"
  "rcv_nxt (snd (incoming_ack_update self seg conn)) = rcv_nxt conn"
  "send_buffer (snd (incoming_ack_update self seg conn)) = send_buffer conn"
  "reassembly (snd (incoming_ack_update self seg conn)) = reassembly conn"
  "tcp_state_of (snd (incoming_ack_update self seg conn)) = tcp_state_of conn"
  by (simp_all add: incoming_ack_update_def Let_def)

lemma incoming_ack_update_pending_subset:
  "set (pending (snd (incoming_ack_update self seg conn))) \<subseteq> set (pending conn)"
  by (auto simp: incoming_ack_update_def Let_def)

text \<open>What draining takes from the send buffer.\<close>

definition transmittable :: "'t synced_state \<Rightarrow> conn_state \<Rightarrow> nat" where
  "transmittable self conn =
     min (min (unat (offset (snd_wnd (window_state_of self))) - in_flight conn) (length (send_buffer conn)))
       max_payload_len"

lemma drain_transmittable_eq:
  assumes "in_flight conn \<le> 65536"
  shows "drain_transmittable self conn =
    (conn\<lparr>send_buffer := drop (transmittable self conn) (send_buffer conn)\<rparr>,
     try_from_iter (take (transmittable self conn) (send_buffer conn)))"
  using assms usize_try_from_sub [of "snd_nxt conn" "snd_una conn"]
  by (simp add: drain_transmittable_run in_flight_def transmittable_def usize_from_offset_def Let_def)

lemma drain_transmittable_ok:
  assumes "in_flight conn \<le> 65536"
  obtains p where
    "drain_transmittable self conn =
       (conn\<lparr>send_buffer := drop (transmittable self conn) (send_buffer conn)\<rparr>, Inr p)"
    "payload_bytes p = take (transmittable self conn) (send_buffer conn)"
    "payload_opt_wf p" "length (payload_bytes p) = transmittable self conn"
proof -
  have "length (take (transmittable self conn) (send_buffer conn)) < 65536"
    by (simp add: transmittable_def max_payload_len_def)
  then obtain p where "try_from_iter (take (transmittable self conn) (send_buffer conn)) = Inr p"
    "payload_bytes p = take (transmittable self conn) (send_buffer conn)" "payload_opt_wf p"
    using try_from_iter_bytes by blast
  then show ?thesis
    using drain_transmittable_eq [OF assms, of self]
    by (intro that [of p]) (simp_all add: transmittable_def)
qed

text \<open>Recording a sent segment keeps the invariant while it fits.\<close>

lemma send_inv_sent:
  assumes inv: "send_inv conn" and wf: "payload_opt_wf (info_payload info)"
    and len: "length (payload_bytes (info_payload info)) \<le> max_payload_len"
    and seq: "info_seq_num info = snd_nxt conn"
    and fits: "in_flight conn + consumed info \<le> 65536" and n_pos: "0 < consumed info"
    and nxt: "snd_nxt conn' = end_seq (pending_new info t)"
    and rest: "snd_una conn' = snd_una conn" "pending conn' = pending conn @ [pending_new info t]"
  shows "send_inv conn'" and "in_flight conn' = in_flight conn + consumed info"
proof -
  let ?n = "consumed info"
  have n: "ahead (snd_nxt conn) (snd_nxt conn') = ?n"
    using ahead_end_seq [OF wf, of t] seq nxt by simp
  have shift: "ahead x (snd_nxt conn') = ahead x (snd_nxt conn) + ?n"
    if "ahead x (snd_nxt conn) \<le> 65536" for x
    using ahead_trans [of x "snd_nxt conn'" "snd_nxt conn"] n that fits by simp
  show flight: "in_flight conn' = in_flight conn + ?n"
    using inv by (simp add: in_flight_def rest shift send_inv_def)
  let ?p = "pending_new info t"
  have new: "pend_info ?p = info" "ahead (end_seq ?p) (snd_nxt conn') = 0"
    by (simp add: pending_new_def) (simp add: nxt)
  have old: "ahead (end_seq p) (snd_nxt conn') = ahead (end_seq p) (snd_nxt conn) + ?n"
    if "p \<in> set (pending conn)" for p
  proof (rule shift)
    have "ahead (end_seq p) (snd_nxt conn) < in_flight conn" "in_flight conn \<le> 65536"
      using inv that by (simp_all add: send_inv_def)
    then show "ahead (end_seq p) (snd_nxt conn) \<le> 65536" by linarith
  qed
  show "send_inv conn'"
    unfolding send_inv_def
  proof (intro conjI ballI allI impI)
    show "in_flight conn' \<le> 65536" using fits flight by simp
  next
    fix p assume "p \<in> set (pending conn')"
    then consider "p \<in> set (pending conn)" | "p = ?p" by (auto simp: rest)
    then show "pending_wf p" 
      by cases (use inv wf len in \<open>auto simp: send_inv_def pending_wf_def pending_new_def\<close>)
  next
    fix p assume "p \<in> set (pending conn')"
    then consider "p \<in> set (pending conn)" | "p = ?p" by (auto simp: rest)
    then show "ahead (end_seq p) (snd_nxt conn') < in_flight conn'"
    proof cases
      case 1
      then show ?thesis using inv old flight by (simp add: send_inv_def)
    next
      case 2
      then show ?thesis using new flight n_pos by simp
    qed
  next
    fix k assume k: "k < in_flight conn'"
    show "\<exists>p \<in> set (pending conn'). covers_back (snd_nxt conn') k p"
    proof (cases "k < ?n")
      case True
      then have "covers_back (snd_nxt conn') k ?p" by (simp add: covers_back_def new)
      then show ?thesis by (simp add: rest)
    next
      case False
      then have "k - ?n < in_flight conn" using k flight by simp
      then obtain p where "p \<in> set (pending conn)" "covers_back (snd_nxt conn) (k - ?n) p"
        using inv by (auto simp: send_inv_def)
      then have "covers_back (snd_nxt conn') k p" "p \<in> set (pending conn')"
        using False old by (auto simp: covers_back_def rest)
      then show ?thesis by blast
    qed
  qed
qed

end
