(* ===== verification/Connections.thy ===== *)
theory Connections
  imports Tcp_State "HOL-Library.AList"
begin

text \<open>
  \<open>stack/src/protocol/tcp/connections.rs\<close>: the connection table and the operations on all of it:
  retransmission, its deadline, and active close.

  The \<open>HashMap\<close> is an association list whose order stands for the unspecified iteration order;
  every statement holds for every order. A reading of the clock is the parameter \<open>now\<close>, and
  \<open>later\<close> is the reading \<open>time_due\<close> takes for itself when an instant overflows.
\<close>

record conn_key =
  client_ip :: ipv4_addr
  client_port :: u16
  server_ip :: ipv4_addr
  server_port :: u16

record tcp_connections =
  table :: "(conn_key \<times> conn_state) list"
  rto_config_of :: rto_config
  max_retries :: u8

definition connections_new :: "duration \<Rightarrow> u8 \<Rightarrow> tcp_connections" where
  "connections_new initial_rto retries_limit =
     \<lparr>table = [], rto_config_of = rto_config_new initial_rto, max_retries = retries_limit\<rparr>"

definition connections_len :: "tcp_connections \<Rightarrow> nat" where
  "connections_len self = length (table self)"

definition get_conn :: "conn_key \<Rightarrow> tcp_connections \<Rightarrow> conn_state option" where
  "get_conn key self = map_of (table self) key"

text \<open>Writing back through the reference that \<open>get_mut\<close> returns.\<close>

definition set_conn :: "conn_key \<Rightarrow> conn_state \<Rightarrow> tcp_connections \<Rightarrow> tcp_connections" where
  "set_conn key conn self = self\<lparr>table := AList.update key conn (table self)\<rparr>"

definition insert_syn_rcv ::
    "conn_key \<Rightarrow> conn_state \<Rightarrow> tcp_connections \<Rightarrow> (tcp_connections, unit) stateful" where
  "insert_syn_rcv key state self =
     (case tcp_state_of state of
        SynReceived _ \<Rightarrow> (self\<lparr>table := AList.update key state (table self)\<rparr>, Inr ())
      | _ \<Rightarrow> (self, Inl (Err (Static
          ''Attempted to insert a connection with a state other than SYN-RECEIVED''))))"

definition remove_conn :: "conn_key \<Rightarrow> tcp_connections \<Rightarrow> tcp_connections" where
  "remove_conn key self = self\<lparr>table := AList.delete key (table self)\<rparr>"

definition mid_close :: "tcp_state \<Rightarrow> bool" where
  "mid_close st \<longleftrightarrow> (case st of SynReceived _ \<Rightarrow> False | Established _ \<Rightarrow> False | _ \<Rightarrow> True)"

definition closing_in_progress :: "tcp_connections \<Rightarrow> bool" where
  "closing_in_progress self \<longleftrightarrow> list_ex (\<lambda>(_, conn). mid_close (tcp_state_of conn)) (table self)"

text \<open>\<open>Iterator::min\<close>.\<close>

fun min_list_opt :: "nat list \<Rightarrow> nat option" where
  "min_list_opt [] = None"
| "min_list_opt (x # xs) = Some (case min_list_opt xs of None \<Rightarrow> x | Some y \<Rightarrow> min x y)"

definition next_retransmit_deadline :: "instant \<Rightarrow> tcp_connections \<Rightarrow> instant option" where
  "next_retransmit_deadline later self =
     min_list_opt (map (time_due later (rto_config_of self))
       (concat (map (\<lambda>(_, conn). pending conn) (table self))))"

section \<open>Retransmission\<close>

definition is_due :: "instant \<Rightarrow> instant \<Rightarrow> tcp_connections \<Rightarrow> pending_segment \<Rightarrow> bool" where
  "is_due now later self p \<longleftrightarrow> time_due later (rto_config_of self) p \<le> now"

definition segment_to :: "conn_key \<Rightarrow> send_info \<Rightarrow> out_segment" where
  "segment_to key info =
     from_pairs_and_info (Ipv4AddrPair (server_ip key) (client_ip key))
       (PortPair (server_port key) (client_port key)) info"

fun retransmit_pending ::
    "instant \<Rightarrow> (pending_segment \<Rightarrow> bool) \<Rightarrow> conn_key \<Rightarrow> pending_segment list \<Rightarrow>
     out_segment list \<times> pending_segment list" where
  "retransmit_pending now due key [] = ([], [])"
| "retransmit_pending now due key (p # ps) =
     (let (segs, ps') = retransmit_pending now due key ps in
      if due p then
        let (info, p') = retransmit_info now p in (segment_to key info # segs, p' # ps')
      else (segs, p # ps'))"

fun retransmit_keys ::
    "instant \<Rightarrow> instant \<Rightarrow> conn_key list \<Rightarrow> tcp_connections \<Rightarrow> out_segment list \<times> tcp_connections" where
  "retransmit_keys now later [] self = ([], self)"
| "retransmit_keys now later (key # keys) self =
     (case get_conn key self of
        None \<Rightarrow> retransmit_keys now later keys self
      | Some conn \<Rightarrow>
          if list_ex (\<lambda>p. is_due now later self p \<and> exhausted_retries (max_retries self) p) (pending conn)
          then retransmit_keys now later keys (remove_conn key self)
          else
            let (segs, ps) = retransmit_pending now (is_due now later self) key (pending conn);
                (rest, self') = retransmit_keys now later keys (set_conn key (conn\<lparr>pending := ps\<rparr>) self)
            in (segs @ rest, self'))"

definition make_retransmissions ::
    "instant \<Rightarrow> instant \<Rightarrow> tcp_connections \<Rightarrow> out_segment list \<times> tcp_connections" where
  "make_retransmissions now later self =
     retransmit_keys now later
       (map fst (filter (\<lambda>(_, conn). list_ex (is_due now later self) (pending conn)) (table self))) self"

section \<open>Active close\<close>

definition close_conn :: "instant \<Rightarrow> conn_state \<Rightarrow> (send_info \<times> conn_state) option" where
  "close_conn now conn =
     (case tcp_state_of conn of
        Established est \<Rightarrow>
          let info = \<lparr>info_seq_num = snd_nxt conn, info_ack_num = rcv_nxt conn, info_flags = FinAck,
                      info_payload = None\<rparr>
          in Some (info, conn\<lparr>tcp_state_of := FinWait1 (close est),
                              snd_nxt := seq_add (snd_nxt conn) fin_byte_out,
                              pending := pending conn @ [pending_new info now]\<rparr>)
      | _ \<Rightarrow> None)"

fun close_entries ::
    "instant \<Rightarrow> (conn_key \<times> conn_state) list \<Rightarrow> out_segment list \<times> (conn_key \<times> conn_state) list" where
  "close_entries now [] = ([], [])"
| "close_entries now ((key, conn) # rest) =
     (let (segs, rest') = close_entries now rest in
      case close_conn now conn of
        None \<Rightarrow> (segs, (key, conn) # rest')
      | Some (info, conn') \<Rightarrow> (segment_to key info # segs, (key, conn') # rest'))"

text \<open>
  The iterator that \<open>close_established\<close> returns changes each connection when it reaches it; its
  caller runs it to the end.
\<close>

definition close_established :: "instant \<Rightarrow> tcp_connections \<Rightarrow> out_segment list \<times> tcp_connections" where
  "close_established now self =
     (let (segs, table') = close_entries now (table self) in (segs, self\<lparr>table := table'\<rparr>))"

section \<open>The table as a map\<close>

lemma get_set_conn [simp]:
  "get_conn k (set_conn key conn self) = (if k = key then Some conn else get_conn k self)"
  by (auto simp: get_conn_def set_conn_def update_conv')

lemma get_remove_conn [simp]:
  "get_conn k (remove_conn key self) = (if k = key then None else get_conn k self)"
  by (simp add: get_conn_def remove_conn_def delete_conv')

lemma set_conn_config [simp]:
  "rto_config_of (set_conn key conn self) = rto_config_of self"
  "max_retries (set_conn key conn self) = max_retries self"
  by (simp_all add: set_conn_def)

lemma remove_conn_config [simp]:
  "rto_config_of (remove_conn key self) = rto_config_of self"
  "max_retries (remove_conn key self) = max_retries self"
  by (simp_all add: remove_conn_def)

definition table_wf :: "tcp_connections \<Rightarrow> bool" where
  "table_wf self \<longleftrightarrow> distinct (map fst (table self))"

lemma table_wf_set [simp]: "table_wf self \<Longrightarrow> table_wf (set_conn key conn self)"
  by (simp add: table_wf_def set_conn_def distinct_update)

lemma table_wf_remove [simp]: "table_wf self \<Longrightarrow> table_wf (remove_conn key self)"
  by (simp add: table_wf_def remove_conn_def distinct_delete)

end
