(* ===== verification/Send_Info.thy ===== *)
theory Send_Info
  imports Connections
begin

text \<open>
  \<open>stack/src/protocol/tcp/send_info.rs\<close>: the reply logic, one definition per handler, each with the
  guards of the source in the order of its match arms.

  A handler that reaches the application works on the pair of the application's state and the
  connection. A fallible handler is \<open>stateful\<close>: the changes it made before an error stay.
\<close>

datatype seq_check = InOrder | OutOfOrder | Unacceptable

definition check_seq :: "in_segment \<Rightarrow> conn_state \<Rightarrow> seq_check" where
  "check_seq seg conn =
     (if seg_seq_num seg = rcv_nxt conn then InOrder
      else if in_window (seg_seq_num seg) (rcv_nxt conn) (offset_u32_from_u16 rcv_wnd) then OutOfOrder
      else Unacceptable)"

definition pure_ack :: "conn_state \<Rightarrow> send_info" where
  "pure_ack conn =
     \<lparr>info_seq_num = snd_nxt conn, info_ack_num = rcv_nxt conn, info_flags = Ack, info_payload = None\<rparr>"

definition rst :: "in_segment \<Rightarrow> send_info" where
  "rst seg =
     \<lparr>info_seq_num = seg_ack_num seg, info_ack_num = SeqPoint 0, info_flags = Rst, info_payload = None\<rparr>"

text \<open>A reply, if any, and whether to remove the connection.\<close>

type_synonym decision = "send_info option \<times> bool"

section \<open>Sending\<close>

definition data_payload :: "instant \<Rightarrow> tcp_payload \<Rightarrow> conn_state \<Rightarrow> send_info \<times> conn_state" where
  "data_payload now to_send conn =
     (let info = \<lparr>info_seq_num = snd_nxt conn, info_ack_num = rcv_nxt conn, info_flags = Ack,
                  info_payload = Some to_send\<rparr>
      in (info, conn\<lparr>snd_nxt := seq_add (snd_nxt conn) (offset_from_len (payload_len to_send)),
                     pending := pending conn @ [pending_new info now]\<rparr>))"

definition close_wait_or_last_ack ::
    "instant \<Rightarrow> close_wait synced_state \<Rightarrow> conn_state \<Rightarrow> (conn_state, send_info) stateful" where
  "close_wait_or_last_ack now cw conn =
     run_then (drain_transmittable cw conn) (\<lambda>conn to_send.
       if send_buffer conn = [] then
         let info = \<lparr>info_seq_num = snd_nxt conn, info_ack_num = rcv_nxt conn, info_flags = FinAck,
                     info_payload = to_send\<rparr>
         in (conn\<lparr>tcp_state_of := LastAck (send_fin cw),
                  snd_nxt := seq_add (seq_add (snd_nxt conn) (len_or_default_offset to_send)) fin_byte_out,
                  pending := pending conn @ [pending_new info now]\<rparr>, Inr info)
       else
         let conn = conn\<lparr>tcp_state_of := CloseWait cw\<rparr> in
         case to_send of
           Some p \<Rightarrow> (let (info, conn) = data_payload now p conn in (conn, Inr info))
         | None \<Rightarrow> (conn, Inr (pure_ack conn)))"

section \<open>Delivering to the application\<close>

definition deliver ::
    "'a application \<Rightarrow> tcp_payload \<Rightarrow> 'a \<times> conn_state \<Rightarrow> 'a \<times> conn_state" where
  "deliver ops p s =
     (let (app', appended) = handle_tcp ops (fst s) (payload_data p)
      in (app', (snd s)\<lparr>send_buffer := send_buffer (snd s) @ appended\<rparr>))"

text \<open>\<open>conn.rcv_nxt += payload.len().into()\<close>, then the call of the application.\<close>

definition receive_payload ::
    "'a application \<Rightarrow> tcp_payload option \<Rightarrow> 'a \<times> conn_state \<Rightarrow> 'a \<times> conn_state" where
  "receive_payload ops maybe_payload s =
     (case maybe_payload of
        None \<Rightarrow> s
      | Some p \<Rightarrow>
          deliver ops p
            (fst s, (snd s)\<lparr>rcv_nxt := seq_add (rcv_nxt (snd s)) (offset_from_len (payload_len p))\<rparr>))"

text \<open>The loop over \<open>drain_contiguous\<close>.\<close>

definition deliver_reassembled :: "'a application \<Rightarrow> 'a \<times> conn_state \<Rightarrow> 'a \<times> conn_state" where
  "deliver_reassembled ops s =
     (let (ps, rcv', re') = drain_contiguous (rcv_nxt (snd s)) (reassembly (snd s))
      in fold (deliver ops) ps (fst s, (snd s)\<lparr>rcv_nxt := rcv', reassembly := re'\<rparr>))"

definition advance_past_fin :: "conn_state \<Rightarrow> conn_state" where
  "advance_past_fin conn = conn\<lparr>rcv_nxt := seq_add (rcv_nxt conn) fin_byte_in\<rparr>"

text \<open>An operation on the connection alone, beside the application's state.\<close>

definition beside :: "'a \<Rightarrow> (conn_state, 'b) stateful \<Rightarrow> ('a \<times> conn_state, 'b) stateful" where
  "beside app r = ((app, fst r), snd r)"

definition reply_with :: "('s, send_info) stateful \<Rightarrow> ('s, decision) stateful" where
  "reply_with r = run_then r (\<lambda>s info. (s, Inr (Some info, False)))"

definition close_on_in_order_fin ::
    "'a application \<Rightarrow> instant \<Rightarrow> in_segment \<Rightarrow> tcp_payload option \<Rightarrow> established synced_state \<Rightarrow>
     'a \<times> conn_state \<Rightarrow> ('a \<times> conn_state, send_info) stateful" where
  "close_on_in_order_fin ops now seg maybe_payload old_est s =
     (let (app, conn) = receive_payload ops maybe_payload s;
          conn = advance_past_fin conn;
          (new_est, conn) = incoming_ack_update old_est seg conn
      in beside app (close_wait_or_last_ack now (rcv_fin new_est) conn))"

definition complete_handshake ::
    "in_segment \<Rightarrow> syn_received \<Rightarrow> conn_state \<Rightarrow> established synced_state \<times> conn_state" where
  "complete_handshake seg sr conn =
     (let est = establish sr seg
      in (est, conn\<lparr>tcp_state_of := Established est, snd_una := seg_ack_num seg, pending := []\<rparr>))"

section \<open>Buffering what is out of order\<close>

definition buffer_payload :: "in_segment \<Rightarrow> conn_state \<Rightarrow> conn_state" where
  "buffer_payload seg conn =
     (case seg_payload seg of
        None \<Rightarrow> conn
      | Some p \<Rightarrow> conn\<lparr>reassembly := reassembly_insert (seg_seq_num seg) p (reassembly conn)\<rparr>)"

definition buffer_fin :: "in_segment \<Rightarrow> conn_state \<Rightarrow> conn_state" where
  "buffer_fin seg conn =
     conn\<lparr>reassembly :=
       mark_fin (seq_add (seg_seq_num seg) (len_or_default_offset (seg_payload seg))) (reassembly conn)\<rparr>"

section \<open>The fallback\<close>

definition is_syn_received :: "tcp_state \<Rightarrow> bool" where
  "is_syn_received st \<longleftrightarrow> (case st of SynReceived _ \<Rightarrow> True | _ \<Rightarrow> False)"

definition known_conn_common_fallback :: "in_segment \<Rightarrow> conn_state \<Rightarrow> decision" where
  "known_conn_common_fallback seg conn =
     (let challenge_ack = (Some (pure_ack conn), False); check = check_seq seg conn in
      if seg_flags seg = Rst \<or> seg_flags seg = RstAck then
        (case check of
           Unacceptable \<Rightarrow> (None, False)
         | InOrder \<Rightarrow> (None, True)
         | OutOfOrder \<Rightarrow> challenge_ack)
      else if check = Unacceptable then challenge_ack
      else if (seg_flags seg = Syn \<or> seg_flags seg = SynAck) \<and> \<not> is_syn_received (tcp_state_of conn)
        then challenge_ack
      else (Some (rst seg), False))"

section \<open>The handlers\<close>

definition handle_syn_rcv ::
    "'a application \<Rightarrow> instant \<Rightarrow> in_segment \<Rightarrow> syn_received \<Rightarrow> 'a \<times> conn_state \<Rightarrow>
     ('a \<times> conn_state, decision) stateful" where
  "handle_syn_rcv ops now seg sr s =
     (let (app, conn) = s;
          acceptable_ack = (precedes (snd_una conn) (seg_ack_num seg) \<and>
                            precedes_or_eq (seg_ack_num seg) (snd_nxt conn));
          check = check_seq seg conn
      in
      if seg_flags seg = Syn then
        let info = \<lparr>info_seq_num = snd_una conn, info_ack_num = seq_add (seg_seq_num seg) syn_byte_in,
                    info_flags = SynAck, info_payload = None\<rparr>
        in ((app, conn\<lparr>pending := pending conn @ [pending_new info now]\<rparr>), Inr (Some info, False))
      else if seg_flags seg = Ack \<and> check = InOrder \<and> acceptable_ack then
        let (est, conn) = complete_handshake seg sr conn;
            (app, conn) = deliver_reassembled ops (receive_payload ops (seg_payload seg) (app, conn))
        in
        if fin_reached (rcv_nxt conn) (reassembly conn) then
          reply_with (beside app (close_wait_or_last_ack now (rcv_fin est) (advance_past_fin conn)))
        else if send_buffer conn \<noteq> [] then
          run_then (beside app (drain_transmittable est conn)) (\<lambda>(app, conn) maybe_to_send.
            case maybe_to_send of
              Some to_send \<Rightarrow>
                (let (info, conn) = data_payload now to_send conn in ((app, conn), Inr (Some info, False)))
            | None \<Rightarrow> ((app, conn), Inr (Some (pure_ack conn), False)))
        else ((app, conn), Inr (None, False))
      else if seg_flags seg = FinAck \<and> check = InOrder \<and> acceptable_ack then
        let (est, conn) = complete_handshake seg sr conn
        in reply_with (close_on_in_order_fin ops now seg (seg_payload seg) est (app, conn))
      else if (seg_flags seg = Ack \<or> seg_flags seg = FinAck) \<and> check = OutOfOrder \<and> acceptable_ack then
        let (_, conn) = complete_handshake seg sr conn;
            conn = buffer_payload seg conn;
            conn = (if seg_flags seg = FinAck then buffer_fin seg conn else conn)
        in ((app, conn), Inr (Some (pure_ack conn), False))
      else (s, Inr (known_conn_common_fallback seg conn)))"

definition handle_established ::
    "'a application \<Rightarrow> instant \<Rightarrow> in_segment \<Rightarrow> established synced_state \<Rightarrow> 'a \<times> conn_state \<Rightarrow>
     ('a \<times> conn_state, decision) stateful" where
  "handle_established ops now seg est s =
     (let (app, conn) = s; check = check_seq seg conn in
      if seg_flags seg = Ack \<and> check \<noteq> Unacceptable \<and> precedes (snd_nxt conn) (seg_ack_num seg) then
        (s, Inr (Some (pure_ack conn), False))
      else if seg_flags seg = Ack \<and> seg_payload seg = None \<and> check \<noteq> Unacceptable then
        let (new_est, conn) = incoming_ack_update est seg conn;
            conn = conn\<lparr>tcp_state_of := Established new_est\<rparr>
        in run_then (beside app (drain_transmittable new_est conn)) (\<lambda>(app, conn) maybe_to_send.
             case maybe_to_send of
               Some to_send \<Rightarrow>
                 (let (info, conn) = data_payload now to_send conn in ((app, conn), Inr (Some info, False)))
             | None \<Rightarrow> ((app, conn), Inr (None, False)))
      else if seg_flags seg = Ack \<and> seg_payload seg \<noteq> None \<and> check = InOrder then
        let (new_est, conn) = incoming_ack_update est seg conn;
            conn = conn\<lparr>tcp_state_of := Established new_est\<rparr>;
            (app, conn) = deliver_reassembled ops (receive_payload ops (seg_payload seg) (app, conn))
        in
        if fin_reached (rcv_nxt conn) (reassembly conn) then
          reply_with (beside app (close_wait_or_last_ack now (rcv_fin new_est) (advance_past_fin conn)))
        else
          run_then (beside app (drain_transmittable new_est conn)) (\<lambda>(app, conn) maybe_to_send.
            case maybe_to_send of
              Some to_send \<Rightarrow>
                (let (info, conn) = data_payload now to_send conn in ((app, conn), Inr (Some info, False)))
            | None \<Rightarrow> ((app, conn), Inr (Some (pure_ack conn), False)))
      else if seg_flags seg = Ack \<and> seg_payload seg \<noteq> None \<and> check = OutOfOrder then
        let (new_est, conn) = incoming_ack_update est seg conn;
            conn = buffer_payload seg (conn\<lparr>tcp_state_of := Established new_est\<rparr>)
        in ((app, conn), Inr (Some (pure_ack conn), False))
      else if seg_flags seg = FinAck \<and> check = InOrder then
        reply_with (close_on_in_order_fin ops now seg (seg_payload seg) est s)
      else if seg_flags seg = FinAck \<and> check = OutOfOrder then
        let (new_est, conn) = incoming_ack_update est seg conn;
            conn = buffer_fin seg (buffer_payload seg (conn\<lparr>tcp_state_of := Established new_est\<rparr>))
        in ((app, conn), Inr (Some (pure_ack conn), False))
      else (s, Inr (known_conn_common_fallback seg conn)))"

definition handle_fin_wait_1 ::
    "in_segment \<Rightarrow> fin_wait_1 synced_state \<Rightarrow> conn_state \<Rightarrow> conn_state \<times> decision" where
  "handle_fin_wait_1 seg fw1 conn =
     (let our_fin_acked = (seg_ack_num seg = snd_nxt conn); check = check_seq seg conn in
      if seg_flags seg = Ack \<and> seg_payload seg \<noteq> None \<and> check = InOrder then
        let conn = conn\<lparr>rcv_nxt := seq_add (rcv_nxt conn) (len_or_default_offset (seg_payload seg))\<rparr>;
            info = pure_ack conn;
            (fw1', conn) = incoming_ack_update fw1 seg conn
        in (conn\<lparr>tcp_state_of := FinWait1 fw1'\<rparr>, (Some info, False))
      else if seg_flags seg = Ack \<and> seg_payload seg = None \<and> check \<noteq> Unacceptable \<and> our_fin_acked then
        let (fw1', conn) = incoming_ack_update fw1 seg conn
        in (conn\<lparr>tcp_state_of := FinWait2 (rcv_ack_of_fin fw1')\<rparr>, (None, False))
      else if seg_flags seg = Ack \<and> seg_payload seg = None \<and> check \<noteq> Unacceptable \<and> \<not> our_fin_acked then
        let (fw1', conn) = incoming_ack_update fw1 seg conn
        in (conn\<lparr>tcp_state_of := FinWait1 fw1'\<rparr>, (None, False))
      else if seg_flags seg = FinAck \<and> check = InOrder \<and> our_fin_acked then
        let conn = conn\<lparr>rcv_nxt := seq_add (seq_add (rcv_nxt conn)
              (len_or_default_offset (seg_payload seg))) fin_byte_in\<rparr>
        in (conn, (Some (pure_ack conn), True))
      else if seg_flags seg = FinAck \<and> check = InOrder \<and> \<not> our_fin_acked then
        let conn = conn\<lparr>rcv_nxt := seq_add (seq_add (rcv_nxt conn)
              (len_or_default_offset (seg_payload seg))) fin_byte_in\<rparr>;
            info = pure_ack conn;
            (fw1', conn) = incoming_ack_update fw1 seg conn
        in (conn\<lparr>tcp_state_of := Closing (rcv_fin_before_fin_is_acked fw1')\<rparr>, (Some info, False))
      else (conn, known_conn_common_fallback seg conn))"

definition handle_fin_wait_2 ::
    "in_segment \<Rightarrow> fin_wait_2 synced_state \<Rightarrow> conn_state \<Rightarrow> conn_state \<times> decision" where
  "handle_fin_wait_2 seg fw2 conn =
     (let check = check_seq seg conn in
      if seg_flags seg = Ack \<and> seg_payload seg \<noteq> None \<and> check = InOrder then
        let conn = conn\<lparr>rcv_nxt := seq_add (rcv_nxt conn) (len_or_default_offset (seg_payload seg))\<rparr>;
            info = pure_ack conn;
            (fw2', conn) = incoming_ack_update fw2 seg conn
        in (conn\<lparr>tcp_state_of := FinWait2 fw2'\<rparr>, (Some info, False))
      else if seg_flags seg = Ack \<and> seg_payload seg = None \<and> check \<noteq> Unacceptable then
        let (fw2', conn) = incoming_ack_update fw2 seg conn
        in (conn\<lparr>tcp_state_of := FinWait2 fw2'\<rparr>, (None, False))
      else if seg_flags seg = FinAck \<and> check = InOrder then
        let conn = conn\<lparr>rcv_nxt := seq_add (seq_add (rcv_nxt conn)
              (len_or_default_offset (seg_payload seg))) fin_byte_in\<rparr>
        in (conn, (Some (pure_ack conn), True))
      else (conn, known_conn_common_fallback seg conn))"

definition handle_close_wait ::
    "instant \<Rightarrow> in_segment \<Rightarrow> close_wait synced_state \<Rightarrow> conn_state \<Rightarrow> (conn_state, decision) stateful" where
  "handle_close_wait now seg cw conn =
     (if seg_flags seg = Ack \<and> seg_payload seg = None \<and> check_seq seg conn \<noteq> Unacceptable then
        let (new_cw, conn) = incoming_ack_update cw seg conn
        in reply_with (close_wait_or_last_ack now new_cw conn)
      else (conn, Inr (known_conn_common_fallback seg conn)))"

definition handle_closing ::
    "in_segment \<Rightarrow> closing synced_state \<Rightarrow> conn_state \<Rightarrow> conn_state \<times> decision" where
  "handle_closing seg cl conn =
     (let our_fin_acked = (seg_ack_num seg = snd_nxt conn); check = check_seq seg conn in
      if seg_flags seg = Ack \<and> seg_payload seg = None \<and> check \<noteq> Unacceptable \<and> our_fin_acked then
        (conn, (None, True))
      else if seg_flags seg = Ack \<and> seg_payload seg = None \<and> check \<noteq> Unacceptable \<and> \<not> our_fin_acked then
        let (cl', conn) = incoming_ack_update cl seg conn
        in (conn\<lparr>tcp_state_of := Closing cl'\<rparr>, (None, False))
      else (conn, known_conn_common_fallback seg conn))"

definition handle_last_ack ::
    "in_segment \<Rightarrow> last_ack synced_state \<Rightarrow> conn_state \<Rightarrow> conn_state \<times> decision" where
  "handle_last_ack seg la conn =
     (let our_fin_acked = (seg_ack_num seg = snd_nxt conn); check = check_seq seg conn in
      if seg_flags seg = Ack \<and> seg_payload seg = None \<and> check \<noteq> Unacceptable \<and> \<not> our_fin_acked then
        let (la', conn) = incoming_ack_update la seg conn
        in (conn\<lparr>tcp_state_of := LastAck la'\<rparr>, (None, False))
      else if seg_flags seg = Ack \<and> seg_payload seg = None \<and> check \<noteq> Unacceptable \<and> our_fin_acked then
        (conn, (None, True))
      else (conn, known_conn_common_fallback seg conn))"

section \<open>Deciding on a reply\<close>

definition infallibly :: "'a \<Rightarrow> conn_state \<times> decision \<Rightarrow> ('a \<times> conn_state, decision) stateful" where
  "infallibly app r = ((app, fst r), Inr (snd r))"

definition handle_known_conn ::
    "'a application \<Rightarrow> instant \<Rightarrow> in_segment \<Rightarrow> 'a \<times> conn_state \<Rightarrow>
     ('a \<times> conn_state, decision) stateful" where
  "handle_known_conn ops now seg s =
     (let (app, conn) = s in
      case tcp_state_of conn of
        SynReceived sr \<Rightarrow> handle_syn_rcv ops now seg sr s
      | Established est \<Rightarrow> handle_established ops now seg est s
      | FinWait1 fw1 \<Rightarrow> infallibly app (handle_fin_wait_1 seg fw1 conn)
      | FinWait2 fw2 \<Rightarrow> infallibly app (handle_fin_wait_2 seg fw2 conn)
      | CloseWait cw \<Rightarrow> beside app (handle_close_wait now seg cw conn)
      | Closing cl \<Rightarrow> infallibly app (handle_closing seg cl conn)
      | LastAck la \<Rightarrow> infallibly app (handle_last_ack seg la conn))"

text \<open>\<open>urandom\<close> is what \<open>random_u32\<close> reads, or the error it gets.\<close>

definition handle_unknown_conn ::
    "instant \<Rightarrow> io_error + bytes \<Rightarrow> in_segment \<Rightarrow> conn_key \<Rightarrow> tcp_connections \<Rightarrow>
     (tcp_connections, send_info option) stateful" where
  "handle_unknown_conn now urandom seg key conns =
     (if seg_flags seg = Syn then
        run_then (conns, random_u32 urandom) (\<lambda>conns isn.
        let info = \<lparr>info_seq_num = SeqPoint isn, info_ack_num = seq_add (seg_seq_num seg) syn_byte_in,
                    info_flags = SynAck, info_payload = None\<rparr>
        in run_then (conns, from_syn_ack now info) (\<lambda>conns state.
           run_then (insert_syn_rcv key state conns) (\<lambda>conns _. (conns, Inr (Some info)))))
      else if seg_flags seg = Rst \<or> seg_flags seg = RstAck then (conns, Inr None)
      else (conns, Inr (Some (rst seg))))"

definition key_of :: "in_segment \<Rightarrow> conn_key" where
  "key_of seg =
     \<lparr>client_ip = ip_src (seg_ip_pair seg), client_port = port_src (seg_ports seg),
      server_ip = ip_dst (seg_ip_pair seg), server_port = port_dst (seg_ports seg)\<rparr>"

definition decide_reply ::
    "'a application \<Rightarrow> instant \<Rightarrow> io_error + bytes \<Rightarrow> in_segment \<Rightarrow> 'a \<times> tcp_connections \<Rightarrow>
     ('a \<times> tcp_connections, send_info option) stateful" where
  "decide_reply ops now urandom seg s =
     (let (app, conns) = s; key = key_of seg in
      case get_conn key conns of
        None \<Rightarrow>
          let (conns, r) = handle_unknown_conn now urandom seg key conns in ((app, conns), r)
      | Some conn \<Rightarrow>
          let ((app, conn), r) = handle_known_conn ops now seg (app, conn);
              conns = set_conn key conn conns
          in run_then ((app, conns), r) (\<lambda>(app, conns) (maybe_info, remove_it).
             ((app, if remove_it then remove_conn key conns else conns), Inr maybe_info)))"

text \<open>\<open>TcpSegment::<In>::create_reply\<close>.\<close>

definition create_tcp_reply ::
    "'a application \<Rightarrow> instant \<Rightarrow> io_error + bytes \<Rightarrow> in_segment \<Rightarrow> 'a \<times> tcp_connections \<Rightarrow>
     ('a \<times> tcp_connections, out_segment option) stateful" where
  "create_tcp_reply ops now urandom seg s =
     run_then (decide_reply ops now urandom seg s) (\<lambda>s maybe_info.
       (s, Inr (map_option (from_pairs_and_info (ip_swapped (seg_ip_pair seg)) (port_swapped (seg_ports seg)))
         maybe_info)))"

end
