(* ===== verification/Ipv4_Packet.thy ===== *)
theory Ipv4_Packet
  imports Ipv4_Header Icmp_Echo Udp Send_Info
begin

text \<open>
  \<open>stack/src/ipv4_packet.rs\<close>: whole packets, the router over the three protocols, replies, and
  writing a reply into a buffer of one MTU. \<open>ProtocolRouter\<close> implements \<open>Encode\<close> by dispatching
  to the inner structs; the interpretation \<open>router\<close> obtains its contract from theirs.
\<close>

datatype ('d, 'r) protocol_router =
    RouterIcmp "'d icmp_echo_msg"
  | RouterTcp "('d, 'r) tcp_segment"
  | RouterUdp "'d udp_datagram"

datatype ('d, 'r) ipv4_packet =
  Ipv4Packet (ipv4_hdr: "'d ipv4_header") (router: "('d, 'r) protocol_router")

type_synonym in_packet = "(dir_in, dir_out) ipv4_packet"
type_synonym out_packet = "(dir_out, dir_in) ipv4_packet"
type_synonym out_router = "(dir_out, dir_in) protocol_router"

definition parse_packet :: "bytes \<Rightarrow> in_packet result" where
  "parse_packet data =
     and_then (parse_ipv4_header data) (\<lambda>(hdr, ipv4_payload).
     and_then
       (case hdr_protocol hdr of
          Icmp \<Rightarrow> and_then (parse_icmp ipv4_payload (hdr_ip_pair hdr)) (\<lambda>m. Inr (RouterIcmp m))
        | Tcp \<Rightarrow> and_then (parse_tcp ipv4_payload (hdr_ip_pair hdr)) (\<lambda>s. Inr (RouterTcp s))
        | Udp \<Rightarrow> and_then (parse_udp ipv4_payload (hdr_ip_pair hdr)) (\<lambda>d. Inr (RouterUdp d))) (\<lambda>r.
     Inr (Ipv4Packet hdr r)))"

section \<open>The router\<close>

fun router_write :: "out_router \<Rightarrow> bytes \<Rightarrow> bytes result" where
  "router_write (RouterIcmp m) buf = write_icmp m buf"
| "router_write (RouterTcp s) buf = write_tcp s buf"
| "router_write (RouterUdp d) buf = write_udp d buf"

fun router_proto :: "out_router \<Rightarrow> protocol" where
  "router_proto (RouterIcmp m) = Icmp"
| "router_proto (RouterTcp s) = Tcp"
| "router_proto (RouterUdp d) = Udp"

fun router_ip_pair :: "out_router \<Rightarrow> dir_out ipv4_addr_pair" where
  "router_ip_pair (RouterIcmp m) = icmp_ip_pair m"
| "router_ip_pair (RouterTcp s) = seg_ip_pair s"
| "router_ip_pair (RouterUdp d) = udp_ip_pair d"

fun router_proto_len :: "out_router \<Rightarrow> u16 result" where
  "router_proto_len (RouterIcmp m) = icmp_proto_len m"
| "router_proto_len (RouterTcp s) = tcp_proto_len s"
| "router_proto_len (RouterUdp d) = udp_proto_len d"

fun router_encoding :: "out_router \<Rightarrow> bytes" where
  "router_encoding (RouterIcmp m) = icmp_encoding m"
| "router_encoding (RouterTcp s) = tcp_encoding s"
| "router_encoding (RouterUdp d) = udp_encoding d"

fun router_wf :: "out_router \<Rightarrow> bool" where
  "router_wf (RouterTcp s) = segment_wf s"
| "router_wf _ = True"

interpretation router: encode router_wf router_encoding router_write router_proto router_ip_pair router_proto_len
proof unfold_locales
  fix x :: out_router and buf
  assume wf: "router_wf x"
  show "length (router_encoding x) \<le> length buf \<Longrightarrow> length (router_encoding x) \<le> ethernet_mtu \<Longrightarrow>
      router_write x buf = Inr (router_encoding x @ drop (length (router_encoding x)) buf)"
    using wf icmp.writes_encoding tcp.writes_encoding udp.writes_encoding by (cases x) simp_all
  show "length buf < length (router_encoding x) \<Longrightarrow> \<exists>e. router_write x buf = Inl (Err e)"
    using wf icmp.write_too_short tcp.write_too_short udp.write_too_short by (cases x) simp_all
  show "length (router_encoding x) < 65536 \<Longrightarrow>
      router_proto_len x = Inr (word_of_nat (length (router_encoding x)))"
    using wf icmp.proto_len_fits tcp.proto_len_fits udp.proto_len_fits
    by (cases x) (simp_all del: of_nat_add length_icmp_encoding length_tcp_encoding length_udp_encoding)
  show "65536 \<le> length (router_encoding x) \<Longrightarrow> \<exists>e. router_proto_len x = Inl (Err e)"
    using wf icmp.proto_len_overflow tcp.proto_len_overflow udp.proto_len_overflow
    by (cases x) (simp_all del: length_icmp_encoding length_tcp_encoding length_udp_encoding)
qed

section \<open>Replies\<close>

definition packet_of_router :: "out_router \<Rightarrow> out_packet result" where
  "packet_of_router r =
     and_then (router_proto_len r) (\<lambda>n.
     and_then (try_new_ipv4_header (router_proto r) (router_ip_pair r) n) (\<lambda>hdr.
     Inr (Ipv4Packet hdr r)))"

definition create_reply ::
    "'a application \<Rightarrow> instant \<Rightarrow> io_error + bytes \<Rightarrow> in_packet \<Rightarrow> 'a \<times> tcp_connections \<Rightarrow>
     ('a \<times> tcp_connections, out_packet option) stateful" where
  "create_reply ops now urandom self s =
     run_then
       (case router self of
          RouterIcmp m \<Rightarrow> (s, Inr (Some (RouterIcmp (create_icmp_reply m))))
        | RouterTcp seg \<Rightarrow>
            run_then (create_tcp_reply ops now urandom seg s) (\<lambda>s m. (s, Inr (map_option RouterTcp m)))
        | RouterUdp d \<Rightarrow>
            (let (app', r) = create_udp_reply ops (fst s) d in ((app', snd s), Inr (Some (RouterUdp r)))))
       (\<lambda>s maybe_router.
          case maybe_router of
            None \<Rightarrow> (s, Inr None)
          | Some r \<Rightarrow> (s, and_then (packet_of_router r) (\<lambda>p. Inr (Some p))))"

text \<open>\<open>impl TryFrom<TcpSegment<Out>> for Ipv4Packet<Out>\<close>.\<close>

definition packet_try_from :: "out_segment \<Rightarrow> out_packet result" where
  "packet_try_from value =
     and_then (tcp_proto_len value) (\<lambda>n.
     and_then (try_new_ipv4_header Tcp (seg_ip_pair value) n) (\<lambda>hdr.
     Inr (Ipv4Packet hdr (RouterTcp value))))"

definition packet_total_len :: "out_packet \<Rightarrow> u16" where
  "packet_total_len self = total_len (ipv4_hdr self)"

text \<open>The buffer has the static length 1500, so \<open>buf[20..]\<close> is in bounds.\<close>

definition write_packet :: "out_packet \<Rightarrow> bytes \<Rightarrow> bytes result" where
  "write_packet self buf =
     and_then (router_write (router self) (drop 20 buf)) (\<lambda>b.
     let buf = take 20 buf @ b in
     and_then (router_proto_len (router self)) (\<lambda>n.
     and_then (try_new_ipv4_header (router_proto (router self)) (router_ip_pair (router self)) n) (\<lambda>hdr.
     write_ipv4_header hdr buf)))"

section \<open>Packets that fit\<close>

text \<open>A packet of a router that fits: the header it is given and the bytes it is written as.\<close>

definition packet_encoding :: "out_packet \<Rightarrow> bytes" where
  "packet_encoding p = ipv4_header_encoding (ipv4_hdr p) @ router_encoding (router p)"

lemma packet_of_router_fits:
  assumes "router_wf r" and "20 + length (router_encoding r) < 65536"
  shows "packet_of_router r = Inr (Ipv4Packet
    (Ipv4Header (20 + word_of_nat (length (router_encoding r))) (router_proto r) (router_ip_pair r)) r)"
proof -
  have "unat (word_of_nat (length (router_encoding r)) :: u16) = length (router_encoding r)"
    using assms(2) by (intro unat_of_nat_small) simp
  then show ?thesis
    using assms router.proto_len_fits [of r]
    by (simp add: packet_of_router_def inner_try_new_ipv4_def try_add_u16_def)
qed

lemma packet_of_router_no_panic: "router_wf r \<Longrightarrow> packet_of_router r \<noteq> Inl Panic"
  using router.proto_len_no_panic [of r]
  by (auto simp: packet_of_router_def and_then_Panic_iff inner_try_new_ipv4_def try_add_u16_def)

lemma write_packet_fits:
  assumes "packet_of_router r = Inr p" and "router_wf r"
    and "length (router_encoding r) \<le> 1480" and "length buf = ethernet_mtu"
  shows "write_packet p buf = Inr (packet_encoding p @ drop (length (packet_encoding p)) buf)"
    and "unat (packet_total_len p) = length (packet_encoding p)" and "length (packet_encoding p) \<le> ethernet_mtu"
proof -
  let ?n = "length (router_encoding r)"
  have u: "unat (word_of_nat ?n :: u16) = ?n" using assms(3) by (intro unat_of_nat_small) simp
  have p: "p = Ipv4Packet (Ipv4Header (20 + word_of_nat ?n) (router_proto r) (router_ip_pair r)) r"
    using packet_of_router_fits [OF assms(2)] assms(1,3) by simp
  have l: "length (packet_encoding p) = 20 + ?n" by (simp add: packet_encoding_def p)
  show "length (packet_encoding p) \<le> ethernet_mtu" using l assms(3) by simp
  have "unat (20 + word_of_nat ?n :: u16) = unat (20 :: u16) + unat (word_of_nat ?n :: u16)"
    using u assms(3) by (intro unat_add_small) simp
  then show "unat (packet_total_len p) = length (packet_encoding p)"
    using u by (simp add: packet_total_len_def l) (simp add: p)
  have w: "router_write r (drop 20 buf) = Inr (router_encoding r @ drop (20 + ?n) buf)"
    using router.writes_encoding [OF assms(2), of "drop 20 buf"] assms(3,4) by (simp add: add.commute)
  have n: "router_proto_len r = Inr (word_of_nat ?n)"
    using router.proto_len_fits [OF assms(2)] assms(3) by simp
  let ?b = "take 20 buf @ router_encoding r @ drop (20 + ?n) buf"
  have b: "20 \<le> length ?b" "drop 20 ?b = router_encoding r @ drop (20 + ?n) buf"
    using assms(4) by simp_all
  have "write_packet p buf =
      write_ipv4_header (Ipv4Header (20 + word_of_nat ?n) (router_proto r) (router_ip_pair r)) ?b"
    using u assms(3)
    by (simp add: write_packet_def p w n inner_try_new_ipv4_def try_add_u16_def)
  also have "\<dots> = Inr (packet_encoding p @ drop (20 + ?n) buf)"
    unfolding inner_write_into_ipv4_eq [OF b(1)] b(2) by (simp add: packet_encoding_def p)
  finally show "write_packet p buf = Inr (packet_encoding p @ drop (length (packet_encoding p)) buf)"
    by (simp add: l)
qed

lemma packet_try_from_eq: "packet_try_from s = packet_of_router (RouterTcp s)"
  by (simp add: packet_try_from_def packet_of_router_def)

section \<open>Parsing never panics\<close>

lemma and_then_no_panic:
  "r \<noteq> Inl Panic \<Longrightarrow> (\<And>x. r = Inr x \<Longrightarrow> f x \<noteq> Inl Panic) \<Longrightarrow> and_then r f \<noteq> Inl Panic"
  by (cases r) auto

lemma pseudo_hdr_cksum_no_panic: "pseudo_hdr_cksum data ip p \<noteq> Inl Panic"
  using pseudo_hdr_cksum_fits [of data ip p] pseudo_hdr_cksum_too_long [of data ip p]
  by (cases "length data \<le> ethernet_mtu") auto

lemma inner_parse_ipv4_no_panic: "inner_parse_ipv4 data \<noteq> Inl Panic"
  by (auto simp: inner_parse_ipv4_def Let_def protocol_try_from_def intro!: and_then_no_panic split: if_splits)

lemma parse_icmp_no_panic: "parse_icmp data ip \<noteq> Inl Panic"
  by (simp add: parse_icmp_def Let_def)

lemma parse_udp_no_panic: "parse_udp data ip \<noteq> Inl Panic"
  by (auto simp: parse_udp_def Let_def and_then_Panic_iff pseudo_hdr_cksum_no_panic split: if_splits)

lemma parse_tcp_no_panic: "inner_parse_tcp data ip \<noteq> Inl Panic"
  using pseudo_hdr_cksum_no_panic flags_try_from_no_panic try_from_iter_no_panic
  by (auto simp: inner_parse_tcp_def Let_def and_then_Panic_iff split: if_splits)

lemma parse_packet_no_panic: "parse_packet data \<noteq> Inl Panic"
  by (auto simp: parse_packet_def and_then_Panic_iff inner_parse_ipv4_no_panic parse_icmp_no_panic
      parse_udp_no_panic parse_tcp_no_panic split: protocol.splits)

lemma parse_tcp_wf: "inner_parse_tcp data ip = Inr s \<Longrightarrow> segment_wf s"
  by (auto simp: inner_parse_tcp_def Let_def and_then_Inr_iff segment_wf_def
      dest: try_from_iter_Inr(2) split: if_splits)

lemma parse_packet_wf: "parse_packet data = Inr p \<Longrightarrow> router p = RouterTcp seg \<Longrightarrow> segment_wf seg"
proof -
  assume a: "parse_packet data = Inr p" "router p = RouterTcp seg"
  then obtain hdr rest where "parse_ipv4_header data = Inr (hdr, rest)"
    by (auto simp: parse_packet_def and_then_Inr_iff)
  with a show "segment_wf seg"
    by (cases "hdr_protocol hdr") (auto simp: parse_packet_def and_then_Inr_iff dest: parse_tcp_wf)
qed

end
