(* ===== verification/Conn_Contract.thy ===== *)
theory Conn_Contract
  imports Send_Info
begin

text \<open>
  The contract of the connection handlers of \<open>send_info.rs\<close>: the invariant of a connection, the
  RFC 9293 transitions, what a reply must look like, and the locale \<open>conn_handler\<close> that every
  handler is an instance of. The lemmas before the locale are the building blocks of the handlers.
\<close>

section \<open>The abstract state machine\<close>

datatype conn_kind =
  SYN_RECEIVED | ESTABLISHED | FIN_WAIT_1 | FIN_WAIT_2 | CLOSE_WAIT | CLOSING | LAST_ACK

fun kind :: "tcp_state \<Rightarrow> conn_kind" where
  "kind (SynReceived _) = SYN_RECEIVED"
| "kind (Established _) = ESTABLISHED"
| "kind (FinWait1 _) = FIN_WAIT_1"
| "kind (FinWait2 _) = FIN_WAIT_2"
| "kind (CloseWait _) = CLOSE_WAIT"
| "kind (Closing _) = CLOSING"
| "kind (LastAck _) = LAST_ACK"

text \<open>
  The edges of RFC 9293, Figure 5, between the states the program has. The contract uses only what
  lies ahead of a state, to know that none is entered again; which event takes a connection along which edge
  is the subject of \<open>Tcp_Diagram\<close>.
\<close>

inductive rfc_step :: "conn_kind \<Rightarrow> conn_kind \<Rightarrow> bool" where
  rcv_ack_of_syn: "rfc_step SYN_RECEIVED ESTABLISHED"
| rcv_fin: "rfc_step ESTABLISHED CLOSE_WAIT"
| close: "rfc_step ESTABLISHED FIN_WAIT_1"
| close_after_fin: "rfc_step CLOSE_WAIT LAST_ACK"
| rcv_ack_of_fin: "rfc_step FIN_WAIT_1 FIN_WAIT_2"
| rcv_fin_first: "rfc_step FIN_WAIT_1 CLOSING"

inductive_simps rfc_step_simps: "rfc_step a b"

abbreviation rfc_steps :: "conn_kind \<Rightarrow> conn_kind \<Rightarrow> bool" where
  "rfc_steps \<equiv> rfc_step\<^sup>*\<^sup>*"

lemma rfc_steps_forward [simp]:
  "rfc_steps SYN_RECEIVED ESTABLISHED" "rfc_steps SYN_RECEIVED CLOSE_WAIT"
  "rfc_steps SYN_RECEIVED LAST_ACK" "rfc_steps ESTABLISHED CLOSE_WAIT" "rfc_steps ESTABLISHED LAST_ACK"
  "rfc_steps ESTABLISHED FIN_WAIT_1" "rfc_steps CLOSE_WAIT LAST_ACK"
  "rfc_steps FIN_WAIT_1 FIN_WAIT_2" "rfc_steps FIN_WAIT_1 CLOSING"
proof -
  have "rfc_steps ESTABLISHED CLOSE_WAIT" "rfc_steps CLOSE_WAIT LAST_ACK" "rfc_steps SYN_RECEIVED ESTABLISHED"
    by (auto intro: rfc_step.intros)
  then show "rfc_steps SYN_RECEIVED ESTABLISHED" "rfc_steps ESTABLISHED CLOSE_WAIT"
    "rfc_steps CLOSE_WAIT LAST_ACK" "rfc_steps ESTABLISHED LAST_ACK" "rfc_steps SYN_RECEIVED CLOSE_WAIT"
    "rfc_steps SYN_RECEIVED LAST_ACK" by (blast intro: rtranclp_trans)+
qed (auto intro: rfc_step.intros)

text \<open>The peer's window as the connection knows it.\<close>

fun peer_window :: "tcp_state \<Rightarrow> nat" where
  "peer_window (SynReceived _) = 0"
| "peer_window (Established st) = unat (offset (snd_wnd (window_state_of st)))"
| "peer_window (FinWait1 st) = unat (offset (snd_wnd (window_state_of st)))"
| "peer_window (FinWait2 st) = unat (offset (snd_wnd (window_state_of st)))"
| "peer_window (CloseWait st) = unat (offset (snd_wnd (window_state_of st)))"
| "peer_window (Closing st) = unat (offset (snd_wnd (window_state_of st)))"
| "peer_window (LastAck st) = unat (offset (snd_wnd (window_state_of st)))"

section \<open>The invariant of a connection\<close>

definition conn_inv :: "conn_state \<Rightarrow> bool" where
  "conn_inv conn \<longleftrightarrow> send_inv conn \<and> segments_wf (segments (reassembly conn)) \<and>
     (case kind (tcp_state_of conn) of
        SYN_RECEIVED \<Rightarrow> in_flight conn = 1 \<and> send_buffer conn = [] \<and> reassembly conn = reassembly_new
      | ESTABLISHED \<Rightarrow> in_flight conn \<le> 65535
      | CLOSE_WAIT \<Rightarrow> in_flight conn \<le> 65535 \<and> send_buffer conn \<noteq> []
      | LAST_ACK \<Rightarrow> send_buffer conn = []
      | _ \<Rightarrow> True)"

section \<open>What a reply looks like\<close>

text \<open>
  A reply to a segment on a known connection is a RST that quotes the segment; the SYN-ACK again;
  or an ACK or FIN-ACK that acknowledges everything received in order, starts at SND.NXT, moves
  SND.NXT past what it consumes, is recorded for retransmission if it consumes anything, and, if it
  carries data, stays within the peer's window. It always fits into a packet.
\<close>

definition reply_ok :: "in_segment \<Rightarrow> conn_state \<Rightarrow> conn_state \<Rightarrow> send_info option \<Rightarrow> bool" where
  "reply_ok seg conn conn' reply \<longleftrightarrow>
     (case reply of
        None \<Rightarrow> snd_nxt conn' = snd_nxt conn
      | Some info \<Rightarrow>
          payload_opt_wf (info_payload info) \<and>
          length (payload_bytes (info_payload info)) \<le> max_payload_len \<and>
          (info_flags info = Rst \<and> info = rst seg \<and> snd_nxt conn' = snd_nxt conn \<or>
           info_flags info = SynAck \<and> info_seq_num info = snd_una conn \<and> info_payload info = None \<and>
             kind (tcp_state_of conn) = SYN_RECEIVED \<and> snd_nxt conn' = snd_nxt conn \<or>
           info_flags info \<in> {Ack, FinAck} \<and> info_ack_num info = rcv_nxt conn' \<and>
             info_seq_num info = snd_nxt conn \<and>
             snd_nxt conn' = seq_add (snd_nxt conn) (SeqOffset (word_of_nat (consumed info))) \<and>
             (0 < consumed info \<longrightarrow> (\<exists>t. pending_new info t \<in> set (pending conn'))) \<and>
             (info_payload info \<noteq> None \<longrightarrow>
                in_flight conn' \<le> peer_window (tcp_state_of conn') + (if info_flags info = FinAck then 1 else 0))))"

definition reply_payload :: "send_info option \<Rightarrow> bytes" where
  "reply_payload reply = (case reply of None \<Rightarrow> [] | Some info \<Rightarrow> payload_bytes (info_payload info))"

lemma reply_payload_simps [simp]:
  "reply_payload None = []" "reply_payload (Some info) = payload_bytes (info_payload info)"
  by (simp_all add: reply_payload_def)

section \<open>What reaches the application\<close>

text \<open>The application run on a list of payloads: its final state and everything it appended.\<close>

fun run_app :: "'a application \<Rightarrow> 'a \<Rightarrow> tcp_payload list \<Rightarrow> 'a \<times> bytes" where
  "run_app ops app [] = (app, [])"
| "run_app ops app (p # ps) =
     (let (app1, out1) = handle_tcp ops app (payload_data p); (app2, out2) = run_app ops app1 ps
      in (app2, out1 @ out2))"

lemma run_app_append:
  "run_app ops app (ps @ qs) =
     (let (app1, out1) = run_app ops app ps; (app2, out2) = run_app ops app1 qs in (app2, out1 @ out2))"
  by (induction ps arbitrary: app) (simp_all add: split_beta Let_def)

lemma fold_deliver:
  "fold (deliver ops) ps (app, conn) =
     (fst (run_app ops app ps), conn\<lparr>send_buffer := send_buffer conn @ snd (run_app ops app ps)\<rparr>)"
  by (induction ps arbitrary: app conn) (simp_all add: deliver_def split_beta Let_def)

definition option_list :: "'b option \<Rightarrow> 'b list" where
  "option_list x = (case x of None \<Rightarrow> [] | Some y \<Rightarrow> [y])"

lemma option_list_simps [simp]: "option_list None = []" "option_list (Some y) = [y]"
  by (simp_all add: option_list_def)

lemma receive_payload_eq:
  "receive_payload ops mp (app, conn) =
     (fst (run_app ops app (option_list mp)), conn\<lparr>
        rcv_nxt := seq_add (rcv_nxt conn) (len_or_default_offset mp),
        send_buffer := send_buffer conn @ snd (run_app ops app (option_list mp))\<rparr>)"
proof (cases mp)
  case None
  have "seq_add (rcv_nxt conn) (SeqOffset 0) = rcv_nxt conn" by (simp add: seq_add_def)
  with None show ?thesis by (simp add: receive_payload_def len_or_default_offset_def)
next
  case (Some q)
  then show ?thesis
    by (simp add: receive_payload_def len_or_default_offset_def deliver_def split_beta Let_def)
qed

lemma deliver_reassembled_eq:
  assumes "drain_contiguous (rcv_nxt conn) (reassembly conn) = (ps, rcv', re')"
  shows "deliver_reassembled ops (app, conn) =
     (fst (run_app ops app ps), conn\<lparr>rcv_nxt := rcv', reassembly := re',
        send_buffer := send_buffer conn @ snd (run_app ops app ps)\<rparr>)"
  by (simp add: deliver_reassembled_def assms fold_deliver)

lemma segments_wf_drain_contiguous:
  "drain_contiguous rcv re = (ps, rcv', re') \<Longrightarrow> segments_wf (segments re) \<Longrightarrow> segments_wf (segments re')"
  using segments_wf_drain by (fastforce simp: drain_contiguous_def split: prod.splits)

section \<open>Building blocks\<close>

text \<open>The invariant depends on the fields it names only.\<close>

lemma send_inv_cong:
  "snd_nxt c = snd_nxt c' \<Longrightarrow> snd_una c = snd_una c' \<Longrightarrow> pending c = pending c' \<Longrightarrow> send_inv c = send_inv c'"
  by (simp add: send_inv_def in_flight_def)

lemma in_flight_cong:
  "snd_nxt c = snd_nxt c' \<Longrightarrow> snd_una c = snd_una c' \<Longrightarrow> in_flight c = in_flight c'"
  by (simp add: in_flight_def)

lemma offset_from_len_nat: "offset_from_len w = SeqOffset (word_of_nat (unat w))"
  by (simp add: offset_from_len_def)

lemma len_or_default_offset_nat:
  "payload_opt_wf p \<Longrightarrow> len_or_default_offset p = SeqOffset (word_of_nat (length (payload_bytes p)))"
  by (cases p) (simp_all add: len_or_default_offset_def offset_from_len_nat payload_wf_len)

lemma seq_add_add: "seq_add (seq_add a (SeqOffset m)) (SeqOffset n) = seq_add a (SeqOffset (m + n))"
  by (simp add: seq_add_def ac_simps)

lemma seq_add_0 [simp]: "seq_add a (SeqOffset 0) = a"
  by (simp add: seq_add_def)

lemma end_seq_pending_new:
  "payload_opt_wf (info_payload info) \<Longrightarrow>
   end_seq (pending_new info t) = seq_add (info_seq_num info) (SeqOffset (word_of_nat (consumed info)))"
  by (simp add: pending_new_def consumed_def len_or_default_offset_nat seq_add_add)

lemma pure_ack_sel [simp]:
  "info_flags (pure_ack conn) = Ack" "info_ack_num (pure_ack conn) = rcv_nxt conn"
  "info_seq_num (pure_ack conn) = snd_nxt conn" "info_payload (pure_ack conn) = None"
  "consumed (pure_ack conn) = 0"
  by (simp_all add: pure_ack_def consumed_def consumes_flag_def)

lemma reply_ok_pure_ack:
  "snd_nxt conn' = snd_nxt conn \<Longrightarrow> rcv_nxt c = rcv_nxt conn' \<Longrightarrow> snd_nxt c = snd_nxt conn \<Longrightarrow>
   reply_ok seg conn conn' (Some (pure_ack c))"
  by (simp add: reply_ok_def)

lemma reply_ok_none: "snd_nxt conn' = snd_nxt conn \<Longrightarrow> reply_ok seg conn conn' None"
  by (simp add: reply_ok_def)

lemma fallback_reply_ok: "reply_ok seg conn conn (fst (known_conn_common_fallback seg conn))"
  by (auto simp: known_conn_common_fallback_def Let_def reply_ok_pure_ack reply_ok_none
      split: seq_check.splits) (simp_all add: reply_ok_def rst_def)

lemma fallback_no_payload: "reply_payload (fst (known_conn_common_fallback seg conn)) = []"
  by (auto simp: known_conn_common_fallback_def Let_def rst_def split: seq_check.splits)

lemma data_payload_ok:
  assumes inv: "send_inv conn" and wf: "payload_wf p"
    and len: "length (payload_data p) \<le> max_payload_len"
    and fits: "in_flight conn + length (payload_data p) \<le> 65535"
    and d: "data_payload now p conn = (info, conn')"
  shows "send_inv conn'" "in_flight conn' = in_flight conn + length (payload_data p)"
    "tcp_state_of conn' = tcp_state_of conn" "rcv_nxt conn' = rcv_nxt conn"
    "send_buffer conn' = send_buffer conn" "reassembly conn' = reassembly conn"
    "info_payload info = Some p" "info_flags info = Ack" "info_ack_num info = rcv_nxt conn"
    "info_seq_num info = snd_nxt conn" "consumed info = length (payload_data p)"
    "snd_nxt conn' = seq_add (snd_nxt conn) (SeqOffset (word_of_nat (consumed info)))"
    "pending_new info now \<in> set (pending conn')"
proof -
  have info: "info = \<lparr>info_seq_num = snd_nxt conn, info_ack_num = rcv_nxt conn, info_flags = Ack,
                  info_payload = Some p\<rparr>"
    and conn': "conn' = conn\<lparr>snd_nxt := seq_add (snd_nxt conn) (offset_from_len (payload_len p)),
                     pending := pending conn @ [pending_new info now]\<rparr>"
    using d by (auto simp: data_payload_def Let_def)
  show c: "consumed info = length (payload_data p)"
    by (simp add: info consumed_def consumes_flag_def)
  show nxt: "snd_nxt conn' = seq_add (snd_nxt conn) (SeqOffset (word_of_nat (consumed info)))"
    by (simp add: conn' c offset_from_len_nat payload_wf_len [OF wf])
  have end': "snd_nxt conn' = end_seq (pending_new info now)"
    unfolding nxt using wf by (subst end_seq_pending_new) (simp_all add: info)
  have pos: "0 < consumed info" using payload_wf_nonempty [OF wf] by (simp add: c)
  note sent = send_inv_sent [OF inv _ _ _ _ pos end']
  show "send_inv conn'" and "in_flight conn' = in_flight conn + length (payload_data p)"
    using sent wf len fits c by (simp_all add: info conn')
  show "tcp_state_of conn' = tcp_state_of conn" "rcv_nxt conn' = rcv_nxt conn"
    "send_buffer conn' = send_buffer conn" "reassembly conn' = reassembly conn"
    "info_payload info = Some p" "info_flags info = Ack" "info_ack_num info = rcv_nxt conn"
    "info_seq_num info = snd_nxt conn" "pending_new info now \<in> set (pending conn')"
    by (simp_all add: conn' info)
qed

lemma transmittable_bounds:
  "transmittable e conn \<le> max_payload_len" "transmittable e conn \<le> length (send_buffer conn)"
  "transmittable e conn \<le> unat (offset (snd_wnd (window_state_of e))) - in_flight conn"
  by (simp_all add: transmittable_def)

lemma window_bound: "unat (offset (snd_wnd w)) \<le> 65535"
  using unat_u16_bound [of "offset (snd_wnd w)"] by linarith

text \<open>Sending what the window allows from an ESTABLISHED connection.\<close>

lemma transmit_ok:
  assumes inv: "send_inv conn" and flight: "in_flight conn \<le> 65535"
    and st: "tcp_state_of conn = Established e" and segs: "segments_wf (segments (reassembly conn))"
    and nxt: "snd_nxt conn = snd_nxt conn0" and idle: "idle = (\<lambda>c. Some (pure_ack c)) \<or> idle = (\<lambda>_. None)"
  obtains conn' reply where
    "run_then (beside app (drain_transmittable e conn)) (\<lambda>(app, conn) maybe_to_send.
       case maybe_to_send of
         Some to_send \<Rightarrow>
           (let (info, conn) = data_payload now to_send conn in ((app, conn), Inr (Some info, False)))
       | None \<Rightarrow> ((app, conn), Inr (idle conn, False))) = ((app, conn'), Inr (reply, False))"
    "conn_inv conn'" "tcp_state_of conn' = Established e" "reply_ok seg conn0 conn' reply"
    "reply_payload reply @ send_buffer conn' = send_buffer conn" "rcv_nxt conn' = rcv_nxt conn"
    "reassembly conn' = reassembly conn"
proof -
  let ?n = "transmittable e conn"
  let ?conn2 = "conn\<lparr>send_buffer := drop ?n (send_buffer conn)\<rparr>"
  have le: "in_flight conn \<le> 65536" using flight by simp
  obtain p where d: "drain_transmittable e conn = (?conn2, Inr p)"
    and bytes: "payload_bytes p = take ?n (send_buffer conn)"
    and wf: "payload_opt_wf p" and len: "length (payload_bytes p) = ?n"
    by (rule drain_transmittable_ok [OF le, of e])
  have inv2: "send_inv ?conn2" using inv by (subst send_inv_cong [of _ conn]) simp_all
  have flight2: "in_flight ?conn2 = in_flight conn" by (simp add: in_flight_def)
  show ?thesis
  proof (cases p)
    case None
    then have "?n = 0" using len by simp
    have run: "run_then (beside app (drain_transmittable e conn)) (\<lambda>(app, conn) maybe_to_send.
       case maybe_to_send of
         Some to_send \<Rightarrow>
           (let (info, conn) = data_payload now to_send conn in ((app, conn), Inr (Some info, False)))
       | None \<Rightarrow> ((app, conn), Inr (idle conn, False))) = ((app, ?conn2), Inr (idle ?conn2, False))"
      by (simp add: d None beside_def)
    show ?thesis
    proof (rule that [OF run])
      show "conn_inv ?conn2" using inv2 flight flight2 segs st by (simp add: conn_inv_def)
      show "reply_ok seg conn0 ?conn2 (idle ?conn2)"
        using idle nxt by (auto simp: reply_ok_pure_ack reply_ok_none)
      show "reply_payload (idle ?conn2) @ send_buffer ?conn2 = send_buffer conn"
        using idle \<open>?n = 0\<close> by auto
    qed (simp_all add: st)
  next
    case (Some q)
    obtain info conn3 where dp: "data_payload now q ?conn2 = (info, conn3)" by fastforce
    have q: "payload_wf q" "length (payload_data q) = ?n" using Some wf len by simp_all
    have n: "0 < ?n" using payload_wf_nonempty [OF q(1)] q(2) by (cases ?n) simp_all
    have fits: "in_flight conn + ?n \<le> unat (offset (snd_wnd (window_state_of e)))"
      using transmittable_bounds(3) [of e conn] n by simp
    have "in_flight ?conn2 + length (payload_data q) \<le> 65535"
      using fits window_bound [of "window_state_of e"] q(2) flight2 by simp
    note ok = data_payload_ok [OF inv2 q(1) _ this dp]
    have "length (payload_data q) \<le> max_payload_len"
      using q(2) transmittable_bounds(1) by simp
    note ok = ok [OF this]
    have run: "run_then (beside app (drain_transmittable e conn)) (\<lambda>(app, conn) maybe_to_send.
       case maybe_to_send of
         Some to_send \<Rightarrow>
           (let (info, conn) = data_payload now to_send conn in ((app, conn), Inr (Some info, False)))
       | None \<Rightarrow> ((app, conn), Inr (idle conn, False))) = ((app, conn3), Inr (Some info, False))"
      by (simp add: d Some dp beside_def)
    show ?thesis
    proof (rule that [OF run])
      show "conn_inv conn3" using ok st segs fits window_bound [of "window_state_of e"] q(2) flight2
        by (simp add: conn_inv_def)
      have p: "payload_opt_wf (info_payload info)" "length (payload_bytes (info_payload info)) \<le> max_payload_len"
        using ok q transmittable_bounds(1) [of e conn] by simp_all
      have "in_flight conn3 \<le> peer_window (tcp_state_of conn3)"
        using ok fits q(2) flight2 st by simp
      with p ok nxt show "reply_ok seg conn0 conn3 (Some info)"
        by (auto simp: reply_ok_def)
      show "reply_payload (Some info) @ send_buffer conn3 = send_buffer conn"
        using ok bytes Some by simp
    qed (use ok st in simp_all)
  qed
qed

text \<open>Sending from a connection whose peer has closed, with our own FIN once the buffer is empty.\<close>

lemma close_wait_or_last_ack_ok:
  assumes inv: "send_inv conn" and flight: "in_flight conn \<le> 65535"
    and segs: "segments_wf (segments (reassembly conn))" and nxt: "snd_nxt conn = snd_nxt conn0"
  obtains conn' info where
    "close_wait_or_last_ack now cw conn = (conn', Inr info)" "conn_inv conn'"
    "kind (tcp_state_of conn') = CLOSE_WAIT \<or> kind (tcp_state_of conn') = LAST_ACK"
    "reply_ok seg conn0 conn' (Some info)"
    "payload_bytes (info_payload info) @ send_buffer conn' = send_buffer conn"
    "rcv_nxt conn' = rcv_nxt conn"
    "info_flags info = FinAck \<longleftrightarrow> kind (tcp_state_of conn') = LAST_ACK"
proof -
  let ?n = "transmittable cw conn"
  let ?conn2 = "conn\<lparr>send_buffer := drop ?n (send_buffer conn)\<rparr>"
  have le: "in_flight conn \<le> 65536" using flight by simp
  obtain p where d: "drain_transmittable cw conn = (?conn2, Inr p)"
    and bytes: "payload_bytes p = take ?n (send_buffer conn)"
    and wf: "payload_opt_wf p" and len: "length (payload_bytes p) = ?n"
    by (rule drain_transmittable_ok [OF le, of cw])
  have inv2: "send_inv ?conn2" using inv by (subst send_inv_cong [of _ conn]) simp_all
  have flight2: "in_flight ?conn2 = in_flight conn" by (simp add: in_flight_def)
  have max: "?n \<le> max_payload_len" by (rule transmittable_bounds)
  have fits: "0 < ?n \<Longrightarrow> in_flight conn + ?n \<le> unat (offset (snd_wnd (window_state_of cw)))"
    using transmittable_bounds(3) [of cw conn] by simp
  have wnd: "unat (offset (snd_wnd (window_state_of cw))) \<le> 65535" by (rule window_bound)
  show ?thesis
  proof (cases "drop ?n (send_buffer conn) = []")
    case True
    define info where "info = \<lparr>info_seq_num = snd_nxt conn, info_ack_num = rcv_nxt conn,
      info_flags = FinAck, info_payload = p\<rparr>"
    define conn3 where "conn3 = ?conn2\<lparr>tcp_state_of := LastAck (send_fin cw),
      snd_nxt := seq_add (seq_add (snd_nxt conn) (len_or_default_offset p)) fin_byte_out,
      pending := pending conn @ [pending_new info now]\<rparr>"
    have run: "close_wait_or_last_ack now cw conn = (conn3, Inr info)"
      using True by (simp add: close_wait_or_last_ack_def d info_def conn3_def Let_def)
    have c: "consumed info = ?n + 1" by (simp add: info_def consumed_def consumes_flag_def len)
    have nxt3: "snd_nxt conn3 = seq_add (snd_nxt conn) (SeqOffset (word_of_nat (consumed info)))"
      using wf by (simp add: conn3_def c len_or_default_offset_nat len seq_add_add ac_simps)
    have end3: "snd_nxt conn3 = end_seq (pending_new info now)"
      unfolding nxt3 using wf by (subst end_seq_pending_new) (simp_all add: info_def)
    have total: "in_flight conn + (?n + 1) \<le> 65536"
      using fits wnd flight by (cases "0 < ?n") simp_all
    have p: "payload_opt_wf (info_payload info)" "length (payload_bytes (info_payload info)) \<le> max_payload_len"
      using wf max len by (simp_all add: info_def)
    have seq: "info_seq_num info = snd_nxt ?conn2" by (simp add: info_def)
    have inv3: "send_inv conn3" and flight3: "in_flight conn3 = in_flight conn + (?n + 1)"
      using send_inv_sent [OF inv2 p seq _ _ end3] total flight2 c by (simp_all add: conn3_def)
    show ?thesis
    proof (rule that [OF run])
      show "conn_inv conn3"
        using inv3 segs True by (simp add: conn_inv_def conn3_def)
      have "p \<noteq> None \<longrightarrow> 0 < ?n" using wf len payload_wf_nonempty by (cases p) (auto, metis length_greater_0_conv)
      then have "info_payload info \<noteq> None \<longrightarrow> in_flight conn3 \<le> peer_window (tcp_state_of conn3) + 1"
        using flight3 fits by (auto simp: conn3_def send_fin_def info_def)
      moreover have "pending_new info now \<in> set (pending conn3)" by (simp add: conn3_def)
      moreover have "info_flags info = FinAck" "info_ack_num info = rcv_nxt conn3" "info_seq_num info = snd_nxt conn"
        by (simp_all add: info_def conn3_def)
      ultimately show "reply_ok seg conn0 conn3 (Some info)"
        using p nxt3 nxt by (auto simp: reply_ok_def)
      show "payload_bytes (info_payload info) @ send_buffer conn3 = send_buffer conn"
        using True bytes by (simp add: info_def conn3_def)
    qed (simp_all add: conn3_def info_def)
  next
    case False
    let ?conn3 = "?conn2\<lparr>tcp_state_of := CloseWait cw\<rparr>"
    have inv3: "send_inv ?conn3" using inv2 by (subst send_inv_cong [of _ ?conn2]) simp_all
    have flight3: "in_flight ?conn3 = in_flight conn" by (simp add: in_flight_def)
    show ?thesis
    proof (cases p)
      case None
      then have "?n = 0" using len by simp
      have run: "close_wait_or_last_ack now cw conn = (?conn3, Inr (pure_ack ?conn3))"
        using False None by (simp add: close_wait_or_last_ack_def d Let_def)
      show ?thesis
      proof (rule that [OF run])
        show "conn_inv ?conn3" using inv3 flight3 flight segs False by (simp add: conn_inv_def)
        show "reply_ok seg conn0 ?conn3 (Some (pure_ack ?conn3))"
          using nxt by (intro reply_ok_pure_ack) simp_all
      qed (use \<open>?n = 0\<close> in simp_all)
    next
      case (Some q)
      obtain info conn4 where dp: "data_payload now q ?conn3 = (info, conn4)" by fastforce
      have q: "payload_wf q" "length (payload_data q) = ?n" using Some wf len by simp_all
      have n: "0 < ?n" using payload_wf_nonempty [OF q(1)] q(2) by (cases ?n) simp_all
      have ql: "length (payload_data q) \<le> max_payload_len" using q max by simp
      have qf: "in_flight ?conn3 + length (payload_data q) \<le> 65535"
        using fits [OF n] wnd q(2) flight3 by simp
      note ok = data_payload_ok [OF inv3 q(1) ql qf dp]
      have run: "close_wait_or_last_ack now cw conn = (conn4, Inr info)"
        using False by (simp add: close_wait_or_last_ack_def d Some dp Let_def)
      show ?thesis
      proof (rule that [OF run])
        show "conn_inv conn4" using ok segs False qf flight3 q by (simp add: conn_inv_def)
        have "in_flight conn4 \<le> peer_window (tcp_state_of conn4)"
          using ok fits [OF n] q(2) flight3 by simp
        moreover have "payload_opt_wf (info_payload info)"
          "length (payload_bytes (info_payload info)) \<le> max_payload_len"
          using ok q ql by simp_all
        ultimately show "reply_ok seg conn0 conn4 (Some info)"
          using ok nxt by (auto simp: reply_ok_def)
        show "payload_bytes (info_payload info) @ send_buffer conn4 = send_buffer conn"
          using ok bytes Some by simp
      qed (use ok in simp_all)
    qed
  qed
qed

section \<open>The contract\<close>

text \<open>What handling one segment leaves behind, in terms of the state before and after it.\<close>

definition app_stream_ok ::
    "'a application \<Rightarrow> 'a \<times> conn_state \<Rightarrow> 'a \<times> conn_state \<Rightarrow> send_info option \<Rightarrow> bool" where
  "app_stream_ok ops s s' reply \<longleftrightarrow>
     (\<exists>ps. run_app ops (fst s) ps = (fst s', drop (length (send_buffer (snd s))) (reply_payload reply @ send_buffer (snd s'))) \<and>
        take (length (send_buffer (snd s))) (reply_payload reply @ send_buffer (snd s')) = send_buffer (snd s))"

lemma app_stream_okI:
  assumes "fst s' = fst (run_app ops (fst s) ps)"
    and "reply_payload reply @ send_buffer (snd s') = send_buffer (snd s) @ snd (run_app ops (fst s) ps)"
  shows "app_stream_ok ops s s' reply"
  unfolding app_stream_ok_def assms(2) by (intro exI [of _ ps]) (simp add: assms(1))

lemma app_stream_ok_idle:
  assumes "fst s' = fst s" and "reply_payload reply @ send_buffer (snd s') = send_buffer (snd s)"
  shows "app_stream_ok ops s s' reply"
  using assms by (intro app_stream_okI [of _ _ _ "[]"]) simp_all

definition handled ::
    "'a application \<Rightarrow> in_segment \<Rightarrow> 'a \<times> conn_state \<Rightarrow> 'a \<times> conn_state \<Rightarrow> send_info option \<Rightarrow> bool" where
  "handled ops seg s s' reply \<longleftrightarrow>
     conn_inv (snd s') \<and> rfc_steps (kind (tcp_state_of (snd s))) (kind (tcp_state_of (snd s'))) \<and>
     reply_ok seg (snd s) (snd s') reply \<and> app_stream_ok ops s s' reply"

text \<open>
  The interface between the dispatcher \<open>handle_known_conn\<close> and the seven handlers: started in its
  own state, with the invariant, on a well-formed segment whose acknowledgment can be placed, a
  handler returns a decision, no error and no panic, and what it leaves behind is as it must be.
\<close>

locale conn_handler =
  fixes ops :: "'a application"
    and state :: "'p \<Rightarrow> tcp_state"
    and handler :: "in_segment \<Rightarrow> 'p \<Rightarrow> 'a \<times> conn_state \<Rightarrow> ('a \<times> conn_state, decision) stateful"
  assumes succeeds:
      "conn_inv (snd s) \<Longrightarrow> tcp_state_of (snd s) = state p \<Longrightarrow> segment_wf seg \<Longrightarrow> ack_placeable (snd s) seg \<Longrightarrow>
       \<exists>d. snd (handler seg p s) = Inr d"
    and leaves_handled:
      "conn_inv (snd s) \<Longrightarrow> tcp_state_of (snd s) = state p \<Longrightarrow> segment_wf seg \<Longrightarrow> ack_placeable (snd s) seg \<Longrightarrow>
       handler seg p s = (s', Inr (reply, remove_it)) \<Longrightarrow> handled ops seg s s' reply"
begin

lemma contract:
  assumes "conn_inv (snd s)" "tcp_state_of (snd s) = state p" "segment_wf seg" "ack_placeable (snd s) seg"
  obtains s' reply remove_it where "handler seg p s = (s', Inr (reply, remove_it))" "handled ops seg s s' reply"
proof -
  obtain d where d: "snd (handler seg p s) = Inr d" using succeeds [OF assms] by blast
  have h: "handler seg p s = (fst (handler seg p s), Inr (fst d, snd d))"
    by (simp add: prod_eq_iff d)
  show ?thesis by (rule that [OF h leaves_handled [OF assms h]])
qed

lemma keeps_inv:
  assumes "conn_inv (snd s)" "tcp_state_of (snd s) = state p" "segment_wf seg" "ack_placeable (snd s) seg"
  shows "conn_inv (snd (fst (handler seg p s)))"
  by (rule contract [OF assms]) (simp add: handled_def)

end

text \<open>A handler that does both is an instance.\<close>

lemma conn_handlerI:
  fixes ops :: "'a application"
  assumes "\<And>s p seg. conn_inv (snd s) \<Longrightarrow> tcp_state_of (snd s) = state p \<Longrightarrow> segment_wf seg \<Longrightarrow>
      ack_placeable (snd s) seg \<Longrightarrow>
      \<exists>s' reply remove_it. handler seg p s = (s', Inr (reply, remove_it)) \<and> handled ops seg s s' reply"
  shows "conn_handler ops state handler"
proof
  fix s :: "'a \<times> conn_state" and p seg
  assume a: "conn_inv (snd s)" "tcp_state_of (snd s) = state p" "segment_wf seg" "ack_placeable (snd s) seg"
  show "\<exists>d. snd (handler seg p s) = Inr d" using assms [OF a] by auto
  fix s' reply remove_it
  assume "handler seg p s = (s', Inr (reply, remove_it))"
  then show "handled ops seg s s' reply" using assms [OF a] by auto
qed

text \<open>The fallback leaves everything as it was.\<close>

lemma handled_fallback:
  assumes "conn_inv conn"
  shows "handled ops seg (app, conn) (app, conn) (fst (known_conn_common_fallback seg conn))"
  using assms fallback_reply_ok fallback_no_payload
  by (simp add: handled_def app_stream_ok_idle)

lemma handled_pure_ack:
  assumes "conn_inv conn" "conn_inv conn'" "snd_nxt conn' = snd_nxt conn" "send_buffer conn' = send_buffer conn"
    and "rfc_steps (kind (tcp_state_of conn)) (kind (tcp_state_of conn'))"
    and "rcv_nxt c = rcv_nxt conn'" "snd_nxt c = snd_nxt conn"
  shows "handled ops seg (app, conn) (app, conn') (Some (pure_ack c))"
  using assms by (simp add: handled_def app_stream_ok_idle reply_ok_pure_ack)

lemma handled_silent:
  assumes "conn_inv conn" "conn_inv conn'" "snd_nxt conn' = snd_nxt conn" "send_buffer conn' = send_buffer conn"
    and "rfc_steps (kind (tcp_state_of conn)) (kind (tcp_state_of conn'))"
  shows "handled ops seg (app, conn) (app, conn') None"
  using assms by (simp add: handled_def app_stream_ok_idle reply_ok_none)

lemma conn_inv_closing_kinds:
  "kind (tcp_state_of conn) \<in> {FIN_WAIT_1, FIN_WAIT_2, CLOSING} \<Longrightarrow>
   conn_inv conn \<longleftrightarrow> send_inv conn \<and> segments_wf (segments (reassembly conn))"
  by (auto simp: conn_inv_def)

lemma conn_invD:
  assumes "conn_inv conn"
  shows "send_inv conn" "segments_wf (segments (reassembly conn))" "in_flight conn \<le> 65536"
    "kind (tcp_state_of conn) = ESTABLISHED \<or> kind (tcp_state_of conn) = CLOSE_WAIT \<Longrightarrow> in_flight conn \<le> 65535"
  using assms by (auto simp: conn_inv_def send_inv_def)

end
