(* ===== verification/Conn_Handlers.thy ===== *)
theory Conn_Handlers
  imports Conn_Contract
begin

text \<open>
  The seven handlers of \<open>send_info.rs\<close> meet the contract \<open>conn_handler\<close>: one interpretation per
  TCP state, and from them the contract of \<open>handle_known_conn\<close>.
\<close>

lemma ack_updateE:
  assumes "send_inv conn" and "ack_placeable conn seg"
  obtains e' conn' where "incoming_ack_update e seg conn = (e', conn')" "send_inv conn'"
    "in_flight conn' \<le> in_flight conn" "snd_nxt conn' = snd_nxt conn" "rcv_nxt conn' = rcv_nxt conn"
    "send_buffer conn' = send_buffer conn" "reassembly conn' = reassembly conn"
    "tcp_state_of conn' = tcp_state_of conn"
proof -
  obtain e' conn' where u: "incoming_ack_update e seg conn = (e', conn')" by fastforce
  show ?thesis
    using incoming_ack_update_inv [OF assms, of e] incoming_ack_update_frame [of e seg conn] u
    by (intro that [OF u]) simp_all
qed

lemma send_inv_update [simp]:
  "send_inv (conn\<lparr>tcp_state_of := st\<rparr>) = send_inv conn"
  "send_inv (conn\<lparr>rcv_nxt := r\<rparr>) = send_inv conn"
  "send_inv (conn\<lparr>reassembly := re\<rparr>) = send_inv conn"
  "send_inv (conn\<lparr>send_buffer := b\<rparr>) = send_inv conn"
  by (rule send_inv_cong; simp)+

lemma in_flight_update [simp]:
  "in_flight (conn\<lparr>tcp_state_of := st\<rparr>) = in_flight conn"
  "in_flight (conn\<lparr>rcv_nxt := r\<rparr>) = in_flight conn"
  "in_flight (conn\<lparr>reassembly := re\<rparr>) = in_flight conn"
  "in_flight (conn\<lparr>send_buffer := b\<rparr>) = in_flight conn"
  by (simp_all add: in_flight_def)

lemma ack_placeable_update [simp]:
  "ack_placeable (conn\<lparr>tcp_state_of := st\<rparr>) seg = ack_placeable conn seg"
  "ack_placeable (conn\<lparr>rcv_nxt := r\<rparr>) seg = ack_placeable conn seg"
  "ack_placeable (conn\<lparr>send_buffer := b\<rparr>) seg = ack_placeable conn seg"
  by (simp_all add: ack_placeable_def)

text \<open>An infallible handler that never reaches the application, branch by branch.\<close>

definition silent_ok ::
    "'a application \<Rightarrow> in_segment \<Rightarrow> conn_state \<Rightarrow> conn_state \<times> decision \<Rightarrow> bool" where
  "silent_ok ops seg conn r \<longleftrightarrow> (\<forall>app. handled ops seg (app, conn) (app, fst r) (fst (snd r)))"

lemma silent_ok_if:
  "(b \<Longrightarrow> silent_ok ops seg conn x) \<Longrightarrow> (\<not> b \<Longrightarrow> silent_ok ops seg conn y) \<Longrightarrow>
   silent_ok ops seg conn (if b then x else y)"
  by simp

lemma silent_ok_pure_ack:
  assumes "conn_inv conn" "conn_inv conn'" "snd_nxt conn' = snd_nxt conn" "send_buffer conn' = send_buffer conn"
    and "rfc_steps (kind (tcp_state_of conn)) (kind (tcp_state_of conn'))"
    and "rcv_nxt c = rcv_nxt conn'" "snd_nxt c = snd_nxt conn"
  shows "silent_ok ops seg conn (conn', (Some (pure_ack c), rm))"
  unfolding silent_ok_def fst_conv snd_conv by (intro allI handled_pure_ack assms)

lemma silent_ok_none:
  assumes "conn_inv conn" "conn_inv conn'" "snd_nxt conn' = snd_nxt conn" "send_buffer conn' = send_buffer conn"
    and "rfc_steps (kind (tcp_state_of conn)) (kind (tcp_state_of conn'))"
  shows "silent_ok ops seg conn (conn', (None, rm))"
  unfolding silent_ok_def fst_conv snd_conv by (intro allI handled_silent assms)

lemma silent_ok_fallback:
  "conn_inv conn \<Longrightarrow> silent_ok ops seg conn (conn, known_conn_common_fallback seg conn)"
  unfolding silent_ok_def fst_conv snd_conv by (intro allI handled_fallback)

lemma silent_ok_infallibly:
  assumes "silent_ok ops seg conn r"
  shows "\<exists>s' reply rm. infallibly app r = (s', Inr (reply, rm)) \<and> handled ops seg (app, conn) s' reply"
  using assms
  by (intro exI [of _ "(app, fst r)"] exI [of _ "fst (snd r)"] exI [of _ "snd (snd r)"])
    (simp add: infallibly_def silent_ok_def)

lemmas silent_ok_intros = silent_ok_if silent_ok_pure_ack silent_ok_none silent_ok_fallback

section \<open>States after our FIN\<close>

lemma handle_fin_wait_1_ok:
  assumes inv: "conn_inv conn" and st: "tcp_state_of conn = FinWait1 fw1"
    and ack: "ack_placeable conn seg"
  shows "silent_ok ops seg conn (handle_fin_wait_1 seg fw1 conn)"
proof -
  note c = conn_invD [OF inv]
  let ?n = "seq_add (rcv_nxt conn) (len_or_default_offset (seg_payload seg))"
  let ?m = "seq_add ?n fin_byte_in"
  obtain e1 conn1 where u: "incoming_ack_update fw1 seg conn = (e1, conn1)" "send_inv conn1"
    "in_flight conn1 \<le> in_flight conn" "snd_nxt conn1 = snd_nxt conn" "rcv_nxt conn1 = rcv_nxt conn"
    "send_buffer conn1 = send_buffer conn" "reassembly conn1 = reassembly conn"
    "tcp_state_of conn1 = tcp_state_of conn"
    by (rule ack_updateE [OF c(1) ack])
  obtain e2 conn2 where v: "incoming_ack_update fw1 seg (conn\<lparr>rcv_nxt := ?n\<rparr>) = (e2, conn2)" "send_inv conn2"
    "snd_nxt conn2 = snd_nxt conn" "rcv_nxt conn2 = ?n" "send_buffer conn2 = send_buffer conn"
    "reassembly conn2 = reassembly conn"
    by (rule ack_updateE [of "conn\<lparr>rcv_nxt := ?n\<rparr>" seg fw1]) (use c(1) ack in simp_all)
  obtain e3 conn3 where w: "incoming_ack_update fw1 seg (conn\<lparr>rcv_nxt := ?m\<rparr>) = (e3, conn3)" "send_inv conn3"
    "snd_nxt conn3 = snd_nxt conn" "rcv_nxt conn3 = ?m" "send_buffer conn3 = send_buffer conn"
    "reassembly conn3 = reassembly conn"
    by (rule ack_updateE [of "conn\<lparr>rcv_nxt := ?m\<rparr>" seg fw1]) (use c(1) ack in simp_all)
  show ?thesis
    unfolding handle_fin_wait_1_def Let_def u(1) v(1) w(1) prod.case
    by (intro silent_ok_intros inv; use c(1,2) st u(2-) v(2-) w(2-) in \<open>simp add: conn_inv_closing_kinds\<close>)
qed

lemma handle_fin_wait_2_ok:
  assumes inv: "conn_inv conn" and st: "tcp_state_of conn = FinWait2 fw2"
    and ack: "ack_placeable conn seg"
  shows "silent_ok ops seg conn (handle_fin_wait_2 seg fw2 conn)"
proof -
  note c = conn_invD [OF inv]
  let ?n = "seq_add (rcv_nxt conn) (len_or_default_offset (seg_payload seg))"
  obtain e1 conn1 where u: "incoming_ack_update fw2 seg conn = (e1, conn1)" "send_inv conn1"
    "in_flight conn1 \<le> in_flight conn" "snd_nxt conn1 = snd_nxt conn" "rcv_nxt conn1 = rcv_nxt conn"
    "send_buffer conn1 = send_buffer conn" "reassembly conn1 = reassembly conn"
    "tcp_state_of conn1 = tcp_state_of conn"
    by (rule ack_updateE [OF c(1) ack])
  obtain e2 conn2 where v: "incoming_ack_update fw2 seg (conn\<lparr>rcv_nxt := ?n\<rparr>) = (e2, conn2)" "send_inv conn2"
    "snd_nxt conn2 = snd_nxt conn" "rcv_nxt conn2 = ?n" "send_buffer conn2 = send_buffer conn"
    "reassembly conn2 = reassembly conn"
    by (rule ack_updateE [of "conn\<lparr>rcv_nxt := ?n\<rparr>" seg fw2]) (use c(1) ack in simp_all)
  show ?thesis
    unfolding handle_fin_wait_2_def Let_def u(1) v(1) prod.case
    by (intro silent_ok_intros inv; use c(1,2) st u(2-) v(2-) in \<open>simp add: conn_inv_closing_kinds\<close>)
qed

lemma handle_closing_ok:
  assumes inv: "conn_inv conn" and st: "tcp_state_of conn = Closing cl"
    and ack: "ack_placeable conn seg"
  shows "silent_ok ops seg conn (handle_closing seg cl conn)"
proof -
  note c = conn_invD [OF inv]
  obtain e1 conn1 where u: "incoming_ack_update cl seg conn = (e1, conn1)" "send_inv conn1"
    "in_flight conn1 \<le> in_flight conn" "snd_nxt conn1 = snd_nxt conn" "rcv_nxt conn1 = rcv_nxt conn"
    "send_buffer conn1 = send_buffer conn" "reassembly conn1 = reassembly conn"
    "tcp_state_of conn1 = tcp_state_of conn"
    by (rule ack_updateE [OF c(1) ack])
  show ?thesis
    unfolding handle_closing_def Let_def u(1) prod.case
    by (intro silent_ok_intros inv; use c(1,2) st u(2-) in \<open>simp add: conn_inv_closing_kinds\<close>)
qed

lemma handle_last_ack_ok:
  assumes inv: "conn_inv conn" and st: "tcp_state_of conn = LastAck la"
    and ack: "ack_placeable conn seg"
  shows "silent_ok ops seg conn (handle_last_ack seg la conn)"
proof -
  note c = conn_invD [OF inv]
  obtain e1 conn1 where u: "incoming_ack_update la seg conn = (e1, conn1)" "send_inv conn1"
    "in_flight conn1 \<le> in_flight conn" "snd_nxt conn1 = snd_nxt conn" "rcv_nxt conn1 = rcv_nxt conn"
    "send_buffer conn1 = send_buffer conn" "reassembly conn1 = reassembly conn"
    "tcp_state_of conn1 = tcp_state_of conn"
    by (rule ack_updateE [OF c(1) ack])
  have "send_buffer conn = []" using inv st by (simp add: conn_inv_def)
  then show ?thesis
    unfolding handle_last_ack_def Let_def u(1) prod.case
    by (intro silent_ok_intros inv; use c(1,2) st u(2-) in \<open>simp add: conn_inv_def\<close>)
qed

section \<open>States that can still send\<close>

definition step_ok ::
    "'a application \<Rightarrow> in_segment \<Rightarrow> 'a \<times> conn_state \<Rightarrow> ('a \<times> conn_state, decision) stateful \<Rightarrow> bool" where
  "step_ok ops seg s r \<longleftrightarrow> (\<exists>s' reply rm. r = (s', Inr (reply, rm)) \<and> handled ops seg s s' reply)"

lemma step_okI: "handled ops seg s s' reply \<Longrightarrow> step_ok ops seg s (s', Inr (reply, rm))"
  by (auto simp: step_ok_def)

lemma step_ok_if:
  "(b \<Longrightarrow> step_ok ops seg s x) \<Longrightarrow> (\<not> b \<Longrightarrow> step_ok ops seg s y) \<Longrightarrow> step_ok ops seg s (if b then x else y)"
  by simp

lemma step_ok_fallback:
  assumes "conn_inv conn"
  shows "step_ok ops seg (app, conn) ((app, conn), Inr (known_conn_common_fallback seg conn))"
  using handled_fallback [OF assms, of ops seg app]
  by (cases "known_conn_common_fallback seg conn") (auto simp: step_ok_def)

lemma step_ok_silent: "silent_ok ops seg conn r \<Longrightarrow> step_ok ops seg (app, conn) (infallibly app r)"
  unfolding step_ok_def by (rule silent_ok_infallibly)

text \<open>The two ways a handler ends by sending; \<open>ps\<close> are the payloads the application was given.\<close>

lemma step_ok_close:
  assumes "send_inv conn" and "in_flight conn \<le> 65535" and "segments_wf (segments (reassembly conn))"
    and "snd_nxt conn = snd_nxt conn0"
    and "kind (tcp_state_of conn0) \<in> {SYN_RECEIVED, ESTABLISHED, CLOSE_WAIT}"
    and "app = fst (run_app ops app0 ps)"
    and "send_buffer conn = send_buffer conn0 @ snd (run_app ops app0 ps)"
  shows "step_ok ops seg (app0, conn0) (reply_with (beside app (close_wait_or_last_ack now cw conn)))"
proof -
  obtain conn' info where c: "close_wait_or_last_ack now cw conn = (conn', Inr info)" "conn_inv conn'"
    "kind (tcp_state_of conn') = CLOSE_WAIT \<or> kind (tcp_state_of conn') = LAST_ACK"
    "reply_ok seg conn0 conn' (Some info)"
    "payload_bytes (info_payload info) @ send_buffer conn' = send_buffer conn"
    by (rule close_wait_or_last_ack_ok [OF assms(1-4), of now cw seg]) blast
  have "reply_with (beside app (close_wait_or_last_ack now cw conn)) = ((app, conn'), Inr (Some info, False))"
    by (simp add: c(1) beside_def reply_with_def)
  moreover have "handled ops seg (app0, conn0) (app, conn') (Some info)"
    unfolding handled_def
  proof (intro conjI)
    show "rfc_steps (kind (tcp_state_of (snd (app0, conn0)))) (kind (tcp_state_of (snd (app, conn'))))"
      using assms(5) c(3) by auto
    show "app_stream_ok ops (app0, conn0) (app, conn') (Some info)"
      using assms(6,7) c(5) by (intro app_stream_okI [of _ _ _ ps]) simp_all
  qed (use c in simp_all)
  ultimately show ?thesis by (simp only: step_okI)
qed

lemma step_ok_transmit:
  assumes "send_inv conn" and "in_flight conn \<le> 65535" and "tcp_state_of conn = Established e"
    and "segments_wf (segments (reassembly conn))" and "snd_nxt conn = snd_nxt conn0"
    and "kind (tcp_state_of conn0) \<in> {SYN_RECEIVED, ESTABLISHED}"
    and "app = fst (run_app ops app0 ps)"
    and "send_buffer conn = send_buffer conn0 @ snd (run_app ops app0 ps)"
    and "idle = (\<lambda>c. Some (pure_ack c)) \<or> idle = (\<lambda>_. None)"
  shows "step_ok ops seg (app0, conn0)
    (run_then (beside app (drain_transmittable e conn)) (\<lambda>(app, conn) maybe_to_send.
       case maybe_to_send of
         Some to_send \<Rightarrow>
           (let (info, conn) = data_payload now to_send conn in ((app, conn), Inr (Some info, False)))
       | None \<Rightarrow> ((app, conn), Inr (idle conn, False))))"
proof -
  obtain conn' reply where c:
    "run_then (beside app (drain_transmittable e conn)) (\<lambda>(app, conn) maybe_to_send.
       case maybe_to_send of
         Some to_send \<Rightarrow>
           (let (info, conn) = data_payload now to_send conn in ((app, conn), Inr (Some info, False)))
       | None \<Rightarrow> ((app, conn), Inr (idle conn, False))) = ((app, conn'), Inr (reply, False))"
    "conn_inv conn'" "tcp_state_of conn' = Established e" "reply_ok seg conn0 conn' reply"
    "reply_payload reply @ send_buffer conn' = send_buffer conn"
    by (rule transmit_ok [OF assms(1-5,9), of app now seg])
  moreover have "handled ops seg (app0, conn0) (app, conn') reply"
    unfolding handled_def
  proof (intro conjI)
    show "rfc_steps (kind (tcp_state_of (snd (app0, conn0)))) (kind (tcp_state_of (snd (app, conn'))))"
      using assms(6) c(3) by auto
    show "app_stream_ok ops (app0, conn0) (app, conn') reply"
      using assms(7,8) c(5) by (intro app_stream_okI [of _ _ _ ps]) simp_all
  qed (use c in simp_all)
  ultimately show ?thesis by (simp only: step_okI)
qed

text \<open>Receiving in-order data and everything it makes contiguous.\<close>

lemma receive_allE:
  assumes "segments_wf (segments (reassembly conn))"
  obtains ps conn' where
    "deliver_reassembled ops (receive_payload ops mp (app, conn)) = (fst (run_app ops app ps), conn')"
    "send_buffer conn' = send_buffer conn @ snd (run_app ops app ps)"
    "segments_wf (segments (reassembly conn'))" "snd_nxt conn' = snd_nxt conn"
    "send_inv conn' = send_inv conn" "in_flight conn' = in_flight conn"
    "tcp_state_of conn' = tcp_state_of conn"
proof -
  let ?c = "conn\<lparr>rcv_nxt := seq_add (rcv_nxt conn) (len_or_default_offset mp),
        send_buffer := send_buffer conn @ snd (run_app ops app (option_list mp))\<rparr>"
  obtain qs rcv' re' where d: "drain_contiguous (rcv_nxt ?c) (reassembly ?c) = (qs, rcv', re')"
    by (metis prod_cases3)
  show ?thesis
  proof (rule that [of "option_list mp @ qs"])
    show "deliver_reassembled ops (receive_payload ops mp (app, conn)) =
      (fst (run_app ops app (option_list mp @ qs)),
       ?c\<lparr>rcv_nxt := rcv', reassembly := re',
         send_buffer := send_buffer conn @ snd (run_app ops app (option_list mp @ qs))\<rparr>)"
      unfolding receive_payload_eq deliver_reassembled_eq [OF d]
      by (simp add: run_app_append split_beta Let_def)
  qed (use segments_wf_drain_contiguous [OF d] assms in simp_all)
qed

lemma step_ok_in_order_fin:
  assumes inv: "send_inv conn" and flight: "in_flight conn \<le> 65535"
    and segs: "segments_wf (segments (reassembly conn))"
    and ack: "ack_placeable conn seg" and nxt: "snd_nxt conn = snd_nxt conn0"
    and k: "kind (tcp_state_of conn0) \<in> {SYN_RECEIVED, ESTABLISHED, CLOSE_WAIT}"
    and buf: "send_buffer conn = send_buffer conn0"
  shows "step_ok ops seg (app, conn0) (reply_with (close_on_in_order_fin ops now seg mp e (app, conn)))"
proof -
  let ?ps = "option_list mp"
  define conn1 where "conn1 = advance_past_fin (conn\<lparr>rcv_nxt := seq_add (rcv_nxt conn) (len_or_default_offset mp),
        send_buffer := send_buffer conn @ snd (run_app ops app ?ps)\<rparr>)"
  have c1: "send_inv conn1" "ack_placeable conn1 seg" "in_flight conn1 = in_flight conn"
    using inv ack by (simp_all add: conn1_def advance_past_fin_def)
  obtain e2 conn2 where u: "incoming_ack_update e seg conn1 = (e2, conn2)" "send_inv conn2"
    "in_flight conn2 \<le> in_flight conn1" "snd_nxt conn2 = snd_nxt conn1" "send_buffer conn2 = send_buffer conn1"
    "reassembly conn2 = reassembly conn1"
    by (rule ack_updateE [OF c1(1,2), of e])
  have "close_on_in_order_fin ops now seg mp e (app, conn) =
      beside (fst (run_app ops app ?ps)) (close_wait_or_last_ack now (rcv_fin e2) conn2)"
    by (simp add: close_on_in_order_fin_def receive_payload_eq u(1) flip: conn1_def)
  moreover have "step_ok ops seg (app, conn0) (reply_with
      (beside (fst (run_app ops app ?ps)) (close_wait_or_last_ack now (rcv_fin e2) conn2)))"
    using u c1 flight segs nxt k buf
    by (intro step_ok_close [of _ _ _ _ _ ?ps]) (simp_all add: conn1_def advance_past_fin_def)
  ultimately show ?thesis by simp
qed

lemma segments_wf_buffer_payload:
  assumes "segments_wf (segments (reassembly conn))" and "segment_wf seg"
  shows "segments_wf (segments (reassembly (buffer_payload seg conn)))"
  using assms segments_wf_insert
  by (auto simp: buffer_payload_def reassembly_insert_def segment_wf_def split: option.splits)

lemma buffer_sel [simp]:
  "snd_nxt (buffer_payload seg conn) = snd_nxt conn" "rcv_nxt (buffer_payload seg conn) = rcv_nxt conn"
  "send_buffer (buffer_payload seg conn) = send_buffer conn"
  "tcp_state_of (buffer_payload seg conn) = tcp_state_of conn"
  "send_inv (buffer_payload seg conn) = send_inv conn" "in_flight (buffer_payload seg conn) = in_flight conn"
  "snd_nxt (buffer_fin seg conn) = snd_nxt conn" "rcv_nxt (buffer_fin seg conn) = rcv_nxt conn"
  "send_buffer (buffer_fin seg conn) = send_buffer conn"
  "tcp_state_of (buffer_fin seg conn) = tcp_state_of conn"
  "send_inv (buffer_fin seg conn) = send_inv conn" "in_flight (buffer_fin seg conn) = in_flight conn"
  "segments (reassembly (buffer_fin seg conn)) = segments (reassembly conn)"
  by (auto simp: buffer_payload_def buffer_fin_def mark_fin_def split: option.splits)

lemma handle_close_wait_ok:
  assumes inv: "conn_inv conn" and st: "tcp_state_of conn = CloseWait cw"
    and ack: "ack_placeable conn seg"
  shows "step_ok ops seg (app, conn) (beside app (handle_close_wait now seg cw conn))"
proof (cases "seg_flags seg = Ack \<and> seg_payload seg = None \<and> check_seq seg conn \<noteq> Unacceptable")
  case True
  note c = conn_invD [OF inv]
  obtain e1 conn1 where u: "incoming_ack_update cw seg conn = (e1, conn1)" "send_inv conn1"
    "in_flight conn1 \<le> in_flight conn" "snd_nxt conn1 = snd_nxt conn" "send_buffer conn1 = send_buffer conn"
    "reassembly conn1 = reassembly conn"
    by (rule ack_updateE [OF c(1) ack])
  have "beside app (handle_close_wait now seg cw conn) =
      reply_with (beside app (close_wait_or_last_ack now e1 conn1))"
    using True by (cases "close_wait_or_last_ack now e1 conn1"; cases "snd (close_wait_or_last_ack now e1 conn1)")
      (simp_all add: handle_close_wait_def u(1) beside_def reply_with_def)
  then show ?thesis
    using u c st by (simp, intro step_ok_close [of _ _ _ _ _ "[]"]) simp_all
next
  case False
  then have "beside app (handle_close_wait now seg cw conn) =
      ((app, conn), Inr (known_conn_common_fallback seg conn))"
    by (auto simp: handle_close_wait_def beside_def)
  then show ?thesis by (simp add: step_ok_fallback [OF inv])
qed

lemma step_ok_pure_ack:
  assumes "conn_inv conn" "conn_inv conn'" "snd_nxt conn' = snd_nxt conn" "send_buffer conn' = send_buffer conn"
    and "rfc_steps (kind (tcp_state_of conn)) (kind (tcp_state_of conn'))"
    and "rcv_nxt c = rcv_nxt conn'" "snd_nxt c = snd_nxt conn"
  shows "step_ok ops seg (app, conn) ((app, conn'), Inr (Some (pure_ack c), False))"
  by (intro step_okI handled_pure_ack assms)

lemma handle_established_ok:
  assumes inv: "conn_inv conn" and st: "tcp_state_of conn = Established est"
    and wf: "segment_wf seg" and ack: "ack_placeable conn seg"
  shows "step_ok ops seg (app, conn) (handle_established ops now seg est (app, conn))"
proof -
  note c = conn_invD [OF inv]
  have flight: "in_flight conn \<le> 65535" using inv st by (simp add: conn_inv_def)
  obtain e1 conn1 where u: "incoming_ack_update est seg conn = (e1, conn1)" "send_inv conn1"
    "in_flight conn1 \<le> in_flight conn" "snd_nxt conn1 = snd_nxt conn" "rcv_nxt conn1 = rcv_nxt conn"
    "send_buffer conn1 = send_buffer conn" "reassembly conn1 = reassembly conn"
    "tcp_state_of conn1 = tcp_state_of conn"
    by (rule ack_updateE [OF c(1) ack])
  let ?conn2 = "conn1\<lparr>tcp_state_of := Established e1\<rparr>"
  obtain ps conn3 where r:
    "deliver_reassembled ops (receive_payload ops (seg_payload seg) (app, ?conn2)) =
       (fst (run_app ops app ps), conn3)"
    "send_buffer conn3 = send_buffer ?conn2 @ snd (run_app ops app ps)"
    "segments_wf (segments (reassembly conn3))" "snd_nxt conn3 = snd_nxt ?conn2"
    "send_inv conn3 = send_inv ?conn2" "in_flight conn3 = in_flight ?conn2"
    "tcp_state_of conn3 = tcp_state_of ?conn2"
    by (rule receive_allE [of ?conn2 ops "seg_payload seg" app]) (use c(2) u(7) in simp_all)
  have inv2: "conn_inv ?conn2" using u c flight by (simp add: conn_inv_def)
  have buffered: "conn_inv (buffer_payload seg ?conn2)"
    using u c flight segments_wf_buffer_payload [of ?conn2 seg] wf by (simp add: conn_inv_def)
  then have buffered_fin: "conn_inv (buffer_fin seg (buffer_payload seg ?conn2))"
    using st by (simp add: conn_inv_def)
  have next_fin: "step_ok ops seg (app, conn) (reply_with (beside (fst (run_app ops app ps))
      (close_wait_or_last_ack now (rcv_fin e1) (advance_past_fin conn3))))"
    using u c r flight st by (intro step_ok_close [of _ _ _ _ _ ps]) (simp_all add: advance_past_fin_def)
  have next_data: "step_ok ops seg (app, conn)
    (run_then (beside (fst (run_app ops app ps)) (drain_transmittable e1 conn3)) (\<lambda>(app, conn) maybe_to_send.
       case maybe_to_send of
         Some to_send \<Rightarrow>
           (let (info, conn) = data_payload now to_send conn in ((app, conn), Inr (Some info, False)))
       | None \<Rightarrow> ((app, conn), Inr (Some (pure_ack conn), False))))"
    using u c r flight st
    by (intro step_ok_transmit [where idle = "\<lambda>c. Some (pure_ack c)" and ps = ps]) simp_all
  have only_ack: "step_ok ops seg (app, conn)
    (run_then (beside app (drain_transmittable e1 ?conn2)) (\<lambda>(app, conn) maybe_to_send.
       case maybe_to_send of
         Some to_send \<Rightarrow>
           (let (info, conn) = data_payload now to_send conn in ((app, conn), Inr (Some info, False)))
       | None \<Rightarrow> ((app, conn), Inr (None, False))))"
    using u c flight st
    by (intro step_ok_transmit [where idle = "\<lambda>_. None" and ps = "[]"]) simp_all
  have in_order_fin: "step_ok ops seg (app, conn)
      (reply_with (close_on_in_order_fin ops now seg (seg_payload seg) est (app, conn)))"
    using c flight st ack by (intro step_ok_in_order_fin) simp_all
  show ?thesis
    unfolding handle_established_def Let_def prod.case u(1) r(1)
    using next_fin next_data [unfolded Let_def] only_ack [unfolded Let_def] in_order_fin
    by (intro step_ok_if step_ok_pure_ack step_ok_fallback inv inv2 buffered buffered_fin;
        use u st in \<open>(simp; fail)?\<close>)
qed

lemma send_inv_repeat:
  assumes "send_inv conn" and "pending_wf p" and "ahead (end_seq p) (snd_nxt conn) < in_flight conn"
  shows "send_inv (conn\<lparr>pending := pending conn @ [p]\<rparr>)"
  using assms by (auto simp: send_inv_def in_flight_def)

lemma handled_syn_again:
  assumes inv: "conn_inv conn" and st: "tcp_state_of conn = SynReceived sr"
    and info: "info = \<lparr>info_seq_num = snd_una conn, info_ack_num = a, info_flags = SynAck, info_payload = None\<rparr>"
  shows "handled ops seg (app, conn) (app, conn\<lparr>pending := pending conn @ [pending_new info now]\<rparr>) (Some info)"
proof -
  let ?conn' = "conn\<lparr>pending := pending conn @ [pending_new info now]\<rparr>"
  have one: "in_flight conn = 1" using inv st by (simp add: conn_inv_def)
  have "consumed info = 1" by (simp add: info consumed_def consumes_flag_def)
  then have "end_seq (pending_new info now) = seq_add (snd_una conn) (SeqOffset 1)"
    by (subst end_seq_pending_new) (simp_all add: info)
  moreover have "seq_add (snd_una conn) (SeqOffset 1) = snd_nxt conn"
  proof -
    have "snd_nxt conn = seq_add (snd_una conn) (SeqOffset (word_of_nat (in_flight conn)))"
      by (cases "snd_nxt conn"; cases "snd_una conn") (simp add: seq_add_def in_flight_def ahead_def)
    then show ?thesis using one by simp
  qed
  ultimately have "ahead (end_seq (pending_new info now)) (snd_nxt conn) < in_flight conn"
    using one by simp
  moreover have "pending_wf (pending_new info now)"
    by (simp add: pending_wf_def pending_new_def info)
  ultimately have "send_inv ?conn'"
    using conn_invD(1) [OF inv] by (intro send_inv_repeat)
  then have "conn_inv ?conn'"
    using inv st by (auto simp: conn_inv_def in_flight_def)
  then show ?thesis
    using st by (simp add: handled_def app_stream_ok_idle reply_ok_def info)
qed

lemma handle_syn_rcv_ok:
  assumes inv: "conn_inv conn" and st: "tcp_state_of conn = SynReceived sr"
    and wf: "segment_wf seg" and ack: "ack_placeable conn seg"
  shows "step_ok ops seg (app, conn) (handle_syn_rcv ops now seg sr (app, conn))"
proof -
  note c = conn_invD [OF inv]
  have syn: "in_flight conn = 1" "send_buffer conn = []" "reassembly conn = reassembly_new"
    using inv st by (simp_all add: conn_inv_def)
  have segs: "segments_wf (segments reassembly_new)"
    by (simp add: reassembly_new_def segments_wf_def)
  show ?thesis
  proof (cases "precedes (snd_una conn) (seg_ack_num seg) \<and> precedes_or_eq (seg_ack_num seg) (snd_nxt conn)")
    case True
    have le: "in_flight conn \<le> 65536" using syn by simp
    have "0 < ahead (snd_una conn) (seg_ack_num seg)" using True by (simp add: precedes_iff)
    moreover have "ahead (snd_una conn) (seg_ack_num seg) \<le> in_flight conn"
      using True acceptable_ack_iff(1) [OF le ack] by (auto simp: precedes_or_eq_def)
    ultimately have acked: "ahead (seg_ack_num seg) (snd_nxt conn) = 0"
      using acceptable_ack_iff(2) [OF le ack] syn(1) by simp
    define est where "est = establish sr seg"
    define conn1 where "conn1 = conn\<lparr>tcp_state_of := Established est, snd_una := seg_ack_num seg, pending := []\<rparr>"
    have h: "complete_handshake seg sr conn = (est, conn1)"
      by (simp add: complete_handshake_def est_def conn1_def Let_def)
    have c1: "in_flight conn1 = 0" "send_inv conn1" "snd_nxt conn1 = snd_nxt conn"
      "send_buffer conn1 = send_buffer conn" "reassembly conn1 = reassembly_new"
      "tcp_state_of conn1 = Established est" "ack_placeable conn1 seg" "rcv_nxt conn1 = rcv_nxt conn"
      using acked syn by (simp_all add: conn1_def in_flight_def send_inv_def ack_placeable_def)
    obtain ps conn3 where r:
      "deliver_reassembled ops (receive_payload ops (seg_payload seg) (app, conn1)) =
         (fst (run_app ops app ps), conn3)"
      "send_buffer conn3 = send_buffer conn1 @ snd (run_app ops app ps)"
      "segments_wf (segments (reassembly conn3))" "snd_nxt conn3 = snd_nxt conn1"
      "send_inv conn3 = send_inv conn1" "in_flight conn3 = in_flight conn1"
      "tcp_state_of conn3 = tcp_state_of conn1"
      by (rule receive_allE [of conn1 ops "seg_payload seg" app]) (use c1 segs in simp_all)
    have inv3: "conn_inv conn3" using c1 r by (simp add: conn_inv_def)
    have next_fin: "step_ok ops seg (app, conn) (reply_with (beside (fst (run_app ops app ps))
        (close_wait_or_last_ack now (rcv_fin est) (advance_past_fin conn3))))"
      using c1 r st by (intro step_ok_close [of _ _ _ _ _ ps]) (simp_all add: advance_past_fin_def)
    have next_data: "step_ok ops seg (app, conn)
      (run_then (beside (fst (run_app ops app ps)) (drain_transmittable est conn3)) (\<lambda>(app, conn) maybe_to_send.
         case maybe_to_send of
           Some to_send \<Rightarrow>
             (let (info, conn) = data_payload now to_send conn in ((app, conn), Inr (Some info, False)))
         | None \<Rightarrow> ((app, conn), Inr (Some (pure_ack conn), False))))"
      using c1 r st
      by (intro step_ok_transmit [where idle = "\<lambda>c. Some (pure_ack c)" and ps = ps]) simp_all
    have quiet: "step_ok ops seg (app, conn) ((fst (run_app ops app ps), conn3), Inr (None, False))"
      if "send_buffer conn3 = []"
      unfolding handled_def
      by (rule step_okI, unfold handled_def, intro conjI app_stream_okI [of _ _ _ ps])
        (use inv3 c1 r st that syn(2) in \<open>simp_all add: reply_ok_none\<close>)
    have in_order_fin: "step_ok ops seg (app, conn)
        (reply_with (close_on_in_order_fin ops now seg (seg_payload seg) est (app, conn1)))"
      using c1 st segs by (intro step_ok_in_order_fin) simp_all
    have inv1: "conn_inv conn1" using c1 segs by (simp add: conn_inv_def)
    have buffered: "conn_inv (buffer_payload seg conn1)"
      using c1 segments_wf_buffer_payload [of conn1 seg] wf segs by (simp add: conn_inv_def)
    then have buffered_fin: "conn_inv (buffer_fin seg (buffer_payload seg conn1))"
      using c1(6) by (simp add: conn_inv_def)
    show ?thesis
      unfolding handle_syn_rcv_def Let_def prod.case h r(1)
      using next_fin next_data [unfolded Let_def] quiet in_order_fin buffered buffered_fin
      by (intro step_ok_if step_ok_pure_ack step_ok_fallback inv; use c1 st in
          \<open>(auto simp: True intro: step_okI handled_syn_again [OF inv st]; fail)?\<close>)
  next
    case False
    then show ?thesis
      unfolding handle_syn_rcv_def Let_def prod.case
      using step_ok_fallback [OF inv] step_okI [OF handled_syn_again [OF inv st refl]] by auto
  qed
qed

section \<open>The instances\<close>

text \<open>One instance of the contract per state, for every application and every reading of the clock.\<close>

interpretation syn_rcv: conn_handler ops SynReceived "handle_syn_rcv ops now" for ops now
proof (rule conn_handlerI)
  fix s :: "'a \<times> conn_state" and p seg
  assume "conn_inv (snd s)" "tcp_state_of (snd s) = SynReceived p" "segment_wf seg" "ack_placeable (snd s) seg"
  then show "\<exists>s' reply rm. handle_syn_rcv ops now seg p s = (s', Inr (reply, rm)) \<and> handled ops seg s s' reply"
    using handle_syn_rcv_ok [of "snd s" p seg ops "fst s" now] by (simp add: step_ok_def)
qed

interpretation estab: conn_handler ops Established "handle_established ops now" for ops now
proof (rule conn_handlerI)
  fix s :: "'a \<times> conn_state" and p seg
  assume "conn_inv (snd s)" "tcp_state_of (snd s) = Established p" "segment_wf seg" "ack_placeable (snd s) seg"
  then show "\<exists>s' reply rm. handle_established ops now seg p s = (s', Inr (reply, rm)) \<and> handled ops seg s s' reply"
    using handle_established_ok [of "snd s" p seg ops "fst s" now] by (simp add: step_ok_def)
qed

interpretation close_wait: conn_handler ops CloseWait
  "\<lambda>seg p s. beside (fst s) (handle_close_wait now seg p (snd s))" for ops :: "'a application" and now
proof (rule conn_handlerI)
  fix s :: "'a \<times> conn_state" and p seg
  assume "conn_inv (snd s)" "tcp_state_of (snd s) = CloseWait p" "ack_placeable (snd s) seg"
  then show "\<exists>s' reply rm. beside (fst s) (handle_close_wait now seg p (snd s)) = (s', Inr (reply, rm)) \<and>
      handled ops seg s s' reply"
    using handle_close_wait_ok [of "snd s" p seg ops "fst s" now] by (simp add: step_ok_def)
qed

interpretation fin_wait_1: conn_handler ops FinWait1
  "\<lambda>seg p s. infallibly (fst s) (handle_fin_wait_1 seg p (snd s))" for ops :: "'a application"
proof (rule conn_handlerI)
  fix s :: "'a \<times> conn_state" and p seg
  assume "conn_inv (snd s)" "tcp_state_of (snd s) = FinWait1 p" "ack_placeable (snd s) seg"
  then show "\<exists>s' reply rm. infallibly (fst s) (handle_fin_wait_1 seg p (snd s)) = (s', Inr (reply, rm)) \<and>
      handled ops seg s s' reply"
    using silent_ok_infallibly [OF handle_fin_wait_1_ok [of "snd s" p seg ops], of "fst s"] by simp
qed

interpretation fin_wait_2: conn_handler ops FinWait2
  "\<lambda>seg p s. infallibly (fst s) (handle_fin_wait_2 seg p (snd s))" for ops :: "'a application"
proof (rule conn_handlerI)
  fix s :: "'a \<times> conn_state" and p seg
  assume "conn_inv (snd s)" "tcp_state_of (snd s) = FinWait2 p" "ack_placeable (snd s) seg"
  then show "\<exists>s' reply rm. infallibly (fst s) (handle_fin_wait_2 seg p (snd s)) = (s', Inr (reply, rm)) \<and>
      handled ops seg s s' reply"
    using silent_ok_infallibly [OF handle_fin_wait_2_ok [of "snd s" p seg ops], of "fst s"] by simp
qed

interpretation closing: conn_handler ops Closing
  "\<lambda>seg p s. infallibly (fst s) (handle_closing seg p (snd s))" for ops :: "'a application"
proof (rule conn_handlerI)
  fix s :: "'a \<times> conn_state" and p seg
  assume "conn_inv (snd s)" "tcp_state_of (snd s) = Closing p" "ack_placeable (snd s) seg"
  then show "\<exists>s' reply rm. infallibly (fst s) (handle_closing seg p (snd s)) = (s', Inr (reply, rm)) \<and>
      handled ops seg s s' reply"
    using silent_ok_infallibly [OF handle_closing_ok [of "snd s" p seg ops], of "fst s"] by simp
qed

interpretation last_ack: conn_handler ops LastAck
  "\<lambda>seg p s. infallibly (fst s) (handle_last_ack seg p (snd s))" for ops :: "'a application"
proof (rule conn_handlerI)
  fix s :: "'a \<times> conn_state" and p seg
  assume "conn_inv (snd s)" "tcp_state_of (snd s) = LastAck p" "ack_placeable (snd s) seg"
  then show "\<exists>s' reply rm. infallibly (fst s) (handle_last_ack seg p (snd s)) = (s', Inr (reply, rm)) \<and>
      handled ops seg s s' reply"
    using silent_ok_infallibly [OF handle_last_ack_ok [of "snd s" p seg ops], of "fst s"] by simp
qed

section \<open>The dispatcher\<close>

lemma handle_known_connE:
  assumes "conn_inv conn" and "segment_wf seg" and "ack_placeable conn seg"
  obtains app' conn' reply remove_it where
    "handle_known_conn ops now seg (app, conn) = ((app', conn'), Inr (reply, remove_it))"
    "handled ops seg (app, conn) (app', conn') reply"
proof -
  have "\<exists>s' reply remove_it. handle_known_conn ops now seg (app, conn) = (s', Inr (reply, remove_it)) \<and>
      handled ops seg (app, conn) s' reply"
  proof (cases "tcp_state_of conn")
    case (SynReceived p)
    then show ?thesis
      using syn_rcv.contract [of "(app, conn)" p seg ops now] assms by (fastforce simp: handle_known_conn_def)
  next
    case (Established p)
    then show ?thesis
      using estab.contract [of "(app, conn)" p seg ops now] assms by (fastforce simp: handle_known_conn_def)
  next
    case (FinWait1 p)
    then show ?thesis
      using fin_wait_1.contract [of "(app, conn)" p seg ops] assms by (fastforce simp: handle_known_conn_def)
  next
    case (FinWait2 p)
    then show ?thesis
      using fin_wait_2.contract [of "(app, conn)" p seg ops] assms by (fastforce simp: handle_known_conn_def)
  next
    case (CloseWait p)
    then show ?thesis
      using close_wait.contract [of "(app, conn)" p seg now ops] assms by (fastforce simp: handle_known_conn_def)
  next
    case (Closing p)
    then show ?thesis
      using closing.contract [of "(app, conn)" p seg ops] assms by (fastforce simp: handle_known_conn_def)
  next
    case (LastAck p)
    then show ?thesis
      using last_ack.contract [of "(app, conn)" p seg ops] assms by (fastforce simp: handle_known_conn_def)
  qed
  then show ?thesis using that by fastforce
qed

end
