(* ===== verification/Engine.thy ===== *)
theory Engine
  imports Ipv4_Packet Conn_Handlers
begin

text \<open>
  \<open>stack/src/engine.rs\<close>: the protocol state behind the I/O loop. A caller feeds it packets, timer
  events and shutdown signals. The application's operations \<open>ops\<close>, the readings of the clock and
  what \<open>/dev/urandom\<close> returns are parameters.
\<close>

record packet_outcome =
  incoming :: in_packet
  outcome_reply :: "out_packet option"

datatype shutdown_outcome =
    AlreadyDraining duration
  | BeganDraining "out_packet list"
  | NoConnections

record 'a engine =
  engine_app :: 'a
  connections :: tcp_connections
  shutdown_grace_period :: duration
  shutdown_deadline :: "instant option"

definition engine_new :: "'a \<Rightarrow> duration \<Rightarrow> u8 \<Rightarrow> duration \<Rightarrow> 'a engine" where
  "engine_new app initial_rto retries_limit grace =
     \<lparr>engine_app = app, connections = connections_new initial_rto retries_limit,
      shutdown_grace_period = grace, shutdown_deadline = None\<rparr>"

definition connection_count :: "'a engine \<Rightarrow> nat" where
  "connection_count self = connections_len (connections self)"

definition handle_packet ::
    "'a application \<Rightarrow> instant \<Rightarrow> io_error + bytes \<Rightarrow> bytes \<Rightarrow> 'a engine \<Rightarrow>
     ('a engine, packet_outcome) stateful" where
  "handle_packet ops now urandom data self =
     run_then (self, map_err (\<lambda>e. Dynamic (''Skipping packet: '' @ display_error e)) (parse_packet data))
       (\<lambda>self inc.
          let ((app', conns'), r) = create_reply ops now urandom inc (engine_app self, connections self);
              self' = self\<lparr>engine_app := app', connections := conns'\<rparr>
          in run_then
               (self', map_err (\<lambda>e. Dynamic (''Error creating reply: '' @ display_error e)) r)
               (\<lambda>self reply. (self, Inr \<lparr>incoming = inc, outcome_reply = reply\<rparr>)))"

text \<open>The method \<open>make_retransmissions\<close> of the engine: each packet is converted on its own.\<close>

definition engine_make_retransmissions ::
    "instant \<Rightarrow> instant \<Rightarrow> 'a engine \<Rightarrow> out_packet result list \<times> 'a engine" where
  "engine_make_retransmissions now later self =
     (let (segs, conns') = make_retransmissions now later (connections self)
      in (map packet_try_from segs, self\<lparr>connections := conns'\<rparr>))"

text \<open>\<open>collect::<TraceableResult<Vec<_>>>\<close>: the first error, or all the values.\<close>

fun collect_results :: "'b result list \<Rightarrow> 'b list result" where
  "collect_results [] = Inr []"
| "collect_results (r # rs) = and_then r (\<lambda>x. and_then (collect_results rs) (\<lambda>xs. Inr (x # xs)))"

definition try_add_instant :: "instant \<Rightarrow> duration \<Rightarrow> instant result" where
  "try_add_instant t d =
     ok_or (checked_add_instant t d)
       (Dynamic (''Overflowed `Instant` adding '' @ show_nat (d div 1000000000) @ '' seconds''))"

text \<open>
  \<open>clock\<close> is the reading \<open>close_established\<close> takes. \<open>collect\<close> would stop closing connections at the
  first packet it cannot build; \<open>close_segments_convert\<close> shows that it never finds one.
\<close>

definition handle_shutdown ::
    "instant \<Rightarrow> instant \<Rightarrow> 'a engine \<Rightarrow> ('a engine, shutdown_outcome) stateful" where
  "handle_shutdown clock now self =
     (case shutdown_deadline self of
        Some deadline \<Rightarrow> (self, Inr (AlreadyDraining (deadline - now)))
      | None \<Rightarrow>
          let (segs, conns') = close_established clock (connections self);
              self = self\<lparr>connections := conns'\<rparr>
          in run_then (self, collect_results (map packet_try_from segs)) (\<lambda>self to_send.
             if closing_in_progress (connections self) then
               run_then (self, try_add_instant now (shutdown_grace_period self)) (\<lambda>self deadline.
                 (self\<lparr>shutdown_deadline := Some deadline\<rparr>, Inr (BeganDraining to_send)))
             else (self, Inr NoConnections)))"

definition poll_timeout :: "instant \<Rightarrow> instant \<Rightarrow> 'a engine \<Rightarrow> duration option" where
  "poll_timeout later now self =
     map_option (\<lambda>deadline. deadline - now)
       (min_list_opt (option_list (shutdown_deadline self) @
                      option_list (next_retransmit_deadline later (connections self))))"

definition grace_period_elapsed :: "instant \<Rightarrow> 'a engine \<Rightarrow> bool" where
  "grace_period_elapsed now self =
     (case shutdown_deadline self of None \<Rightarrow> False | Some deadline \<Rightarrow> deadline \<le> now)"

definition draining_complete :: "'a engine \<Rightarrow> bool" where
  "draining_complete self \<longleftrightarrow> shutdown_deadline self \<noteq> None \<and> \<not> closing_in_progress (connections self)"

section \<open>The invariant of the table\<close>

definition connections_inv :: "tcp_connections \<Rightarrow> bool" where
  "connections_inv conns \<longleftrightarrow> table_wf conns \<and> (\<forall>(_, conn) \<in> set (table conns). conn_inv conn)"

lemma connections_inv_get: "connections_inv conns \<Longrightarrow> get_conn key conns = Some conn \<Longrightarrow> conn_inv conn"
  by (auto simp: connections_inv_def get_conn_def dest: map_of_SomeD)

lemma set_update_subset: "set (AList.update k v xs) \<subseteq> insert (k, v) (set xs)"
  by (induction xs) auto

lemma set_delete_subset: "set (AList.delete k xs) \<subseteq> set xs"
  by (auto simp: AList.delete_eq)

lemma connections_inv_set: "connections_inv conns \<Longrightarrow> conn_inv conn \<Longrightarrow> connections_inv (set_conn key conn conns)"
  using set_update_subset [of key conn "table conns"]
  by (fastforce simp: connections_inv_def set_conn_def table_wf_def distinct_update)

lemma connections_inv_remove: "connections_inv conns \<Longrightarrow> connections_inv (remove_conn key conns)"
  using set_delete_subset [of key "table conns"]
  by (auto simp: connections_inv_def remove_conn_def table_wf_def distinct_delete)

lemma connections_inv_new: "connections_inv (connections_new d n)"
  by (simp add: connections_inv_def connections_new_def table_wf_def)

text \<open>A connection created by a SYN.\<close>

lemma conn_inv_from_syn_ack:
  assumes "info_flags info = SynAck" and "info_payload info = None" and "from_syn_ack now info = Inr conn"
  shows "conn_inv conn" and "kind (tcp_state_of conn) = SYN_RECEIVED"
proof -
  have conn: "conn = \<lparr>tcp_state_of = SynReceived SynReceivedMark,
             snd_nxt = seq_add (info_seq_num info) syn_byte_out, rcv_nxt = info_ack_num info,
             snd_una = info_seq_num info, pending = [pending_new info now],
             send_buffer = [], reassembly = reassembly_new\<rparr>"
    using assms by (simp add: from_syn_ack_def)
  have c: "consumed info = 1" using assms by (simp add: consumed_def consumes_flag_def)
  then have "end_seq (pending_new info now) = snd_nxt conn"
    using assms by (subst end_seq_pending_new) (simp_all add: conn)
  then have "send_inv conn"
    using assms c by (auto simp: send_inv_def conn in_flight_def pending_wf_def covers_back_def
        pending_new_def)
  then show "conn_inv conn" and "kind (tcp_state_of conn) = SYN_RECEIVED"
    by (simp_all add: conn_inv_def conn in_flight_def segments_wf_def reassembly_new_def)
qed

section \<open>Replies of the table\<close>

text \<open>What \<open>decide_reply\<close> does with a known connection.\<close>

lemma decide_reply_known:
  assumes "get_conn (key_of seg) conns = Some conn"
    and "handle_known_conn ops now seg (app, conn) = ((app', conn'), Inr (reply, remove_it))"
  shows "decide_reply ops now urandom seg (app, conns) =
    ((app', if remove_it then remove_conn (key_of seg) (set_conn (key_of seg) conn' conns)
            else set_conn (key_of seg) conn' conns), Inr reply)"
  using assms by (simp add: decide_reply_def Let_def)

lemma reply_ok_payload:
  "reply_ok seg conn conn' (Some info) \<Longrightarrow>
   payload_opt_wf (info_payload info) \<and> length (payload_bytes (info_payload info)) \<le> max_payload_len"
  by (simp add: reply_ok_def)

end
