(* ===== verification/Tcp_Properties.thy ===== *)
theory Tcp_Properties
  imports Engine
begin

text \<open>
  Properties of the TCP reply logic: of \<open>decide_reply\<close> on the whole table and of
  \<open>handle_known_conn\<close> on one connection. They rest on the contract \<open>conn_handler\<close> and its seven
  instances.
\<close>

section \<open>Example states\<close>

text \<open>An ESTABLISHED connection with nothing in flight, and an in-order data segment for it.\<close>

definition example_key :: conn_key where
  "example_key = \<lparr>client_ip = Ipv4Addr 10 0 0 2, client_port = 4000,
                  server_ip = Ipv4Addr 10 0 0 1, server_port = 80\<rparr>"

definition example_conn :: conn_state where
  "example_conn =
     \<lparr>tcp_state_of = Established (SyncedState
        \<lparr>snd_wnd = SeqOffset 1, snd_wl1 = SeqPoint 500, snd_wl2 = SeqPoint 101\<rparr>),
      snd_nxt = SeqPoint 101, rcv_nxt = SeqPoint 501, snd_una = SeqPoint 101, pending = [],
      send_buffer = [], reassembly = reassembly_new\<rparr>"

definition example_seg :: "tcp_flags \<Rightarrow> u32 \<Rightarrow> u32 \<Rightarrow> tcp_payload option \<Rightarrow> in_segment" where
  "example_seg f sn an pl =
     \<lparr>seg_ip_pair = Ipv4AddrPair (Ipv4Addr 10 0 0 2) (Ipv4Addr 10 0 0 1),
      seg_ports = PortPair 4000 80, seg_seq_num = SeqPoint sn, seg_ack_num = SeqPoint an,
      seg_offset_bytes = 20, seg_flags = f, seg_window = SeqOffset 1, seg_payload = pl\<rparr>"

definition example_conns :: tcp_connections where
  "example_conns = \<lparr>table = [(example_key, example_conn)], rto_config_of = rto_config_new 0, max_retries = 5\<rparr>"

lemma key_of_example [simp]: "key_of (example_seg f sn an pl) = example_key"
  by (simp add: key_of_def example_seg_def example_key_def)

lemma example_seg_sel [simp]:
  "seg_flags (example_seg f sn an pl) = f" "seg_seq_num (example_seg f sn an pl) = SeqPoint sn"
  "seg_ack_num (example_seg f sn an pl) = SeqPoint an" "seg_payload (example_seg f sn an pl) = pl"
  "seg_window (example_seg f sn an pl) = SeqOffset 1"
  by (simp_all add: example_seg_def)

lemma get_example [simp]: "get_conn example_key example_conns = Some example_conn"
  by (simp add: get_conn_def example_conns_def)

lemma example_conn_inv [simp]: "conn_inv example_conn"
  by (simp add: conn_inv_def example_conn_def send_inv_def in_flight_def segments_wf_def reassembly_new_def)

lemma example_conns_inv [simp]: "connections_inv example_conns"
  by (simp add: connections_inv_def example_conns_def table_wf_def)

lemma example_seg_wf [simp]:
  "segment_wf (example_seg f sn an None)"
  "segment_wf (example_seg f sn an (Some \<lparr>payload_data = [0x68, 0x69], payload_len = 2\<rparr>))"
  by (simp_all add: segment_wf_def payload_wf_def)

section \<open>The table\<close>

lemma decide_reply_total:
  assumes "connections_inv conns" and "segment_wf seg"
    and "\<And>conn. get_conn (key_of seg) conns = Some conn \<Longrightarrow> ack_placeable conn seg"
  shows "\<exists>app' conns' reply.
    decide_reply ops now (Inr entropy) seg (app, conns) = ((app', conns'), Inr reply) \<and>
    connections_inv conns' \<and>
    (case reply of None \<Rightarrow> True
     | Some info \<Rightarrow> payload_opt_wf (info_payload info) \<and>
                    length (payload_bytes (info_payload info)) \<le> max_payload_len)"
proof (cases "get_conn (key_of seg) conns")
  case (Some conn)
  have inv: "conn_inv conn" by (rule connections_inv_get [OF assms(1) Some])
  obtain app' conn' reply rm where
    h: "handle_known_conn ops now seg (app, conn) = ((app', conn'), Inr (reply, rm))"
      "handled ops seg (app, conn) (app', conn') reply"
    by (rule handle_known_connE [OF inv assms(2) assms(3) [OF Some]])
  have "conn_inv conn'" and ok: "reply_ok seg conn conn' reply" using h(2) by (simp_all add: handled_def)
  then have "connections_inv (set_conn (key_of seg) conn' conns)"
    by (intro connections_inv_set assms)
  moreover have "case reply of None \<Rightarrow> True | Some info \<Rightarrow> payload_opt_wf (info_payload info) \<and>
      length (payload_bytes (info_payload info)) \<le> max_payload_len"
    using ok reply_ok_payload by (cases reply) auto
  ultimately show ?thesis
    using decide_reply_known [OF Some h(1)] connections_inv_remove by auto
next
  case None
  let ?isn = "u32_from_be_bytes (rev entropy)"
  let ?info = "\<lparr>info_seq_num = SeqPoint ?isn, info_ack_num = seq_add (seg_seq_num seg) syn_byte_in,
    info_flags = SynAck, info_payload = None\<rparr>"
  obtain conn where conn: "from_syn_ack now ?info = Inr conn" by (simp add: from_syn_ack_def)
  have "conn_inv conn" and k: "kind (tcp_state_of conn) = SYN_RECEIVED"
    using conn_inv_from_syn_ack [OF _ _ conn] by simp_all
  then have "connections_inv (set_conn (key_of seg) conn conns)"
    by (intro connections_inv_set assms)
  moreover have "insert_syn_rcv (key_of seg) conn conns = (set_conn (key_of seg) conn conns, Inr ())"
    using k by (cases "tcp_state_of conn") (simp_all add: insert_syn_rcv_def set_conn_def)
  ultimately show ?thesis
    using assms(1) None conn
    by (simp add: decide_reply_def handle_unknown_conn_def random_u32_def Let_def rst_def)
qed

text \<open>Also when no random number can be read, the table keeps its invariant.\<close>

lemma decide_reply_keeps_inv:
  assumes "connections_inv conns" and "segment_wf seg"
    and "\<And>conn. get_conn (key_of seg) conns = Some conn \<Longrightarrow> ack_placeable conn seg"
  shows "connections_inv (snd (fst (decide_reply ops now urandom seg (app, conns))))"
proof (cases urandom)
  case (Inr entropy)
  then show ?thesis using decide_reply_total [OF assms, of ops now entropy app] by auto
next
  case (Inl e)
  show ?thesis
  proof (cases "get_conn (key_of seg) conns")
    case None
    then show ?thesis
      using assms(1) Inl by (simp add: decide_reply_def handle_unknown_conn_def random_u32_def Let_def)
  next
    case (Some conn)
    then have "decide_reply ops now urandom seg (app, conns) = decide_reply ops now (Inr []) seg (app, conns)"
      by (simp add: decide_reply_def)
    then show ?thesis using decide_reply_total [OF assms, of ops now "[]" app] by auto
  qed
qed

text \<open>
  The reply logic is total and keeps the invariant. On a table whose connections satisfy the
  invariant, every well-formed segment whose acknowledgment number is not the antipode of SND.UNA
  gets a decision, no error and no panic; the table keeps its invariant (at most 65536 sequence
  numbers in flight, each covered by a pending segment); and a reply carries at most 1460 bytes,
  so that it fits into one packet.
\<close>

theorem tcp_reply_total:
  assumes "connections_inv conns" and "segment_wf seg"
    and "\<And>conn. get_conn (key_of seg) conns = Some conn \<Longrightarrow> ack_placeable conn seg"
  shows "\<exists>app' conns' reply.
    decide_reply ops now (Inr entropy) seg (app, conns) = ((app', conns'), Inr reply) \<and>
    connections_inv conns' \<and>
    (case reply of None \<Rightarrow> True
     | Some info \<Rightarrow> payload_opt_wf (info_payload info) \<and>
                    length (payload_bytes (info_payload info)) \<le> max_payload_len)"
  using assms by (rule decide_reply_total)

theorem tcp_reply_total_witness:
  "\<exists>app' conns' reply.
     decide_reply shouting_test_app 0 (Inr [1, 2, 3, 4])
       (example_seg Ack 501 101 (Some \<lparr>payload_data = [0x68, 0x69], payload_len = 2\<rparr>))
       ((), example_conns) = ((app', conns'), Inr reply) \<and> connections_inv conns'"
  using tcp_reply_total [of example_conns
      "example_seg Ack 501 101 (Some \<lparr>payload_data = [0x68, 0x69], payload_len = 2\<rparr>)"
      shouting_test_app 0 "[1, 2, 3, 4]" "()"]
  by (auto simp: ack_placeable_def example_conn_def)

text \<open>
  Connections are isolated: whatever a segment does, reply, error or removal, the entry of
  every other connection, and whether there is one, stays as it was.
\<close>

theorem connections_isolated:
  assumes "k \<noteq> key_of seg"
  shows "get_conn k (snd (fst (decide_reply ops now urandom seg (app, conns)))) = get_conn k conns"
proof (cases "get_conn (key_of seg) conns")
  case (Some conn)
  obtain app' conn' r where "handle_known_conn ops now seg (app, conn) = ((app', conn'), r)"
    by (metis prod.collapse)
  then show ?thesis
    using assms Some by (cases r) (auto simp: decide_reply_def Let_def split_beta)
next
  case None
  obtain conns' r where u: "handle_unknown_conn now urandom seg (key_of seg) conns = (conns', r)"
    by fastforce
  have insert: "get_conn k (fst (insert_syn_rcv (key_of seg) st conns)) = get_conn k conns" for st
    using assms
    by (auto simp: insert_syn_rcv_def get_conn_def update_conv' split: tcp_state.splits)
  have "get_conn k conns' = get_conn k conns"
    using u insert
    by (auto simp: handle_unknown_conn_def run_then_cases Let_def split: if_splits sum.splits)
  then show ?thesis using None u by (simp add: decide_reply_def Let_def)
qed

theorem connections_isolated_witness:
  "get_conn (example_key\<lparr>client_port := 4001\<rparr>)
     (snd (fst (decide_reply test_app 0 (Inr []) (example_seg Rst 501 0 None) ((), example_conns)))) =
   get_conn (example_key\<lparr>client_port := 4001\<rparr>) example_conns"
  using connections_isolated [of "example_key\<lparr>client_port := 4001\<rparr>" "example_seg Rst 501 0 None"
      test_app 0 "Inr []" "()" example_conns]
  by (simp add: example_key_def)

text \<open>The example: the application answers \<open>HI\<close> to \<open>hi\<close>, the peer's window has room for one byte.\<close>

lemmas tcp_eval = handle_known_conn_def handle_established_def handle_syn_rcv_def check_seq_def
  incoming_ack_update_def receive_payload_def deliver_def deliver_reassembled_def drain_contiguous_def
  reassembly_new_def drain_segments.simps len_or_default_offset_def offset_from_len_def seq_add_def
  fin_reached_def drain_transmittable_run usize_try_from_offset_def seq_sub_def
  usize_from_offset_def max_payload_len_def try_from_iter_def u16_try_from_def beside_def
  data_payload_def Let_def precedes_iff precedes_or_eq_iff ahead_def

abbreviation example_hi :: in_segment where
  "example_hi \<equiv> example_seg Ack 501 101 (Some \<lparr>payload_data = [0x68, 0x69], payload_len = 2\<rparr>)"

definition example_reply :: send_info where
  "example_reply = \<lparr>info_seq_num = SeqPoint 101, info_ack_num = SeqPoint 503, info_flags = Ack,
     info_payload = Some \<lparr>payload_data = [0x48], payload_len = 1\<rparr>\<rparr>"

lemma example_reply_sel [simp]:
  "info_flags example_reply = Ack" "info_ack_num example_reply = SeqPoint 503"
  "info_seq_num example_reply = SeqPoint 101" "consumed example_reply = 1"
  "info_payload example_reply = Some \<lparr>payload_data = [0x48], payload_len = 1\<rparr>"
  by (simp_all add: example_reply_def consumed_def consumes_flag_def)

lemma example_conn_sel [simp]:
  "kind (tcp_state_of example_conn) = ESTABLISHED" "send_buffer example_conn = []"
  "snd_nxt example_conn = SeqPoint 101" "rcv_nxt example_conn = SeqPoint 501"
  "snd_una example_conn = SeqPoint 101"
  by (simp_all add: example_conn_def)

lemma example_run:
  obtains conn' where
    "handle_known_conn shouting_test_app 0 example_hi ((), example_conn) = (((), conn'), Inr (Some example_reply, False))"
proof -
  have "snd (handle_known_conn shouting_test_app 0 example_hi ((), example_conn)) = Inr (Some example_reply, False)"
    by (simp add: tcp_eval example_conn_def shouting_test_app_def to_ascii_uppercase_def example_reply_def)
  then show ?thesis
    by (intro that [of "snd (fst (handle_known_conn shouting_test_app 0 example_hi ((), example_conn)))"])
      (simp add: prod_eq_iff)
qed

section \<open>One connection\<close>

text \<open>The facts of the contract for one run of \<open>handle_known_conn\<close>.\<close>

lemma handle_known_conn_handled:
  assumes "conn_inv conn" and "segment_wf seg" and "ack_placeable conn seg"
    and "handle_known_conn ops now seg (app, conn) = ((app', conn'), Inr (reply, remove_it))"
  shows "handled ops seg (app, conn) (app', conn') reply"
  using handle_known_connE [OF assms(1-3), of ops now app] assms(4) by auto

lemma example_conn_placeable [simp]: "ack_placeable example_conn (example_seg f sn 101 pl)"
  by (simp add: ack_placeable_def example_conn_def)

text \<open>
  C17: Replies are numbered and recorded: every ACK or FIN-ACK sent in reply acknowledges exactly
  what has been received in order, starts at SND.NXT, advances SND.NXT by what it consumes, and, if
  it consumes anything, is held for retransmission.
\<close>

theorem reply_numbering:
  assumes "conn_inv conn" and "segment_wf seg" and "ack_placeable conn seg"
    and "handle_known_conn ops now seg (app, conn) = ((app', conn'), Inr (Some info, remove_it))"
    and "info_flags info = Ack \<or> info_flags info = FinAck"
  shows "info_ack_num info = rcv_nxt conn' \<and> info_seq_num info = snd_nxt conn \<and>
    snd_nxt conn' = seq_add (snd_nxt conn) (SeqOffset (word_of_nat (consumed info))) \<and>
    (0 < consumed info \<longrightarrow> (\<exists>t. pending_new info t \<in> set (pending conn')))"
proof -
  have "reply_ok seg conn conn' (Some info)"
    using handle_known_conn_handled [OF assms(1-4)] by (simp add: handled_def)
  then show ?thesis using assms(5) by (auto simp: reply_ok_def)
qed

theorem reply_numbering_witness:
  "\<exists>conn'. handle_known_conn shouting_test_app 0 example_hi ((), example_conn) =
     (((), conn'), Inr (Some example_reply, False)) \<and> rcv_nxt conn' = SeqPoint 503 \<and>
     (\<exists>t. pending_new example_reply t \<in> set (pending conn'))"
proof -
  obtain conn' where r: "handle_known_conn shouting_test_app 0 example_hi ((), example_conn) =
      (((), conn'), Inr (Some example_reply, False))"
    by (rule example_run)
  show ?thesis
    using reply_numbering [OF _ _ _ r] r by (intro exI [of _ conn']) auto
qed

text \<open>
  The outgoing byte stream is the application's output: there is a list of payloads that the
  application was given, in order, and the bytes sent in the reply followed by those left in the
  send buffer are the bytes that were in the buffer followed by what the application appended.
  Nothing is lost, duplicated or reordered.
\<close>

theorem send_stream:
  assumes "conn_inv conn" and "segment_wf seg" and "ack_placeable conn seg"
    and "handle_known_conn ops now seg (app, conn) = ((app', conn'), Inr (reply, remove_it))"
  shows "\<exists>ps. app' = fst (run_app ops app ps) \<and>
    reply_payload reply @ send_buffer conn' = send_buffer conn @ snd (run_app ops app ps)"
proof -
  have "app_stream_ok ops (app, conn) (app', conn') reply"
    using handle_known_conn_handled [OF assms] by (simp add: handled_def)
  then obtain ps where
    "run_app ops app ps = (app', drop (length (send_buffer conn)) (reply_payload reply @ send_buffer conn'))"
    "take (length (send_buffer conn)) (reply_payload reply @ send_buffer conn') = send_buffer conn"
    by (auto simp: app_stream_ok_def)
  then show ?thesis
    by (intro exI [of _ ps]) (metis append_take_drop_id fst_conv snd_conv)
qed

theorem send_stream_witness:
  "\<exists>conn'. handle_known_conn shouting_test_app 0 example_hi ((), example_conn) =
     (((), conn'), Inr (Some example_reply, False)) \<and> (\<exists>ps. [0x48] @ send_buffer conn' = snd (run_app shouting_test_app () ps))"
proof -
  obtain conn' where r: "handle_known_conn shouting_test_app 0 example_hi ((), example_conn) =
      (((), conn'), Inr (Some example_reply, False))"
    by (rule example_run)
  show ?thesis
    using send_stream [OF _ _ _ r] r by (intro exI [of _ conn']) simp
qed

end
