(* ===== verification/Tcp_Scenarios.thy ===== *)
theory Tcp_Scenarios
  imports Tcp_Properties
begin

text \<open>
  Properties of the TCP reply logic that follow a definite course: resets, segments outside the
  window, unknown connections, the three-way handshake, delivery of in-order data and closing; and
  the acknowledgment number for which the send side breaks.
\<close>

section \<open>Resets and segments outside the window\<close>

lemma check_seq_window:
  "check_seq seg conn =
     (if seg_seq_num seg = rcv_nxt conn then InOrder
      else if ahead (rcv_nxt conn) (seg_seq_num seg) < 65535 then OutOfOrder else Unacceptable)"
proof -
  have "unat (offset (offset_u32_from_u16 rcv_wnd :: (u32, dir_in) seq_offset)) = 65535"
    by (simp add: offset_u32_from_u16_def)
  then show ?thesis by (simp add: check_seq_def in_window_iff)
qed

lemma handle_known_conn_rst:
  assumes "seg_flags seg = Rst \<or> seg_flags seg = RstAck"
  shows "handle_known_conn ops now seg (app, conn) = ((app, conn), Inr (known_conn_common_fallback seg conn))"
  using assms
  by (cases "tcp_state_of conn"; elim disjE)
    (simp_all add: handle_known_conn_def handle_syn_rcv_def handle_established_def handle_fin_wait_1_def
      handle_fin_wait_2_def handle_close_wait_def handle_closing_def handle_last_ack_def infallibly_def
      beside_def Let_def)

text \<open>
  C25: Protection against blind resets (RFC 5961): in every state, a RST resets the connection only if
  its sequence number is RCV.NXT exactly. Inside the window it provokes a challenge ACK, outside it is
  ignored; in both cases the connection stays as it was.
\<close>

theorem blind_reset_protection:
  assumes "seg_flags seg = Rst \<or> seg_flags seg = RstAck" and "get_conn (key_of seg) conns = Some conn"
  shows "let r = decide_reply ops now urandom seg (app, conns) in
    snd r = Inr (if seg_seq_num seg \<noteq> rcv_nxt conn \<and> ahead (rcv_nxt conn) (seg_seq_num seg) < 65535
                 then Some (pure_ack conn) else None) \<and>
    fst (fst r) = app \<and>
    get_conn (key_of seg) (snd (fst r)) = (if seg_seq_num seg = rcv_nxt conn then None else Some conn)"
proof -
  have "known_conn_common_fallback seg conn =
      (if seg_seq_num seg = rcv_nxt conn then (None, True)
       else if ahead (rcv_nxt conn) (seg_seq_num seg) < 65535 then (Some (pure_ack conn), False)
       else (None, False))"
    using assms(1) by (simp add: known_conn_common_fallback_def check_seq_window Let_def)
  then show ?thesis
    using handle_known_conn_rst [OF assms(1), of ops now app conn] assms(2)
    by (simp add: decide_reply_def Let_def)
qed

theorem blind_reset_protection_witness:
  "get_conn example_key (snd (fst (decide_reply test_app 0 (Inr []) (example_seg Rst 501 0 None) ((), example_conns)))) = None \<and>
   get_conn example_key (snd (fst (decide_reply test_app 0 (Inr []) (example_seg Rst 502 0 None) ((), example_conns)))) = Some example_conn"
  using blind_reset_protection [of "example_seg Rst 501 0 None" example_conns example_conn test_app 0 "Inr []" "()"]
    blind_reset_protection [of "example_seg Rst 502 0 None" example_conns example_conn test_app 0 "Inr []" "()"]
  by (simp add: Let_def)

text \<open>
  C28: A segment outside the receive window delivers nothing and moves no sequence number: a RST is
  dropped without a reply; a SYN during the handshake, which is where a retransmitted SYN falls, is
  answered by the SYN-ACK again, one past the SYN's own number, with one more copy of it held for retransmission and nothing else
  changed; and to every other segment, whatever its state, flags, acknowledgment and payload, the only
  reply is the current acknowledgment and the connection and the application stay exactly as they were.
\<close>

theorem outside_window_ignored:
  assumes "65535 \<le> ahead (rcv_nxt conn) (seg_seq_num seg)"
  shows "handle_known_conn ops now seg (app, conn) =
    (if seg_flags seg = Rst \<or> seg_flags seg = RstAck then ((app, conn), Inr (None, False))
     else if kind (tcp_state_of conn) = SYN_RECEIVED \<and> seg_flags seg = Syn then
       (let syn_ack = \<lparr>info_seq_num = snd_una conn, info_ack_num = seq_add (seg_seq_num seg) (SeqOffset 1),
                       info_flags = SynAck, info_payload = None\<rparr>
        in ((app, conn\<lparr>pending := pending conn @ [pending_new syn_ack now]\<rparr>), Inr (Some syn_ack, False)))
     else ((app, conn), Inr (Some (pure_ack conn), False)))"
proof -
  have "seg_seq_num seg \<noteq> rcv_nxt conn" using assms by auto
  then have c: "check_seq seg conn = Unacceptable"
    using assms by (simp add: check_seq_window)
  show ?thesis
  proof (cases "kind (tcp_state_of conn) = SYN_RECEIVED \<and> seg_flags seg = Syn")
    case True
    then show ?thesis
      by (cases "tcp_state_of conn") (simp_all add: handle_known_conn_def handle_syn_rcv_def Let_def)
  next
    case False
    then have "handle_known_conn ops now seg (app, conn) = ((app, conn), Inr (known_conn_common_fallback seg conn))"
      using c
      by (cases "tcp_state_of conn")
        (simp_all add: handle_known_conn_def handle_syn_rcv_def handle_established_def handle_fin_wait_1_def
          handle_fin_wait_2_def handle_close_wait_def handle_closing_def handle_last_ack_def infallibly_def
          beside_def Let_def del: not_not)
    then show ?thesis
      using False by (auto simp: known_conn_common_fallback_def c Let_def)
  qed
qed

theorem outside_window_ignored_witness:
  "handle_known_conn shouting_test_app 0 (example_seg FinAck 500 101 None) ((), example_conn) =
     (((), example_conn), Inr (Some (pure_ack example_conn), False))"
  using outside_window_ignored [of example_conn "example_seg FinAck 500 101 None" shouting_test_app 0 "()"]
  by (simp add: ahead_def unat_minus_u32)

section \<open>Unknown connections and the handshake\<close>

text \<open>
  A segment that belongs to no connection is answered as RFC 9293, Section 3.10.7.1, says: a RST
  is dropped, anything else with an acknowledgment is answered by a RST that carries the
  acknowledgment as its sequence number, and neither creates a connection.
\<close>

theorem unknown_connection_refused:
  assumes "get_conn (key_of seg) conns = None" and "seg_flags seg \<noteq> Syn"
  shows "decide_reply ops now urandom seg (app, conns) = ((app, conns),
    Inr (if seg_flags seg = Rst \<or> seg_flags seg = RstAck then None
         else Some \<lparr>info_seq_num = seg_ack_num seg, info_ack_num = SeqPoint 0, info_flags = Rst,
                    info_payload = None\<rparr>))"
  using assms by (simp add: decide_reply_def handle_unknown_conn_def rst_def Let_def)

theorem unknown_connection_refused_witness:
  "snd (decide_reply test_app 0 (Inr []) (example_seg Ack 5 77 None) ((), connections_new 0 5)) =
     Inr (Some \<lparr>info_seq_num = SeqPoint 77, info_ack_num = SeqPoint 0, info_flags = Rst, info_payload = None\<rparr>)"
  using unknown_connection_refused [of "example_seg Ack 5 77 None" "connections_new 0 5" test_app 0 "Inr []" "()"]
  by (simp add: get_conn_def connections_new_def)

text \<open>
  C20: The three-way handshake: on a table without the connection, a SYN is answered by a SYN-ACK
  with the random initial sequence number and SEG.SEQ + 1; the ACK that completes it, whatever
  windows it announces, leaves the connection ESTABLISHED with nothing in flight and nothing
  pending, both sides' sequence numbers one past the initial ones, and no reply.
\<close>

theorem three_way_handshake:
  assumes "get_conn (key_of syn) conns = None" and "seg_flags syn = Syn"
    and "isn = u32_from_be_bytes (rev entropy)"
    and "key_of ack = key_of syn" and "seg_flags ack = Ack" and "seg_payload ack = None"
    and "seg_seq_num ack = seq_add (seg_seq_num syn) (SeqOffset 1)" and "seg_ack_num ack = SeqPoint (isn + 1)"
  shows "let (s1, r1) = decide_reply ops t1 (Inr entropy) syn (app, conns);
             (s2, r2) = decide_reply ops t2 urandom ack s1
    in r1 = Inr (Some \<lparr>info_seq_num = SeqPoint isn, info_ack_num = seq_add (seg_seq_num syn) (SeqOffset 1),
                      info_flags = SynAck, info_payload = None\<rparr>) \<and>
       r2 = Inr None \<and> fst s2 = app \<and>
       (\<exists>conn. get_conn (key_of syn) (snd s2) = Some conn \<and> kind (tcp_state_of conn) = ESTABLISHED \<and>
          snd_una conn = SeqPoint (isn + 1) \<and> snd_nxt conn = SeqPoint (isn + 1) \<and>
          rcv_nxt conn = seq_add (seg_seq_num syn) (SeqOffset 1) \<and>
          pending conn = [] \<and> send_buffer conn = [] \<and> peer_window (tcp_state_of conn) = unat (offset (seg_window ack)))"
proof -
  let ?info = "\<lparr>info_seq_num = SeqPoint isn, info_ack_num = seq_add (seg_seq_num syn) syn_byte_in,
    info_flags = SynAck, info_payload = None\<rparr>"
  define conn where "conn = \<lparr>tcp_state_of = SynReceived SynReceivedMark,
    snd_nxt = seq_add (SeqPoint isn) syn_byte_out, rcv_nxt = seq_add (seg_seq_num syn) syn_byte_in,
    snd_una = SeqPoint isn, pending = [pending_new ?info t1], send_buffer = [], reassembly = reassembly_new\<rparr>"
  have r1: "decide_reply ops t1 (Inr entropy) syn (app, conns) =
      ((app, set_conn (key_of syn) conn conns), Inr (Some ?info))"
    using assms(1,2)
    by (simp add: decide_reply_def handle_unknown_conn_def random_u32_def from_syn_ack_def
        insert_syn_rcv_def set_conn_def conn_def assms(3) Let_def)
  define conn' where "conn' = conn\<lparr>tcp_state_of := Established (establish SynReceivedMark ack),
    snd_una := SeqPoint (isn + 1), pending := []\<rparr>"
  have acceptable: "precedes (SeqPoint isn :: dir_out seq_point) (SeqPoint (isn + 1))"
    by (simp add: precedes_iff ahead_def)
  have nxt: "seq_add (SeqPoint isn) syn_byte_out = (SeqPoint (isn + 1) :: dir_out seq_point)"
    by (simp add: seq_add_def)
  have h: "complete_handshake ack SynReceivedMark conn = (establish SynReceivedMark ack, conn')"
    by (simp add: complete_handshake_def conn'_def Let_def assms(8))
  have d: "deliver_reassembled ops (app, conn') = (app, conn')"
    by (simp add: deliver_reassembled_def drain_contiguous_def reassembly_new_def drain_segments.simps
        conn'_def conn_def)
  have "handle_known_conn ops t2 ack (app, conn) = ((app, conn'), Inr (None, False))"
  proof -
    have "handle_syn_rcv ops t2 ack SynReceivedMark (app, conn) = ((app, conn'), Inr (None, False))"
      using acceptable assms(5-8) nxt unfolding handle_syn_rcv_def Let_def prod.case h
      by (simp add: check_seq_def conn_def d receive_payload_def)
        (simp add: conn'_def conn_def fin_reached_def reassembly_new_def)
    then show ?thesis by (simp add: handle_known_conn_def conn_def)
  qed
  then have "decide_reply ops t2 urandom ack (app, set_conn (key_of syn) conn conns) =
      ((app, set_conn (key_of syn) conn' (set_conn (key_of syn) conn conns)), Inr None)"
    using decide_reply_known [of ack "set_conn (key_of syn) conn conns" conn ops t2 app app conn' None False urandom]
    by (simp add: assms(4))
  then show ?thesis
    unfolding r1 by (simp add: conn'_def conn_def nxt establish_def)
qed

theorem three_way_handshake_witness:
  "let (s1, r1) = decide_reply test_app 0 (Inr [1, 0, 0, 0]) (example_seg Syn 500 0 None) ((), connections_new 0 5);
       (s2, r2) = decide_reply test_app 1 (Inr []) (example_seg Ack 501 2 None) s1
   in r2 = Inr None \<and> (\<exists>conn. get_conn example_key (snd s2) = Some conn \<and> kind (tcp_state_of conn) = ESTABLISHED)"
  using three_way_handshake [of "example_seg Syn 500 0 None" "connections_new 0 5" 1 "[1, 0, 0, 0]"
      "example_seg Ack 501 2 None" test_app 0 "()" 1 "Inr []"]
  by (auto simp: get_conn_def connections_new_def seq_add_def u32_from_be_bytes_def be_nat_def split_beta Let_def)

section \<open>Receiving the peer's stream\<close>

lemma genuine_later:
  assumes "genuine s base r segs" and "segs' = filter (starts_after (stream_pos base r')) segs"
    and "r \<le> r'" and "r' \<le> r + 131070"
  shows "genuine s base r' segs'"
  unfolding genuine_def
proof (intro ballI)
  fix x assume "x \<in> set segs'"
  then have x: "x \<in> set segs" "starts_after (stream_pos base r') x" using assms(2) by simp_all
  obtain start p where sp: "x = (start, p)" by fastforce
  then obtain k where k: "r \<le> k" "k < r + 65535" "start = stream_pos base k" "payload_wf p"
    "payload_data p = stream_slice s k (k + length (payload_data p))"
    using genuineE [OF assms(1)] x(1) by metis
  have "r' < k"
    using starts_after_stream_pos(1) [of r k x base r'] k x(2) assms(3,4) by (simp add: sp)
  with k assms(3) show "case x of (start, p) \<Rightarrow> payload_wf p \<and>
     (\<exists>k. r' \<le> k \<and> k < r' + 65535 \<and> start = stream_pos base k \<and>
          payload_data p = stream_slice s k (k + length (payload_data p)))"
    unfolding sp prod.case by (intro conjI exI [of _ k]) simp_all
qed

text \<open>What an in-order payload delivers: itself and the buffered segments it makes contiguous.\<close>

lemma deliver_in_order:
  assumes gen: "genuine s base r (segments (reassembly conn))" and rcv: "rcv_nxt conn = stream_pos base r"
    and segs: "segments_wf (segments (reassembly conn))" and pwf: "payload_wf p"
    and data: "payload_data p = stream_slice s r (r + length (payload_data p))"
  obtains ps r' re' where "r + length (payload_data p) \<le> r'" "r' \<le> r + 131070" "concat (map payload_data ps) = stream_slice s r r'"
    "genuine s base r' (segments re')" "segments_wf (segments re')" "fin_seq re' = fin_seq (reassembly conn)"
    "\<exists>qs. drain_segments (stream_pos base (r + length (payload_data p))) (segments (reassembly conn)) =
       (qs, stream_pos base r', segments re')"
    "deliver_reassembled ops (receive_payload ops (Some p) (app, conn)) = (fst (run_app ops app ps),
      conn\<lparr>rcv_nxt := stream_pos base r', reassembly := re',
           send_buffer := send_buffer conn @ snd (run_app ops app ps)\<rparr>)"
proof -
  define q where "q = r + length (payload_data p)"
  define conn3 where "conn3 = conn\<lparr>rcv_nxt := stream_pos base q,
    send_buffer := send_buffer conn @ snd (run_app ops app [p])\<rparr>"
  have q: "r \<le> q" "q \<le> r + 65535" "payload_data p = stream_slice s r q"
    using data payload_wf_bound [OF pwf] by (simp_all add: q_def)
  have rp: "receive_payload ops (Some p) (app, conn) = (fst (run_app ops app [p]), conn3)"
    using rcv by (simp add: receive_payload_eq conn3_def q_def stream_pos_add unat_len_or_default_offset pwf)
  obtain qs rcv' re' where d: "drain_contiguous (stream_pos base q) (reassembly conn) = (qs, rcv', re')"
    by (metis prod_cases3)
  obtain segs' where ds: "drain_segments (stream_pos base q) (segments (reassembly conn)) = (qs, rcv', segs')"
    and re': "re' = reassembly conn\<lparr>segments := segs'\<rparr>"
    using d by (auto simp: drain_contiguous_def split: prod.splits)
  obtain r' where r': "q \<le> r'" "rcv' = stream_pos base r'" "r' \<le> r + 131070"
    "concat (map payload_data qs) = stream_slice s q r'"
    "segs' = filter (starts_after rcv') (segments (reassembly conn))"
    using drain_segments_stream [OF gen q(1) _ ds] q(2) by auto
  have "drain_contiguous (rcv_nxt conn3) (reassembly conn3) = (qs, rcv', re')" using d by (simp add: conn3_def)
  from deliver_reassembled_eq [OF this, of ops "fst (run_app ops app [p])"]
  have "deliver_reassembled ops (receive_payload ops (Some p) (app, conn)) = (fst (run_app ops app (p # qs)),
      conn\<lparr>rcv_nxt := stream_pos base r', reassembly := re',
           send_buffer := send_buffer conn @ snd (run_app ops app (p # qs))\<rparr>)"
    unfolding rp r'(2) by (simp add: conn3_def split_beta Let_def)
  moreover have "genuine s base r' (segments re')"
    using genuine_later [OF gen, of segs' r'] r' q by (simp add: re')
  moreover have "segments_wf (segments re')" using segments_wf_drain [OF ds segs] by (simp add: re')
  moreover have "concat (map payload_data (p # qs)) = stream_slice s r r'"
    using q r' stream_slice_append [of r q r' s] by simp
  moreover have "\<exists>qs. drain_segments (stream_pos base q) (segments (reassembly conn)) = (qs, stream_pos base r', segments re')"
    using ds by (simp add: r'(2) re')
  ultimately show thesis using that [of r' "p # qs" re'] r'(1,3) by (simp add: q_def re')
qed

text \<open>An ESTABLISHED connection that receives in order what does not reach a FIN.\<close>

lemma established_in_order:
  assumes u: "incoming_ack_update est seg conn = (e1, conn1)"
    and seg: "seg_flags seg = Ack" "seg_payload seg = Some p"
    and "\<not> precedes (snd_nxt conn) (seg_ack_num seg)" and "check_seq seg conn = InOrder"
    and all: "deliver_reassembled ops (receive_payload ops (seg_payload seg)
      (app, conn1\<lparr>tcp_state_of := Established e1\<rparr>)) = (app4, conn4)"
    and inv4: "send_inv conn4" "in_flight conn4 \<le> 65535" "segments_wf (segments (reassembly conn4))"
      "tcp_state_of conn4 = Established e1" "snd_nxt conn4 = snd_nxt conn" "\<not> fin_reached (rcv_nxt conn4) (reassembly conn4)"
  obtains conn5 reply where "handle_established ops now seg est (app, conn) = ((app4, conn5), Inr (reply, False))"
    "rcv_nxt conn5 = rcv_nxt conn4" "reassembly conn5 = reassembly conn4" "tcp_state_of conn5 = Established e1"
proof -
  obtain conn5 reply where t:
    "run_then (beside app4 (drain_transmittable e1 conn4)) (\<lambda>(app, conn) maybe_to_send.
       case maybe_to_send of
         Some to_send \<Rightarrow>
           (let (info, conn) = data_payload now to_send conn in ((app, conn), Inr (Some info, False)))
       | None \<Rightarrow> ((app, conn), Inr (Some (pure_ack conn), False))) = ((app4, conn5), Inr (reply, False))"
    "rcv_nxt conn5 = rcv_nxt conn4" "reassembly conn5 = reassembly conn4" "tcp_state_of conn5 = Established e1"
    by (rule transmit_ok [OF inv4(1,2,4,3,5), of "\<lambda>c. Some (pure_ack c)" app4 now seg]) simp_all
  have "handle_established ops now seg est (app, conn) = ((app4, conn5), Inr (reply, False))"
    using assms(2-5) inv4(6)
    unfolding handle_established_def Let_def prod.case u all
    by (simp add: t(1) [unfolded Let_def])
  then show thesis using t(2-4) by (rule that)
qed

text \<open>
  In-order delivery to the application. Let the peer's stream be \<open>s\<close>, and let an ESTABLISHED
  connection have received it up to position \<open>r\<close>, with a genuine buffer. Any data segment of the
  stream inside the receive window, in order or not, in whatever order they come, hands the
  application exactly the bytes of the stream from \<open>r\<close> to the new RCV.NXT, position \<open>r'\<close>, and leaves the
  buffer genuine from there; in-order data moves \<open>r'\<close> at least past itself. Every byte is so
  delivered once, and in order.
\<close>

theorem receive_stream:
  assumes inv: "conn_inv conn" and st: "tcp_state_of conn = Established est" and wf: "segment_wf seg"
    and ack: "ack_placeable conn seg"
    and rcv: "rcv_nxt conn = stream_pos base r" and gen: "genuine s base r (segments (reassembly conn))"
    and nofin: "fin_seq (reassembly conn) = None"
    and data: "seg_flags seg = Ack" "seg_payload seg = Some p" "seg_seq_num seg = stream_pos base k"
      "r \<le> k" "k < r + 65535" "payload_data p = stream_slice s k (k + length (payload_data p))"
    and run: "handle_known_conn ops now seg (app, conn) = ((app', conn'), Inr (reply, remove_it))"
  shows "\<exists>r' ps. r \<le> r' \<and>
    (k = r \<and> \<not> precedes (snd_nxt conn) (seg_ack_num seg) \<longrightarrow> r + length (payload_data p) \<le> r') \<and>
    rcv_nxt conn' = stream_pos base r' \<and> genuine s base r' (segments (reassembly conn')) \<and>
    app' = fst (run_app ops app ps) \<and> concat (map payload_data ps) = stream_slice s r r'"
proof -
  note c = conn_invD [OF inv]
  have pwf: "payload_wf p" using wf data(2) by (simp add: segment_wf_def)
  have flight: "in_flight conn \<le> 65535" using inv st by (simp add: conn_inv_def)
  obtain e1 conn1 where u: "incoming_ack_update est seg conn = (e1, conn1)" "send_inv conn1"
    "in_flight conn1 \<le> in_flight conn" "snd_nxt conn1 = snd_nxt conn" "rcv_nxt conn1 = rcv_nxt conn"
    "send_buffer conn1 = send_buffer conn" "reassembly conn1 = reassembly conn"
    "tcp_state_of conn1 = tcp_state_of conn"
    by (rule ack_updateE [OF c(1) ack])
  let ?conn2 = "conn1\<lparr>tcp_state_of := Established e1\<rparr>"
  have h: "handle_established ops now seg est (app, conn) = ((app', conn'), Inr (reply, remove_it))"
    using run st by (simp add: handle_known_conn_def)
  have seq: "seg_seq_num seg = rcv_nxt conn \<longleftrightarrow> k = r"
    using stream_pos_order(2) [of k r base] data(3-5) rcv by simp
  have ahead: "ahead (rcv_nxt conn) (seg_seq_num seg) = k - r"
    using ahead_seq_at_less [of "base + int r" "base + int k", where 'a = dir_in] data(3-5) rcv
    by (simp add: stream_pos_def nat_diff_distrib [symmetric])
  have check: "check_seq seg conn = (if k = r then InOrder else OutOfOrder)"
  proof -
    have "k - r < 65535" using data(4,5) by linarith
    then show ?thesis by (simp add: check_seq_window seq ahead)
  qed
  have none: "run_app ops app [] = (app, [])" "stream_slice s r r = []"
    by (simp_all add: stream_slice_def)
  consider (past) "precedes (snd_nxt conn) (seg_ack_num seg)"
    | (early) "\<not> precedes (snd_nxt conn) (seg_ack_num seg)" "k \<noteq> r"
    | (current) "\<not> precedes (snd_nxt conn) (seg_ack_num seg)" "k = r" by blast
  then show ?thesis
  proof cases
    case past
    then have "handle_established ops now seg est (app, conn) = ((app, conn), Inr (Some (pure_ack conn), False))"
      using data(1) check by (simp add: handle_established_def)
    then have "app' = app" "conn' = conn" using h by simp_all
    then show ?thesis using rcv gen none past by (intro exI [of _ r] exI [of _ "[]"]) simp
  next
    case early
    then have "handle_established ops now seg est (app, conn) =
        ((app, buffer_payload seg ?conn2), Inr (Some (pure_ack (buffer_payload seg ?conn2)), False))"
      using data(1,2) check u(1) by (simp add: handle_established_def Let_def)
    then have "app' = app" and conn': "conn' = buffer_payload seg ?conn2" using h by simp_all
    have "genuine s base r (insert_segment (stream_pos base k) p (segments (reassembly conn)))"
      by (rule genuine_insert [OF gen pwf data(4,5,6)])
    then have "genuine s base r (segments (reassembly conn'))"
      using data(2,3) u(7) by (simp add: conn' buffer_payload_def reassembly_insert_def)
    moreover have "rcv_nxt conn' = stream_pos base r" using rcv u(5) by (simp add: conn')
    ultimately show ?thesis
      using none early \<open>app' = app\<close> by (intro exI [of _ r] exI [of _ "[]"]) simp
  next
    case current
    have slice: "payload_data p = stream_slice s r (r + length (payload_data p))" using data(6) current(2) by simp
    obtain ps r' re' where d: "r + length (payload_data p) \<le> r'" "r' \<le> r + 131070" "concat (map payload_data ps) = stream_slice s r r'"
      "genuine s base r' (segments re')" "segments_wf (segments re')" "fin_seq re' = fin_seq (reassembly ?conn2)"
      "\<exists>qs. drain_segments (stream_pos base (r + length (payload_data p))) (segments (reassembly ?conn2)) =
         (qs, stream_pos base r', segments re')"
      "deliver_reassembled ops (receive_payload ops (Some p) (app, ?conn2)) = (fst (run_app ops app ps),
        ?conn2\<lparr>rcv_nxt := stream_pos base r', reassembly := re',
               send_buffer := send_buffer ?conn2 @ snd (run_app ops app ps)\<rparr>)"
      by (rule deliver_in_order [of s base r ?conn2 p ops app]) (use rcv gen u c(2) pwf slice in simp_all)
    define conn4 where "conn4 = ?conn2\<lparr>rcv_nxt := stream_pos base r', reassembly := re',
      send_buffer := send_buffer ?conn2 @ snd (run_app ops app ps)\<rparr>"
    have inv4: "send_inv conn4" "in_flight conn4 \<le> 65535" "segments_wf (segments (reassembly conn4))"
      "tcp_state_of conn4 = Established e1" "snd_nxt conn4 = snd_nxt conn" "\<not> fin_reached (rcv_nxt conn4) (reassembly conn4)"
      using u flight d(5,6) nofin send_inv_cong [of conn4 conn1]
      by (simp_all add: conn4_def in_flight_def fin_reached_def)
    obtain conn5 reply5 where t: "handle_established ops now seg est (app, conn) =
        ((fst (run_app ops app ps), conn5), Inr (reply5, False))"
      "rcv_nxt conn5 = rcv_nxt conn4" "reassembly conn5 = reassembly conn4" "tcp_state_of conn5 = Established e1"
      by (rule established_in_order [OF u(1) data(1,2) current(1) _ d(8) [folded conn4_def data(2)] inv4])
        (simp add: check current(2))
    then have "app' = fst (run_app ops app ps)" "conn' = conn5" using h by simp_all
    then show ?thesis
      using d(1,3,4) t(2,3) by (intro exI [of _ r'] exI [of _ ps]) (simp add: conn4_def)
  qed
qed

lemma example_conn_state:
  "tcp_state_of example_conn = Established (SyncedState
     \<lparr>snd_wnd = SeqOffset 1, snd_wl1 = SeqPoint 500, snd_wl2 = SeqPoint 101\<rparr>)"
  by (simp add: example_conn_def)

theorem receive_stream_witness:
  "\<exists>conn' r'. handle_known_conn shouting_test_app 0 example_hi ((), example_conn) =
     (((), conn'), Inr (Some example_reply, False)) \<and> 2 \<le> r' \<and> rcv_nxt conn' = stream_pos 501 r'"
proof -
  obtain conn' where run: "handle_known_conn shouting_test_app 0 example_hi ((), example_conn) =
      (((), conn'), Inr (Some example_reply, False))"
    by (rule example_run)
  have gen: "genuine (\<lambda>k. if k = 0 then 0x68 else 0x69) 501 0 (segments (reassembly example_conn))"
    and nofin: "fin_seq (reassembly example_conn) = None"
    by (simp_all add: genuine_def example_conn_def reassembly_new_def)
  have bytes: "payload_data \<lparr>payload_data = [0x68, 0x69], payload_len = 2\<rparr> =
      stream_slice (\<lambda>k. if k = 0 then 0x68 else 0x69) 0
        (0 + length (payload_data \<lparr>payload_data = [0x68, 0x69], payload_len = 2\<rparr>))"
    by (simp add: stream_slice_def upt_rec)
  have rcv: "rcv_nxt example_conn = stream_pos 501 0" and seq: "seg_seq_num example_hi = stream_pos 501 0"
    by (simp_all add: stream_pos_def seq_at_def)
  have future: "\<not> precedes (snd_nxt example_conn) (seg_ack_num example_hi)"
    by (simp add: precedes_iff ahead_def)
  obtain r' where "0 + length (payload_data \<lparr>payload_data = [0x68, 0x69], payload_len = 2\<rparr>) \<le> r'"
    "rcv_nxt conn' = stream_pos 501 r'"
    using receive_stream [OF example_conn_inv example_conn_state example_seg_wf(2) example_conn_placeable
      rcv gen nofin example_seg_sel(1) example_seg_sel(4) seq order.refl _ bytes run] future
    by auto
  then show ?thesis using run by (intro exI [of _ conn'] exI [of _ r']) simp
qed

section \<open>Closing\<close>

lemma drain_nothing:
  assumes "in_flight conn \<le> 65536" and "send_buffer conn = []"
  shows "drain_transmittable e conn = (conn, Inr None)"
proof -
  have "transmittable e conn = 0" using assms(2) by (simp add: transmittable_def)
  moreover have "conn\<lparr>send_buffer := []\<rparr> = conn" using assms(2) by (cases conn) simp
  ultimately show ?thesis
    using drain_transmittable_eq [OF assms(1), of e] assms(2) by (simp add: try_from_iter_def)
qed

lemma close_wait_or_last_ack_empty:
  assumes "in_flight conn \<le> 65536" and "send_buffer conn = []"
  shows "close_wait_or_last_ack now cw conn =
    (let info = \<lparr>info_seq_num = snd_nxt conn, info_ack_num = rcv_nxt conn, info_flags = FinAck,
                 info_payload = None\<rparr>
     in (conn\<lparr>tcp_state_of := LastAck (send_fin cw), snd_nxt := seq_add (snd_nxt conn) (SeqOffset 1),
              pending := pending conn @ [pending_new info now]\<rparr>, Inr info))"
  using assms(2) by (simp add: close_wait_or_last_ack_def drain_nothing [OF assms] len_or_default_offset_def
      seq_add_def Let_def)



lemma incoming_ack_update_fixed:
  assumes "incoming_ack_update e seg conn = (e', conn')"
  shows "snd_nxt conn' = snd_nxt conn" and "rcv_nxt conn' = rcv_nxt conn"
  using assms by (auto simp: incoming_ack_update_def Let_def split: if_splits)

lemma zero_offset [simp]: "seq_add x (SeqOffset 0) = x"
  by (simp add: seq_add_def)

lemmas closing_eval = handle_known_conn_def handle_fin_wait_1_def handle_fin_wait_2_def
  handle_closing_def check_seq_def infallibly_def len_or_default_offset_def pure_ack_def Let_def

lemma fin_wait_1_ack:
  assumes "tcp_state_of conn = FinWait1 fw" and "seg_flags ack = Ack" and "seg_payload ack = None"
    and "seg_seq_num ack = rcv_nxt conn" and "seg_ack_num ack = snd_nxt conn"
  obtains fw2 conn' where
    "handle_known_conn ops now ack (app, conn) = ((app, conn'), Inr (None, False))"
    "tcp_state_of conn' = FinWait2 fw2" "rcv_nxt conn' = rcv_nxt conn"
proof -
  obtain fw' conn1 where u: "incoming_ack_update fw ack conn = (fw', conn1)" by fastforce
  have "handle_known_conn ops now ack (app, conn) =
      ((app, conn1\<lparr>tcp_state_of := FinWait2 (rcv_ack_of_fin fw')\<rparr>), Inr (None, False))"
    using assms by (simp add: closing_eval u)
  then show ?thesis by (rule that) (simp_all add: incoming_ack_update_fixed [OF u])
qed

lemma fin_wait_2_fin:
  assumes "tcp_state_of conn = FinWait2 fw" and "seg_flags fin = FinAck" and "seg_payload fin = None"
    and "seg_seq_num fin = rcv_nxt conn"
  obtains conn' where
    "handle_known_conn ops now fin (app, conn) = ((app, conn'), Inr (Some (pure_ack conn'), True))"
    "rcv_nxt conn' = seq_add (rcv_nxt conn) (SeqOffset 1)"
proof -
  have "handle_known_conn ops now fin (app, conn) = ((app, conn\<lparr>rcv_nxt := seq_add (rcv_nxt conn) (SeqOffset 1)\<rparr>),
      Inr (Some (pure_ack (conn\<lparr>rcv_nxt := seq_add (rcv_nxt conn) (SeqOffset 1)\<rparr>)), True))"
    using assms by (simp add: closing_eval)
  then show ?thesis by (rule that) simp
qed

lemma fin_wait_1_fin_first:
  assumes "tcp_state_of conn = FinWait1 fw" and "seg_flags fin = FinAck" and "seg_payload fin = None"
    and "seg_seq_num fin = rcv_nxt conn" and "seg_ack_num fin \<noteq> snd_nxt conn"
  obtains cl conn' where
    "handle_known_conn ops now fin (app, conn) = ((app, conn'), Inr (Some (pure_ack conn'), False))"
    "tcp_state_of conn' = Closing cl" "snd_nxt conn' = snd_nxt conn"
    "rcv_nxt conn' = seq_add (rcv_nxt conn) (SeqOffset 1)"
proof -
  let ?conn = "conn\<lparr>rcv_nxt := seq_add (rcv_nxt conn) (SeqOffset 1)\<rparr>"
  obtain fw' conn1 where u: "incoming_ack_update fw fin ?conn = (fw', conn1)" by fastforce
  have "handle_known_conn ops now fin (app, conn) =
      ((app, conn1\<lparr>tcp_state_of := Closing (rcv_fin_before_fin_is_acked fw')\<rparr>),
       Inr (Some (pure_ack (conn1\<lparr>tcp_state_of := Closing (rcv_fin_before_fin_is_acked fw')\<rparr>)), False))"
    using assms incoming_ack_update_fixed [OF u] by (simp add: closing_eval u)
  then show ?thesis by (rule that) (simp_all add: incoming_ack_update_fixed [OF u])
qed

lemma closing_ack:
  assumes "tcp_state_of conn = Closing cl" and "seg_flags ack = Ack" and "seg_payload ack = None"
    and "seg_seq_num ack = rcv_nxt conn" and "seg_ack_num ack = snd_nxt conn"
  shows "handle_known_conn ops now ack (app, conn) = ((app, conn), Inr (None, True))"
  using assms by (simp add: closing_eval)

text \<open>
  C22: Active close: once \<open>close_conn\<close> has sent our FIN, the connection ends in either of the orders
  of RFC 9293, Section 3.6: the peer acknowledges our FIN and then sends its own, through FIN-WAIT-2;
  or both close at once and the peer's FIN, which does not acknowledge ours, comes first, through
  CLOSING. In both the peer's FIN is acknowledged and the last segment removes the connection.
\<close>

theorem active_close:
  assumes st: "tcp_state_of conn = Established est" and closed: "close_conn t0 conn = Some (our_fin, conn1)"
    and fin: "seg_flags fin = FinAck" "seg_payload fin = None" "seg_seq_num fin = rcv_nxt conn"
    and ack: "seg_flags ack = Ack" "seg_payload ack = None"
      "seg_ack_num ack = seq_add (snd_nxt conn) (SeqOffset 1)"
    and order: "seg_seq_num ack = (if fin_first then seq_add (rcv_nxt conn) (SeqOffset 1) else rcv_nxt conn)"
      "fin_first \<Longrightarrow> seg_ack_num fin \<noteq> seq_add (snd_nxt conn) (SeqOffset 1)"
  shows "info_flags our_fin = FinAck \<and> info_seq_num our_fin = snd_nxt conn \<and> kind (tcp_state_of conn1) = FIN_WAIT_1 \<and>
    (\<exists>conn2 conn3.
       if fin_first then
         handle_known_conn ops t1 fin (app, conn1) = ((app, conn2), Inr (Some (pure_ack conn2), False)) \<and>
         rcv_nxt conn2 = seq_add (rcv_nxt conn) (SeqOffset 1) \<and> kind (tcp_state_of conn2) = CLOSING \<and>
         handle_known_conn ops t2 ack (app, conn2) = ((app, conn3), Inr (None, True))
       else
         handle_known_conn ops t1 ack (app, conn1) = ((app, conn2), Inr (None, False)) \<and>
         kind (tcp_state_of conn2) = FIN_WAIT_2 \<and>
         handle_known_conn ops t2 fin (app, conn2) = ((app, conn3), Inr (Some (pure_ack conn3), True)) \<and>
         rcv_nxt conn3 = seq_add (rcv_nxt conn) (SeqOffset 1))"
proof -
  have c: "tcp_state_of conn1 = FinWait1 (close est)" "rcv_nxt conn1 = rcv_nxt conn"
    "snd_nxt conn1 = seq_add (snd_nxt conn) (SeqOffset 1)"
    "info_flags our_fin = FinAck" "info_seq_num our_fin = snd_nxt conn"
    using closed st by (auto simp: close_conn_def Let_def)
  show ?thesis
  proof (cases fin_first)
    case False
    then have seq: "seg_seq_num ack = rcv_nxt conn1" "seg_ack_num ack = snd_nxt conn1"
      using order ack c by simp_all
    obtain fw2 conn2 where a: "handle_known_conn ops t1 ack (app, conn1) = ((app, conn2), Inr (None, False))"
      "tcp_state_of conn2 = FinWait2 fw2" "rcv_nxt conn2 = rcv_nxt conn1"
      by (rule fin_wait_1_ack [OF c(1) ack(1,2) seq])
    have "seg_seq_num fin = rcv_nxt conn2" using fin a c by simp
    then obtain conn3 where
      "handle_known_conn ops t2 fin (app, conn2) = ((app, conn3), Inr (Some (pure_ack conn3), True))"
      "rcv_nxt conn3 = seq_add (rcv_nxt conn2) (SeqOffset 1)"
      by (rule fin_wait_2_fin [OF a(2) fin(1,2)])
    then show ?thesis using a c False by (intro conjI exI [of _ conn2] exI [of _ conn3]) simp_all
  next
    case True
    then have seq: "seg_seq_num fin = rcv_nxt conn1" "seg_ack_num fin \<noteq> snd_nxt conn1"
      using order(2) fin c by simp_all
    obtain cl conn2 where f: "handle_known_conn ops t1 fin (app, conn1) =
        ((app, conn2), Inr (Some (pure_ack conn2), False))" "tcp_state_of conn2 = Closing cl"
      "snd_nxt conn2 = snd_nxt conn1" "rcv_nxt conn2 = seq_add (rcv_nxt conn1) (SeqOffset 1)"
      by (rule fin_wait_1_fin_first [OF c(1) fin(1,2) seq])
    have "handle_known_conn ops t2 ack (app, conn2) = ((app, conn2), Inr (None, True))"
      using closing_ack [OF f(2) ack(1,2)] f c ack order(1) True by simp
    then show ?thesis using f c True by (intro conjI exI [of _ conn2] exI [of _ conn2]) simp_all
  qed
qed

theorem active_close_witness:
  "\<exists>our_fin conn1 conn2 conn3. close_conn 0 example_conn = Some (our_fin, conn1) \<and>
     handle_known_conn test_app 1 (example_seg FinAck 501 101 None) ((), conn1) =
       (((), conn2), Inr (Some (pure_ack conn2), False)) \<and>
     handle_known_conn test_app 2 (example_seg Ack 502 102 None) ((), conn2) = (((), conn3), Inr (None, True))"
proof -
  obtain our_fin conn1 where c: "close_conn 0 example_conn = Some (our_fin, conn1)"
    by (simp add: close_conn_def example_conn_state Let_def)
  then show ?thesis
    using active_close [OF example_conn_state c, of "example_seg FinAck 501 101 None"
      "example_seg Ack 502 102 None" True test_app 1 "()" 2]
    by (auto simp: seq_add_def)
qed

section \<open>An acknowledgment the comparisons cannot place\<close>

text \<open>
  C36: The antipode of SND.UNA as an acknowledgment: with nothing in flight, a FIN that acknowledges
  the number \<open>2\<^sup>3\<^sup>1\<close> ahead, data never sent, passes the test of acceptability, since both its
  comparisons are true at the antipode. SND.UNA moves there, the segment is answered by an internal
  error instead of a FIN-ACK, and the connection stays in the table, ESTABLISHED, with RCV.NXT moved
  past the FIN.
\<close>

theorem antipodal_fin_breaks_connection:
  assumes st: "tcp_state_of conn = Established est" and idle: "snd_nxt conn = snd_una conn"
    and fin: "seg_flags fin = FinAck" "seg_payload fin = None" "seg_seq_num fin = rcv_nxt conn"
      "seg_ack_num fin = seq_add (snd_una conn) (SeqOffset 2147483648)"
  shows "\<exists>conn' e. handle_known_conn ops now fin (app, conn) = ((app, conn'), Inl (Err e)) \<and>
    snd_una conn' = seq_add (snd_nxt conn') (SeqOffset 2147483648) \<and>
    rcv_nxt conn' = seq_add (rcv_nxt conn) (SeqOffset 1) \<and>
    kind (tcp_state_of conn') = ESTABLISHED"
proof -
  define conn0 where "conn0 = conn\<lparr>rcv_nxt := seq_add (rcv_nxt conn) (SeqOffset 1)\<rparr>"
  have far: "ahead x (seq_add x (SeqOffset 2147483648)) = 2147483648"
    "ahead (seq_add x (SeqOffset 2147483648)) x = 2147483648" for x :: "dir_out seq_point"
    by (simp_all add: ahead_def seq_add_def)
  have "snd_una (snd (incoming_ack_update est fin conn0)) = seg_ack_num fin"
    using fin(4) idle far [of "snd_una conn"]
    by (simp add: incoming_ack_update_def Let_def precedes_iff precedes_or_eq_iff conn0_def)
  moreover obtain e1 conn1 where u: "incoming_ack_update est fin conn0 = (e1, conn1)" by fastforce
  ultimately have una: "snd_una conn1 = seg_ack_num fin" by simp
  have fixed: "snd_nxt conn1 = snd_nxt conn" "rcv_nxt conn1 = rcv_nxt conn0"
    using incoming_ack_update_fixed [OF u] by (simp_all add: conn0_def)
  have "tcp_state_of conn1 = tcp_state_of conn"
    using u by (auto simp: incoming_ack_update_def Let_def conn0_def split: if_splits)
  moreover have broken: "drain_transmittable e conn1 = (conn1, Inl (Err TryFromInt))" for e :: "close_wait synced_state"
    using far by (simp add: drain_transmittable_run usize_try_from_sub una fin(4) fixed(1) idle)
  have rp: "receive_payload ops (seg_payload fin) (app, conn) = (app, conn)"
    using fin(2) by (simp add: receive_payload_def)
  have adv: "advance_past_fin conn = conn0" by (simp add: advance_past_fin_def conn0_def)
  have "close_on_in_order_fin ops now fin (seg_payload fin) est (app, conn) = ((app, conn1), Inl (Err TryFromInt))"
    unfolding close_on_in_order_fin_def Let_def rp prod.case adv u close_wait_or_last_ack_def broken
    by (simp add: beside_def)
  then have "handle_known_conn ops now fin (app, conn) = ((app, conn1), Inl (Err TryFromInt))"
    using st fin(1,3) by (simp add: handle_known_conn_def handle_established_def check_seq_def reply_with_def)
  ultimately show ?thesis
    using una fixed fin(4) st idle by (intro exI [of _ conn1] exI [of _ TryFromInt]) (simp add: conn0_def)
qed

theorem antipodal_fin_breaks_connection_witness:
  "\<exists>conn' e. handle_known_conn test_app 0 (example_seg FinAck 501 2147483749 None) ((), example_conn) =
     (((), conn'), Inl (Err e)) \<and> snd_una conn' \<noteq> snd_nxt conn'"
proof -
  obtain conn' e where "handle_known_conn test_app 0 (example_seg FinAck 501 2147483749 None) ((), example_conn) =
      (((), conn'), Inl (Err e))" "snd_una conn' = seq_add (snd_nxt conn') (SeqOffset 2147483648)"
    using antipodal_fin_breaks_connection [OF example_conn_state, of "example_seg FinAck 501 2147483749 None"
      test_app 0 "()"] by (auto simp: seq_add_def)
  then show ?thesis by (cases "snd_nxt conn'") (auto simp: seq_add_def)
qed

end
