(* ===== verification/Table_Properties.thy ===== *)
theory Table_Properties
  imports Tcp_Properties
begin

text \<open>
  Properties of the operations on the whole connection table: retransmission, its deadline, and the
  active close of every ESTABLISHED connection.
\<close>

section \<open>Retransmission\<close>

text \<open>What one pass does to a connection, and what it sends for it.\<close>

definition gives_up :: "instant \<Rightarrow> instant \<Rightarrow> tcp_connections \<Rightarrow> conn_state \<Rightarrow> bool" where
  "gives_up now later conns conn \<longleftrightarrow>
     (\<exists>p \<in> set (pending conn). is_due now later conns p \<and> exhausted_retries (max_retries conns) p)"

definition resend :: "instant \<Rightarrow> instant \<Rightarrow> tcp_connections \<Rightarrow> conn_state \<Rightarrow> conn_state" where
  "resend now later conns conn = conn\<lparr>pending := map (\<lambda>p. if is_due now later conns p then
       p\<lparr>retries := saturating_inc (retries p), last_sent_at := now\<rparr> else p) (pending conn)\<rparr>"

definition resent :: "instant \<Rightarrow> instant \<Rightarrow> tcp_connections \<Rightarrow> conn_key \<Rightarrow> conn_state \<Rightarrow> out_segment list" where
  "resent now later conns key conn =
     map (\<lambda>p. segment_to key (pend_info p)) (filter (is_due now later conns) (pending conn))"

lemma is_due_cong: "rto_config_of a = rto_config_of b \<Longrightarrow> is_due now later a = is_due now later b"
  by (simp add: is_due_def fun_eq_iff)

lemma retransmit_pending_eq:
  "retransmit_pending now due key ps =
     (map (\<lambda>p. segment_to key (pend_info p)) (filter due ps),
      map (\<lambda>p. if due p then p\<lparr>retries := saturating_inc (retries p), last_sent_at := now\<rparr> else p) ps)"
  by (induction ps) (simp_all add: retransmit_info_def Let_def)

lemma retransmit_keys_spec:
  assumes "retransmit_keys now later keys self = (segs, self')" and "distinct keys"
    and "\<forall>key \<in> set keys. get_conn key self \<noteq> None"
  shows "get_conn k self' =
      (if k \<in> set keys then
         (let conn = the (get_conn k self) in
          if gives_up now later self conn then None else Some (resend now later self conn))
       else get_conn k self)"
    and "segs = concat (map (\<lambda>k. let conn = the (get_conn k self) in
           if gives_up now later self conn then [] else resent now later self k conn) keys)"
    and "rto_config_of self' = rto_config_of self \<and> max_retries self' = max_retries self \<and>
      (table_wf self \<longrightarrow> table_wf self')"
proof -
  have "(\<forall>k. get_conn k self' =
      (if k \<in> set keys then
         (let conn = the (get_conn k self) in
          if gives_up now later self conn then None else Some (resend now later self conn))
       else get_conn k self)) \<and>
    segs = concat (map (\<lambda>k. let conn = the (get_conn k self) in
           if gives_up now later self conn then [] else resent now later self k conn) keys) \<and>
    rto_config_of self' = rto_config_of self \<and> max_retries self' = max_retries self \<and>
      (table_wf self \<longrightarrow> table_wf self')"
    using assms
  proof (induction keys arbitrary: self segs self')
    case (Cons key keys)
    obtain conn where conn: "get_conn key self = Some conn" using Cons.prems(3) by auto
    have fresh: "key \<notin> set keys" "distinct keys" using Cons.prems(2) by simp_all
    have same: "gives_up now later s = gives_up now later self" "resend now later s = resend now later self"
      "resent now later s = resent now later self"
      if "rto_config_of s = rto_config_of self" "max_retries s = max_retries self" for s
      by ((rule ext)+, simp add: gives_up_def resend_def resent_def is_due_cong [OF that(1)] that(2))+
    show ?case
    proof (cases "gives_up now later self conn")
      case True
      then have run: "retransmit_keys now later keys (remove_conn key self) = (segs, self')"
        using Cons.prems(1) conn by (auto simp: gives_up_def list_ex_iff)
      have known: "\<forall>k \<in> set keys. get_conn k (remove_conn key self) \<noteq> None"
        using Cons.prems(3) fresh by auto
      have eq: "map (\<lambda>k. let conn = the (get_conn k (remove_conn key self)) in
           if gives_up now later self conn then [] else resent now later self k conn) keys =
         map (\<lambda>k. let conn = the (get_conn k self) in
           if gives_up now later self conn then [] else resent now later self k conn) keys"
        using fresh by (auto intro!: map_cong)
      show ?thesis
        using Cons.IH [OF run fresh(2) known] conn True fresh(1)
        unfolding same [OF remove_conn_config] eq by auto
    next
      case False
      then have no: "\<not> list_ex (\<lambda>p. is_due now later self p \<and> exhausted_retries (max_retries self) p) (pending conn)"
        by (auto simp: gives_up_def list_ex_iff)
      let ?self = "set_conn key (resend now later self conn) self"
      obtain rest self2 where run: "retransmit_keys now later keys ?self = (rest, self2)" by fastforce
      have known: "\<forall>k \<in> set keys. get_conn k ?self \<noteq> None"
        using Cons.prems(3) by auto
      have out: "segs = resent now later self key conn @ rest" "self' = self2"
        using Cons.prems(1) conn no run
        by (simp_all add: retransmit_pending_eq resend_def resent_def Let_def)
      have eq: "map (\<lambda>k. let conn = the (get_conn k ?self) in
           if gives_up now later self conn then [] else resent now later self k conn) keys =
         map (\<lambda>k. let conn = the (get_conn k self) in
           if gives_up now later self conn then [] else resent now later self k conn) keys"
        using fresh by (auto intro!: map_cong)
      show ?thesis
        using Cons.IH [OF run fresh(2) known] conn False fresh(1)
        unfolding same [OF set_conn_config] eq out by auto
    qed
  qed simp
  then show "get_conn k self' =
      (if k \<in> set keys then
         (let conn = the (get_conn k self) in
          if gives_up now later self conn then None else Some (resend now later self conn))
       else get_conn k self)"
    and "segs = concat (map (\<lambda>k. let conn = the (get_conn k self) in
           if gives_up now later self conn then [] else resent now later self k conn) keys)"
    and "rto_config_of self' = rto_config_of self \<and> max_retries self' = max_retries self \<and>
      (table_wf self \<longrightarrow> table_wf self')" by blast+
qed

lemma get_conn_iff: "table_wf conns \<Longrightarrow> get_conn k conns = Some conn \<longleftrightarrow> (k, conn) \<in> set (table conns)"
  by (simp add: table_wf_def get_conn_def)

lemma not_due:
  assumes "\<not> list_ex (is_due now later conns) (pending conn)"
  shows "\<not> gives_up now later conns conn" "resend now later conns conn = conn"
    "resent now later conns key conn = []"
proof -
  have none: "\<not> is_due now later conns p" if "p \<in> set (pending conn)" for p
    using assms that by (auto simp: list_ex_iff)
  have "map (\<lambda>p. if is_due now later conns p then
       p\<lparr>retries := saturating_inc (retries p), last_sent_at := now\<rparr> else p) (pending conn) = pending conn"
    using none by (intro map_idI) simp
  then show "resend now later conns conn = conn" unfolding resend_def by simp
  show "\<not> gives_up now later conns conn" using none by (auto simp: gives_up_def)
  have "filter (is_due now later conns) (pending conn) = []" using none by (simp add: filter_empty_conv)
  then show "resent now later conns key conn = []" by (simp add: resent_def)
qed

lemma make_retransmissions_spec:
  assumes wf: "table_wf conns" and run: "make_retransmissions now later conns = (segs, conns')"
  shows "get_conn k conns' = Option.bind (get_conn k conns) (\<lambda>conn.
      if gives_up now later conns conn then None else Some (resend now later conns conn))"
    and "s \<in> set segs \<longleftrightarrow> (\<exists>k conn p. get_conn k conns = Some conn \<and> \<not> gives_up now later conns conn \<and>
      p \<in> set (pending conn) \<and> is_due now later conns p \<and> s = segment_to k (pend_info p))"
    and "table_wf conns'" and "rto_config_of conns' = rto_config_of conns" "max_retries conns' = max_retries conns"
proof -
  define keys where "keys = map fst (filter (\<lambda>(_, conn). list_ex (is_due now later conns) (pending conn)) (table conns))"
  have run': "retransmit_keys now later keys conns = (segs, conns')"
    using run by (simp add: make_retransmissions_def keys_def)
  have d: "distinct keys" using wf by (simp add: keys_def table_wf_def distinct_map_filter)
  have keys: "k \<in> set keys \<longleftrightarrow> (\<exists>conn. get_conn k conns = Some conn \<and> list_ex (is_due now later conns) (pending conn))" for k
    using get_conn_iff [OF wf] by (force simp: keys_def)
  then have known: "\<forall>k \<in> set keys. get_conn k conns \<noteq> None" by auto
  note spec = retransmit_keys_spec [OF run' d known]
  show "get_conn k conns' = Option.bind (get_conn k conns) (\<lambda>conn.
      if gives_up now later conns conn then None else Some (resend now later conns conn))"
    using spec(1) [of k] keys [of k] not_due by (cases "get_conn k conns") (auto simp: Let_def)
  have "s \<in> set segs \<longleftrightarrow> (\<exists>k \<in> set keys. \<not> gives_up now later conns (the (get_conn k conns)) \<and>
      s \<in> set (resent now later conns k (the (get_conn k conns))))"
    unfolding spec(2) by (auto simp: Let_def split: if_splits)
  also have "\<dots> \<longleftrightarrow> (\<exists>k conn. get_conn k conns = Some conn \<and> \<not> gives_up now later conns conn \<and>
      s \<in> set (resent now later conns k conn))"
    using keys not_due(3) by (metis empty_iff empty_set option.sel)
  finally show "s \<in> set segs \<longleftrightarrow> (\<exists>k conn p. get_conn k conns = Some conn \<and> \<not> gives_up now later conns conn \<and>
      p \<in> set (pending conn) \<and> is_due now later conns p \<and> s = segment_to k (pend_info p))"
    by (auto simp: resent_def)
  show "table_wf conns'" and "rto_config_of conns' = rto_config_of conns" "max_retries conns' = max_retries conns"
    using spec(3) wf by simp_all
qed

text \<open>A retransmission changes neither what is pending nor the sequence numbers.\<close>

lemma conn_inv_resend: "conn_inv conn \<Longrightarrow> conn_inv (resend now later conns conn)"
proof -
  define f where "f = (\<lambda>p. if is_due now later conns p then
    p\<lparr>retries := saturating_inc (retries p), last_sent_at := now\<rparr> else p)"
  have f: "end_seq (f p) = end_seq p" "pending_wf (f p) = pending_wf p"
    "covers_back nxt j (f p) = covers_back nxt j p" for p nxt j
    by (simp_all add: f_def pending_wf_def pending_new_def covers_back_def)
  have r: "resend now later conns conn = conn\<lparr>pending := map f (pending conn)\<rparr>"
    by (simp add: resend_def f_def)
  have flight: "in_flight (resend now later conns conn) = in_flight conn"
    by (simp add: in_flight_def r)
  have sel: "tcp_state_of (resend now later conns conn) = tcp_state_of conn"
    "send_buffer (resend now later conns conn) = send_buffer conn"
    "reassembly (resend now later conns conn) = reassembly conn"
    by (simp_all add: r)
  have "send_inv conn \<Longrightarrow> send_inv (resend now later conns conn)"
    unfolding send_inv_def flight by (simp add: r f)
  then show "conn_inv conn \<Longrightarrow> conn_inv (resend now later conns conn)"
    unfolding conn_inv_def flight using sel by (auto split: conn_kind.splits)
qed

lemma make_retransmissions_inv:
  assumes inv: "connections_inv conns" and run: "make_retransmissions now later conns = (segs, conns')"
  shows "connections_inv conns'"
  unfolding connections_inv_def
proof (intro conjI ballI)
  have wf: "table_wf conns" using inv by (simp add: connections_inv_def)
  note spec = make_retransmissions_spec [OF wf run]
  show "table_wf conns'" by (rule spec(3))
  fix x assume "x \<in> set (table conns')"
  moreover obtain k conn' where x: "x = (k, conn')" by fastforce
  ultimately have "get_conn k conns' = Some conn'" using get_conn_iff [OF spec(3)] by simp
  then obtain conn where "get_conn k conns = Some conn" "conn' = resend now later conns conn"
    unfolding spec(1) by (auto simp: bind_eq_Some_conv split: if_splits)
  then show "case x of (_, conn) \<Rightarrow> conn_inv conn"
    using connections_inv_get [OF inv] conn_inv_resend by (simp add: x)
qed

text \<open>
  C14: Retransmission is exact. A pass removes a connection just when one of its due segments has
  used up its retries. Of every other connection it resends every due segment, unchanged, and no
  other, and restarts their timers with one more retry; everything else of the table is untouched,
  and its invariant is kept.
\<close>

theorem retransmission_exact:
  assumes inv: "connections_inv conns" and run: "make_retransmissions now later conns = (segs, conns')"
  shows "connections_inv conns' \<and>
    (\<forall>k. get_conn k conns' = Option.bind (get_conn k conns) (\<lambda>conn.
      if \<exists>p \<in> set (pending conn). is_due now later conns p \<and> exhausted_retries (max_retries conns) p then None
      else Some (conn\<lparr>pending := map (\<lambda>p. if is_due now later conns p then
             p\<lparr>retries := saturating_inc (retries p), last_sent_at := now\<rparr> else p) (pending conn)\<rparr>))) \<and>
    (\<forall>s. s \<in> set segs \<longleftrightarrow> (\<exists>k conn p. get_conn k conns = Some conn \<and> get_conn k conns' \<noteq> None \<and>
      p \<in> set (pending conn) \<and> is_due now later conns p \<and> s = segment_to k (pend_info p)))"
proof (intro conjI)
  have wf: "table_wf conns" using inv by (simp add: connections_inv_def)
  note spec = make_retransmissions_spec [OF wf run]
  have kept: "get_conn k conns' \<noteq> None \<longleftrightarrow> \<not> gives_up now later conns conn"
    if "get_conn k conns = Some conn" for k conn
    using that by (simp add: spec(1))
  show "connections_inv conns'" by (rule make_retransmissions_inv [OF inv run])
  show "\<forall>k. get_conn k conns' = Option.bind (get_conn k conns) (\<lambda>conn.
      if \<exists>p \<in> set (pending conn). is_due now later conns p \<and> exhausted_retries (max_retries conns) p then None
      else Some (conn\<lparr>pending := map (\<lambda>p. if is_due now later conns p then
             p\<lparr>retries := saturating_inc (retries p), last_sent_at := now\<rparr> else p) (pending conn)\<rparr>))"
    using spec(1) unfolding gives_up_def resend_def by blast
  show "\<forall>s. s \<in> set segs \<longleftrightarrow> (\<exists>k conn p. get_conn k conns = Some conn \<and> get_conn k conns' \<noteq> None \<and>
      p \<in> set (pending conn) \<and> is_due now later conns p \<and> s = segment_to k (pend_info p))"
    unfolding spec(2) using kept by metis
qed

text \<open>A connection whose SYN-ACK is due, and one whose SYN-ACK has been resent five times.\<close>

definition example_syn_rcv :: "u8 \<Rightarrow> conn_state" where
  "example_syn_rcv n =
     \<lparr>tcp_state_of = SynReceived SynReceivedMark, snd_nxt = SeqPoint 101, rcv_nxt = SeqPoint 501,
      snd_una = SeqPoint 100,
      pending = [(pending_new \<lparr>info_seq_num = SeqPoint 100, info_ack_num = SeqPoint 501,
        info_flags = SynAck, info_payload = None\<rparr> 0)\<lparr>retries := n\<rparr>],
      send_buffer = [], reassembly = reassembly_new\<rparr>"

definition example_retries :: "u8 \<Rightarrow> tcp_connections" where
  "example_retries n = \<lparr>table = [(example_key, example_syn_rcv n)],
     rto_config_of = rto_config_new 0, max_retries = 5\<rparr>"

lemma example_retries_inv [simp]: "connections_inv (example_retries n)"
  by (auto simp: connections_inv_def example_retries_def example_syn_rcv_def table_wf_def conn_inv_def
      send_inv_def in_flight_def ahead_def segments_wf_def reassembly_new_def pending_wf_def
      pending_new_def covers_back_def consumed_def consumes_flag_def seq_add_def len_or_default_offset_def)

lemma example_due:
  "last_sent_at p = 0 \<Longrightarrow> is_due 1000000000 0 (example_retries n) p"
  by (simp add: is_due_def time_due_def checked_add_instant_def retransmission_timeout_def
      rto_config_new_def clamp_def saturating_mul_def tcp_rto_min_def tcp_rto_max_def example_retries_def
      instant_max_def)

lemma max_retries_example: "max_retries (example_retries n) = 5"
  by (simp add: example_retries_def)

lemma get_example_retries: "get_conn example_key (example_retries n) = Some (example_syn_rcv n)"
  by (simp add: get_conn_def example_retries_def)

theorem retransmission_exact_witness:
  "get_conn example_key (snd (make_retransmissions 1000000000 0 (example_retries 5))) = None \<and>
   map_option (map retries \<circ> pending)
     (get_conn example_key (snd (make_retransmissions 1000000000 0 (example_retries 4)))) = Some [5]"
proof -
  let ?run = "\<lambda>n. make_retransmissions 1000000000 0 (example_retries n)"
  have "get_conn example_key (snd (?run n)) = Option.bind (Some (example_syn_rcv n)) (\<lambda>conn.
      if \<exists>p \<in> set (pending conn). is_due 1000000000 0 (example_retries n) p \<and>
           exhausted_retries (max_retries (example_retries n)) p then None
      else Some (conn\<lparr>pending := map (\<lambda>p. if is_due 1000000000 0 (example_retries n) p then
             p\<lparr>retries := saturating_inc (retries p), last_sent_at := 1000000000\<rparr> else p) (pending conn)\<rparr>))" for n
    using retransmission_exact [OF example_retries_inv, of 1000000000 0 n "fst (?run n)" "snd (?run n)"]
    by (simp add: get_example_retries)
  then show ?thesis
    by (simp add: example_syn_rcv_def example_due pending_new_def exhausted_retries_def
        max_retries_example saturating_inc_def)
qed

section \<open>Waking up in time\<close>

lemma min_list_opt_None: "min_list_opt xs = None \<longleftrightarrow> xs = []"
  by (cases xs) simp_all

lemma min_list_opt_Some: "min_list_opt xs = Some m \<longleftrightarrow> m \<in> set xs \<and> (\<forall>x \<in> set xs. m \<le> x)"
proof (induction xs arbitrary: m)
  case (Cons x xs)
  show ?case
  proof (cases "min_list_opt xs")
    case None
    then show ?thesis by (auto simp: min_list_opt_None)
  next
    case (Some y)
    then have y: "y \<in> set xs" "\<forall>z \<in> set xs. y \<le> z" using Cons.IH by simp_all
    have "min x y = m \<longleftrightarrow> m \<in> insert x (set xs) \<and> (\<forall>z \<in> insert x (set xs). m \<le> z)"
      using y by (auto simp: min_def intro: order_trans dest: antisym)
    then show ?thesis using Some by simp
  qed
qed simp

text \<open>
  The deadline wakes the server in time: \<open>next_retransmit_deadline\<close> has passed exactly when a pass
  would find a due segment, and a pass before it sends and changes nothing.
\<close>

theorem deadline_is_exact:
  assumes "table_wf conns"
  shows "let passed = (case next_retransmit_deadline later conns of None \<Rightarrow> False | Some t \<Rightarrow> t \<le> now) in
    (passed \<longleftrightarrow> (\<exists>k conn p. get_conn k conns = Some conn \<and> p \<in> set (pending conn) \<and> is_due now later conns p)) \<and>
    (\<not> passed \<longrightarrow> make_retransmissions now later conns = ([], conns))"
proof -
  define dues where "dues = map (time_due later (rto_config_of conns))
    (concat (map (\<lambda>(_, conn). pending conn) (table conns)))"
  define due where "due \<longleftrightarrow>
    (\<exists>k conn p. get_conn k conns = Some conn \<and> p \<in> set (pending conn) \<and> is_due now later conns p)"
  have due_iff: "due \<longleftrightarrow> (\<exists>t \<in> set dues. t \<le> now)"
    unfolding due_def get_conn_iff [OF assms] by (fastforce simp: dues_def is_due_def)
  have "(case min_list_opt dues of None \<Rightarrow> False | Some t \<Rightarrow> t \<le> now) \<longleftrightarrow> due"
    using min_list_opt_None [of dues] min_list_opt_Some [of dues] unfolding due_iff
    by (cases "min_list_opt dues") (auto intro: order_trans)
  moreover have "make_retransmissions now later conns = ([], conns)" if "\<not> due"
  proof -
    have "\<not> (\<exists>p \<in> set (pending conn). is_due now later conns p)" if "(k, conn) \<in> set (table conns)" for k conn
      using \<open>\<not> due\<close> that by (auto simp: due_def get_conn_iff [OF assms])
    then have "filter (\<lambda>(_, conn). list_ex (is_due now later conns) (pending conn)) (table conns) = []"
      by (auto simp: filter_empty_conv list_ex_iff)
    then show ?thesis by (simp add: make_retransmissions_def)
  qed
  ultimately show ?thesis
    unfolding next_retransmit_deadline_def dues_def [symmetric] due_def [symmetric] Let_def by blast
qed

theorem deadline_is_exact_witness:
  "make_retransmissions 1000000000 0 example_conns = ([], example_conns)"
proof -
  have "table_wf example_conns" by (simp add: table_wf_def example_conns_def)
  moreover have "next_retransmit_deadline 0 example_conns = None"
    by (simp add: next_retransmit_deadline_def example_conns_def example_conn_def)
  ultimately show ?thesis using deadline_is_exact [of example_conns 1000000000 0] by simp
qed

section \<open>Active close of the whole table\<close>

lemma close_entries_eq:
  "close_entries now xs =
     (concat (map (\<lambda>(key, conn). case close_conn now conn of None \<Rightarrow> [] | Some (info, _) \<Rightarrow> [segment_to key info]) xs),
      map (\<lambda>(key, conn). (key, case close_conn now conn of None \<Rightarrow> conn | Some (_, conn') \<Rightarrow> conn')) xs)"
  by (induction now xs rule: close_entries.induct) (simp_all add: Let_def split: option.splits)

lemma get_close_established:
  assumes "close_established now conns = (segs, conns')"
  shows "get_conn k conns' = map_option (\<lambda>conn. case close_conn now conn of None \<Rightarrow> conn | Some (_, conn') \<Rightarrow> conn')
    (get_conn k conns)" and "table_wf conns' = table_wf conns"
proof -
  have t: "table conns' = map (\<lambda>(key, conn). (key, case close_conn now conn of None \<Rightarrow> conn | Some (_, conn') \<Rightarrow> conn'))
      (table conns)"
    using assms by (auto simp: close_established_def close_entries_eq)
  show "get_conn k conns' = map_option (\<lambda>conn. case close_conn now conn of None \<Rightarrow> conn | Some (_, conn') \<Rightarrow> conn')
    (get_conn k conns)"
    unfolding get_conn_def t by (simp add: map_of_map)
  show "table_wf conns' = table_wf conns"
    unfolding table_wf_def t by (simp add: split_beta comp_def)
qed

lemma close_conn_ok:
  assumes "close_conn now conn = Some (info, conn')" and "conn_inv conn"
  shows "conn_inv conn'" and "info_flags info = FinAck" and "info_payload info = None"
    and "kind (tcp_state_of conn') = FIN_WAIT_1"
proof -
  obtain est where st: "tcp_state_of conn = Established est"
    and info: "info = \<lparr>info_seq_num = snd_nxt conn, info_ack_num = rcv_nxt conn, info_flags = FinAck, info_payload = None\<rparr>"
    and conn': "conn' = conn\<lparr>tcp_state_of := FinWait1 (close est), snd_nxt := seq_add (snd_nxt conn) fin_byte_out,
      pending := pending conn @ [pending_new info now]\<rparr>"
    using assms(1) by (auto simp: close_conn_def Let_def split: tcp_state.splits)
  have inv: "send_inv conn" "in_flight conn \<le> 65535" "segments_wf (segments (reassembly conn))"
    using assms(2) st by (simp_all add: conn_inv_def)
  have consumed: "consumed info = 1" by (simp add: info consumed_def consumes_flag_def)
  have "send_inv conn'"
    by (rule send_inv_sent(1) [OF inv(1), of info conn' now])
      (use inv(2) consumed in \<open>simp_all add: info conn' pending_new_def consumes_flag_def len_or_default_offset_def\<close>)
  then show "conn_inv conn'" and "info_flags info = FinAck" and "info_payload info = None"
    and "kind (tcp_state_of conn') = FIN_WAIT_1"
    using inv by (simp_all add: conn_inv_def info conn')
qed

lemma close_segments:
  assumes "table_wf conns" and "close_established now conns = (segs, conns')"
  shows "s \<in> set segs \<longleftrightarrow>
    (\<exists>k conn info conn'. get_conn k conns = Some conn \<and> close_conn now conn = Some (info, conn') \<and> s = segment_to k info)"
proof -
  have segs: "segs = concat (map (\<lambda>(key, conn). case close_conn now conn of None \<Rightarrow> []
      | Some (info, _) \<Rightarrow> [segment_to key info]) (table conns))"
    using assms(2) by (auto simp: close_established_def close_entries_eq)
  have one: "s \<in> set (case c of None \<Rightarrow> [] | Some (info, _) \<Rightarrow> [segment_to k info]) \<longleftrightarrow>
      (\<exists>info conn'. c = Some (info, conn') \<and> s = segment_to k info)" for c :: "(send_info \<times> conn_state) option" and k
    by (cases c) auto
  have "s \<in> set segs \<longleftrightarrow> (\<exists>x \<in> set (table conns). s \<in> set (case close_conn now (snd x) of None \<Rightarrow> []
      | Some (info, _) \<Rightarrow> [segment_to (fst x) info]))"
    unfolding segs by (simp add: split_beta)
  then show ?thesis
    unfolding get_conn_iff [OF assms(1)] one by (metis prod.collapse fst_conv snd_conv)
qed

lemma mid_close_kind: "mid_close st \<longleftrightarrow> kind st \<noteq> SYN_RECEIVED \<and> kind st \<noteq> ESTABLISHED"
  by (cases st) (simp_all add: mid_close_def)

lemma close_established_inv:
  assumes inv: "connections_inv conns" and run: "close_established now conns = (segs, conns')"
  shows "connections_inv conns'"
  unfolding connections_inv_def
proof (intro conjI ballI)
  note get = get_close_established [OF run]
  show wf': "table_wf conns'" using get(2) inv by (simp add: connections_inv_def)
  fix x assume "x \<in> set (table conns')"
  moreover obtain k conn' where x: "x = (k, conn')" by fastforce
  ultimately have "get_conn k conns' = Some conn'" using get_conn_iff [OF wf'] by simp
  then obtain conn where "get_conn k conns = Some conn"
    "conn' = (case close_conn now conn of None \<Rightarrow> conn | Some (_, conn') \<Rightarrow> conn')"
    unfolding get(1) by auto
  then show "case x of (_, conn) \<Rightarrow> conn_inv conn"
    using connections_inv_get [OF inv] close_conn_ok(1) by (auto simp: x split: option.splits)
qed

text \<open>
  Active close of the whole table: every ESTABLISHED connection moves to FIN-WAIT-1 and sends one
  FIN-ACK, numbered SND.NXT and recorded for retransmission; every other connection is untouched; the
  invariant of the table is kept.
\<close>

theorem close_established_exact:
  assumes inv: "connections_inv conns" and run: "close_established now conns = (segs, conns')"
  shows "connections_inv conns' \<and>
    (\<forall>k. get_conn k conns' = map_option (\<lambda>conn. case tcp_state_of conn of
        Established est \<Rightarrow> conn\<lparr>tcp_state_of := FinWait1 (close est),
          snd_nxt := seq_add (snd_nxt conn) (SeqOffset 1),
          pending := pending conn @ [pending_new \<lparr>info_seq_num = snd_nxt conn, info_ack_num = rcv_nxt conn,
                                      info_flags = FinAck, info_payload = None\<rparr> now]\<rparr>
      | _ \<Rightarrow> conn) (get_conn k conns)) \<and>
    (\<forall>s. s \<in> set segs \<longleftrightarrow> (\<exists>k conn. get_conn k conns = Some conn \<and> kind (tcp_state_of conn) = ESTABLISHED \<and>
       s = segment_to k \<lparr>info_seq_num = snd_nxt conn, info_ack_num = rcv_nxt conn, info_flags = FinAck,
                         info_payload = None\<rparr>))"
proof (intro conjI)
  have wf: "table_wf conns" using inv by (simp add: connections_inv_def)
  note get = get_close_established [OF run]
  show "connections_inv conns'" by (rule close_established_inv [OF inv run])
  show "\<forall>k. get_conn k conns' = map_option (\<lambda>conn. case tcp_state_of conn of
        Established est \<Rightarrow> conn\<lparr>tcp_state_of := FinWait1 (close est),
          snd_nxt := seq_add (snd_nxt conn) (SeqOffset 1),
          pending := pending conn @ [pending_new \<lparr>info_seq_num = snd_nxt conn, info_ack_num = rcv_nxt conn,
                                      info_flags = FinAck, info_payload = None\<rparr> now]\<rparr>
      | _ \<Rightarrow> conn) (get_conn k conns)"
    unfolding get(1) close_conn_def Let_def
    by (intro allI option.map_cong refl) (simp split: tcp_state.splits)
  have closes: "(\<exists>info conn'. close_conn now conn = Some (info, conn') \<and> s = segment_to k info) \<longleftrightarrow>
      kind (tcp_state_of conn) = ESTABLISHED \<and> s = segment_to k
        \<lparr>info_seq_num = snd_nxt conn, info_ack_num = rcv_nxt conn, info_flags = FinAck, info_payload = None\<rparr>" for k conn s
    by (cases "tcp_state_of conn") (simp_all add: close_conn_def Let_def)
  show "\<forall>s. s \<in> set segs \<longleftrightarrow> (\<exists>k conn. get_conn k conns = Some conn \<and> kind (tcp_state_of conn) = ESTABLISHED \<and>
       s = segment_to k \<lparr>info_seq_num = snd_nxt conn, info_ack_num = rcv_nxt conn, info_flags = FinAck,
                         info_payload = None\<rparr>)"
    unfolding close_segments [OF wf run] using closes by metis
qed

theorem close_established_exact_witness:
  "map_option (kind \<circ> tcp_state_of) (get_conn example_key (snd (close_established 0 example_conns))) = Some FIN_WAIT_1"
  using close_established_exact [OF example_conns_inv, of 0 "fst (close_established 0 example_conns)"
    "snd (close_established 0 example_conns)"]
  by (simp add: example_conn_def)

end
