(* ===== verification/Engine_Properties.thy ===== *)
theory Engine_Properties
  imports Table_Properties
begin

text \<open>
  Properties of the engine as a whole: no packet makes it panic, a reply fits into the buffer it is
  written to, shutdown and the time it waits, and the invariant of every reachable state.
\<close>

section \<open>No panic\<close>

text \<open>
  In any state of the connection, also one that breaks the invariant, a handler returns a reply
  with a well-formed payload or an error value.
\<close>

definition no_panic :: "('s, decision) stateful \<Rightarrow> bool" where
  "no_panic r \<longleftrightarrow> (case snd r of
     Inl e \<Rightarrow> e \<noteq> Panic
   | Inr (maybe_info, _) \<Rightarrow> (case maybe_info of None \<Rightarrow> True | Some info \<Rightarrow> payload_opt_wf (info_payload info)))"

named_theorems no_panic_rules \<open>the results of the handlers that are no panic\<close>

lemma no_panic_if [no_panic_rules]: "(b \<Longrightarrow> no_panic x) \<Longrightarrow> (\<not> b \<Longrightarrow> no_panic y) \<Longrightarrow> no_panic (if b then x else y)"
  by simp

lemma no_panic_value [no_panic_rules]:
  "no_panic (s, Inr (None, b))" "no_panic (s, Inr (Some (pure_ack conn), b))"
  "info_payload info = None \<Longrightarrow> no_panic (s, Inr (Some info, b))"
  by (simp_all add: no_panic_def pure_ack_def)

lemma no_panic_fallback [no_panic_rules]: "no_panic (s, Inr (known_conn_common_fallback seg conn))"
  by (simp add: no_panic_def known_conn_common_fallback_def pure_ack_def rst_def Let_def split: seq_check.splits)

lemma drain_no_panic:
  "snd (drain_transmittable e conn) \<noteq> Inl Panic" "drain_transmittable e conn = (conn', Inr p) \<Longrightarrow> payload_opt_wf p"
proof -
  show "snd (drain_transmittable e conn) \<noteq> Inl Panic"
    using try_from_iter_no_panic
    by (auto simp: drain_transmittable_run usize_try_from_offset_def Let_def split: sum.splits if_splits)
  show "drain_transmittable e conn = (conn', Inr p) \<Longrightarrow> payload_opt_wf p"
    using try_from_iter_Inr(2)
    by (auto simp: drain_transmittable_run Let_def split: sum.splits)
qed

lemma no_panic_transmit:
  assumes "\<And>c. idle c = None \<or> idle c = Some (pure_ack c)"
  shows "no_panic (run_then (beside app (drain_transmittable e conn)) (\<lambda>(app, conn) maybe_to_send.
       case maybe_to_send of
         Some to_send \<Rightarrow>
           (let (info, conn) = data_payload now to_send conn in ((app, conn), Inr (Some info, False)))
       | None \<Rightarrow> ((app, conn), Inr (idle conn, False))))"
proof (cases "drain_transmittable e conn")
  case (Pair conn' r)
  show ?thesis
  proof (cases r)
    case (Inl err)
    then show ?thesis using Pair drain_no_panic(1) [of e conn] by (simp add: no_panic_def beside_def)
  next
    case (Inr p)
    then have "payload_opt_wf p" using Pair drain_no_panic(2) by blast
    then show ?thesis
      using assms [of conn'] Inr Pair
      by (cases p) (auto simp: no_panic_def beside_def data_payload_def pure_ack_def Let_def)
  qed
qed

lemmas no_panic_transmits [no_panic_rules] =
  no_panic_transmit [of "\<lambda>_. None", simplified, unfolded Let_def split_beta]
  no_panic_transmit [of "\<lambda>c. Some (pure_ack c)", simplified, unfolded Let_def split_beta]

lemma no_panic_close [no_panic_rules]:
  "no_panic (reply_with (beside app (close_wait_or_last_ack now cw conn)))"
  "no_panic (reply_with (close_wait_or_last_ack now cw conn))"
proof -
  have "case snd (close_wait_or_last_ack now cw conn) of
      Inl e \<Rightarrow> e \<noteq> Panic | Inr info \<Rightarrow> payload_opt_wf (info_payload info)"
  proof (cases "drain_transmittable cw conn")
    case (Pair conn' r)
    show ?thesis
    proof (cases r)
      case (Inl err)
      then show ?thesis using Pair drain_no_panic(1) [of cw conn] by (simp add: close_wait_or_last_ack_def)
    next
      case (Inr p)
      then have "payload_opt_wf p" using Pair drain_no_panic(2) by blast
      then show ?thesis
        using Inr Pair
        by (cases p) (auto simp: close_wait_or_last_ack_def data_payload_def pure_ack_def Let_def)
    qed
  qed
  then show "no_panic (reply_with (beside app (close_wait_or_last_ack now cw conn)))"
    "no_panic (reply_with (close_wait_or_last_ack now cw conn))"
    by (auto simp: no_panic_def reply_with_def beside_def run_then_cases split: sum.splits)
qed

lemma no_panic_in_order_fin [no_panic_rules]:
  "no_panic (reply_with (close_on_in_order_fin ops now seg mp est s))"
  unfolding close_on_in_order_fin_def Let_def split_beta by (rule no_panic_rules)

lemma no_panic_beside: "no_panic (beside app r) = no_panic r"
  by (simp add: no_panic_def beside_def)

lemma no_panic_infallibly: "no_panic (infallibly app r) = no_panic (fst r, Inr (snd r))"
  by (simp add: no_panic_def infallibly_def)

text \<open>The handlers that cannot fail.\<close>

lemma infallible_no_panic:
  "no_panic (c, Inr (snd (handle_fin_wait_1 seg fw1 conn)))"
  "no_panic (c, Inr (snd (handle_fin_wait_2 seg fw2 conn)))"
  "no_panic (c, Inr (snd (handle_closing seg cl conn)))"
  "no_panic (c, Inr (snd (handle_last_ack seg la conn)))"
  unfolding handle_fin_wait_1_def handle_fin_wait_2_def handle_closing_def handle_last_ack_def Let_def split_beta
  by (simp_all add: no_panic_rules)

lemma handle_known_conn_no_panic: "no_panic (handle_known_conn ops now seg (app, conn))"
proof -
  have "no_panic (handle_syn_rcv ops now seg sr (app, conn))" for sr
    unfolding handle_syn_rcv_def Let_def split_beta
    by (intro no_panic_rules) simp_all
  moreover have "no_panic (handle_established ops now seg est (app, conn))" for est
    unfolding handle_established_def Let_def split_beta
    by (intro no_panic_rules) simp_all
  moreover have "no_panic (handle_close_wait now seg cw conn)" for cw
    unfolding handle_close_wait_def Let_def split_beta
    by (intro no_panic_rules)
  ultimately show ?thesis
    using infallible_no_panic
    by (cases "tcp_state_of conn") (simp_all add: handle_known_conn_def no_panic_infallibly no_panic_beside)
qed

lemma decide_reply_no_panic:
  "case snd (decide_reply ops now urandom seg (app, conns)) of
     Inl e \<Rightarrow> e \<noteq> Panic
   | Inr (Some info) \<Rightarrow> payload_opt_wf (info_payload info)
   | Inr None \<Rightarrow> True"
proof (cases "get_conn (key_of seg) conns")
  case None
  then show ?thesis
    by (auto simp: decide_reply_def handle_unknown_conn_def random_u32_def from_syn_ack_def insert_syn_rcv_def
        rst_def run_then_cases Let_def split: sum.splits tcp_state.splits)
next
  case (Some conn)
  obtain app' conn' r where h: "handle_known_conn ops now seg (app, conn) = ((app', conn'), r)"
    by (metis prod.collapse)
  then have "no_panic ((app', conn'), r)" using handle_known_conn_no_panic by metis
  then show ?thesis
    using Some h by (cases r) (auto simp: decide_reply_def no_panic_def Let_def split: option.splits)
qed

lemma create_tcp_reply_no_panic:
  assumes "create_tcp_reply ops now urandom seg s = (s', r)"
  shows "r \<noteq> Inl Panic" and "r = Inr (Some reply) \<Longrightarrow> segment_wf reply"
proof -
  obtain app conns where s: "s = (app, conns)" by fastforce
  obtain s1 d where d: "decide_reply ops now urandom seg (app, conns) = (s1, d)" by fastforce
  show "r \<noteq> Inl Panic" and "r = Inr (Some reply) \<Longrightarrow> segment_wf reply"
    using decide_reply_no_panic [of ops now urandom seg app conns] assms d
    by (cases d; auto simp: create_tcp_reply_def s segment_wf_def from_pairs_and_info_def split: option.splits)+
qed

lemma create_reply_no_panic: "snd (create_reply ops now urandom pkt s) \<noteq> Inl Panic"
proof (cases "router pkt")
  case (RouterTcp seg)
  obtain s' r where r: "create_tcp_reply ops now urandom seg s = (s', r)" by fastforce
  show ?thesis
  proof (cases r)
    case (Inl e)
    then show ?thesis using create_tcp_reply_no_panic(1) [OF r] by (simp add: create_reply_def RouterTcp r)
  next
    case (Inr m)
    then show ?thesis
      using create_tcp_reply_no_panic(2) [OF r]
      by (cases m) (simp_all add: create_reply_def RouterTcp r and_then_Panic_iff packet_of_router_no_panic)
  qed
qed (auto simp: create_reply_def split_beta Let_def and_then_Panic_iff packet_of_router_no_panic)

lemma map_err_Panic_iff: "map_err f r = Inl Panic \<longleftrightarrow> r = Inl Panic"
  by (cases "(f, r)" rule: map_err.cases) auto

lemma handle_packet_no_panic: "snd (handle_packet ops now urandom data self) \<noteq> Inl Panic"
  using parse_packet_no_panic [of data] create_reply_no_panic [of ops now urandom]
  by (auto simp: handle_packet_def run_then_cases split_beta Let_def map_err_Panic_iff split: sum.splits)

text \<open>
  C8: No packet makes the engine panic: whatever bytes arrive, whatever state the engine is in, also one
  that breaks the invariant, whatever the application appends and whether or not random numbers can
  be read, \<open>handle_packet\<close> returns an outcome or an error value. The operations on this path that can
  panic are the range of \<open>VecDeque::drain\<close> (\<open>drain_front\<close>), which the bound by the length of the send
  buffer keeps valid, and the copies into the buffer of the pseudo header, kept valid by
  the check of its length; headers are read from arrays of fixed size at constant indices. A panic
  of the application's own is not considered.
\<close>

theorem handle_packet_never_panics: "snd (handle_packet ops now urandom data self) \<noteq> Inl Panic"
  by (rule handle_packet_no_panic)

section \<open>Replies fit\<close>

text \<open>A packet of the table's own: the segments of a retransmission or an active close.\<close>

lemma packet_try_from_fits:
  assumes "payload_opt_wf (info_payload info)" and "length (payload_bytes (info_payload info)) \<le> max_payload_len"
  obtains p where "packet_try_from (segment_to key info) = Inr p"
    "\<And>buf. length buf = ethernet_mtu \<Longrightarrow> \<exists>bs. write_packet p buf = Inr (bs @ drop (length bs) buf) \<and>
       unat (packet_total_len p) = length bs \<and> length bs \<le> ethernet_mtu"
proof -
  let ?r = "RouterTcp (segment_to key info)"
  have wf: "router_wf ?r" and len: "length (router_encoding ?r) \<le> 1480"
    using assms by (simp_all add: segment_to_def from_pairs_and_info_def segment_wf_def max_payload_len_def)
  then obtain p where p: "packet_of_router ?r = Inr p"
    using packet_of_router_fits [OF wf] by simp
  show ?thesis
    by (rule that [of p]) (use p write_packet_fits [OF p wf len] in \<open>auto simp: packet_try_from_eq\<close>)
qed

text \<open>The engine on a TCP packet.\<close>

lemma handle_packet_tcp:
  assumes pkt: "parse_packet data = Inr pkt" "router pkt = RouterTcp seg"
    and d: "decide_reply ops now urandom seg (engine_app self, connections self) = ((app', conns'), Inr maybe_info)"
    and p: "\<And>info. maybe_info = Some info \<Longrightarrow> packet_try_from
      (from_pairs_and_info (ip_swapped (seg_ip_pair seg)) (port_swapped (seg_ports seg)) info) = Inr (p info)"
  shows "handle_packet ops now urandom data self = (self\<lparr>engine_app := app', connections := conns'\<rparr>,
    Inr \<lparr>incoming = pkt, outcome_reply = map_option p maybe_info\<rparr>)"
  using assms
  by (cases maybe_info)
    (simp_all add: handle_packet_def create_reply_def create_tcp_reply_def packet_try_from_eq Let_def)

lemma reply_pairs:
  "from_pairs_and_info (ip_swapped (seg_ip_pair seg)) (port_swapped (seg_ports seg)) info = segment_to (key_of seg) info"
  by (simp add: segment_to_def key_of_def ip_swapped_def port_swapped_def)

text \<open>
  C10: Every TCP packet that parses is answered: unless it acknowledges the antipode of SND.UNA,
  \<open>handle_packet\<close> succeeds, keeps the invariant of the table, and any reply can be written into a
  buffer of one MTU, at whose front it leaves as many bytes as its total length field says.
\<close>

theorem tcp_packet_answered:
  assumes inv: "connections_inv (connections self)" and pkt: "parse_packet data = Inr pkt" "router pkt = RouterTcp seg"
    and ack: "\<And>conn. get_conn (key_of seg) (connections self) = Some conn \<Longrightarrow> ack_placeable conn seg"
  shows "\<exists>self' reply. handle_packet ops now (Inr entropy) data self = (self', Inr \<lparr>incoming = pkt, outcome_reply = reply\<rparr>) \<and>
    connections_inv (connections self') \<and>
    (\<forall>p buf. reply = Some p \<and> length buf = 1500 \<longrightarrow>
       (\<exists>bs. write_packet p buf = Inr (bs @ drop (length bs) buf) \<and>
             unat (packet_total_len p) = length bs \<and> length bs \<le> 1500))"
proof -
  obtain app' conns' maybe_info where
    d: "decide_reply ops now (Inr entropy) seg (engine_app self, connections self) = ((app', conns'), Inr maybe_info)"
    and inv': "connections_inv conns'"
    and wf: "\<And>info. maybe_info = Some info \<Longrightarrow> payload_opt_wf (info_payload info) \<and>
      length (payload_bytes (info_payload info)) \<le> max_payload_len"
    using decide_reply_total [OF inv parse_packet_wf [OF pkt] ack, of ops now entropy "engine_app self"]
    by fastforce
  define fits where "fits = (\<lambda>p. \<forall>buf. length buf = 1500 \<longrightarrow> (\<exists>bs. write_packet p buf = Inr (bs @ drop (length bs) buf) \<and>
       unat (packet_total_len p) = length bs \<and> length bs \<le> 1500))"
  have "\<exists>p. packet_try_from (segment_to (key_of seg) info) = Inr p \<and> fits p" if "maybe_info = Some info" for info
    using packet_try_from_fits [of info "key_of seg"] wf [OF that] unfolding fits_def by metis
  then obtain p where p: "\<And>info. maybe_info = Some info \<Longrightarrow>
      packet_try_from (segment_to (key_of seg) info) = Inr (p info) \<and> fits (p info)"
    by metis
  have "handle_packet ops now (Inr entropy) data self = (self\<lparr>engine_app := app', connections := conns'\<rparr>,
      Inr \<lparr>incoming = pkt, outcome_reply = map_option p maybe_info\<rparr>)"
    by (rule handle_packet_tcp [OF pkt d]) (simp add: reply_pairs p)
  moreover have "\<forall>q buf. map_option p maybe_info = Some q \<and> length buf = 1500 \<longrightarrow>
      (\<exists>bs. write_packet q buf = Inr (bs @ drop (length bs) buf) \<and>
            unat (packet_total_len q) = length bs \<and> length bs \<le> 1500)"
    using p unfolding fits_def by fastforce
  ultimately show ?thesis using inv' by fastforce
qed

text \<open>The packet of the segment \<open>example_hi\<close>, as its client sends it.\<close>

definition example_bytes :: bytes where
  "example_bytes = [69, 0, 0, 42, 0, 0, 0, 0, 64, 6, 102, 204, 10, 0, 0, 2, 10, 0, 0, 1,
     15, 160, 0, 80, 0, 0, 1, 245, 0, 0, 0, 101, 80, 16, 0, 1, 33, 28, 0, 0, 104, 105]"

definition example_engine :: "unit engine" where
  "example_engine = (engine_new () 0 5 1000000000)\<lparr>connections := example_conns\<rparr>"

lemma nat_be_2: "nat_be 2 n = [word_of_nat (n div 256 mod 256), word_of_nat (n mod 256)]"
  by (simp add: numeral_2_eq_2)

lemma parse_example:
  "parse_packet example_bytes = Inr (Ipv4Packet (Ipv4Header 42 Tcp (seg_ip_pair example_hi)) (RouterTcp example_hi))"
proof -
  have "parse_ipv4_header example_bytes = Inr (Ipv4Header 42 Tcp (seg_ip_pair example_hi), drop 20 example_bytes)"
    by (simp add: inner_parse_ipv4_def example_bytes_def calculate_compute ones_sum_def
      protocol_try_from_def example_seg_def Let_def u16_from_be_bytes_def be_nat_def)
  moreover have "parse_tcp (drop 20 example_bytes) (seg_ip_pair example_hi) = Inr example_hi"
    by (simp add: inner_parse_tcp_def example_bytes_def calculate_compute ones_sum_def pseudo_hdr_cksum_fits
      pseudo_header_def u16_to_be_bytes_def nat_be_2 example_seg_def Let_def u16_from_be_bytes_def
      u32_from_be_bytes_def be_nat_def try_from_iter_def u16_try_from_def flags_try_from_def)
  ultimately show ?thesis by (simp add: parse_packet_def)
qed

theorem tcp_packet_answered_witness:
  "\<exists>self' outcome. handle_packet shouting_test_app 0 (Inr []) example_bytes example_engine = (self', Inr outcome)"
  using tcp_packet_answered [of example_engine example_bytes _ example_hi shouting_test_app 0 "[]", OF _ parse_example]
  by (auto simp: example_engine_def)

section \<open>Reachable states\<close>

text \<open>
  The steps of an engine: a packet, a pass of retransmissions, a shutdown signal, in any order and
  with any readings of the clock and of \<open>/dev/urandom\<close>. The packets are arbitrary bytes, but for a
  TCP segment that acknowledges the antipode of its connection's SND.UNA.
\<close>

definition placeable_packet :: "'a engine \<Rightarrow> bytes \<Rightarrow> bool" where
  "placeable_packet self data \<longleftrightarrow> (\<forall>pkt seg conn. parse_packet data = Inr pkt \<longrightarrow> router pkt = RouterTcp seg \<longrightarrow>
     get_conn (key_of seg) (connections self) = Some conn \<longrightarrow> ack_placeable conn seg)"

inductive engine_step :: "'a application \<Rightarrow> 'a engine \<Rightarrow> 'a engine \<Rightarrow> bool" for ops where
  packet: "placeable_packet self data \<Longrightarrow> engine_step ops self (fst (handle_packet ops now urandom data self))"
| retransmit: "engine_step ops self (snd (engine_make_retransmissions now later self))"
| shutdown: "engine_step ops self (fst (handle_shutdown clock now self))"

lemma create_reply_keeps_inv:
  assumes "connections_inv (snd s)" and "\<And>seg. router pkt = RouterTcp seg \<Longrightarrow> segment_wf seg"
    and "\<And>seg conn. router pkt = RouterTcp seg \<Longrightarrow> get_conn (key_of seg) (snd s) = Some conn \<Longrightarrow> ack_placeable conn seg"
  shows "connections_inv (snd (fst (create_reply ops now urandom pkt s)))"
proof (cases "router pkt")
  case (RouterTcp seg)
  obtain app conns where s: "s = (app, conns)" by fastforce
  have "connections_inv (snd (fst (decide_reply ops now urandom seg s)))"
    unfolding s by (rule decide_reply_keeps_inv) (use assms RouterTcp in \<open>auto simp: s\<close>)
  moreover have "fst (create_tcp_reply ops now urandom seg s) = fst (decide_reply ops now urandom seg s)"
    by (simp add: create_tcp_reply_def run_then_cases split: sum.splits)
  ultimately show ?thesis
    by (auto simp: create_reply_def RouterTcp run_then_cases split: sum.splits option.splits)
qed (use assms(1) in \<open>auto simp: create_reply_def split_beta Let_def\<close>)

lemma engine_step_inv:
  assumes "engine_step ops self self'" and inv: "connections_inv (connections self)"
  shows "connections_inv (connections self')"
  using assms(1)
proof (cases rule: engine_step.cases)
  case (packet data now urandom)
  show ?thesis
  proof (cases "parse_packet data")
    case (Inl e)
    then show ?thesis using inv packet(1) by (cases e) (simp_all add: handle_packet_def)
  next
    case (Inr pkt)
    let ?r = "create_reply ops now urandom pkt (engine_app self, connections self)"
    have "connections_inv (snd (fst ?r))"
      using parse_packet_wf [OF Inr] packet(2) Inr inv
      by (intro create_reply_keeps_inv) (auto simp: placeable_packet_def)
    then show ?thesis
      using packet(1) Inr by (simp add: handle_packet_def run_then_cases split_beta Let_def split: sum.splits)
  qed
next
  case (retransmit now later)
  obtain segs conns' where "make_retransmissions now later (connections self) = (segs, conns')" by fastforce
  then show ?thesis
    using retransmit make_retransmissions_inv [OF inv] by (simp add: engine_make_retransmissions_def)
next
  case (shutdown clock now)
  obtain segs conns' where c: "close_established clock (connections self) = (segs, conns')" by fastforce
  then show ?thesis
    using shutdown close_established_inv [OF inv c] inv
    by (auto simp: handle_shutdown_def run_then_cases Let_def split: option.splits sum.splits)
qed

text \<open>
  C7: Every reachable state of the engine satisfies the invariant of the connection table, as long as
  no packet acknowledges the number \<open>2^31\<close> past SND.UNA of its connection: from the initial state, after
  any sequence of such packets (the premise \<open>placeable_packet\<close> of \<open>engine_step\<close>), retransmission passes
  and shutdown signals, each connection has at most 65536 sequence numbers in flight, every one of them
  covered by a segment held for retransmission, and keys occur once. The theorem
  \<open>antipodal_fin_breaks_connection\<close> shows what the excluded number does.
\<close>

theorem reachable_invariant:
  assumes "(engine_step ops)\<^sup>*\<^sup>* (engine_new app initial_rto retries_limit grace) self"
  shows "connections_inv (connections self)"
  using assms
proof (induction rule: rtranclp_induct)
  case base
  show ?case by (simp add: engine_new_def connections_inv_new)
qed (rule engine_step_inv)

theorem reachable_invariant_witness:
  "connections_inv (connections (fst (handle_packet test_app 7 (Inr []) example_bytes (engine_new () 0 5 0))))"
proof -
  have "placeable_packet (engine_new () 0 5 0) example_bytes"
    by (simp add: placeable_packet_def engine_new_def connections_new_def get_conn_def)
  then have "engine_step test_app (engine_new () 0 5 0)
      (fst (handle_packet test_app 7 (Inr []) example_bytes (engine_new () 0 5 0)))"
    by (rule engine_step.packet)
  then show ?thesis by (intro reachable_invariant [of test_app] r_into_rtranclp)
qed

section \<open>Shutdown\<close>

lemma collect_results_ok:
  "\<forall>r \<in> set rs. \<exists>x. r = Inr x \<Longrightarrow> \<exists>xs. collect_results rs = Inr xs \<and> rs = map Inr xs"
  by (induction rs) auto

text \<open>The segments of an active close always become packets.\<close>

lemma close_segments_convert:
  assumes "connections_inv conns" and "close_established clock conns = (segs, conns')"
  obtains to_send where "collect_results (map packet_try_from segs) = Inr to_send"
    "map packet_try_from segs = map Inr to_send"
proof -
  have wf: "table_wf conns" using assms(1) by (simp add: connections_inv_def)
  have "\<exists>p. packet_try_from s = Inr p" if in_segs: "s \<in> set segs" for s
  proof -
    obtain k conn info conn' where s: "get_conn k conns = Some conn" "close_conn clock conn = Some (info, conn')"
      "s = segment_to k info"
      using in_segs close_segments [OF wf assms(2)] by blast
    then have "info_payload info = None"
      using close_conn_ok(3) connections_inv_get [OF assms(1)] by blast
    then show ?thesis using packet_try_from_fits [of info k] s(3) by auto
  qed
  then show ?thesis using collect_results_ok [of "map packet_try_from segs"] that by auto
qed

lemma closing_after_close:
  assumes "connections_inv conns" and "close_established clock conns = (segs, conns')"
  shows "closing_in_progress conns' \<longleftrightarrow>
    (\<exists>k conn. get_conn k conns = Some conn \<and> kind (tcp_state_of conn) \<noteq> SYN_RECEIVED)"
proof -
  have wf: "table_wf conns'"
    using assms get_close_established(2) by (simp add: connections_inv_def)
  define after where "after = (\<lambda>conn. case close_conn clock conn of None \<Rightarrow> conn | Some (_, conn') \<Rightarrow> conn')"
  have closed: "mid_close (tcp_state_of (after conn)) \<longleftrightarrow> kind (tcp_state_of conn) \<noteq> SYN_RECEIVED" for conn
    by (cases "tcp_state_of conn") (simp_all add: after_def close_conn_def mid_close_def Let_def)
  have "closing_in_progress conns' \<longleftrightarrow> (\<exists>k conn. get_conn k conns' = Some conn \<and> mid_close (tcp_state_of conn))"
    unfolding get_conn_iff [OF wf] by (force simp: closing_in_progress_def list_ex_iff)
  also have "\<dots> \<longleftrightarrow> (\<exists>k conn. get_conn k conns = Some conn \<and> mid_close (tcp_state_of (after conn)))"
    unfolding get_close_established(1) [OF assms(2)] after_def [symmetric] map_option_eq_Some by metis
  finally show ?thesis unfolding closed .
qed

lemma close_count:
  assumes "close_established now conns = (segs, conns')"
  shows "length segs = length (filter (\<lambda>(_, conn). kind (tcp_state_of conn) = ESTABLISHED) (table conns))"
proof -
  have one: "length (case close_conn now conn of None \<Rightarrow> [] | Some (info, _) \<Rightarrow> [segment_to key info]) =
      (if kind (tcp_state_of conn) = ESTABLISHED then 1 else 0)" for key conn
    by (cases "tcp_state_of conn") (simp_all add: close_conn_def Let_def)
  have "length (concat (map (\<lambda>(key, conn). case close_conn now conn of None \<Rightarrow> []
      | Some (info, _) \<Rightarrow> [segment_to key info]) t)) =
    length (filter (\<lambda>(_, conn). kind (tcp_state_of conn) = ESTABLISHED) t)" for t :: "(conn_key \<times> conn_state) list"
    by (induction t) (simp_all add: split_beta one)
  then show ?thesis using assms by (auto simp: close_established_def close_entries_eq)
qed

text \<open>
  C34: Shutdown of an engine whose table satisfies the invariant, with a grace period that ends at a
  time the clock can represent: the first signal moves every ESTABLISHED connection to FIN-WAIT-1, its
  FIN numbered SND.NXT and held for retransmission, leaves every other connection as it is, and hands
  out exactly one packet for each FIN-ACK. If any connection is then closing, the deadline is set to
  the end of the grace period and every later signal reports the time left and changes nothing;
  otherwise there is nothing to wait for and no deadline is set. A connection in SYN-RECEIVED alone does
  not hold it up.
\<close>

theorem shutdown_drains:
  assumes inv: "connections_inv (connections self)" and first: "shutdown_deadline self = None"
    and fits: "now + shutdown_grace_period self \<le> instant_max"
  shows "let (self', r) = handle_shutdown clock now self;
             fin_ack = (\<lambda>conn. \<lparr>info_seq_num = snd_nxt conn, info_ack_num = rcv_nxt conn, info_flags = FinAck,
                                info_payload = None\<rparr>);
             deadline = now + shutdown_grace_period self
    in (\<forall>k. get_conn k (connections self') = map_option (\<lambda>conn. case tcp_state_of conn of
            Established est \<Rightarrow> conn\<lparr>tcp_state_of := FinWait1 (close est),
              snd_nxt := seq_add (snd_nxt conn) (SeqOffset 1), pending := pending conn @ [pending_new (fin_ack conn) clock]\<rparr>
          | _ \<Rightarrow> conn) (get_conn k (connections self))) \<and>
       (if \<exists>k conn. get_conn k (connections self) = Some conn \<and> kind (tcp_state_of conn) \<noteq> SYN_RECEIVED
        then (\<exists>to_send. r = Inr (BeganDraining to_send) \<and>
            (\<forall>p. p \<in> set to_send \<longleftrightarrow> (\<exists>k conn. get_conn k (connections self) = Some conn \<and>
               kind (tcp_state_of conn) = ESTABLISHED \<and> packet_try_from (segment_to k (fin_ack conn)) = Inr p)) \<and>
            length to_send = length (filter (\<lambda>(_, conn). kind (tcp_state_of conn) = ESTABLISHED) (table (connections self)))) \<and>
          shutdown_deadline self' = Some deadline \<and> \<not> draining_complete self' \<and>
          (\<forall>clock2 now2. handle_shutdown clock2 now2 self' = (self', Inr (AlreadyDraining (deadline - now2))))
        else r = Inr NoConnections \<and> shutdown_deadline self' = None)"
proof -
  define fin_ack where "fin_ack = (\<lambda>conn :: conn_state. \<lparr>info_seq_num = snd_nxt conn, info_ack_num = rcv_nxt conn,
    info_flags = FinAck, info_payload = None\<rparr>)"
  obtain segs conns' where c: "close_established clock (connections self) = (segs, conns')" by fastforce
  obtain to_send where t: "collect_results (map packet_try_from segs) = Inr to_send"
    "map packet_try_from segs = map Inr to_send"
    by (rule close_segments_convert [OF inv c])
  note closed = close_established_exact [OF inv c]
  have sent: "p \<in> set to_send \<longleftrightarrow> (\<exists>k conn. get_conn k (connections self) = Some conn \<and>
      kind (tcp_state_of conn) = ESTABLISHED \<and> packet_try_from (segment_to k (fin_ack conn)) = Inr p)" for p
  proof -
    have "p \<in> set to_send \<longleftrightarrow> Inr p \<in> set (map packet_try_from segs)" by (auto simp: t(2))
    also have "\<dots> \<longleftrightarrow> (\<exists>s. s \<in> set segs \<and> packet_try_from s = Inr p)" by auto (metis image_eqI)
    finally show ?thesis using closed by (auto simp: fin_ack_def)
  qed
  have "length to_send = length segs" using arg_cong [OF t(2), of length] by simp
  note number = this [unfolded close_count [OF c]]
  have facts: "get_conn k conns' = map_option (\<lambda>conn. case tcp_state_of conn of
      Established est \<Rightarrow> conn\<lparr>tcp_state_of := FinWait1 (close est),
        snd_nxt := seq_add (snd_nxt conn) (SeqOffset 1), pending := pending conn @ [pending_new (fin_ack conn) clock]\<rparr>
    | _ \<Rightarrow> conn) (get_conn k (connections self))" for k
    using closed unfolding fin_ack_def by blast
  note facts = facts [unfolded fin_ack_def] sent [unfolded fin_ack_def] number
  have add: "try_add_instant now (shutdown_grace_period self) = Inr (now + shutdown_grace_period self)"
    using fits by (simp add: try_add_instant_def checked_add_instant_def)
  show ?thesis
  proof (cases "closing_in_progress conns'")
    case True
    let ?self = "self\<lparr>connections := conns', shutdown_deadline := Some (now + shutdown_grace_period self)\<rparr>"
    have run: "handle_shutdown clock now self = (?self, Inr (BeganDraining to_send))"
      using True first t(1) by (simp add: handle_shutdown_def c add)
    have "handle_shutdown clock2 now2 ?self =
        (?self, Inr (AlreadyDraining (now + shutdown_grace_period self - now2)))" for clock2 now2
      by (simp add: handle_shutdown_def)
    with True facts show ?thesis
      unfolding closing_after_close [OF inv c, symmetric] run Let_def prod.case by (simp add: draining_complete_def)
  next
    case False
    have run: "handle_shutdown clock now self = (self\<lparr>connections := conns'\<rparr>, Inr NoConnections)"
      using False first t(1) by (simp add: handle_shutdown_def c)
    from False first facts show ?thesis
      unfolding closing_after_close [OF inv c, symmetric] run Let_def prod.case by simp
  qed
qed

theorem shutdown_drains_witness:
  "\<exists>to_send. snd (handle_shutdown 0 5 example_engine) = Inr (BeganDraining to_send)"
proof -
  have "\<exists>k conn. get_conn k (connections example_engine) = Some conn \<and> kind (tcp_state_of conn) \<noteq> SYN_RECEIVED"
    by (intro exI [of _ example_key] exI [of _ example_conn]) (simp add: example_engine_def)
  then show ?thesis
    using shutdown_drains [of example_engine 5 0]
    by (auto simp: example_engine_def engine_new_def instant_max_def Let_def split_beta)
qed

text \<open>
  The poll timeout sleeps neither too long nor too short: with a timeout of \<open>d\<close>, at no time
  before \<open>now + d\<close> has the shutdown deadline passed or a segment become due, and at \<open>now + d\<close> one of
  them has; without one there is no deadline and no pending segment.
\<close>

theorem poll_timeout_exact:
  assumes "table_wf (connections self)"
  shows "let wake = (\<lambda>t. grace_period_elapsed t self \<or>
      (\<exists>k conn p. get_conn k (connections self) = Some conn \<and> p \<in> set (pending conn) \<and>
                  is_due t later (connections self) p))
    in case poll_timeout later now self of
         None \<Rightarrow> \<forall>t. \<not> wake t
       | Some d \<Rightarrow> wake (now + d) \<and> (\<forall>t. now \<le> t \<and> t < now + d \<longrightarrow> \<not> wake t)"
proof -
  let ?conns = "connections self"
  define dues where "dues = map (time_due later (rto_config_of ?conns))
    (concat (map (\<lambda>(_, conn). pending conn) (table ?conns)))"
  define times where "times = option_list (shutdown_deadline self) @ option_list (min_list_opt dues)"
  have due_iff: "(\<exists>k conn p. get_conn k ?conns = Some conn \<and> p \<in> set (pending conn) \<and> is_due t later ?conns p) \<longleftrightarrow>
      (\<exists>x \<in> set dues. x \<le> t)" for t
    unfolding get_conn_iff [OF assms] by (fastforce simp: dues_def is_due_def)
  have "(\<exists>x \<in> set dues. x \<le> t) \<longleftrightarrow> (\<exists>x \<in> set (option_list (min_list_opt dues)). x \<le> t)" for t
    using min_list_opt_None [of dues] min_list_opt_Some [of dues]
    by (cases "min_list_opt dues") (auto intro: order_trans)
  then have wake: "grace_period_elapsed t self \<or> (\<exists>k conn p. get_conn k ?conns = Some conn \<and>
      p \<in> set (pending conn) \<and> is_due t later ?conns p) \<longleftrightarrow> (\<exists>x \<in> set times. x \<le> t)" for t
    unfolding due_iff
    by (cases "shutdown_deadline self") (auto simp: times_def grace_period_elapsed_def)
  have timeout: "poll_timeout later now self = map_option (\<lambda>deadline. deadline - now) (min_list_opt times)"
    by (simp add: poll_timeout_def times_def next_retransmit_deadline_def dues_def)
  show ?thesis
  proof (cases "min_list_opt times")
    case None
    then have "times = []" by (simp add: min_list_opt_None)
    then show ?thesis unfolding Let_def wake timeout by simp
  next
    case (Some a)
    then have a: "a \<in> set times" "\<And>x. x \<in> set times \<Longrightarrow> a \<le> x"
      using min_list_opt_Some [of times] by auto
    have "a \<le> now + (a - now)" by simp
    then have "\<exists>x \<in> set times. x \<le> now + (a - now)" using a(1) by blast
    moreover have "\<not> (\<exists>x \<in> set times. x \<le> t)" if "now \<le> t" "t < now + (a - now)" for t
      using a(2) that by fastforce
    ultimately show ?thesis unfolding Let_def wake timeout by (simp add: Some)
  qed
qed

theorem poll_timeout_exact_witness:
  "poll_timeout 0 2 (example_engine\<lparr>shutdown_deadline := Some 9\<rparr>) = Some 7 \<and>
   \<not> grace_period_elapsed 8 (example_engine\<lparr>shutdown_deadline := Some 9\<rparr>)"
proof -
  let ?e = "example_engine\<lparr>shutdown_deadline := Some 9\<rparr>"
  have p: "poll_timeout 0 2 ?e = Some 7"
    by (simp add: poll_timeout_def example_engine_def next_retransmit_deadline_def example_conns_def example_conn_def)
  have "table_wf (connections ?e)" by (simp add: example_engine_def example_conns_def table_wf_def)
  from poll_timeout_exact [OF this, of 0 2] p show ?thesis by (auto simp: Let_def)
qed

end
