(* ===== verification/Poll.thy ===== *)
theory Poll
  imports Pending_Segment
begin

text \<open>
  \<open>server/src/sys/poll.rs\<close>: waiting for the device and for the shutdown signal. The system call
  \<open>poll\<close> is a parameter: it is given the two entries and the timeout in milliseconds and returns its
  result and the entries with \<open>revents\<close> filled in; \<open>errno\<close> is the error behind a negative result.
\<close>

datatype poll_outcome = Readable | Shutdown | Both | Timeout

record pollfd =
  pfd :: int
  events :: u16
  revents :: u16

definition pollin :: u16 where "pollin = 1"

definition timeout_ms :: "duration option \<Rightarrow> int" where
  "timeout_ms timeout =
     (case timeout of
        None \<Rightarrow> -1
      | Some d \<Rightarrow> let ms = d div 1000000 in if ms \<le> 2147483647 then int ms else 2147483647)"

definition poll_fds :: "int \<Rightarrow> int option \<Rightarrow> pollfd \<times> pollfd" where
  "poll_fds read_fd shutdown_fd =
     (\<lparr>pfd = read_fd, events = pollin, revents = 0\<rparr>,
      \<lparr>pfd = (case shutdown_fd of None \<Rightarrow> -1 | Some sfd \<Rightarrow> sfd), events = pollin, revents = 0\<rparr>)"

definition readable ::
    "(pollfd \<times> pollfd \<Rightarrow> int \<Rightarrow> int \<times> pollfd \<times> pollfd) \<Rightarrow> io_error \<Rightarrow>
     int \<Rightarrow> int option \<Rightarrow> duration option \<Rightarrow> io_error + poll_outcome" where
  "readable libc_poll errno read_fd shutdown_fd timeout =
     (let (r, fd0, fd1) = libc_poll (poll_fds read_fd shutdown_fd) (timeout_ms timeout) in
      if r < 0 then Inl errno
      else if r = 0 then Inr Timeout
      else if r = 1 \<and> revents fd0 AND pollin \<noteq> 0 then Inr Readable
      else if r = 1 then Inr Shutdown
      else Inr Both)"

text \<open>
  The manual page of \<open>poll\<close>: a result that is not negative is the number of entries with a condition
  set; an entry with a negative descriptor has none; the only conditions are the requested ones and
  \<open>POLLERR\<close>, \<open>POLLHUP\<close> and \<open>POLLNVAL\<close> (8, 16 and 32).
\<close>

definition poll_contract ::
    "(pollfd \<times> pollfd \<Rightarrow> int \<Rightarrow> int \<times> pollfd \<times> pollfd) \<Rightarrow> bool" where
  "poll_contract libc_poll \<longleftrightarrow> (\<forall>fd0 fd1 ms r fd0' fd1'. libc_poll (fd0, fd1) ms = (r, fd0', fd1') \<longrightarrow>
     0 \<le> r \<longrightarrow>
       r = (if revents fd0' \<noteq> 0 then 1 else 0) + (if revents fd1' \<noteq> 0 then 1 else 0) \<and>
       (pfd fd0 < 0 \<longrightarrow> revents fd0' = 0) \<and> (pfd fd1 < 0 \<longrightarrow> revents fd1' = 0))"

definition failed :: "pollfd \<Rightarrow> bool" where
  "failed fd \<longleftrightarrow> revents fd \<noteq> 0 \<and> revents fd AND pollin = 0"

text \<open>
  What \<open>readable\<close> reports. As long as the device shows no error condition alone, the outcome says exactly
  which of the two descriptors has something to read, and a descriptor that is not watched is never
  reported; but an error condition of the device alone, as when the interface is deleted, is
  reported as a shutdown, also when no shutdown descriptor is watched.
\<close>

theorem readable_exact:
  assumes contract: "poll_contract libc_poll"
    and result: "libc_poll (poll_fds read_fd shutdown_fd) (timeout_ms timeout) = (r, fd0, fd1)"
    and ok: "0 \<le> r"
  shows "readable libc_poll errno read_fd shutdown_fd timeout =
      Inr (if failed fd0 \<and> revents fd1 = 0 then Shutdown
           else if revents fd0 \<noteq> 0 then (if revents fd1 \<noteq> 0 then Both else Readable)
           else (if revents fd1 \<noteq> 0 then Shutdown else Timeout)) \<and>
    (shutdown_fd = None \<longrightarrow> revents fd1 = 0)"
proof -
  have c: "r = (if revents fd0 \<noteq> 0 then 1 else 0) + (if revents fd1 \<noteq> 0 then 1 else 0)"
    "shutdown_fd = None \<Longrightarrow> revents fd1 = 0"
    using contract result ok unfolding poll_contract_def poll_fds_def by fastforce+
  show ?thesis
    using c(2) ok by (auto simp: readable_def result c(1) failed_def)
qed

definition device_gone :: "pollfd \<times> pollfd \<Rightarrow> int \<Rightarrow> int \<times> pollfd \<times> pollfd" where
  "device_gone fds ms = (if 0 \<le> pfd (fst fds) then (1, (fst fds)\<lparr>revents := 8\<rparr>, (snd fds)\<lparr>revents := 0\<rparr>)
    else (0, (fst fds)\<lparr>revents := 0\<rparr>, (snd fds)\<lparr>revents := 0\<rparr>))"

theorem readable_exact_witness:
  "readable device_gone (IoError OtherKind []) 3 None (Some 5000000) = Inr Shutdown"
proof -
  have "poll_contract device_gone"
    by (auto simp: poll_contract_def device_gone_def split: if_splits)
  from readable_exact [OF this, of 3 None "Some 5000000" _ _ _ "IoError OtherKind []"] show ?thesis
    by (simp add: device_gone_def poll_fds_def failed_def pollin_def)
qed

end
