(* ===== verification/Display.thy ===== *)
theory Display
  imports Ipv4_Packet
begin

text \<open>
  What the logs show: \<open>stack/src/display.rs\<close> and the \<open>Display\<close> implementations of packets and their
  parts. Text is the list of its UTF-8 bytes, as characters. The tables of Unicode that
  \<open>escape_debug\<close> consults, which characters are printable and which extend a grapheme, are the
  parameter \<open>unicode\<close>.
\<close>

section \<open>Numbers\<close>

definition show_hex_digit :: "nat \<Rightarrow> char" where
  "show_hex_digit d = (if d < 10 then char_of (48 + d) else char_of (87 + d))"

fun show_hex :: "nat \<Rightarrow> string" where
  "show_hex n = (if n < 16 then [show_hex_digit n] else show_hex (n div 16) @ [show_hex_digit (n mod 16)])"

declare show_hex.simps [simp del]

text \<open>\<open>{b:02x}\<close> and \<open>{n:0width}\<close>.\<close>

definition show_hex_byte :: "u8 \<Rightarrow> string" where
  "show_hex_byte b = [show_hex_digit (unat b div 16), show_hex_digit (unat b mod 16)]"

definition show_padded :: "nat \<Rightarrow> nat \<Rightarrow> string" where
  "show_padded width n = replicate (width - length (show_nat n)) CHR ''0'' @ show_nat n"

fun thousands_separated :: "nat \<Rightarrow> string" where
  "thousands_separated n =
     (if n div 1000 = 0 then show_nat (n mod 1000)
      else thousands_separated (n div 1000) @ '','' @ show_padded 3 (n mod 1000))"

declare thousands_separated.simps [simp del]

definition show_seq_point :: "'d seq_point \<Rightarrow> string" where
  "show_seq_point self = thousands_separated (unat (wrapping self))"

definition show_window :: "(u16, 'd) seq_offset \<Rightarrow> string" where
  "show_window self = thousands_separated (unat (offset self))"

section \<open>Headers\<close>

fun show_ipv4_addr :: "ipv4_addr \<Rightarrow> string" where
  "show_ipv4_addr (Ipv4Addr a b c d) =
     show_nat (unat a) @ ''.'' @ show_nat (unat b) @ ''.'' @ show_nat (unat c) @ ''.'' @ show_nat (unat d)"

definition show_ip_pair :: "'d ipv4_addr_pair \<Rightarrow> string" where
  "show_ip_pair self = show_ipv4_addr (ip_src self) @ '' -> '' @ show_ipv4_addr (ip_dst self)"

definition show_port_pair :: "'d port_pair \<Rightarrow> string" where
  "show_port_pair self = show_nat (unat (port_src self)) @ '' -> '' @ show_nat (unat (port_dst self))"

fun show_protocol :: "protocol \<Rightarrow> string" where
  "show_protocol Icmp = ''ICMP''"
| "show_protocol Tcp = ''TCP''"
| "show_protocol Udp = ''UDP''"

definition show_ipv4_header :: "'d ipv4_header \<Rightarrow> string" where
  "show_ipv4_header self =
     ''IPv4 | '' @ show_nat (unat (total_len self)) @ '' bytes total | '' @
     show_protocol (hdr_protocol self) @ '' | '' @ show_ip_pair (hdr_ip_pair self)"

fun show_flags :: "tcp_flags \<Rightarrow> string" where
  "show_flags Syn = ''SYN''"
| "show_flags SynAck = ''SYN-ACK''"
| "show_flags Ack = ''ACK''"
| "show_flags FinAck = ''FIN-ACK''"
| "show_flags Rst = ''RST''"
| "show_flags RstAck = ''RST-ACK''"

definition show_icmp :: "'d icmp_echo_msg \<Rightarrow> string" where
  "show_icmp self =
     ''ICMP | type='' @ show_nat (unat (icmp_type self)) @ '' code='' @ show_nat (unat icmp_code_echo) @ '' ('' @
     (if icmp_type self = icmp_type_echo_request then ''Echo Request''
      else if icmp_type self = icmp_type_echo_reply then ''Echo Reply''
      else ''unknown type'') @
     '') | identifier='' @ thousands_separated (unat (icmp_identifier self)) @
     '' sequence='' @ thousands_separated (unat (icmp_sequence self))"

definition show_udp :: "'d udp_datagram \<Rightarrow> string" where
  "show_udp self = ''UDP | '' @ show_port_pair (udp_ports self)"

definition show_tcp :: "('d, 'r) tcp_segment \<Rightarrow> string" where
  "show_tcp self =
     ''TCP | '' @ show_port_pair (seg_ports self) @ '' | seq='' @ show_seq_point (seg_seq_num self) @
     '' ack='' @ show_seq_point (seg_ack_num self) @ '' win='' @ show_window (seg_window self) @
     '' | '' @ show_flags (seg_flags self)"

fun show_router :: "('d, 'r) protocol_router \<Rightarrow> string" where
  "show_router (RouterIcmp m) = show_icmp m"
| "show_router (RouterTcp s) = show_tcp s"
| "show_router (RouterUdp d) = show_udp d"

definition show_packet :: "('d, 'r) ipv4_packet \<Rightarrow> string" where
  "show_packet self = show_ipv4_header (ipv4_hdr self) @ [CHR 0x0A] @ show_router (router self)"

section \<open>UTF-8\<close>

text \<open>\<open>str::from_utf8\<close>: the scalar values that well-formed UTF-8 encodes.\<close>

definition utf8_tail :: "u8 \<Rightarrow> bool" where
  "utf8_tail b \<longleftrightarrow> 0x80 \<le> b \<and> b < 0xC0"

definition tail_bits :: "u8 \<Rightarrow> nat" where
  "tail_bits b = unat b - 0x80"

fun utf8_decode :: "bytes \<Rightarrow> nat list option" where
  "utf8_decode [] = Some []"
| "utf8_decode (a # rest) =
     (if a < 0x80 then map_option (Cons (unat a)) (utf8_decode rest)
      else if a < 0xC0 \<or> 0xF8 \<le> a then None
      else case rest of [] \<Rightarrow> None | b # rest2 \<Rightarrow>
        if \<not> utf8_tail b then None
        else if a < 0xE0 then
          (let c = (unat a - 0xC0) * 64 + tail_bits b
           in if c < 0x80 then None else map_option (Cons c) (utf8_decode rest2))
        else case rest2 of [] \<Rightarrow> None | b2 # rest3 \<Rightarrow>
          if \<not> utf8_tail b2 then None
          else if a < 0xF0 then
            (let c = (unat a - 0xE0) * 4096 + tail_bits b * 64 + tail_bits b2
             in if c < 0x800 \<or> 0xD800 \<le> c \<and> c < 0xE000 then None else map_option (Cons c) (utf8_decode rest3))
          else case rest3 of [] \<Rightarrow> None | b3 # rest4 \<Rightarrow>
            if \<not> utf8_tail b3 then None
            else (let c = (unat a - 0xF0) * 262144 + tail_bits b * 4096 + tail_bits b2 * 64 + tail_bits b3
                  in if c < 0x10000 \<or> 0x110000 \<le> c then None else map_option (Cons c) (utf8_decode rest4)))"

definition utf8_encode :: "nat \<Rightarrow> string" where
  "utf8_encode c =
     map char_of
       (if c < 0x80 then [c]
        else if c < 0x800 then [0xC0 + c div 64, 0x80 + c mod 64]
        else if c < 0x10000 then [0xE0 + c div 4096, 0x80 + c div 64 mod 64, 0x80 + c mod 64]
        else [0xF0 + c div 262144, 0x80 + c div 4096 mod 64, 0x80 + c div 64 mod 64, 0x80 + c mod 64])"

section \<open>Payloads\<close>

record unicode =
  printable :: "nat \<Rightarrow> bool"
  grapheme_extended :: "nat \<Rightarrow> bool"

text \<open>
  \<open>char::escape_debug\<close> and \<open>str::escape_debug\<close>: a grapheme extender is only escaped where it would
  attach to what is printed before, at the front.
\<close>

definition escape_char :: "unicode \<Rightarrow> bool \<Rightarrow> nat \<Rightarrow> string" where
  "escape_char uni at_front c =
     (if c = 0 then [CHR 0x5C, CHR ''0'']
      else if c = 9 then [CHR 0x5C, CHR ''t'']
      else if c = 13 then [CHR 0x5C, CHR ''r'']
      else if c = 10 then [CHR 0x5C, CHR ''n'']
      else if c = 0x5C \<or> c = 0x22 \<or> c = 0x27 then [CHR 0x5C, char_of c]
      else if at_front \<and> grapheme_extended uni c \<or> \<not> printable uni c
        then CHR 0x5C # ''u{'' @ show_hex c @ ''}''
      else utf8_encode c)"

fun escape_debug :: "unicode \<Rightarrow> nat list \<Rightarrow> string" where
  "escape_debug uni [] = []"
| "escape_debug uni (c # cs) = escape_char uni True c @ concat (map (escape_char uni False) cs)"

text \<open>\<open>PrettyPayload\<close> and its \<open>Display\<close>.\<close>

record pretty_payload =
  pretty_data :: bytes
  include_content :: bool

fun hex_dump :: "nat \<Rightarrow> nat \<Rightarrow> bytes \<Rightarrow> string" where
  "hex_dump len i [] = []"
| "hex_dump len i (b # bs) =
     (if len \<le> 16 \<or> i mod 16 \<noteq> 0 then CHR '' '' else CHR 0x0A) # show_hex_byte b @ hex_dump len (Suc i) bs"

definition show_payload :: "unicode \<Rightarrow> pretty_payload \<Rightarrow> string" where
  "show_payload uni self =
     (case utf8_decode (pretty_data self) of
        Some [] \<Rightarrow> ''<no payload>''
      | Some cs \<Rightarrow>
          show_nat (length (pretty_data self)) @ ''-byte UTF-8 payload'' @
          (if include_content self then '': '' @ escape_debug uni cs else [])
      | None \<Rightarrow>
          show_nat (length (pretty_data self)) @ ''-byte non-UTF-8 payload'' @
          (if include_content self
           then '':'' @ hex_dump (length (pretty_data self)) 0 (pretty_data self) else []))"

definition icmp_pretty_payload :: "'d icmp_echo_msg \<Rightarrow> bool \<Rightarrow> pretty_payload" where
  "icmp_pretty_payload self content = \<lparr>pretty_data = icmp_payload self, include_content = content\<rparr>"

definition udp_pretty_payload :: "'d udp_datagram \<Rightarrow> bool \<Rightarrow> pretty_payload" where
  "udp_pretty_payload self content = \<lparr>pretty_data = udp_payload self, include_content = content\<rparr>"

definition tcp_pretty_payload :: "('d, 'r) tcp_segment \<Rightarrow> bool \<Rightarrow> pretty_payload" where
  "tcp_pretty_payload self content =
     \<lparr>pretty_data = (case seg_payload self of None \<Rightarrow> [] | Some p \<Rightarrow> payload_data p),
      include_content = content\<rparr>"

fun router_pretty_payload :: "('d, 'r) protocol_router \<Rightarrow> bool \<Rightarrow> pretty_payload" where
  "router_pretty_payload (RouterIcmp m) content = icmp_pretty_payload m content"
| "router_pretty_payload (RouterTcp s) content = tcp_pretty_payload s content"
| "router_pretty_payload (RouterUdp d) content = udp_pretty_payload d content"

definition packet_pretty_payload :: "('d, 'r) ipv4_packet \<Rightarrow> bool \<Rightarrow> pretty_payload" where
  "packet_pretty_payload self content = router_pretty_payload (router self) content"

section \<open>Properties\<close>

abbreviation digit :: "nat \<Rightarrow> char" where
  "digit d \<equiv> char_of (48 + d)"

lemma digit_not_comma [simp]: "d < 10 \<Longrightarrow> digit d \<noteq> CHR '',''"
proof
  assume d: "d < 10" and eq: "digit d = CHR '',''"
  have "of_char (digit d) = (of_char CHR '','' :: nat)" by (simp only: eq)
  then show False using d by (simp add: of_char_of)
qed

lemma zero_digit: "CHR ''0'' = digit 0"
  by (simp add: char_of_def bit_Suc bit_0)

lemma show_nat_digit: "d < 10 \<Longrightarrow> show_nat d = [digit d]"
  by (subst show_nat.simps) simp

lemma show_nat_snoc: "0 < m \<Longrightarrow> d < 10 \<Longrightarrow> show_nat (m * 10 + d) = show_nat m @ [digit d]"
  by (subst show_nat.simps) simp

lemma three_digits:
  assumes "r < (1000 :: nat)"
  obtains a b c where "a < 10" "b < 10" "c < 10" "r = (a * 10 + b) * 10 + c"
proof -
  have "r = (r div 10 div 10 * 10 + r div 10 mod 10) * 10 + r mod 10" by (simp add: div_mod_decomp)
  moreover have "r div 10 div 10 < 10" using assms by (simp add: div_mult2_eq [symmetric])
  ultimately show thesis using that [of "r div 10 div 10" "r div 10 mod 10" "r mod 10"] by simp
qed

lemma show_padded_digits:
  assumes "a < 10" and "b < 10" and "c < 10"
  shows "show_padded 3 ((a * 10 + b) * 10 + c) = [digit a, digit b, digit c]"
proof (cases "a = 0")
  case True
  show ?thesis
  proof (cases "b = 0")
    case b: True
    show ?thesis
      using assms by (simp add: True b show_padded_def show_nat_digit zero_digit numeral_2_eq_2 del: One_nat_def)
  next
    case False
    then show ?thesis
      using assms by (simp add: True show_padded_def show_nat_snoc show_nat_digit zero_digit)
  qed
next
  case False
  then show ?thesis
    using assms show_nat_snoc [of "a * 10 + b" c] show_nat_snoc [of a b]
    by (simp add: show_padded_def show_nat_digit)
qed

lemma show_nat_thousand:
  assumes "0 < m" and "r < 1000"
  shows "show_nat (m * 1000 + r) = show_nat m @ show_padded 3 r"
proof -
  from assms(2) obtain a b c where d: "a < 10" "b < 10" "c < 10" and r: "r = (a * 10 + b) * 10 + c"
    by (rule three_digits)
  have n: "m * 1000 + r = ((m * 10 + a) * 10 + b) * 10 + c" unfolding r by simp
  show ?thesis
    unfolding n unfolding r using assms(1) d
    by (simp add: show_nat_snoc show_padded_digits del: distrib_right_numeral add_mult_distrib)
qed

lemma show_nat_no_comma: "CHR '','' \<notin> set (show_nat n)"
proof (induction n rule: show_nat.induct)
  case (1 n)
  then show ?case by (subst show_nat.simps) (simp add: digit_not_comma [symmetric] del: One_nat_def)
qed

lemma show_nat_group: "r < 1000 \<Longrightarrow> length (show_nat r) \<le> 3"
  by (simp add: show_nat.simps [of r] show_nat.simps [of "r div 10"] show_nat.simps [of "r div 100"]
      div_mult2_eq [symmetric])

lemma show_padded_group: "r < 1000 \<Longrightarrow> length (show_padded 3 r) = 3"
  using show_nat_group [of r] by (simp add: show_padded_def)

lemma show_padded_no_comma: "CHR '','' \<notin> set (show_padded 3 r)"
  using show_nat_no_comma [of r] by (simp add: show_padded_def)

lemmas thousands_groups = show_nat_no_comma show_nat_group show_padded_group show_padded_no_comma

text \<open>
  Removing the commas of a number with separators gives the number in decimal, and read from
  the right exactly every fourth character is a comma.
\<close>

theorem thousands_roundtrip:
  "filter (\<lambda>c. c \<noteq> CHR '','') (thousands_separated n) = show_nat n \<and>
   (\<forall>j. j < length (thousands_separated n) \<longrightarrow>
      (rev (thousands_separated n) ! j = CHR '','') = (j mod 4 = 3))"
proof (induction n rule: thousands_separated.induct)
  case (1 n)
  show ?case
  proof (cases "n div 1000 = 0")
    case True
    then have eq: "thousands_separated n = show_nat n" by (subst thousands_separated.simps) simp
    have "filter (\<lambda>c. c \<noteq> CHR '','') (show_nat n) = show_nat n"
      using show_nat_no_comma [of n] by (auto simp: filter_id_conv)
    moreover have "(rev (show_nat n) ! j = CHR '','') = (j mod 4 = 3)" if j: "j < length (show_nat n)" for j
    proof -
      have "j < 3" using j show_nat_group [of n] True by (simp add: div_eq_0_iff)
      moreover have "rev (show_nat n) ! j \<noteq> CHR '',''"
        using show_nat_no_comma [of n] nth_mem [of j "rev (show_nat n)"] j by auto
      ultimately show ?thesis by simp
    qed
    ultimately show ?thesis unfolding eq by simp
  next
    case False
    let ?q = "n div 1000" and ?p = "show_padded 3 (n mod 1000)"
    have eq: "thousands_separated n = thousands_separated ?q @ '','' @ ?p"
      using False by (subst thousands_separated.simps) simp
    note IH = 1 [OF False]
    have len: "length ?p = 3" by (simp add: show_padded_group)
    have "filter (\<lambda>c. c \<noteq> CHR '','') ?p = ?p"
      using show_padded_no_comma [of "n mod 1000"] by (auto simp: filter_id_conv)
    then have "filter (\<lambda>c. c \<noteq> CHR '','') (thousands_separated n) = show_nat (?q * 1000 + n mod 1000)"
      unfolding eq using IH False show_nat_thousand [of ?q "n mod 1000"] by simp
    moreover have "(rev (thousands_separated n) ! j = CHR '','') = (j mod 4 = 3)"
      if j: "j < length (thousands_separated n)" for j
    proof -
      consider "j < 3" | "j = 3" | "4 \<le> j" by linarith
      then show ?thesis
      proof cases
        case 1
        then have "rev ?p ! j \<noteq> CHR '',''"
          using show_padded_no_comma [of "n mod 1000"] nth_mem [of j "rev ?p"] len by auto
        then show ?thesis using 1 len unfolding eq by (simp add: nth_append)
      next
        case 2
        then show ?thesis using len unfolding eq by (simp add: nth_append)
      next
        case 3
        define k where "k = j - 4"
        then have k: "j = 4 + k" using 3 by simp
        have "rev (thousands_separated n) ! j = rev (thousands_separated ?q) ! k"
          unfolding eq k using len by (simp add: nth_append)
        moreover have "k < length (thousands_separated ?q)" using j len unfolding eq k by simp
        ultimately show ?thesis using IH unfolding k by simp
      qed
    qed
    ultimately show ?thesis by simp
  qed
qed

text \<open>A character that a terminal shows: its code is not that of a control character of ASCII.\<close>

definition shown :: "char \<Rightarrow> bool" where
  "shown c \<longleftrightarrow> 32 \<le> (of_char c :: nat) \<and> of_char c \<noteq> (127 :: nat)"

definition all_shown :: "string \<Rightarrow> bool" where
  "all_shown s \<longleftrightarrow> list_all shown s"

lemma shown_char_of: "32 \<le> n \<Longrightarrow> n \<noteq> 127 \<Longrightarrow> n < 256 \<Longrightarrow> shown (char_of n)" for n :: nat
  by (simp add: shown_def of_char_of)

lemma all_shown_simps [simp]:
  "all_shown []"
  "all_shown (c # s) \<longleftrightarrow> shown c \<and> all_shown s"
  "all_shown (s @ t) \<longleftrightarrow> all_shown s \<and> all_shown t"
  by (simp_all add: all_shown_def)

lemma all_shown_concat: "(\<And>x. x \<in> set xs \<Longrightarrow> all_shown (f x)) \<Longrightarrow> all_shown (concat (map f xs))"
  by (induction xs) simp_all

lemma all_shown_nat [simp]: "all_shown (show_nat n)"
proof (induction n rule: show_nat.induct)
  case (1 n)
  then show ?case by (subst show_nat.simps) (simp add: shown_char_of)
qed

lemma shown_hex_digit [simp]: "d < 16 \<Longrightarrow> shown (show_hex_digit d)"
  by (simp add: show_hex_digit_def shown_char_of)

lemma all_shown_hex [simp]: "all_shown (show_hex n)"
proof (induction n rule: show_hex.induct)
  case (1 n)
  then show ?case by (subst show_hex.simps) simp
qed

lemma all_shown_hex_byte [simp]: "all_shown (show_hex_byte b)"
  using unsigned_less [of b] by (simp add: show_hex_byte_def less_mult_imp_div_less)

lemma tail_bits_bound: "utf8_tail b \<Longrightarrow> tail_bits b < 64"
  by (auto simp: tail_bits_def utf8_tail_def word_less_nat_alt word_le_nat_alt)

lemma utf8_decode_step:
  assumes "utf8_decode (a # rest) = Some cs"
  shows "cs \<noteq> [] \<and> hd cs < 0x110000 \<and>
    (\<exists>r \<in> {rest, tl rest, tl (tl rest), tl (tl (tl rest))}. utf8_decode r = Some (tl cs))"
proof -
  have a: "unat a < 256" using unsigned_less [of a] by simp
  consider "a < 0x80" | "\<not> a < 0x80" "a < 0xE0" | "\<not> a < 0x80" "\<not> a < 0xE0" "a < 0xF0"
    | "\<not> a < 0x80" "\<not> a < 0xE0" "\<not> a < 0xF0" by blast
  then show ?thesis
  proof cases
    case 1
    then obtain z where "utf8_decode rest = Some z" "cs = unat a # z"
      using assms by (subst (asm) utf8_decode.simps) auto
    moreover have "unat a < 0x110000" using a by linarith
    ultimately show ?thesis by simp
  next
    case 2
    then show ?thesis
      using assms
      by (subst (asm) utf8_decode.simps)
        (auto simp: Let_def word_less_nat_alt split: list.splits if_splits simp del: utf8_decode.simps dest!: tail_bits_bound)
  next
    case 3
    then show ?thesis
      using assms
      by (subst (asm) utf8_decode.simps)
        (auto simp: Let_def word_less_nat_alt split: list.splits if_splits simp del: utf8_decode.simps dest!: tail_bits_bound)
  next
    case 4
    then show ?thesis
      using assms
      by (subst (asm) utf8_decode.simps)
        (auto simp: Let_def split: list.splits if_splits simp del: utf8_decode.simps)
  qed
qed

lemma utf8_decode_bound: "utf8_decode bs = Some cs \<Longrightarrow> c \<in> set cs \<Longrightarrow> c < 0x110000"
proof (induction "length bs" arbitrary: bs cs rule: less_induct)
  case less
  show ?case
  proof (cases bs)
    case Nil
    then show ?thesis using less.prems by simp
  next
    case (Cons a rest)
    then obtain r where r: "r \<in> {rest, tl rest, tl (tl rest), tl (tl (tl rest))}"
      and "utf8_decode r = Some (tl cs)" "cs \<noteq> []" "hd cs < 0x110000"
      using utf8_decode_step less.prems(1) by blast
    moreover have "length r < length bs" using r Cons by auto
    ultimately show ?thesis using less.hyps [of r "tl cs"] less.prems(2) by (cases cs) auto
  qed
qed

lemma all_shown_encode:
  "32 \<le> c \<Longrightarrow> c \<noteq> 127 \<Longrightarrow> c < 0x110000 \<Longrightarrow> all_shown (utf8_encode c)"
  by (auto simp: utf8_encode_def shown_char_of less_mult_imp_div_less intro!: shown_char_of)

lemma all_shown_escape:
  assumes "\<And>n. n < 32 \<or> n = 127 \<Longrightarrow> \<not> printable uni n" and "c < 0x110000"
  shows "all_shown (escape_char uni front c)"
proof (cases "c < 32 \<or> c = 127")
  case True
  then show ?thesis using assms(1) [OF True] by (auto simp: escape_char_def shown_def)
next
  case False
  then show ?thesis using assms(2) by (auto simp: escape_char_def shown_def all_shown_encode)
qed

lemma all_shown_escape_debug:
  assumes "\<And>n. n < 32 \<or> n = 127 \<Longrightarrow> \<not> printable uni n" and "\<And>c. c \<in> set cs \<Longrightarrow> c < 0x110000"
  shows "all_shown (escape_debug uni cs)"
  using assms by (cases cs) (auto intro!: all_shown_concat all_shown_escape)

lemma hex_dump_shown: "c \<in> set (hex_dump len i bs) \<Longrightarrow> shown c \<or> c = CHR 0x0A"
  using all_shown_hex_byte
  by (induction bs arbitrary: i) (auto simp: shown_def all_shown_def list_all_iff split: if_splits)

lemma all_shown_payload:
  assumes "\<And>n. n < 32 \<or> n = 127 \<Longrightarrow> \<not> printable uni n"
    and "c \<in> set (show_payload uni p)"
  shows "shown c \<or> c = CHR 0x0A \<and> utf8_decode (pretty_data p) = None"
proof (cases "utf8_decode (pretty_data p)")
  case None
  then show ?thesis
    using assms(2) all_shown_nat [of "length (pretty_data p)"]
    by (auto simp: show_payload_def shown_def all_shown_def list_all_iff dest: hex_dump_shown split: if_splits)
next
  case (Some cs)
  have "all_shown (escape_debug uni cs)"
    using Some assms(1) utf8_decode_bound by (intro all_shown_escape_debug) auto
  then have "all_shown (show_payload uni p)"
    unfolding show_payload_def Some by (auto simp: shown_def split: list.split)
  then show ?thesis using assms(2) by (auto simp: all_shown_def list_all_iff)
qed

text \<open>
  C26: Logging a payload cannot inject control characters into the log: whatever bytes a packet
  carries, the text printed for its payload consists of characters from space on without delete,
  except for the line breaks of the hexadecimal dump of a payload that is not UTF-8.
\<close>

theorem log_injection_safe:
  assumes "\<And>n. n < 32 \<or> n = 127 \<Longrightarrow> \<not> printable uni n"
    and "c \<in> set (show_payload uni p)"
  shows "32 \<le> (of_char c :: nat) \<and> of_char c \<noteq> (127 :: nat) \<or>
    c = CHR 0x0A \<and> utf8_decode (pretty_data p) = None"
  using all_shown_payload [OF assms] by (simp add: shown_def)

text \<open>The witness prints an escape sequence that would clear a terminal.\<close>

definition ascii_tables :: unicode where
  "ascii_tables = \<lparr>printable = (\<lambda>n. 32 \<le> n \<and> n < 127), grapheme_extended = (\<lambda>_. False)\<rparr>"

definition clear_screen :: pretty_payload where
  "clear_screen = \<lparr>pretty_data = [27, 91, 50, 74], include_content = True\<rparr>"

lemma show_clear_screen:
  "show_payload ascii_tables clear_screen = ''4-byte UTF-8 payload: '' @ CHR 0x5C # ''u{1b}[2J''"
  by (simp add: clear_screen_def ascii_tables_def show_payload_def escape_char_def utf8_encode_def
      show_nat.simps show_hex.simps show_hex_digit_def char_of_def bit_Suc bit_0)

theorem log_injection_safe_witness:
  "32 \<le> (of_char (CHR 0x5C) :: nat) \<and> of_char (CHR 0x5C) \<noteq> (127 :: nat) \<or>
    CHR 0x5C = CHR 0x0A \<and> utf8_decode (pretty_data clear_screen) = None"
  by (rule log_injection_safe [of ascii_tables]) (auto simp: ascii_tables_def [symmetric] show_clear_screen,
      auto simp: ascii_tables_def)

end
