(* ===== verification/Logger.thy ===== *)
theory Logger
  imports Display Engine
begin

text \<open>
  \<open>server/src/logger.rs\<close>: log levels, timestamps, and the logger of a worker, which buffers one
  record and writes it out in one piece.

  The console is a parameter: \<open>clock n\<close> is the \<open>n\<close>-th reading of the clock by this logger, and
  \<open>stdout_error printed text\<close> is the error, if any, of writing and flushing \<open>text\<close> after \<open>printed\<close>. The
  fields \<open>printed\<close> (the text whose write succeeded) and \<open>ticks\<close> (the readings so far) record what
  the logger has done to it.
\<close>

section \<open>Log levels\<close>

datatype log_level = Silent | ServerInfo | PktQuiet | PktDetails | PktFull

fun level_to_u8 :: "log_level \<Rightarrow> u8" where
  "level_to_u8 Silent = 0"
| "level_to_u8 ServerInfo = 1"
| "level_to_u8 PktQuiet = 2"
| "level_to_u8 PktDetails = 3"
| "level_to_u8 PktFull = 4"

lemma level_to_u8_inject: "level_to_u8 a = level_to_u8 b \<longleftrightarrow> a = b"
  by (cases a; cases b) simp_all

instantiation log_level :: linorder
begin

definition less_eq_log_level :: "log_level \<Rightarrow> log_level \<Rightarrow> bool" where
  "less_eq_log_level a b \<longleftrightarrow> level_to_u8 a \<le> level_to_u8 b"

definition less_log_level :: "log_level \<Rightarrow> log_level \<Rightarrow> bool" where
  "less_log_level a b \<longleftrightarrow> level_to_u8 a < level_to_u8 b"

instance
  by standard (auto simp: less_eq_log_level_def less_log_level_def level_to_u8_inject [symmetric])

end

lemmas level_order = less_eq_log_level_def less_log_level_def

definition default_level :: log_level where
  "default_level = PktFull"

text \<open>
  \<open>str::trim\<close>: the characters with the property \<open>White_Space\<close> are removed at both ends.
\<close>

definition white_space :: "nat \<Rightarrow> bool" where
  "white_space c \<longleftrightarrow> 9 \<le> c \<and> c \<le> 13 \<or> 0x2000 \<le> c \<and> c \<le> 0x200A \<or>
     c \<in> {0x20, 0x85, 0xA0, 0x1680, 0x2028, 0x2029, 0x202F, 0x205F, 0x3000}"

definition trim_chars :: "nat list \<Rightarrow> nat list" where
  "trim_chars cs = rev (dropWhile white_space (rev (dropWhile white_space cs)))"

definition str_trim :: "string \<Rightarrow> string" where
  "str_trim s =
     (case utf8_decode (map of_char s) of
        None \<Rightarrow> s
      | Some cs \<Rightarrow> concat (map utf8_encode (trim_chars cs)))"

definition log_level_from_str :: "string \<Rightarrow> log_level result" where
  "log_level_from_str s =
     (let s = str_trim s in
      if s = ''0'' then Inr Silent
      else if s = ''1'' then Inr ServerInfo
      else if s = ''2'' then Inr PktQuiet
      else if s = ''3'' then Inr PktDetails
      else if s = ''4'' then Inr PktFull
      else Inl (Err (Dynamic (''Log level must be a digit between 0 and 4 inclusive, got '' @ s))))"

section \<open>Timestamps\<close>

definition show_timestamp :: "instant \<Rightarrow> instant \<Rightarrow> string" where
  "show_timestamp birth now =
     (let elapsed = now - birth;
          secs = elapsed div 1000000000;
          mins = secs div 60; sub_min_secs = secs mod 60;
          hrs = mins div 60; sub_hr_mins = mins mod 60
      in show_padded 2 hrs @ '':'' @ show_padded 2 sub_hr_mins @ '':'' @ show_padded 2 sub_min_secs @ ''.'' @
         show_padded 3 (elapsed mod 1000000000 div 1000000))"

section \<open>The logger\<close>

record console =
  clock :: "nat \<Rightarrow> instant"
  stdout_error :: "string \<Rightarrow> string \<Rightarrow> io_error option"

record logger =
  level :: log_level
  birth :: instant
  worker_id :: nat
  log_buf :: string
  printed :: string
  ticks :: nat

definition logger_new :: "log_level \<Rightarrow> instant \<Rightarrow> nat \<Rightarrow> logger" where
  "logger_new lvl b w =
     \<lparr>level = lvl, birth = b, worker_id = w, log_buf = [], printed = [], ticks = 0\<rparr>"

definition push_str :: "string \<Rightarrow> logger \<Rightarrow> logger" where
  "push_str s self = self\<lparr>log_buf := log_buf self @ s\<rparr>"

text \<open>\<open>writeln!(self.buf, "[w{} {}] {msg}", self.worker_id, self.time_calc)\<close>.\<close>

definition push_stamped :: "console \<Rightarrow> string \<Rightarrow> logger \<Rightarrow> logger" where
  "push_stamped con msg self =
     push_str (''[w'' @ show_nat (worker_id self) @ '' '' @ show_timestamp (birth self) (clock con (ticks self)) @
               ''] '' @ msg @ [CHR 0x0A]) (self\<lparr>ticks := Suc (ticks self)\<rparr>)"

definition flush :: "console \<Rightarrow> logger \<Rightarrow> (logger, unit) stateful" where
  "flush con self =
     (if log_buf self = [] then (self, Inr ())
      else case stdout_error con (printed self) (log_buf self) of
        Some e \<Rightarrow> (self, Inl (Err (Io e)))
      | None \<Rightarrow> (self\<lparr>printed := printed self @ log_buf self, log_buf := []\<rparr>, Inr ()))"

text \<open>\<open>Drop\<close>: a failure is reported on stderr only.\<close>

definition logger_drop :: "console \<Rightarrow> logger \<Rightarrow> logger" where
  "logger_drop con self = fst (flush con self)"

definition server_info :: "console \<Rightarrow> string \<Rightarrow> logger \<Rightarrow> (logger, unit) stateful" where
  "server_info con msg self =
     (if ServerInfo \<le> level self then flush con (push_stamped con msg self) else (self, Inr ()))"

definition server_newline :: "logger \<Rightarrow> logger" where
  "server_newline self = (if ServerInfo \<le> level self then push_str [CHR 0x0A] self else self)"

definition pkt_err :: "console \<Rightarrow> string \<Rightarrow> logger \<Rightarrow> logger" where
  "pkt_err con msg self = (if PktDetails \<le> level self then push_stamped con msg self else self)"

definition pkt_io :: "unicode \<Rightarrow> ('d, 'r) ipv4_packet \<Rightarrow> logger \<Rightarrow> logger" where
  "pkt_io uni pkt self =
     (if PktDetails \<le> level self
      then push_str (show_packet pkt @ [CHR 0x0A] @
             show_payload uni (packet_pretty_payload pkt (level self = PktFull)) @ [CHR 0x0A]) self
      else self)"

text \<open>The characters \<open>U+2193\<close> and \<open>U+2191\<close>, the arrows down and up.\<close>

definition arrow_down :: string where
  "arrow_down = [CHR 0xE2, CHR 0x86, CHR 0x93]"

definition arrow_up :: string where
  "arrow_up = [CHR 0xE2, CHR 0x86, CHR 0x91]"

definition pkt_received :: "console \<Rightarrow> logger \<Rightarrow> logger" where
  "pkt_received con self =
     (case level self of
        Silent \<Rightarrow> self | ServerInfo \<Rightarrow> self
      | PktQuiet \<Rightarrow> push_str arrow_down self
      | _ \<Rightarrow> push_stamped con ''Packet received'' self)"

definition pkt_sent :: "console \<Rightarrow> bool \<Rightarrow> logger \<Rightarrow> logger" where
  "pkt_sent con retransmission self =
     (case level self of
        Silent \<Rightarrow> self | ServerInfo \<Rightarrow> self
      | PktQuiet \<Rightarrow> push_str arrow_up self
      | _ \<Rightarrow> push_stamped con (''Packet sent'' @ (if retransmission then '' (retransmission)'' else [])) self)"

text \<open>\<open>"{:-<80}"\<close> of the empty string.\<close>

definition divider_line :: string where
  "divider_line = replicate 80 CHR ''-'' @ [CHR 0x0A]"

definition divider :: "logger \<Rightarrow> logger" where
  "divider self =
     (case level self of
        Silent \<Rightarrow> self | ServerInfo \<Rightarrow> self
      | PktQuiet \<Rightarrow> push_str '' '' self
      | _ \<Rightarrow> push_str divider_line self)"

definition exchange :: "console \<Rightarrow> unicode \<Rightarrow> packet_outcome \<Rightarrow> logger \<Rightarrow> (logger, unit) stateful" where
  "exchange con uni outcome self =
     (let self = divider self;
          self = pkt_received con self;
          self = pkt_io uni (incoming outcome) self;
          self = (if PktDetails \<le> level self then push_str [CHR 0x0A] self else self);
          self = (case outcome_reply outcome of
                    None \<Rightarrow> if PktDetails \<le> level self then push_str (''<no reply>'' @ [CHR 0x0A]) self else self
                  | Some reply \<Rightarrow> pkt_io uni reply (pkt_sent con False self));
          self = divider self
      in flush con self)"

definition non_reply_transmission ::
    "console \<Rightarrow> unicode \<Rightarrow> out_packet \<Rightarrow> bool \<Rightarrow> logger \<Rightarrow> (logger, unit) stateful" where
  "non_reply_transmission con uni pkt retransmission self =
     flush con (divider (pkt_io uni pkt (pkt_sent con retransmission (divider self))))"

section \<open>Properties\<close>

lemma ServerInfo_le [simp]: "ServerInfo \<le> lvl \<longleftrightarrow> lvl \<noteq> Silent"
  by (cases lvl) (simp_all add: less_eq_log_level_def word_le_nat_alt)

lemma PktDetails_le [simp]: "PktDetails \<le> lvl \<longleftrightarrow> lvl = PktDetails \<or> lvl = PktFull"
  by (cases lvl) (simp_all add: less_eq_log_level_def word_le_nat_alt)

named_theorems logger_simps \<open>what the operations do to the fields of the logger\<close>

lemma push_str_fields [logger_simps]:
  "level (push_str s self) = level self" "printed (push_str s self) = printed self"
  "log_buf (push_str s self) = log_buf self @ s" "worker_id (push_str s self) = worker_id self"
  by (simp_all add: push_str_def)

lemma push_stamped_fields [logger_simps]:
  "level (push_stamped con s self) = level self" "printed (push_stamped con s self) = printed self"
  by (simp_all add: push_stamped_def push_str_def)

text \<open>Buffering a record leaves what has been printed alone, and keeps the level.\<close>

lemma divider_fields [logger_simps]:
  "level (divider self) = level self" "printed (divider self) = printed self"
  by (simp_all add: divider_def logger_simps split: log_level.split)

lemma pkt_io_fields [logger_simps]:
  "level (pkt_io uni pkt self) = level self" "printed (pkt_io uni pkt self) = printed self"
  by (simp_all add: pkt_io_def logger_simps)

lemma pkt_received_fields [logger_simps]:
  "level (pkt_received con self) = level self" "printed (pkt_received con self) = printed self"
  by (simp_all add: pkt_received_def logger_simps split: log_level.split)

lemma pkt_sent_fields [logger_simps]:
  "level (pkt_sent con b self) = level self" "printed (pkt_sent con b self) = printed self"
  by (simp_all add: pkt_sent_def logger_simps split: log_level.split)

lemma pkt_err_fields [logger_simps]:
  "level (pkt_err con msg self) = level self" "printed (pkt_err con msg self) = printed self"
  by (simp_all add: pkt_err_def logger_simps)

lemma server_newline_fields [logger_simps]:
  "level (server_newline self) = level self" "printed (server_newline self) = printed self"
  by (simp_all add: server_newline_def logger_simps)

text \<open>Below the level \<open>PktQuiet\<close> packets leave no trace.\<close>

lemma buffering_quiet:
  assumes "level self = Silent \<or> level self = ServerInfo"
  shows "divider self = self" "pkt_io uni pkt self = self" "pkt_received con self = self"
    "pkt_sent con b self = self" "pkt_err con msg self = self"
  using assms by (auto simp: divider_def pkt_io_def pkt_received_def pkt_sent_def pkt_err_def)

lemma exchange_quiet:
  "level self = Silent \<or> level self = ServerInfo \<Longrightarrow> exchange con uni outcome self = flush con self"
  by (auto simp: exchange_def buffering_quiet Let_def split: option.split)

lemma utf8_decode_Nil_iff: "utf8_decode bs = Some [] \<longleftrightarrow> bs = []"
  using utf8_decode_step by (cases bs) (simp, blast)

text \<open>
  What the log of a packet may depend on below the level \<open>PktFull\<close>: two messages that become equal when
  every byte of their payloads is blanked have the same headers and payloads of equal length.
\<close>

definition blank :: "bytes \<Rightarrow> bytes" where "blank bs = replicate (length bs) 0"

fun payload_content :: "('d, 'r) protocol_router \<Rightarrow> bytes" where
  "payload_content (RouterIcmp m) = icmp_payload m"
| "payload_content (RouterTcp s) = payload_bytes (seg_payload s)"
| "payload_content (RouterUdp d) = udp_payload d"

fun blanked :: "('d, 'r) protocol_router \<Rightarrow> ('d, 'r) protocol_router" where
  "blanked (RouterIcmp (IcmpEchoMsg ips type ident sequence payload)) =
     RouterIcmp (IcmpEchoMsg ips type ident sequence (blank payload))"
| "blanked (RouterTcp s) =
     RouterTcp (s\<lparr>seg_payload := map_option (\<lambda>p. p\<lparr>payload_data := blank (payload_data p)\<rparr>) (seg_payload s)\<rparr>)"
| "blanked (RouterUdp (UdpDatagram ips ports payload)) = RouterUdp (UdpDatagram ips ports (blank payload))"

definition same_shape :: "('d, 'r) ipv4_packet \<Rightarrow> ('d, 'r) ipv4_packet \<Rightarrow> bool" where
  "same_shape a b \<longleftrightarrow> ipv4_hdr a = ipv4_hdr b \<and> blanked (router a) = blanked (router b) \<and>
     (utf8_decode (payload_content (router a)) = None \<longleftrightarrow> utf8_decode (payload_content (router b)) = None)"

lemma blank_eq_iff [simp]: "blank a = blank b \<longleftrightarrow> length a = length b"
  by (simp add: blank_def)

text \<open>The shown headers are those of the blanked message.\<close>

lemma show_router_blanked: "show_router (blanked r) = show_router r"
  by (cases r rule: blanked.cases) (simp_all add: show_icmp_def show_tcp_def show_udp_def)

lemma content_length_blanked: "length (payload_content (blanked r)) = length (payload_content r)"
  by (cases r rule: blanked.cases) (simp_all add: blank_def payload_bytes_def split: option.split)

lemma pretty_payload_content: "pretty_data (packet_pretty_payload a c) = payload_content (router a)"
  by (cases "router a") (simp_all add: packet_pretty_payload_def icmp_pretty_payload_def udp_pretty_payload_def
      tcp_pretty_payload_def payload_bytes_def)

lemma same_shape_shown:
  assumes "same_shape a b"
  shows "show_packet a = show_packet b"
    and "length (payload_content (router a)) = length (payload_content (router b))"
proof -
  have h: "ipv4_hdr a = ipv4_hdr b" "blanked (router a) = blanked (router b)"
    using assms by (simp_all add: same_shape_def)
  show "show_packet a = show_packet b"
    using h show_router_blanked [of "router a"] show_router_blanked [of "router b"] by (simp add: show_packet_def)
  show "length (payload_content (router a)) = length (payload_content (router b))"
    using h(2) content_length_blanked [of "router a"] content_length_blanked [of "router b"] by simp
qed

lemma pretty_payload_data: "pretty_data (packet_pretty_payload a c) = pretty_data (packet_pretty_payload a c')"
  "include_content (packet_pretty_payload a c) = c"
  by (cases "router a"; simp add: packet_pretty_payload_def icmp_pretty_payload_def udp_pretty_payload_def
      tcp_pretty_payload_def)+

lemma show_payload_shape:
  assumes "length (pretty_data p) = length (pretty_data q)"
    and "utf8_decode (pretty_data p) = None \<longleftrightarrow> utf8_decode (pretty_data q) = None"
    and "\<not> include_content p" "\<not> include_content q"
  shows "show_payload uni p = show_payload uni q"
proof (cases "pretty_data p = []")
  case True
  then show ?thesis using assms(1) by (simp add: show_payload_def)
next
  case False
  then have "pretty_data q \<noteq> []" using assms(1) by auto
  then show ?thesis
    using False assms utf8_decode_Nil_iff [of "pretty_data p"] utf8_decode_Nil_iff [of "pretty_data q"]
    by (auto simp: show_payload_def split: option.splits list.splits)
qed

lemma pkt_io_shape:
  assumes "same_shape a b" and "level self \<noteq> PktFull"
  shows "pkt_io uni a self = pkt_io uni b self"
proof -
  have "show_payload uni (packet_pretty_payload a False) = show_payload uni (packet_pretty_payload b False)"
    using assms(1) same_shape_shown(2) [OF assms(1)]
    by (intro show_payload_shape) (simp_all add: same_shape_def pretty_payload_content pretty_payload_data(2))
  then show ?thesis using assms(2) by (simp add: pkt_io_def same_shape_shown(1) [OF assms(1)])
qed

text \<open>
  C27: Log levels keep what they promise. At \<open>Silent\<close> and \<open>ServerInfo\<close> an exchange adds nothing to the
  log; below \<open>PktFull\<close> neither the log of an exchange nor that of a packet sent without request
  depends on the content of the payloads: packets with the same headers, field by field, and payloads
  of equal length that are both UTF-8 or both not, are logged by the same text.
\<close>

theorem log_levels_respected:
  assumes "level self \<noteq> PktFull"
    and "same_shape (incoming a) (incoming b)"
    and "rel_option same_shape (outcome_reply a) (outcome_reply b)"
    and "same_shape p q"
  shows "exchange con uni a self = exchange con uni b self \<and>
    non_reply_transmission con uni p again self = non_reply_transmission con uni q again self \<and>
    (level self = Silent \<or> level self = ServerInfo \<longrightarrow> exchange con uni a self = flush con self)"
proof (intro conjI impI)
  show "exchange con uni a self = exchange con uni b self"
    using assms(3)
    by (cases rule: option.rel_cases)
      (simp_all add: exchange_def Let_def logger_simps assms(1) pkt_io_shape [OF assms(2)] pkt_io_shape)
  show "non_reply_transmission con uni p again self = non_reply_transmission con uni q again self"
    by (simp add: non_reply_transmission_def logger_simps assms(1) pkt_io_shape [OF assms(4)])
qed (rule exchange_quiet)

text \<open>Two datagrams that differ in what they carry only.\<close>

definition note_with :: "bytes \<Rightarrow> (dir_in, dir_out) ipv4_packet" where
  "note_with payload =
     Ipv4Packet (Ipv4Header 31 Udp (Ipv4AddrPair (Ipv4Addr 10 0 0 2) (Ipv4Addr 10 0 0 1)))
       (RouterUdp (UdpDatagram (Ipv4AddrPair (Ipv4Addr 10 0 0 2) (Ipv4Addr 10 0 0 1)) (PortPair 4000 80) payload))"

definition quiet_console :: console where
  "quiet_console = \<lparr>clock = (\<lambda>n. n), stdout_error = (\<lambda>_ _. None)\<rparr>"

lemma same_shape_notes: "same_shape (note_with [65, 66, 67]) (note_with [120, 121, 122])"
  by (simp add: same_shape_def note_with_def)

text \<open>The same the other way round: a reply.\<close>

definition noted :: "bytes \<Rightarrow> out_packet" where
  "noted payload =
     Ipv4Packet (Ipv4Header 31 Udp (Ipv4AddrPair (Ipv4Addr 10 0 0 1) (Ipv4Addr 10 0 0 2)))
       (RouterUdp (UdpDatagram (Ipv4AddrPair (Ipv4Addr 10 0 0 1) (Ipv4Addr 10 0 0 2)) (PortPair 80 4000) payload))"

lemma same_shape_noted: "same_shape (noted [65, 66, 67]) (noted [120, 121, 122])"
  by (simp add: same_shape_def noted_def)

theorem log_levels_respected_witness:
  "exchange quiet_console ascii_tables
     \<lparr>incoming = note_with [65, 66, 67], outcome_reply = Some (noted [65, 66, 67])\<rparr> (logger_new PktDetails 0 1) =
   exchange quiet_console ascii_tables
     \<lparr>incoming = note_with [120, 121, 122], outcome_reply = Some (noted [120, 121, 122])\<rparr>
     (logger_new PktDetails 0 1)"
  using log_levels_respected [of "logger_new PktDetails 0 1"
      "\<lparr>incoming = note_with [65, 66, 67], outcome_reply = Some (noted [65, 66, 67])\<rparr>"
      "\<lparr>incoming = note_with [120, 121, 122], outcome_reply = Some (noted [120, 121, 122])\<rparr>"
      "noted [65, 66, 67]" "noted [120, 121, 122]" quiet_console ascii_tables]
  by (simp add: logger_new_def same_shape_notes same_shape_noted)

end
