(* ===== verification/Server_Config.thy ===== *)
theory Server_Config
  imports Logger
begin

text \<open>
  \<open>server/src/application.rs\<close> and \<open>server/src/config.rs\<close>: the applications of the server, and its
  configuration from environment variables. The environment, the number of processors and the
  build profile (\<open>debug_assertions\<close>) are parameters.
\<close>

section \<open>Applications\<close>

datatype server_app = Echo | Shout

definition default_app :: server_app where
  "default_app = Echo"

text \<open>
  \<open>to_lowercase\<close>, for the comparison with a word of ASCII letters: outside ASCII only the Kelvin
  sign has an ASCII letter, \<open>k\<close>, as its lower case, and no application has a \<open>k\<close> in its name.
\<close>

definition char_lower :: "char \<Rightarrow> char" where
  "char_lower c =
     (let n = of_char c :: nat in if 65 \<le> n \<and> n \<le> 90 then char_of (n + 32) else c)"

definition server_app_from_str :: "string \<Rightarrow> server_app result" where
  "server_app_from_str s =
     (let name = map char_lower (str_trim s) in
      if name = ''echo'' then Inr Echo
      else if name = ''shout'' then Inr Shout
      else Inl (Err (Dynamic (''Server app must be either `echo` or `shout`, got `'' @ s @ ''`''))))"

fun server_app_udp :: "server_app \<Rightarrow> bytes \<Rightarrow> server_app \<times> bytes" where
  "server_app_udp Echo payload = (Echo, payload)"
| "server_app_udp Shout payload = (Shout, map to_ascii_uppercase payload)"

text \<open>The bytes appended to the send buffer.\<close>

fun server_app_tcp :: "server_app \<Rightarrow> bytes \<Rightarrow> server_app \<times> bytes" where
  "server_app_tcp Echo data = (Echo, data)"
| "server_app_tcp Shout data = (Shout, map to_ascii_uppercase data)"

definition server_app_ops :: "server_app application" where
  "server_app_ops = \<lparr>handle_udp = server_app_udp, handle_tcp = server_app_tcp\<rparr>"

section \<open>Unsigned integers\<close>

text \<open>\<open>FromStr\<close> of the unsigned integers below \<open>limit\<close>, with the texts of \<open>ParseIntError\<close>.\<close>

definition digit_value :: "char \<Rightarrow> nat option" where
  "digit_value c = (let n = of_char c in if 48 \<le> n \<and> n \<le> 57 then Some (n - 48) else None)"

fun parse_digits :: "nat \<Rightarrow> nat \<Rightarrow> string \<Rightarrow> string + nat" where
  "parse_digits limit acc [] = Inr acc"
| "parse_digits limit acc (c # cs) =
     (case digit_value c of
        None \<Rightarrow> Inl ''invalid digit found in string''
      | Some d \<Rightarrow>
          if acc * 10 + d < limit then parse_digits limit (acc * 10 + d) cs
          else Inl ''number too large to fit in target type'')"

definition parse_unsigned :: "nat \<Rightarrow> string \<Rightarrow> string + nat" where
  "parse_unsigned limit s =
     (case s of
        [] \<Rightarrow> Inl ''cannot parse integer from empty string''
      | [c] \<Rightarrow> if c = CHR ''+'' \<or> c = CHR ''-'' then Inl ''invalid digit found in string'' else parse_digits limit 0 s
      | c # cs \<Rightarrow> parse_digits limit 0 (if c = CHR ''+'' then cs else s))"

definition parse_non_zero :: "nat \<Rightarrow> string \<Rightarrow> string + nat" where
  "parse_non_zero limit s =
     (case parse_unsigned limit s of
        Inl e \<Rightarrow> Inl e
      | Inr n \<Rightarrow> if n = 0 then Inl ''number would be zero for non-zero type'' else Inr n)"

text \<open>A \<open>FromStr\<close> whose error is a \<open>TraceableError\<close>, shown by \<open>Display\<close>.\<close>

definition shown_error :: "'a result \<Rightarrow> string + 'a" where
  "shown_error r =
     (case r of Inl (Err e) \<Rightarrow> Inl (display_error e) | Inl Panic \<Rightarrow> Inl [] | Inr x \<Rightarrow> Inr x)"

text \<open>\<open>map_err(thread_panic_msg)?\<close>: a borrowed message is a static error, an owned one a dynamic error.\<close>

fun panic_error :: "panic_payload \<Rightarrow> traceable_error_kind" where
  "panic_error (PanicString s) = Dynamic (thread_panic_msg (PanicString s))"
| "panic_error p = Static (thread_panic_msg p)"

section \<open>Configuration\<close>

record config =
  tun_name :: string
  worker_count :: nat
  config_app :: server_app
  config_initial_rto :: duration
  config_max_retries :: u8
  config_grace_period :: duration
  config_log_level :: log_level

definition duration_from_millis :: "nat \<Rightarrow> duration" where
  "duration_from_millis n = n * 1000000"

definition duration_from_secs :: "nat \<Rightarrow> duration" where
  "duration_from_secs n = n * 1000000000"

definition unwrap_or :: "'a option \<Rightarrow> 'a \<Rightarrow> 'a" where
  "unwrap_or opt d = (case opt of None \<Rightarrow> d | Some x \<Rightarrow> x)"

definition config_load :: "bool \<Rightarrow> nat option \<Rightarrow> (string \<Rightarrow> env_var) \<Rightarrow> config result" where
  "config_load debug parallelism env =
     and_then (parse_env ''TYPENET_TUN_NAME'' ''alloc::string::String'' Inr (env ''TYPENET_TUN_NAME'')) (\<lambda>tun.
     and_then (parse_env ''TYPENET_WORKERS'' ''core::num::nonzero::NonZero<usize>''
                 (parse_non_zero 18446744073709551616) (env ''TYPENET_WORKERS'')) (\<lambda>workers.
     and_then (ok_or (case workers of None \<Rightarrow> parallelism | Some n \<Rightarrow> Some n)
                 (Static ''Failed to estimate available parallelism. Set the TYPENET_WORKERS environment variable to specify the number of worker threads manually.'')) (\<lambda>count.
     and_then (parse_env ''TYPENET_APP'' ''typenet_server::application::ServerApp''
                 (\<lambda>s. shown_error (server_app_from_str s)) (env ''TYPENET_APP'')) (\<lambda>app.
     and_then (parse_env ''TYPENET_INIT_RTO_MILLIS'' ''u64''
                 (parse_unsigned 18446744073709551616) (env ''TYPENET_INIT_RTO_MILLIS'')) (\<lambda>rto.
     and_then (parse_env ''TYPENET_MAX_RETRANSMITS'' ''u8''
                 (parse_unsigned 256) (env ''TYPENET_MAX_RETRANSMITS'')) (\<lambda>retransmits.
     and_then (parse_env ''TYPENET_GRACE_SECS'' ''u64''
                 (parse_unsigned 18446744073709551616) (env ''TYPENET_GRACE_SECS'')) (\<lambda>grace.
     and_then (parse_env ''TYPENET_LOG_LEVEL'' ''typenet_server::logger::LogLevel''
                 (\<lambda>s. shown_error (log_level_from_str s)) (env ''TYPENET_LOG_LEVEL'')) (\<lambda>lvl.
     Inr \<lparr>tun_name = unwrap_or tun ''tun0'',
          worker_count = count,
          config_app = unwrap_or app default_app,
          config_initial_rto = duration_from_millis (unwrap_or rto (if debug then 250 else 1000)),
          config_max_retries = word_of_nat (unwrap_or retransmits 15),
          config_grace_period = duration_from_secs (unwrap_or grace (if debug then 5 else 60)),
          config_log_level = unwrap_or lvl default_level\<rparr>))))))))"

section \<open>Properties\<close>

text \<open>Decimal numbers are parsed back, up to the limit of their type.\<close>

lemma digit_value_char [simp]: "d < 10 \<Longrightarrow> digit_value (digit d) = Some d"
  by (simp add: digit_value_def of_char_of)

lemma parse_digits_append:
  "parse_digits limit acc (xs @ ys) =
     (case parse_digits limit acc xs of Inl e \<Rightarrow> Inl e | Inr n \<Rightarrow> parse_digits limit n ys)"
  by (induction limit acc xs rule: parse_digits.induct) (simp_all split: option.split)

lemma parse_digits_show: "n < limit \<Longrightarrow> parse_digits limit 0 (show_nat n) = Inr n"
proof (induction n rule: show_nat.induct)
  case (1 n)
  show ?case
  proof (cases "n < 10")
    case True
    then show ?thesis using 1(2) by (simp add: show_nat_digit)
  next
    case False
    then have "parse_digits limit 0 (show_nat (n div 10)) = Inr (n div 10)"
      using 1 by (intro "1.IH") simp_all
    then show ?thesis
      using False 1(2) by (subst show_nat.simps) (simp add: parse_digits_append div_mult_mod_eq)
  qed
qed

lemma show_nat_head: "\<exists>d cs. show_nat n = digit d # cs \<and> d < 10"
proof (induction n rule: show_nat.induct)
  case (1 n)
  show ?case
  proof (cases "n < 10")
    case False
    then obtain d cs where "show_nat (n div 10) = digit d # cs" "d < 10" using 1 by blast
    then show ?thesis
      unfolding show_nat.simps [of n] using False
      by (intro exI [of _ d] exI [of _ "cs @ [digit (n mod 10)]"]) simp
  next
    case True
    then show ?thesis by (intro exI [of _ n] exI [of _ "[]"]) (simp add: show_nat_digit)
  qed
qed

lemma digit_neq:
  assumes "d < 10" and "of_char c < (48 :: nat)"
  shows "digit d \<noteq> c"
proof
  assume "digit d = c"
  then have "(of_char c :: nat) = of_char (digit d)" by simp
  then show False using assms by (simp add: of_char_of)
qed

lemma parse_unsigned_digit:
  "d < 10 \<Longrightarrow> parse_unsigned limit (digit d # cs) = parse_digits limit 0 (digit d # cs)"
  using digit_neq [of d "CHR ''+''"] digit_neq [of d "CHR ''-''"]
  by (simp add: parse_unsigned_def del: parse_digits.simps split: list.split)

lemma parse_unsigned_show: "n < limit \<Longrightarrow> parse_unsigned limit (show_nat n) = Inr n"
  using show_nat_head [of n] parse_digits_show [of n limit] by (auto simp: parse_unsigned_digit)

lemma parse_non_zero_show: "0 < n \<Longrightarrow> n < limit \<Longrightarrow> parse_non_zero limit (show_nat n) = Inr n"
  by (simp add: parse_non_zero_def parse_unsigned_show)

fun app_name :: "server_app \<Rightarrow> string" where
  "app_name Echo = ''echo''"
| "app_name Shout = ''Shout''"

definition level_digit :: "log_level \<Rightarrow> string" where
  "level_digit lvl = show_nat (unat (level_to_u8 lvl))"

definition plain_ascii :: "char \<Rightarrow> bool" where
  "plain_ascii c \<longleftrightarrow> (of_char c :: nat) < 128 \<and> \<not> white_space (of_char c)"

lemma unat_of_char: "unat (of_char c :: u8) = of_char c"
proof -
  have "unat (word_of_nat (of_char c) :: u8) = of_char c" by (intro unat_of_nat_small) simp
  then show ?thesis by (simp only: of_nat_of_char)
qed

lemma utf8_decode_plain: "list_all plain_ascii s \<Longrightarrow> utf8_decode (map of_char s) = Some (map of_char s)"
proof (induction s)
  case (Cons c s)
  have u: "unat (of_char c :: u8) = of_char c" by (rule unat_of_char)
  then have "(of_char c :: u8) < 0x80" using Cons.prems by (simp add: word_less_nat_alt plain_ascii_def)
  then show ?case using Cons u by simp
qed simp

lemma trim_plain: "list_all plain_ascii s \<Longrightarrow> trim_chars (map of_char s) = map of_char s"
proof -
  assume s: "list_all plain_ascii s"
  have "dropWhile white_space xs = xs" if "list_all (\<lambda>c. \<not> white_space c) xs" for xs
    using that by (cases xs) simp_all
  moreover have "list_all (\<lambda>c. \<not> white_space c) (map of_char s)"
    "list_all (\<lambda>c. \<not> white_space c) (rev (map of_char s))"
    using s by (auto simp: list_all_iff plain_ascii_def)
  ultimately show ?thesis by (simp add: trim_chars_def)
qed

lemma utf8_encode_plain: "list_all plain_ascii s \<Longrightarrow> concat (map utf8_encode (map of_char s)) = s"
  by (induction s) (simp_all add: plain_ascii_def utf8_encode_def)

lemma str_trim_plain: "list_all plain_ascii s \<Longrightarrow> str_trim s = s"
  using utf8_encode_plain by (simp add: str_trim_def utf8_decode_plain trim_plain)

lemmas char_eval = char_of_def bit_Suc bit_0

lemma app_from_name: "server_app_from_str (app_name app) = Inr app"
  by (cases app)
    (simp_all add: server_app_from_str_def char_lower_def str_trim_plain plain_ascii_def white_space_def char_eval)

lemma level_from_digit: "log_level_from_str (level_digit lvl) = Inr lvl"
  by (cases lvl)
    (simp_all add: log_level_from_str_def level_digit_def str_trim_plain plain_ascii_def white_space_def
      show_nat.simps char_eval Let_def)

text \<open>An environment in which each variable is absent or shows a value.\<close>

definition env_opt :: "('a \<Rightarrow> string) \<Rightarrow> 'a option \<Rightarrow> env_var" where
  "env_opt sh opt = (case opt of None \<Rightarrow> NotPresent | Some x \<Rightarrow> Present (sh x))"

record settings =
  set_tun :: "string option"
  set_workers :: "nat option"
  set_app :: "server_app option"
  set_rto_millis :: "nat option"
  set_retransmits :: "nat option"
  set_grace_secs :: "nat option"
  set_level :: "log_level option"

definition env_of :: "settings \<Rightarrow> string \<Rightarrow> env_var" where
  "env_of st key =
     (if key = ''TYPENET_TUN_NAME'' then env_opt id (set_tun st)
      else if key = ''TYPENET_WORKERS'' then env_opt show_nat (set_workers st)
      else if key = ''TYPENET_APP'' then env_opt app_name (set_app st)
      else if key = ''TYPENET_INIT_RTO_MILLIS'' then env_opt show_nat (set_rto_millis st)
      else if key = ''TYPENET_MAX_RETRANSMITS'' then env_opt show_nat (set_retransmits st)
      else if key = ''TYPENET_GRACE_SECS'' then env_opt show_nat (set_grace_secs st)
      else if key = ''TYPENET_LOG_LEVEL'' then env_opt level_digit (set_level st)
      else NotPresent)"

lemma parse_env_opt:
  "(\<And>x. opt = Some x \<Longrightarrow> parse (sh x) = Inr x) \<Longrightarrow> parse_env key t parse (env_opt sh opt) = Inr opt"
  by (cases opt) (simp_all add: parse_env_def env_opt_def)

text \<open>
  A configuration written to the environment is loaded back: every variable that is present
  gives its value, every other one its default.
\<close>

theorem config_roundtrip:
  assumes "\<And>n. set_workers st = Some n \<Longrightarrow> 0 < n \<and> n < 18446744073709551616"
    and "\<And>n. set_rto_millis st = Some n \<Longrightarrow> n < 18446744073709551616"
    and "\<And>n. set_retransmits st = Some n \<Longrightarrow> n < 256"
    and "\<And>n. set_grace_secs st = Some n \<Longrightarrow> n < 18446744073709551616"
    and "set_workers st \<noteq> None \<or> parallelism \<noteq> None"
  shows "config_load debug parallelism (env_of st) = Inr
    \<lparr>tun_name = unwrap_or (set_tun st) ''tun0'',
     worker_count = unwrap_or (set_workers st) (the parallelism),
     config_app = unwrap_or (set_app st) Echo,
     config_initial_rto = unwrap_or (set_rto_millis st) (if debug then 250 else 1000) * 1000000,
     config_max_retries = word_of_nat (unwrap_or (set_retransmits st) 15),
     config_grace_period = unwrap_or (set_grace_secs st) (if debug then 5 else 60) * 1000000000,
     config_log_level = unwrap_or (set_level st) PktFull\<rparr>"
proof -
  have count: "ok_or (case set_workers st of None \<Rightarrow> parallelism | Some n \<Rightarrow> Some n) e =
      Inr (unwrap_or (set_workers st) (the parallelism))" for e
    using assms(5) by (auto simp: unwrap_or_def split: option.split)
  have env: "env_of st ''TYPENET_TUN_NAME'' = env_opt id (set_tun st)"
    "env_of st ''TYPENET_WORKERS'' = env_opt show_nat (set_workers st)"
    "env_of st ''TYPENET_APP'' = env_opt app_name (set_app st)"
    "env_of st ''TYPENET_INIT_RTO_MILLIS'' = env_opt show_nat (set_rto_millis st)"
    "env_of st ''TYPENET_MAX_RETRANSMITS'' = env_opt show_nat (set_retransmits st)"
    "env_of st ''TYPENET_GRACE_SECS'' = env_opt show_nat (set_grace_secs st)"
    "env_of st ''TYPENET_LOG_LEVEL'' = env_opt level_digit (set_level st)"
    by (simp_all add: env_of_def)
  show ?thesis
    unfolding config_load_def env
    using assms(1-4)
    by (simp add: parse_env_opt parse_non_zero_show parse_unsigned_show app_from_name level_from_digit
        shown_error_def count duration_from_millis_def duration_from_secs_def default_app_def default_level_def)
qed

theorem config_roundtrip_witness:
  "config_load False (Some 8) (env_of \<lparr>set_tun = None, set_workers = Some 4, set_app = Some Shout,
     set_rto_millis = None, set_retransmits = Some 7, set_grace_secs = Some 30, set_level = None\<rparr>) = Inr
     \<lparr>tun_name = ''tun0'', worker_count = 4, config_app = Shout, config_initial_rto = 1000000000,
      config_max_retries = 7, config_grace_period = 30000000000, config_log_level = PktFull\<rparr>"
  by (subst config_roundtrip) (simp_all add: unwrap_or_def)

end
