(* ===== verification/Server.thy ===== *)
theory Server
  imports Poll Server_Config
begin

text \<open>
  \<open>server/src/server.rs\<close>: the loop of a worker. A \<open>turn\<close> is what the environment does during one
  round of the loop: the result of polling (a function of the timeout and of whether the shutdown
  descriptor is watched), the result of reading the device (the buffer it leaves and the number of
  bytes), the shutdown flag, the readings of the clock and what \<open>/dev/urandom\<close> returns. \<open>server_run\<close>
  runs the loop over a list of turns and returns what it breaks with, or \<open>None\<close> if it is still
  running after them. The device accepts or refuses a write as \<open>device_error\<close> says; \<open>sent\<close> records
  the packets whose write succeeded.
\<close>

record world =
  console_of :: console
  unicode_of :: unicode
  device_error :: "bytes list \<Rightarrow> bytes \<Rightarrow> io_error option"

record turn =
  poll_result :: "duration option \<Rightarrow> bool \<Rightarrow> io_error + poll_outcome"
  read_result :: "io_error + bytes \<times> nat"
  shutdown_flag :: bool
  poll_now :: instant
  poll_later :: instant
  turn_now :: instant
  engine_now :: instant
  engine_later :: instant
  turn_urandom :: "io_error + bytes"

record server =
  write_buf :: bytes
  engine_of :: "server_app engine"
  logger_of :: logger
  draining :: bool
  sent :: "bytes list"

section \<open>Writing packets\<close>

definition with_logger :: "(logger \<Rightarrow> (logger, unit) stateful) \<Rightarrow> server \<Rightarrow> (server, unit) stateful" where
  "with_logger f self = (let (l, r) = f (logger_of self) in (self\<lparr>logger_of := l\<rparr>, r))"

text \<open>
  When \<open>write_packet\<close> fails the buffer may be partly overwritten, but every caller then ends the
  loop, so the model keeps the buffer.
\<close>

definition send_pkt :: "world \<Rightarrow> out_packet \<Rightarrow> server \<Rightarrow> (server, unit) stateful" where
  "send_pkt w outgoing self =
     run_then (self, write_packet outgoing (write_buf self)) (\<lambda>self buf.
     let self = self\<lparr>write_buf := buf\<rparr> in
     run_then (self, try_get buf (RangeTo (unat (packet_total_len outgoing)))) (\<lambda>self bs.
     case device_error w (sent self) bs of
       Some e \<Rightarrow> (self, Inl (Err (Io e)))
     | None \<Rightarrow> (self\<lparr>sent := sent self @ [bs]\<rparr>, Inr ())))"

text \<open>The two loops that send packets not in reply to one: each packet is sent, then logged.\<close>

fun transmit :: "world \<Rightarrow> bool \<Rightarrow> out_packet result list \<Rightarrow> server \<Rightarrow> (server, unit) stateful" where
  "transmit w retransmission [] self = (self, Inr ())"
| "transmit w retransmission (r # rs) self =
     run_then (self, r) (\<lambda>self pkt.
     run_then (send_pkt w pkt self) (\<lambda>self _.
     run_then
       (with_logger (non_reply_transmission (console_of w) (unicode_of w) pkt retransmission) self) (\<lambda>self _.
     transmit w retransmission rs self)))"

section \<open>Shutdown\<close>

text \<open>The value \<open>True\<close> means that the loop is to end now.\<close>

definition handle_shutdown_interrupt :: "world \<Rightarrow> turn \<Rightarrow> server \<Rightarrow> (server, bool) stateful" where
  "handle_shutdown_interrupt w t self =
     (let self = self\<lparr>draining := True\<rparr>;
          (eng, r) = handle_shutdown (engine_now t) (turn_now t) (engine_of self)
      in run_then (self\<lparr>engine_of := eng\<rparr>, r) (\<lambda>self outcome.
         case outcome of
           AlreadyDraining time_left \<Rightarrow>
             run_then (with_logger (server_info (console_of w)
               (''Draining connections, '' @ show_nat (time_left div 1000000000) @ ''.'' @
                show_padded 3 (time_left mod 1000000000 div 1000000) @ ''s left'')) self)
               (\<lambda>self _. (self, Inr False))
         | BeganDraining to_send \<Rightarrow>
             run_then (with_logger (server_info (console_of w)
               ''Shutdown signal received, closing established connections...'') self) (\<lambda>self _.
             run_then (transmit w False (map Inr to_send) self) (\<lambda>self _. (self, Inr False)))
         | NoConnections \<Rightarrow>
             run_then (with_logger (server_info (console_of w)
               ''Shutdown signal received with no established connections, exiting'') self)
               (\<lambda>self _. (self, Inr True))))"

definition check_shutdown :: "world \<Rightarrow> turn \<Rightarrow> server \<Rightarrow> (server, bool) stateful" where
  "check_shutdown w t self =
     (if shutdown_flag t then handle_shutdown_interrupt w t self else (self, Inr False))"

section \<open>The loop\<close>

definition handle_read :: "world \<Rightarrow> turn \<Rightarrow> bytes \<Rightarrow> server \<Rightarrow> (server, unit) stateful" where
  "handle_read w t data self =
     (let (eng, r) = handle_packet server_app_ops (engine_now t) (turn_urandom t) data (engine_of self);
          self = self\<lparr>engine_of := eng\<rparr>
      in case r of
           Inl Panic \<Rightarrow> (self, Inl Panic)
         | Inl (Err e) \<Rightarrow>
             (self\<lparr>logger_of := pkt_err (console_of w) (display_error e) (logger_of self)\<rparr>, Inr ())
         | Inr outcome \<Rightarrow>
             run_then (case outcome_reply outcome of None \<Rightarrow> (self, Inr ()) | Some reply \<Rightarrow> send_pkt w reply self)
               (\<lambda>self _. with_logger (exchange (console_of w) (unicode_of w) outcome) self))"

definition handle_readable :: "world \<Rightarrow> turn \<Rightarrow> bool \<Rightarrow> server \<Rightarrow> (server, bool) stateful" where
  "handle_readable w t both self =
     (case read_result t of
        Inl e \<Rightarrow> if io_error_kind e = Interrupted then check_shutdown w t self else (self, Inl (Err (Io e)))
      | Inr (buf, n) \<Rightarrow>
          run_then (self, try_get buf (RangeTo n)) (\<lambda>self data.
          run_then (handle_read w t data self) (\<lambda>self _.
          run_then (if both then check_shutdown w t self else (self, Inr False)) (\<lambda>self stop.
          if stop then (self, Inr True)
          else if draining_complete (engine_of self) then
            run_then (with_logger (server_info (console_of w)
              ''All connections closed within grace period, exiting'') self) (\<lambda>self _. (self, Inr True))
          else (self, Inr False)))))"

definition handle_timeout :: "world \<Rightarrow> turn \<Rightarrow> server \<Rightarrow> (server, bool) stateful" where
  "handle_timeout w t self =
     (if grace_period_elapsed (turn_now t) (engine_of self) then
        run_then (with_logger (server_info (console_of w)
          (''Grace period elapsed with '' @ show_nat (connection_count (engine_of self)) @
           '' remaining connection(s), exiting'')) self) (\<lambda>self _. (self, Inr True))
      else
        let (pkts, eng) = engine_make_retransmissions (engine_now t) (engine_later t) (engine_of self)
        in run_then (transmit w True pkts (self\<lparr>engine_of := eng\<rparr>)) (\<lambda>self _. (self, Inr False)))"

text \<open>One round of the loop: \<open>Inr True\<close> is \<open>break Ok(())\<close>.\<close>

definition server_step :: "world \<Rightarrow> turn \<Rightarrow> server \<Rightarrow> (server, bool) stateful" where
  "server_step w t self =
     (case poll_result t (poll_timeout (poll_later t) (poll_now t) (engine_of self)) (\<not> draining self) of
        Inl e \<Rightarrow>
          if io_error_kind e = Interrupted
          then check_shutdown w t (self\<lparr>logger_of := server_newline (logger_of self)\<rparr>)
          else (self, Inl (Err (Io e)))
      | Inr Shutdown \<Rightarrow> check_shutdown w t self
      | Inr Timeout \<Rightarrow> handle_timeout w t self
      | Inr Readable \<Rightarrow> handle_readable w t False self
      | Inr Both \<Rightarrow> handle_readable w t True self)"

fun server_run :: "world \<Rightarrow> turn list \<Rightarrow> server \<Rightarrow> server \<times> unit result option" where
  "server_run w [] self = (self, None)"
| "server_run w (t # ts) self =
     (case server_step w t self of
        (self, Inl e) \<Rightarrow> (self, Some (Inl e))
      | (self, Inr True) \<Rightarrow> (self, Some (Inr ()))
      | (self, Inr False) \<Rightarrow> server_run w ts self)"

text \<open>The function \<open>run\<close>; the logger is dropped when it returns.\<close>

definition server_new :: "config \<Rightarrow> logger \<Rightarrow> server" where
  "server_new cfg l =
     \<lparr>write_buf = replicate 1500 0,
      engine_of = engine_new (config_app cfg) (config_initial_rto cfg) (config_max_retries cfg) (config_grace_period cfg),
      logger_of = l, draining = False, sent = []\<rparr>"

definition run :: "world \<Rightarrow> config \<Rightarrow> instant \<Rightarrow> nat \<Rightarrow> turn list \<Rightarrow> server \<times> unit result option" where
  "run w cfg started wid ts =
     (let (l, r) = server_info (console_of w)
            (''Waiting for packets on TUN device '' @ tun_name cfg @ '' (Ctrl+C to stop)'')
            (logger_new (config_log_level cfg) started wid);
          (self, result) = (case r of Inl e \<Rightarrow> (server_new cfg l, Some (Inl e)) | Inr _ \<Rightarrow> server_run w ts (server_new cfg l))
      in (if result = None then self else self\<lparr>logger_of := logger_drop (console_of w) (logger_of self)\<rparr>, result))"

end
