(* ===== verification/Server_Invariant.thy ===== *)
theory Server_Invariant
  imports Server Engine_Properties
begin

text \<open>
  The invariant of a worker's loop: the engine only takes its own steps, every packet handed out can
  be written, and what is written is valid. The relation \<open>serves\<close> is one turn of the loop.
\<close>

section \<open>The invariant of the loop\<close>

text \<open>A packet the engine hands out: a router that can be encoded, under the header built for it.\<close>

definition good_packet :: "out_packet \<Rightarrow> bool" where
  "good_packet p \<longleftrightarrow> router_wf (router p) \<and> packet_of_router (router p) = Inr p"

definition valid_on_wire :: "bytes \<Rightarrow> bool" where
  "valid_on_wire bs \<longleftrightarrow> length bs \<le> 1500 \<and>
     (\<exists>p. bs = packet_encoding p \<and> router_wf (router p) \<and> unat (packet_total_len p) = length bs)"

definition server_inv :: "server \<Rightarrow> bool" where
  "server_inv self \<longleftrightarrow> length (write_buf self) = 1500 \<and> connections_inv (connections (engine_of self)) \<and>
     list_all valid_on_wire (sent self) \<and> (shutdown_deadline (engine_of self) \<noteq> None \<longrightarrow> draining self)"

lemma packet_of_router_router: "packet_of_router r = Inr p \<Longrightarrow> router p = r"
  by (auto simp: packet_of_router_def and_then_Inr_iff)

lemma good_packet_of_router: "packet_of_router r = Inr p \<Longrightarrow> router_wf r \<Longrightarrow> good_packet p"
  using packet_of_router_router by (auto simp: good_packet_def)

lemma good_packet_try_from: "packet_try_from s = Inr p \<Longrightarrow> segment_wf s \<Longrightarrow> good_packet p"
  using good_packet_of_router [of "RouterTcp s" p] by (simp add: packet_try_from_eq)

lemma server_inv_logger [simp]: "server_inv (self\<lparr>logger_of := l\<rparr>) = server_inv self"
  by (simp add: server_inv_def)

lemma run_then_keeps:
  assumes "P (fst r)" and "\<And>s x. r = (s, Inr x) \<Longrightarrow> P s \<Longrightarrow> P (fst (f s x))"
  shows "P (fst (run_then r f))"
  using assms by (cases "(r, f)" rule: run_then.cases) auto

lemma with_logger_keeps: "server_inv self \<Longrightarrow> server_inv (fst (with_logger f self))"
  by (simp add: with_logger_def split_beta)

text \<open>What \<open>send_pkt\<close> does with a packet that fits, and with one that does not.\<close>

lemma send_pkt_fits:
  assumes "good_packet p" and "length (router_encoding (router p)) \<le> 1480" and "length (write_buf self) = 1500"
  shows "\<exists>buf. length buf = 1500 \<and> valid_on_wire (packet_encoding p) \<and> send_pkt w p self =
    (case device_error w (sent self) (packet_encoding p) of
       Some e \<Rightarrow> (self\<lparr>write_buf := buf\<rparr>, Inl (Err (Io e)))
     | None \<Rightarrow> (self\<lparr>write_buf := buf, sent := sent self @ [packet_encoding p]\<rparr>, Inr ()))"
proof -
  let ?buf = "packet_encoding p @ drop (length (packet_encoding p)) (write_buf self)"
  from assms(1) have p: "packet_of_router (router p) = Inr p" "router_wf (router p)" by (simp_all add: good_packet_def)
  have fits: "write_packet p (write_buf self) = Inr ?buf"
    "unat (packet_total_len p) = length (packet_encoding p)" "length (packet_encoding p) \<le> 1500"
    using write_packet_fits [OF p assms(2), of "write_buf self"] assms(3) by simp_all
  have "try_get ?buf (RangeTo (unat (packet_total_len p))) = Inr (packet_encoding p)"
    using fits(2) by (simp add: try_get_def in_bounds_def)
  moreover have "valid_on_wire (packet_encoding p)"
    using fits(2,3) p(2) unfolding valid_on_wire_def by blast
  moreover have "length ?buf = 1500" using fits(3) assms(3) by simp
  ultimately show ?thesis by (intro exI [of _ ?buf]) (simp add: send_pkt_def fits(1) split: option.split)
qed

lemma write_packet_too_long:
  assumes "router_wf (router p)" and "1480 < length (router_encoding (router p))" and "length buf = 1500"
  shows "\<exists>e. write_packet p buf = Inl (Err e)"
  using router.write_too_short [OF assms(1), of "drop 20 buf"] assms(2,3)
  by (auto simp: write_packet_def)

lemma send_pkt_too_long:
  assumes "good_packet p" and "1480 < length (router_encoding (router p))" and "length (write_buf self) = 1500"
  shows "\<exists>e. send_pkt w p self = (self, Inl (Err e))"
  using write_packet_too_long [of p "write_buf self"] assms by (auto simp: send_pkt_def good_packet_def)

lemma send_pkt_keeps:
  assumes "good_packet p" and "server_inv self"
  shows "server_inv (fst (send_pkt w p self))"
proof (cases "length (router_encoding (router p)) \<le> 1480")
  case True
  show ?thesis
    using send_pkt_fits [OF assms(1) True, of self w] assms(2)
    by (auto simp: server_inv_def split: option.splits)
next
  case False
  then show ?thesis
    using send_pkt_too_long [OF assms(1), of self w] assms(2) by (force simp: server_inv_def)
qed

lemma transmit_keeps:
  "(\<And>p. Inr p \<in> set rs \<Longrightarrow> good_packet p) \<Longrightarrow> server_inv self \<Longrightarrow> server_inv (fst (transmit w b rs self))"
proof (induction rs arbitrary: self)
  case (Cons r rs)
  show ?case
    unfolding transmit.simps
    by (intro run_then_keeps [where P = server_inv])
      (use Cons in \<open>auto intro: send_pkt_keeps with_logger_keeps\<close>)
qed simp

text \<open>Every packet the engine hands out is good.\<close>

lemma create_reply_good:
  assumes "create_reply ops now urandom pkt s = (s', Inr (Some p))"
  shows "good_packet p"
proof (cases "router pkt")
  case (RouterTcp seg)
  obtain s1 r where r: "create_tcp_reply ops now urandom seg s = (s1, r)" by fastforce
  with assms obtain reply where "r = Inr (Some reply)" "packet_of_router (RouterTcp reply) = Inr p"
    by (cases r) (auto simp: create_reply_def RouterTcp and_then_Inr_iff split: option.splits)
  then show ?thesis
    using create_tcp_reply_no_panic(2) [OF r] good_packet_of_router [of "RouterTcp reply" p] by simp
qed (use assms good_packet_of_router in \<open>auto simp: create_reply_def split_beta and_then_Inr_iff\<close>)

lemma handle_packet_good:
  assumes "handle_packet ops now urandom data self = (self', Inr outcome)" and "outcome_reply outcome = Some p"
  shows "good_packet p"
proof -
  obtain pkt s' where "create_reply ops now urandom pkt (engine_app self, connections self) = (s', Inr (Some p))"
    using assms by (auto simp: handle_packet_def run_then_cases split_beta Let_def split: sum.splits)
      (metis prod.collapse)
  then show ?thesis by (rule create_reply_good)
qed

lemma retransmissions_good:
  assumes "connections_inv (connections self)" and "engine_make_retransmissions now later self = (pkts, self')"
    and "Inr p \<in> set pkts"
  shows "good_packet p"
proof -
  obtain segs conns' where m: "make_retransmissions now later (connections self) = (segs, conns')" by fastforce
  have wf: "table_wf (connections self)" using assms(1) by (simp add: connections_inv_def)
  obtain s where s: "s \<in> set segs" "packet_try_from s = Inr p"
    using assms(2,3) by (auto simp: engine_make_retransmissions_def m)
  then obtain k conn q where "get_conn k (connections self) = Some conn" "q \<in> set (pending conn)"
    "s = segment_to k (pend_info q)"
    using make_retransmissions_spec(2) [OF wf m] by blast
  then have "segment_wf s"
    using connections_inv_get [OF assms(1)]
    by (auto simp: conn_inv_def send_inv_def pending_wf_def segment_wf_def segment_to_def from_pairs_and_info_def)
  with s(2) show ?thesis by (rule good_packet_try_from)
qed

lemma collect_results_set: "collect_results rs = Inr xs \<Longrightarrow> x \<in> set xs \<Longrightarrow> Inr x \<in> set rs"
  by (induction rs arbitrary: xs) (auto simp: and_then_Inr_iff)

lemma close_segment_wf:
  assumes "connections_inv conns" and "close_established at conns = (segs, conns')" and "s \<in> set segs"
  shows "segment_wf s"
proof -
  have wf: "table_wf conns" using assms(1) by (simp add: connections_inv_def)
  obtain k conn info conn' where "get_conn k conns = Some conn" "close_conn at conn = Some (info, conn')"
    "s = segment_to k info"
    using assms(3) close_segments [OF wf assms(2)] by blast
  then show ?thesis
    using close_conn_ok(3) connections_inv_get [OF assms(1)]
    by (fastforce simp: segment_wf_def segment_to_def from_pairs_and_info_def)
qed

lemma shutdown_good:
  assumes "connections_inv (connections self)"
    and "handle_shutdown at now self = (self', Inr (BeganDraining to_send))" and "p \<in> set to_send"
  shows "good_packet p"
proof -
  obtain segs conns' where c: "close_established at (connections self) = (segs, conns')" by fastforce
  have "collect_results (map packet_try_from segs) = Inr to_send"
    using assms(2) by (auto simp: handle_shutdown_def c run_then_cases Let_def split: option.splits sum.splits if_splits)
  then have "Inr p \<in> set (map packet_try_from segs)" using assms(3) by (rule collect_results_set)
  then obtain s where "s \<in> set segs" "Inr p = packet_try_from s" by auto
  then show ?thesis using close_segment_wf [OF assms(1) c] good_packet_try_from by metis
qed

text \<open>A turn that reads no TCP segment which acknowledges the antipode of its connection's SND.UNA.\<close>

definition placeable_turn :: "turn \<Rightarrow> server \<Rightarrow> bool" where
  "placeable_turn t self \<longleftrightarrow> (\<forall>buf n data. read_result t = Inr (buf, n) \<longrightarrow>
     try_get buf (RangeTo n) = Inr data \<longrightarrow> placeable_packet (engine_of self) data)"

lemma handle_packet_keeps:
  "connections_inv (connections self) \<Longrightarrow> placeable_packet self data \<Longrightarrow>
   connections_inv (connections (fst (handle_packet ops now urand data self)))"
  by (rule engine_step_inv [of ops self]) (rule engine_step.packet)

text \<open>A deadline, once set, stays, and only a shutdown signal sets it.\<close>

lemma handle_packet_deadline: "shutdown_deadline (fst (handle_packet ops now urand data self)) = shutdown_deadline self"
  by (simp add: handle_packet_def run_then_cases split_beta Let_def split: sum.splits)

lemma retransmissions_deadline:
  "shutdown_deadline (snd (engine_make_retransmissions now later self)) = shutdown_deadline self"
  by (simp add: engine_make_retransmissions_def split_beta)

lemma handle_shutdown_deadline:
  "shutdown_deadline self = Some d \<Longrightarrow> handle_shutdown at now self = (self, Inr (AlreadyDraining (d - now)))"
  by (simp add: handle_shutdown_def)

lemma handle_read_keeps:
  assumes inv: "server_inv self" and place: "placeable_packet (engine_of self) data"
  shows "server_inv (fst (handle_read w t data self))"
proof -
  obtain eng r where h: "handle_packet server_app_ops (engine_now t) (turn_urandom t) data (engine_of self) = (eng, r)"
    by fastforce
  have "connections_inv (connections (engine_of self))" using inv by (simp add: server_inv_def)
  from handle_packet_keeps [OF this place] have "connections_inv (connections eng)" by (metis fst_conv h)
  moreover have "shutdown_deadline eng = shutdown_deadline (engine_of self)"
    using handle_packet_deadline by (metis fst_conv h)
  ultimately have inv': "server_inv (self\<lparr>engine_of := eng\<rparr>)" using inv by (simp add: server_inv_def)
  show ?thesis
  proof (cases r)
    case (Inl e)
    then show ?thesis using inv' by (cases e) (simp_all add: handle_read_def h)
  next
    case (Inr outcome)
    have "server_inv (fst (case outcome_reply outcome of None \<Rightarrow> (self\<lparr>engine_of := eng\<rparr>, Inr ())
        | Some reply \<Rightarrow> send_pkt w reply (self\<lparr>engine_of := eng\<rparr>)))"
      using inv' handle_packet_good [OF h [unfolded Inr]]
      by (auto intro: send_pkt_keeps split: option.split)
    then show ?thesis
      by (simp add: handle_read_def h Inr Let_def)
        (intro run_then_keeps [where P = server_inv] with_logger_keeps, simp_all)
  qed
qed

lemma handle_shutdown_interrupt_keeps:
  assumes "server_inv self"
  shows "server_inv (fst (handle_shutdown_interrupt w t self))"
proof -
  obtain eng r where h: "handle_shutdown (engine_now t) (turn_now t) (engine_of self) = (eng, r)" by fastforce
  have inv: "connections_inv (connections (engine_of self))" using assms by (simp add: server_inv_def)
  have "engine_step server_app_ops (engine_of self) (fst (handle_shutdown (engine_now t) (turn_now t) (engine_of self)))"
    by (rule engine_step.shutdown)
  then have "connections_inv (connections eng)" using engine_step_inv [OF _ inv] by (metis fst_conv h)
  then have inv': "server_inv (self\<lparr>draining := True, engine_of := eng\<rparr>)" using assms by (simp add: server_inv_def)
  show ?thesis
  proof (cases r)
    case (Inl e)
    then show ?thesis using inv' by (simp add: handle_shutdown_interrupt_def h)
  next
    case (Inr outcome)
    have good: "outcome = BeganDraining ps \<Longrightarrow> p \<in> set ps \<Longrightarrow> good_packet p" for ps p
      using shutdown_good [OF inv] h Inr by blast
    show ?thesis
      using inv' good
      by (cases outcome)
        (auto simp: handle_shutdown_interrupt_def h Inr Let_def
          intro!: run_then_keeps [where P = server_inv] with_logger_keeps transmit_keeps)
  qed
qed

lemma check_shutdown_keeps: "server_inv self \<Longrightarrow> server_inv (fst (check_shutdown w t self))"
  by (simp add: check_shutdown_def handle_shutdown_interrupt_keeps)

lemma handle_readable_keeps:
  assumes "server_inv self" and "placeable_turn t self"
  shows "server_inv (fst (handle_readable w t both self))"
proof (cases "read_result t")
  case (Inl e)
  then show ?thesis using assms(1) by (simp add: handle_readable_def check_shutdown_keeps)
next
  case (Inr bn)
  obtain buf n where bn: "bn = (buf, n)" by fastforce
  show ?thesis
    unfolding handle_readable_def Inr bn
    using assms(2) Inr bn
    by (simp, intro run_then_keeps [where P = server_inv])
      (auto simp: placeable_turn_def assms(1) intro!: handle_read_keeps check_shutdown_keeps
        run_then_keeps [where P = server_inv] with_logger_keeps)
qed

lemma handle_timeout_keeps:
  assumes "server_inv self"
  shows "server_inv (fst (handle_timeout w t self))"
proof -
  obtain pkts eng where m: "engine_make_retransmissions (engine_now t) (engine_later t) (engine_of self) = (pkts, eng)"
    by fastforce
  have inv: "connections_inv (connections (engine_of self))" using assms by (simp add: server_inv_def)
  have "engine_step server_app_ops (engine_of self)
      (snd (engine_make_retransmissions (engine_now t) (engine_later t) (engine_of self)))"
    by (rule engine_step.retransmit)
  then have "connections_inv (connections eng)" using engine_step_inv [OF _ inv] by (metis snd_conv m)
  moreover have "shutdown_deadline eng = shutdown_deadline (engine_of self)"
    using retransmissions_deadline by (metis snd_conv m)
  ultimately have "server_inv (self\<lparr>engine_of := eng\<rparr>)" using assms by (simp add: server_inv_def)
  then show ?thesis
    using assms retransmissions_good [OF inv m]
    by (auto simp: handle_timeout_def m
        intro!: run_then_keeps [where P = server_inv] with_logger_keeps transmit_keeps)
qed

lemma server_step_keeps:
  "server_inv self \<Longrightarrow> placeable_turn t self \<Longrightarrow> server_inv (fst (server_step w t self))"
  by (auto simp: server_step_def check_shutdown_keeps handle_readable_keeps handle_timeout_keeps
      split: sum.split poll_outcome.split)

section \<open>What happens to the engine\<close>

lemma engine_with_logger [simp]: "engine_of (fst (with_logger f self)) = engine_of self"
  by (simp add: with_logger_def split_beta)

lemma engine_run_then [simp]:
  "(\<And>s x. engine_of (fst (f s x)) = engine_of s) \<Longrightarrow> engine_of (fst (run_then r f)) = engine_of (fst r)"
  by (cases "(r, f)" rule: run_then.cases) simp_all

lemma engine_send_pkt [simp]: "engine_of (fst (send_pkt w p self)) = engine_of self"
  by (auto simp: send_pkt_def run_then_cases Let_def split: sum.split option.split)

lemma engine_transmit [simp]: "engine_of (fst (transmit w b rs self)) = engine_of self"
proof (induction rs arbitrary: self)
  case (Cons r rs)
  show ?case
    unfolding transmit.simps
    by (intro run_then_keeps [where P = "\<lambda>s. engine_of s = engine_of self"]) (simp_all add: Cons.IH)
qed simp

lemma engine_handle_read:
  "engine_of (fst (handle_read w t data self)) =
   fst (handle_packet server_app_ops (engine_now t) (turn_urandom t) data (engine_of self))"
proof -
  obtain eng r where h: "handle_packet server_app_ops (engine_now t) (turn_urandom t) data (engine_of self) = (eng, r)"
    by fastforce
  show ?thesis
  proof (cases r)
    case (Inl e)
    then show ?thesis by (cases e) (simp_all add: handle_read_def h)
  next
    case (Inr outcome)
    then show ?thesis
      by (simp add: handle_read_def h Let_def split: option.split)
  qed
qed

lemma engine_handle_shutdown_interrupt:
  "engine_of (fst (handle_shutdown_interrupt w t self)) =
   fst (handle_shutdown (engine_now t) (turn_now t) (engine_of self))"
proof -
  obtain eng r where h: "handle_shutdown (engine_now t) (turn_now t) (engine_of self) = (eng, r)" by fastforce
  show ?thesis
  proof (cases r)
    case (Inr outcome)
    then show ?thesis
      by (cases outcome)
        (auto simp: handle_shutdown_interrupt_def h Let_def
          intro!: run_then_keeps [where P = "\<lambda>s. engine_of s = eng"])
  qed (simp add: handle_shutdown_interrupt_def h)
qed

lemma engine_handle_timeout:
  "engine_of (fst (handle_timeout w t self)) =
   (if grace_period_elapsed (turn_now t) (engine_of self) then engine_of self
    else snd (engine_make_retransmissions (engine_now t) (engine_later t) (engine_of self)))"
  by (auto simp: handle_timeout_def split_beta Let_def
      intro!: run_then_keeps [where P = "\<lambda>s. engine_of s = snd (engine_make_retransmissions (engine_now t) (engine_later t) (engine_of self))"]
        run_then_keeps [where P = "\<lambda>s. engine_of s = engine_of self"])

text \<open>The engine only takes steps of its own step relation.\<close>

abbreviation engine_steps :: "server_app engine \<Rightarrow> server_app engine \<Rightarrow> bool" where
  "engine_steps \<equiv> (engine_step server_app_ops)\<^sup>*\<^sup>*"

lemma check_shutdown_steps: "engine_steps (engine_of self) (engine_of (fst (check_shutdown w t self)))"
  by (auto simp: check_shutdown_def engine_handle_shutdown_interrupt intro: engine_step.shutdown)

lemma handle_readable_steps:
  assumes "placeable_turn t self"
  shows "engine_steps (engine_of self) (engine_of (fst (handle_readable w t both self)))"
proof (cases "read_result t")
  case (Inl e)
  then show ?thesis by (simp add: handle_readable_def check_shutdown_steps)
next
  case (Inr bn)
  obtain buf n where bn: "bn = (buf, n)" by fastforce
  have "engine_steps (engine_of self) (engine_of (fst (handle_read w t data self)))"
    if "try_get buf (RangeTo n) = Inr data" for data
    using assms Inr bn that
    by (auto simp: engine_handle_read placeable_turn_def intro!: r_into_rtranclp engine_step.packet)
  moreover have "engine_steps (engine_of x) (engine_of (fst (if both then check_shutdown w t x else (x, Inr False))))" for x
    by (simp add: check_shutdown_steps)
  ultimately show ?thesis
    unfolding handle_readable_def Inr bn
    by (simp, intro run_then_keeps [where P = "\<lambda>s. engine_steps (engine_of self) (engine_of s)"])
      (auto intro: rtranclp_trans)
qed

lemma server_step_steps:
  "placeable_turn t self \<Longrightarrow> engine_steps (engine_of self) (engine_of (fst (server_step w t self)))"
  using check_shutdown_steps [of "self\<lparr>logger_of := server_newline (logger_of self)\<rparr>" w t]
  by (auto simp: server_step_def check_shutdown_steps handle_readable_steps engine_handle_timeout
      intro: engine_step.retransmit split: sum.split poll_outcome.split)

text \<open>A deadline that is set stays.\<close>

lemma engine_step_deadline:
  assumes "engine_step ops eng eng'" and "shutdown_deadline eng = Some d"
  shows "shutdown_deadline eng' = Some d"
  using assms(1)
  by (cases rule: engine_step.cases)
    (simp_all add: assms(2) handle_packet_deadline retransmissions_deadline handle_shutdown_deadline)

section \<open>What the device is given\<close>

inductive serves :: "world \<Rightarrow> server \<Rightarrow> server \<Rightarrow> bool" for w where
  turn: "placeable_turn t self \<Longrightarrow> serves w self (fst (server_step w t self))"

lemma server_inv_new: "server_inv (server_new cfg l)"
  by (simp add: server_inv_def server_new_def engine_new_def connections_inv_new)

lemma serves_inv: "(serves w)\<^sup>*\<^sup>* (server_new cfg l) self \<Longrightarrow> server_inv self"
proof (induction rule: rtranclp_induct)
  case base
  show ?case by (rule server_inv_new)
next
  case (step self self')
  from step.hyps(2) show ?case by (cases rule: serves.cases) (simp add: step.IH server_step_keeps)
qed

lemma valid_on_wire_parses:
  assumes "valid_on_wire bs"
  shows "length bs \<le> 1500" and "\<exists>hdr r. (inner_parse_ipv4 bs :: (dir_out ipv4_header \<times> bytes) result) =
    Inr (hdr, router_encoding r) \<and> router_wf r \<and> unat (total_len hdr) = length bs"
  using assms inner_parse_ipv4_encoding
  by (auto simp: valid_on_wire_def packet_encoding_def packet_total_len_def)

section \<open>Packets that do not end the loop\<close>

text \<open>A world in which the console and the device accept what they are given.\<close>

definition willing :: "world \<Rightarrow> bool" where
  "willing w \<longleftrightarrow> (\<forall>s t. stdout_error (console_of w) s t = None) \<and> (\<forall>ps p. device_error w ps p = None)"

lemma flush_willing: "willing w \<Longrightarrow> snd (flush (console_of w) self) = Inr ()"
  by (simp add: willing_def flush_def)

lemma with_logger_willing:
  assumes "willing w"
  shows "snd (with_logger (exchange (console_of w) uni outcome) self) = Inr ()"
    "snd (with_logger (server_info (console_of w) msg) self) = Inr ()"
  using flush_willing [OF assms] by (simp_all add: with_logger_def split_beta exchange_def server_info_def Let_def)

text \<open>The payload of an IPv4 packet whose header is at least as long as the smallest one.\<close>

lemma parse_ipv4_payload:
  assumes "inner_parse_ipv4 data = Inr (hdr, payload)" and "5 \<le> unat (data ! 0 AND 0xF)"
  shows "length payload + 20 \<le> length data"
proof -
  have *: "payload = drop (unat (data ! 0 AND 0xF) * 4) data" "unat (data ! 0 AND 0xF) * 4 \<le> length data"
    using assms(1) by (auto simp: inner_parse_ipv4_def Let_def and_then_Inr_iff split: if_splits)
  then show ?thesis using assms(2) by simp
qed

lemma parse_packet_lengths:
  assumes "parse_packet data = Inr pkt" and "5 \<le> unat (data ! 0 AND 0xF)"
  shows "router pkt = RouterIcmp m \<Longrightarrow> 28 + length (icmp_payload m) \<le> length data"
    and "router pkt = RouterUdp d \<Longrightarrow> 28 + length (udp_payload d) \<le> length data"
proof -
  obtain hdr payload where p: "parse_ipv4_header data = Inr (hdr, payload)"
    using assms(1) by (auto simp: parse_packet_def and_then_Inr_iff)
  have l: "length payload + 20 \<le> length data" by (rule parse_ipv4_payload [OF p assms(2)])
  show "router pkt = RouterIcmp m \<Longrightarrow> 28 + length (icmp_payload m) \<le> length data"
    using assms(1) l
    by (auto simp: parse_packet_def p and_then_Inr_iff parse_icmp_def Let_def split: protocol.splits if_splits)
  show "router pkt = RouterUdp d \<Longrightarrow> 28 + length (udp_payload d) \<le> length data"
    using assms(1) l
    by (auto simp: parse_packet_def p and_then_Inr_iff parse_udp_def Let_def split: protocol.splits if_splits)
qed

text \<open>Without random numbers only a new connection is refused.\<close>

lemma decide_reply_no_entropy:
  assumes "decide_reply ops now (Inl e) seg s = (s', Inr r)"
  shows "decide_reply ops now (Inr entropy) seg s = (s', Inr r)"
  using assms
  by (auto simp: decide_reply_def handle_unknown_conn_def random_u32_def split_beta Let_def
      split: option.splits if_splits)

lemma decide_reply_fits:
  assumes inv: "connections_inv conns" and wf: "segment_wf seg"
    and ack: "\<And>conn. get_conn (key_of seg) conns = Some conn \<Longrightarrow> ack_placeable conn seg"
    and d: "decide_reply ops now urand seg (app, conns) = (s', Inr (Some info))"
  shows "length (payload_bytes (info_payload info)) \<le> max_payload_len"
proof -
  obtain entropy where "decide_reply ops now (Inr entropy) seg (app, conns) = (s', Inr (Some info))"
    using d decide_reply_no_entropy by (cases urand) blast+
  then show ?thesis using decide_reply_total [OF inv wf ack, of ops now entropy app] by auto
qed

lemma server_app_udp_length: "length (snd (handle_udp server_app_ops app payload)) = length payload"
  by (cases app) (simp_all add: server_app_ops_def)

text \<open>A reply fits into an MTU when the packet's IPv4 header is well formed.\<close>

lemma create_reply_fits:
  assumes inv: "connections_inv (snd s)" and pkt: "parse_packet data = Inr pkt"
    and ihl: "5 \<le> unat (data ! 0 AND 0xF)" and len: "length data \<le> 1500"
    and ack: "\<And>seg conn. router pkt = RouterTcp seg \<Longrightarrow> get_conn (key_of seg) (snd s) = Some conn \<Longrightarrow> ack_placeable conn seg"
    and r: "create_reply server_app_ops now urand pkt s = (s', Inr (Some p))"
  shows "length (router_encoding (router p)) \<le> 1480"
proof (cases "router pkt")
  case (RouterIcmp m)
  have "router p = RouterIcmp (create_icmp_reply m)"
    using r packet_of_router_router by (auto simp: create_reply_def RouterIcmp and_then_Inr_iff)
  then show ?thesis using parse_packet_lengths(1) [OF pkt ihl RouterIcmp] len by (simp add: create_icmp_reply_def)
next
  case (RouterUdp d)
  have "router p = RouterUdp (snd (create_udp_reply server_app_ops (fst s) d))"
    using r packet_of_router_router by (auto simp: create_reply_def RouterUdp and_then_Inr_iff split_beta Let_def)
  then show ?thesis
    using parse_packet_lengths(2) [OF pkt ihl RouterUdp] len server_app_udp_length
    by (simp add: create_udp_reply_def split_beta)
next
  case (RouterTcp seg)
  obtain app conns where s: "s = (app, conns)" by fastforce
  obtain s1 d where d: "decide_reply server_app_ops now urand seg (app, conns) = (s1, d)" by fastforce
  with r obtain info where info: "d = Inr (Some info)"
      "packet_of_router (RouterTcp (from_pairs_and_info (ip_swapped (seg_ip_pair seg)) (port_swapped (seg_ports seg)) info)) = Inr p"
    by (cases d) (auto simp: create_reply_def create_tcp_reply_def s RouterTcp and_then_Inr_iff split: option.splits)
  have "length (payload_bytes (info_payload info)) \<le> max_payload_len"
    using decide_reply_fits [OF _ parse_packet_wf [OF pkt RouterTcp], of conns server_app_ops now urand app s1 info]
      inv ack RouterTcp d info(1) by (simp add: s)
  then show ?thesis
    using packet_of_router_router [OF info(2)] by (simp add: from_pairs_and_info_def max_payload_len_def)
qed

lemma handle_read_survives:
  assumes inv: "server_inv self" and w: "willing w" and place: "placeable_packet (engine_of self) data"
    and ihl: "5 \<le> unat (data ! 0 AND 0xF)" and len: "length data \<le> 1500"
  shows "snd (handle_read w t data self) = Inr ()"
proof -
  obtain eng r where h: "handle_packet server_app_ops (engine_now t) (turn_urandom t) data (engine_of self) = (eng, r)"
    by fastforce
  have no_panic: "r \<noteq> Inl Panic" using handle_packet_no_panic by (metis h snd_conv)
  have logged: "snd (with_logger (exchange (console_of w) uni outcome) x) = Inr ()" for uni outcome x
    by (rule with_logger_willing [OF w])
  show ?thesis
  proof (cases r)
    case (Inl e)
    then show ?thesis using no_panic by (cases e) (simp_all add: handle_read_def h)
  next
    case (Inr outcome)
    show ?thesis
    proof (cases "outcome_reply outcome")
      case None
      then show ?thesis by (simp add: handle_read_def h Inr Let_def logged)
    next
      case (Some p)
      obtain pkt s' where pkt: "parse_packet data = Inr pkt"
        "create_reply server_app_ops (engine_now t) (turn_urandom t) pkt
          (engine_app (engine_of self), connections (engine_of self)) = (s', Inr (Some p))"
        using h Inr Some by (auto simp: handle_packet_def run_then_cases split_beta Let_def split: sum.splits)
          (metis prod.collapse)
      have "length (router_encoding (router p)) \<le> 1480"
        using create_reply_fits [OF _ pkt(1) ihl len _ pkt(2)] inv place pkt(1)
        by (auto simp: server_inv_def placeable_packet_def)
      then obtain buf where "send_pkt w p (self\<lparr>engine_of := eng\<rparr>) =
          (self\<lparr>engine_of := eng, write_buf := buf, sent := sent self @ [packet_encoding p]\<rparr>, Inr ())"
        using send_pkt_fits [OF handle_packet_good [OF h [unfolded Inr] Some], of "self\<lparr>engine_of := eng\<rparr>" w] inv w
        by (auto simp: server_inv_def willing_def)
      then show ?thesis by (simp add: handle_read_def h Inr Some Let_def logged)
    qed
  qed
qed

section \<open>Examples\<close>

text \<open>A world that accepts everything, and a turn that reads a packet.\<close>

definition quiet_world :: world where
  "quiet_world = \<lparr>console_of = quiet_console, unicode_of = ascii_tables, device_error = (\<lambda>_ _. None)\<rparr>"

definition example_config :: config where
  "example_config = \<lparr>tun_name = ''tun0'', worker_count = 1, config_app = Echo, config_initial_rto = 1000000000,
     config_max_retries = 15, config_grace_period = 5000000000, config_log_level = PktFull\<rparr>"

definition example_server :: server where
  "example_server = server_new example_config (logger_new PktFull 0 0)"

definition example_turn :: "(duration option \<Rightarrow> bool \<Rightarrow> io_error + poll_outcome) \<Rightarrow> bytes \<Rightarrow> turn" where
  "example_turn poll data =
     \<lparr>poll_result = poll, read_result = Inr (data @ replicate (1500 - length data) 0, length data),
      shutdown_flag = False, poll_now = 1, poll_later = 1, turn_now = 9, engine_now = 3, engine_later = 4,
      turn_urandom = Inr [1, 2, 3, 4]\<rparr>"

lemma quiet_willing: "willing quiet_world"
  by (simp add: willing_def quiet_world_def quiet_console_def)

lemma example_server_simps [simp]:
  "get_conn k (connections (engine_of example_server)) = None" "shutdown_deadline (engine_of example_server) = None"
  "length (write_buf example_server) = 1500" "sent example_server = []" "draining example_server = False"
  by (simp_all add: example_server_def server_new_def engine_new_def connections_new_def get_conn_def)

lemma example_placeable: "placeable_packet (engine_of example_server) data"
  by (simp add: placeable_packet_def)

text \<open>The packet \<open>example_bytes\<close> belongs to no connection of the new server, which sends a RST.\<close>

lemma example_bytes_reply:
  "\<exists>eng outcome p. handle_packet server_app_ops now urand example_bytes (engine_of example_server) = (eng, Inr outcome) \<and>
    outcome_reply outcome = Some p \<and> good_packet p \<and> length (router_encoding (router p)) = 20"
proof -
  let ?pkt = "Ipv4Packet (Ipv4Header 42 Tcp (seg_ip_pair example_hi)) (RouterTcp example_hi) :: in_packet"
  let ?eng = "engine_of example_server"
  have d: "decide_reply server_app_ops now urand example_hi (engine_app ?eng, connections ?eng) =
      ((engine_app ?eng, connections ?eng), Inr (Some (rst example_hi)))"
    by (simp add: decide_reply_def handle_unknown_conn_def)
  have none: "info_payload (rst example_hi) = None" by (simp add: rst_def)
  then obtain p where p: "packet_try_from (segment_to (key_of example_hi) (rst example_hi)) = Inr p"
    using packet_try_from_fits [of "rst example_hi" "key_of example_hi"] by auto
  have "router p = RouterTcp (segment_to (key_of example_hi) (rst example_hi))"
    using packet_of_router_router p by (simp add: packet_try_from_eq)
  moreover have "good_packet p"
    by (rule good_packet_try_from [OF p]) (simp add: segment_wf_def segment_to_def from_pairs_and_info_def none)
  moreover have "handle_packet server_app_ops now urand example_bytes ?eng =
      (?eng\<lparr>engine_app := engine_app ?eng, connections := connections ?eng\<rparr>,
       Inr \<lparr>incoming = ?pkt, outcome_reply = map_option (\<lambda>_. p) (Some (rst example_hi))\<rparr>)"
    by (rule handle_packet_tcp [OF parse_example _ d]) (simp_all add: reply_pairs p del: key_of_example)
  ultimately show ?thesis by (simp add: segment_to_def from_pairs_and_info_def none)
qed

lemma example_reads: "\<exists>p. sent (fst (server_step quiet_world (example_turn (\<lambda>_ _. Inr Readable) example_bytes) example_server)) =
    [packet_encoding p]"
proof -
  let ?t = "example_turn (\<lambda>_ _. Inr Readable) example_bytes"
  obtain eng outcome p where h: "handle_packet server_app_ops (engine_now ?t) (turn_urandom ?t) example_bytes (engine_of example_server) = (eng, Inr outcome)"
    "outcome_reply outcome = Some p" "good_packet p" "length (router_encoding (router p)) = 20"
    using example_bytes_reply by blast
  have len: "length example_bytes = 42" by (simp add: example_bytes_def)
  obtain buf where s: "send_pkt quiet_world p (example_server\<lparr>engine_of := eng\<rparr>) =
      (example_server\<lparr>engine_of := eng, write_buf := buf, sent := [packet_encoding p]\<rparr>, Inr ())"
    using send_pkt_fits [OF h(3), of "example_server\<lparr>engine_of := eng\<rparr>" quiet_world] h(4)
    by (auto simp: quiet_world_def)
  have sent_logger [simp]: "sent (fst (with_logger f x)) = sent x" for f x
    by (simp add: with_logger_def split_beta)
  have "shutdown_deadline eng = None"
    using handle_packet_deadline [of server_app_ops "engine_now ?t" "turn_urandom ?t" example_bytes "engine_of example_server"]
    by (simp add: h(1))
  moreover have "sent (fst (handle_read quiet_world ?t example_bytes example_server)) = [packet_encoding p]"
    by (simp add: handle_read_def h(1,2) s Let_def)
  moreover have "engine_of (fst (handle_read quiet_world ?t example_bytes example_server)) = eng"
    by (simp add: engine_handle_read h(1))
  ultimately have "sent (fst (handle_readable quiet_world ?t False example_server)) = [packet_encoding p]"
    by (simp add: handle_readable_def example_turn_def try_get_def in_bounds_def len run_then_cases
        draining_complete_def split: sum.split)
  then have "sent (fst (server_step quiet_world ?t example_server)) = [packet_encoding p]"
    by (simp add: server_step_def) (simp add: example_turn_def)
  then show ?thesis by blast
qed

lemma example_serves:
  "serves quiet_world example_server
     (fst (server_step quiet_world (example_turn (\<lambda>_ _. Inr Readable) example_bytes) example_server))"
  by (rule serves.turn) (simp add: placeable_turn_def example_placeable)

end
