(* ===== verification/Server_Properties.thy ===== *)
theory Server_Properties
  imports Server_Invariant
begin

text \<open>
  Properties of a worker's loop: what it writes to the device, which packets cannot end it, when it
  ends after a shutdown signal, and what keeps it from ending or ends it too early.
\<close>

section \<open>Running\<close>

text \<open>
  C13: Whatever packets arrive and however the device, the console and the clock behave, every packet
  that a worker writes to the device fits into an MTU, has an IPv4 header whose checksum verifies and whose total
  length is the length of the packet, and carries the encoding of an ICMP message, a UDP
  datagram or a TCP segment. The turns are placeable: TCP segments that acknowledge the antipode of SND.UNA
  are excluded.
\<close>

theorem sent_packets_valid:
  assumes "(serves w)\<^sup>*\<^sup>* (server_new cfg l) self" and "bs \<in> set (sent self)"
  shows "length bs \<le> 1500 \<and> (\<exists>hdr r. (inner_parse_ipv4 bs :: (dir_out ipv4_header \<times> bytes) result) =
    Inr (hdr, router_encoding r) \<and> router_wf r \<and> unat (total_len hdr) = length bs)"
proof -
  have "valid_on_wire bs"
    using serves_inv [OF assms(1)] assms(2) by (auto simp: server_inv_def list_all_iff)
  then show ?thesis using valid_on_wire_parses by blast
qed

theorem sent_packets_valid_witness:
  "\<exists>self bs. (serves quiet_world)\<^sup>*\<^sup>* (server_new example_config (logger_new PktFull 0 0)) self \<and>
    bs \<in> set (sent self) \<and> length bs \<le> 1500"
proof -
  let ?self = "fst (server_step quiet_world (example_turn (\<lambda>_ _. Inr Readable) example_bytes) example_server)"
  obtain p where p: "sent ?self = [packet_encoding p]" using example_reads by blast
  have "(serves quiet_world)\<^sup>*\<^sup>* (server_new example_config (logger_new PktFull 0 0)) ?self"
    using example_serves unfolding example_server_def by (rule r_into_rtranclp)
  then show ?thesis using sent_packets_valid [of quiet_world _ _ ?self "packet_encoding p"] p by auto
qed

text \<open>
  C12: No packet with a well-formed IPv4 header ends the loop early: as long as the console and the
  device accept what they are given, and whether or not the worker is draining, a turn that reads
  any bytes, whether they parse or not, and is given no shutdown signal, ends without an error; it ends the loop
  only when a shutdown is under way and the packet leaves no connection in the course of closing, and
  otherwise the loop goes on to the next turn. TCP segments that acknowledge the antipode of SND.UNA,
  2^31 away, are excluded here and in the turns before.
\<close>

theorem server_survives_packets:
  assumes "(serves w)\<^sup>*\<^sup>* (server_new cfg l) self" and w: "willing w"
    and poll: "poll_result t (poll_timeout (poll_later t) (poll_now t) (engine_of self)) (\<not> draining self) = Inr Readable \<or>
      poll_result t (poll_timeout (poll_later t) (poll_now t) (engine_of self)) (\<not> draining self) = Inr Both \<and>
        \<not> shutdown_flag t"
    and read: "read_result t = Inr (buf, n)" "length buf = 1500" "n \<le> 1500"
    and ihl: "5 \<le> unat (take n buf ! 0 AND 0xF)"
    and place: "placeable_packet (engine_of self) (take n buf)"
  shows "case server_step w t self of (self', r) \<Rightarrow>
    (r = Inr True \<and> draining self \<and> \<not> closing_in_progress (connections (engine_of self')) \<or>
     r = Inr False \<and> (shutdown_deadline (engine_of self') = None \<or> closing_in_progress (connections (engine_of self'))))"
proof -
  have inv: "server_inv self" by (rule serves_inv [OF assms(1)])
  have data: "try_get buf (RangeTo n) = Inr (take n buf)" using read(2,3) by (simp add: try_get_def in_bounds_def)
  obtain self' r where h: "handle_read w t (take n buf) self = (self', r)" by fastforce
  have r: "r = Inr ()"
    using handle_read_survives [OF inv w place ihl, of t] read(2) by (simp add: h)
  have deadline: "shutdown_deadline (engine_of self') = shutdown_deadline (engine_of self)"
    using engine_handle_read [of w t "take n buf" self] by (simp add: h handle_packet_deadline)
  then have up: "shutdown_deadline (engine_of self') \<noteq> None \<Longrightarrow> draining self" using inv by (simp add: server_inv_def)
  have step: "server_step w t self =
      (if draining_complete (engine_of self') then
        run_then (with_logger (server_info (console_of w)
          ''All connections closed within grace period, exiting'') self') (\<lambda>self _. (self, Inr True))
       else (self', Inr False))"
    using poll by (auto simp: server_step_def handle_readable_def check_shutdown_def read(1) data h r)
  obtain x y where x: "with_logger (server_info (console_of w)
      ''All connections closed within grace period, exiting'') self' = (x, y)" by fastforce
  then have "y = Inr ()" "engine_of x = engine_of self'"
    using with_logger_willing(2) [OF w] engine_with_logger by (metis snd_conv, metis fst_conv)
  with x show ?thesis using up by (auto simp: step draining_complete_def)
qed

theorem server_survives_packets_witness:
  "snd (server_step quiet_world (example_turn (\<lambda>_ _. Inr Readable) example_bytes) example_server) = Inr False"
proof -
  have "case server_step quiet_world (example_turn (\<lambda>_ _. Inr Readable) example_bytes) example_server of (self', r) \<Rightarrow>
    (r = Inr True \<and> draining example_server \<and> \<not> closing_in_progress (connections (engine_of self')) \<or>
     r = Inr False \<and> (shutdown_deadline (engine_of self') = None \<or> closing_in_progress (connections (engine_of self'))))"
  proof (rule server_survives_packets [of quiet_world example_config "logger_new PktFull 0 0" example_server _
        "example_bytes @ replicate (1500 - length example_bytes) 0" "length example_bytes"])
    show "(serves quiet_world)\<^sup>*\<^sup>* (server_new example_config (logger_new PktFull 0 0)) example_server"
      by (simp add: example_server_def)
    show "5 \<le> unat (take (length example_bytes) (example_bytes @ replicate (1500 - length example_bytes) 0) ! 0 AND 0xF)"
      by (simp add: example_bytes_def)
  qed (simp_all add: quiet_willing example_turn_def example_placeable, simp_all add: example_bytes_def)
  then show ?thesis by (auto split: prod.splits)
qed

text \<open>
  C35: The wait for the next packet: with nothing pending and no deadline the worker polls without a
  timeout (-1) and there is nothing that could become due. Otherwise the number of milliseconds given to \<open>poll\<close> never
  reaches past the first moment \<open>now + d\<close> at which a segment is due or the grace period has elapsed, so no
  retransmission is late; it falls short of that moment by less than a millisecond, because it is rounded down, or
  is the greatest timeout \<open>poll\<close> takes. In the last fraction of a millisecond the timeout is 0 and
  nothing is due yet.
\<close>

theorem poll_wait_exact:
  assumes "table_wf (connections self)"
  shows "let wake = (\<lambda>t. grace_period_elapsed t self \<or>
      (\<exists>k conn p. get_conn k (connections self) = Some conn \<and> p \<in> set (pending conn) \<and>
                  is_due t later (connections self) p));
      ms = timeout_ms (poll_timeout later now self)
    in case poll_timeout later now self of
         None \<Rightarrow> ms = -1 \<and> (\<forall>t. \<not> wake t)
       | Some d \<Rightarrow> wake (now + d) \<and> (\<forall>t. now \<le> t \<and> t < now + d \<longrightarrow> \<not> wake t) \<and>
           0 \<le> ms \<and> ms \<le> 2147483647 \<and> ms * 1000000 \<le> int d \<and>
           (ms < 2147483647 \<longrightarrow> int d < (ms + 1) * 1000000)"
proof (cases "poll_timeout later now self")
  case None
  then show ?thesis using poll_timeout_exact [OF assms, of later now] by (simp add: Let_def timeout_ms_def)
next
  case (Some d)
  have "d div 1000000 * 1000000 \<le> d" "d < (d div 1000000 + 1) * 1000000"
    using dividend_less_times_div [of 1000000 d] by (simp_all add: algebra_simps)
  then have bounds: "0 \<le> timeout_ms (Some d)" "timeout_ms (Some d) \<le> 2147483647" "timeout_ms (Some d) * 1000000 \<le> int d"
    "timeout_ms (Some d) < 2147483647 \<longrightarrow> int d < (timeout_ms (Some d) + 1) * 1000000"
    by (auto simp: timeout_ms_def Let_def)
  show ?thesis
    using poll_timeout_exact [OF assms, of later now] bounds unfolding Some Let_def option.case by blast
qed

theorem poll_wait_exact_witness:
  "timeout_ms (poll_timeout 0 2 (example_engine\<lparr>shutdown_deadline := Some 1999999\<rparr>)) = 1 \<and>
   \<not> grace_period_elapsed 1999998 (example_engine\<lparr>shutdown_deadline := Some 1999999\<rparr>)"
proof -
  let ?e = "example_engine\<lparr>shutdown_deadline := Some 1999999\<rparr>"
  have p: "poll_timeout 0 2 ?e = Some 1999997"
    by (simp add: poll_timeout_def example_engine_def next_retransmit_deadline_def example_conns_def example_conn_def)
  have "table_wf (connections ?e)" by (simp add: example_engine_def example_conns_def table_wf_def)
  from poll_wait_exact [OF this, of 0 2] p show ?thesis by (auto simp: Let_def timeout_ms_def)
qed

text \<open>
  C24: A worker drives its engine only as the engine allows: from the start of the loop, any sequence
  of turns that reads no segment which acknowledges the antipode of its connection's SND.UNA, 2^31 away
  (the premise \<open>placeable_turn\<close> of \<open>serves\<close>), takes the engine through packets, retransmission
  passes and shutdown signals, the steps of \<open>engine_step\<close>; so its table satisfies the invariant, and
  the shutdown descriptor is no longer watched once a deadline is set.
\<close>

theorem server_refines_engine:
  assumes "(serves w)\<^sup>*\<^sup>* (server_new cfg l) self"
  shows "(engine_step server_app_ops)\<^sup>*\<^sup>*
      (engine_new (config_app cfg) (config_initial_rto cfg) (config_max_retries cfg) (config_grace_period cfg))
      (engine_of self) \<and>
    connections_inv (connections (engine_of self)) \<and>
    (shutdown_deadline (engine_of self) \<noteq> None \<longrightarrow> draining self)"
proof
  show "engine_steps (engine_new (config_app cfg) (config_initial_rto cfg) (config_max_retries cfg) (config_grace_period cfg))
      (engine_of self)"
    using assms
  proof (induction rule: rtranclp_induct)
    case base
    show ?case by (simp add: server_new_def)
  next
    case (step self self')
    from step.hyps(2) have "engine_steps (engine_of self) (engine_of self')"
      by (cases rule: serves.cases) (simp add: server_step_steps)
    with step.IH show ?case by (rule rtranclp_trans)
  qed
qed (use serves_inv [OF assms] in \<open>simp add: server_inv_def\<close>)

theorem server_refines_engine_witness:
  "connections_inv (connections (engine_of
     (fst (server_step quiet_world (example_turn (\<lambda>_ _. Inr Readable) example_bytes) example_server))))"
proof -
  have "(serves quiet_world)\<^sup>*\<^sup>* (server_new example_config (logger_new PktFull 0 0))
      (fst (server_step quiet_world (example_turn (\<lambda>_ _. Inr Readable) example_bytes) example_server))"
    using example_serves unfolding example_server_def by (rule r_into_rtranclp)
  from server_refines_engine [OF this] show ?thesis by blast
qed

section \<open>The end of the loop\<close>

lemma deadline_keeps_check:
  "shutdown_deadline (engine_of self) = Some d \<Longrightarrow> shutdown_deadline (engine_of (fst (check_shutdown w t self))) = Some d"
  by (simp add: check_shutdown_def engine_handle_shutdown_interrupt handle_shutdown_deadline)

lemma deadline_keeps_readable:
  assumes "shutdown_deadline (engine_of self) = Some d"
  shows "shutdown_deadline (engine_of (fst (handle_readable w t both self))) = Some d"
proof (cases "read_result t")
  case (Inl e)
  then show ?thesis using assms by (simp add: handle_readable_def deadline_keeps_check)
next
  case (Inr bn)
  obtain buf n where bn: "bn = (buf, n)" by fastforce
  have "shutdown_deadline (engine_of (fst (if both then check_shutdown w t x else (x, Inr False)))) = Some d"
    if "shutdown_deadline (engine_of x) = Some d" for x
    using that by (simp add: deadline_keeps_check)
  then show ?thesis
    unfolding handle_readable_def Inr bn
    by (simp, intro run_then_keeps [where P = "\<lambda>s. shutdown_deadline (engine_of s) = Some d"])
      (auto simp: assms engine_handle_read handle_packet_deadline)
qed

lemma deadline_keeps:
  "shutdown_deadline (engine_of self) = Some d \<Longrightarrow> shutdown_deadline (engine_of (fst (server_step w t self))) = Some d"
  by (auto simp: server_step_def deadline_keeps_check deadline_keeps_readable engine_handle_timeout
      retransmissions_deadline split: sum.split poll_outcome.split)

lemma step_after_grace:
  assumes "\<And>x b. poll_result t x b = Inr Timeout" and "shutdown_deadline (engine_of self) = Some d" "d \<le> turn_now t"
  shows "snd (server_step w t self) \<noteq> Inr False" "willing w \<Longrightarrow> snd (server_step w t self) = Inr True"
proof -
  have eq: "server_step w t self = run_then (with_logger (server_info (console_of w)
          (''Grace period elapsed with '' @ show_nat (connection_count (engine_of self)) @
           '' remaining connection(s), exiting'')) self) (\<lambda>self _. (self, Inr True))"
    using assms by (simp add: server_step_def handle_timeout_def grace_period_elapsed_def)
  show "snd (server_step w t self) \<noteq> Inr False" by (simp add: eq run_then_cases split: sum.split)
  show "willing w \<Longrightarrow> snd (server_step w t self) = Inr True"
    by (simp add: eq run_then_cases with_logger_willing)
qed

lemma server_run_step:
  "server_run w (t # ts) self = (case server_step w t self of (self', r) \<Rightarrow>
     if r = Inr False then server_run w ts self'
     else (self', Some (case r of Inl e \<Rightarrow> Inl e | Inr _ \<Rightarrow> Inr ())))"
  by (auto split: prod.split sum.split bool.split)

text \<open>
  C23: The grace period ends the loop: once a shutdown signal has set the deadline, the loop returns
  at the latest in the first turn whose poll times out after it, whatever happens in between; if
  the console accepts the last message it returns \<open>Ok\<close> there.
\<close>

theorem grace_period_ends_loop:
  assumes "shutdown_deadline (engine_of self) = Some d"
    and "\<And>x b. poll_result t x b = Inr Timeout" and "d \<le> turn_now t"
  shows "(\<exists>r. snd (server_run w (before @ t # after) self) = Some r) \<and>
    (willing w \<longrightarrow> snd (server_run w (t # after) self) = Some (Inr ()))"
proof
  show "\<exists>r. snd (server_run w (before @ t # after) self) = Some r"
    using assms(1)
  proof (induction before arbitrary: self)
    case Nil
    then show ?case
      using step_after_grace(1) [OF assms(2) Nil assms(3), of w]
      by (auto simp: server_run_step split: prod.split simp del: server_run.simps)
  next
    case (Cons u before)
    then show ?case
      using deadline_keeps [OF Cons.prems, of w u] Cons.IH [of "fst (server_step w u self)"]
      by (cases "server_step w u self") (simp add: server_run_step del: server_run.simps)
  qed
  show "willing w \<longrightarrow> snd (server_run w (t # after) self) = Some (Inr ())"
    using step_after_grace(2) [OF assms(2) assms(1) assms(3), of w]
    by (cases "server_step w t self") (auto simp add: server_run_step del: server_run.simps)
qed

theorem grace_period_ends_loop_witness:
  "snd (server_run quiet_world [example_turn (\<lambda>_ _. Inr Timeout) []]
     (example_server\<lparr>engine_of := (engine_of example_server)\<lparr>shutdown_deadline := Some 9\<rparr>\<rparr>)) = Some (Inr ())"
  using grace_period_ends_loop [of "example_server\<lparr>engine_of := (engine_of example_server)\<lparr>shutdown_deadline := Some 9\<rparr>\<rparr>"
      9 "example_turn (\<lambda>_ _. Inr Timeout) []" quiet_world "[]" "[]"] quiet_willing
  by (simp add: example_turn_def)

text \<open>
  C38: Nothing else ends it: as long as a connection is closing and every poll finds the device
  readable, packets that do not parse keep the loop running, however far past the deadline the clock
  is; and they leave the engine as it is.
\<close>

theorem grace_period_starved:
  assumes "closing_in_progress (connections (engine_of self))"
    and "\<forall>t \<in> set ts. (\<forall>x b. poll_result t x b = Inr Readable) \<and>
      (\<exists>buf n e. read_result t = Inr (buf, n) \<and> n \<le> length buf \<and> parse_packet (take n buf) = Inl (Err e))"
  shows "\<exists>self'. server_run w ts self = (self', None) \<and> engine_of self' = engine_of self"
  using assms
proof (induction ts arbitrary: self)
  case (Cons t ts)
  then obtain buf n e where t: "\<And>x b. poll_result t x b = Inr Readable" "read_result t = Inr (buf, n)" "n \<le> length buf"
    "parse_packet (take n buf) = Inl (Err e)"
    by auto
  have data: "try_get buf (RangeTo n) = Inr (take n buf)" using t(3) by (simp add: try_get_def in_bounds_def)
  obtain self' where h: "handle_read w t (take n buf) self = (self', Inr ())" "engine_of self' = engine_of self"
    using t(4) by (auto simp: handle_read_def handle_packet_def Let_def)
  have "server_step w t self = (self', Inr False)"
    using Cons.prems(1) by (simp add: server_step_def handle_readable_def t data h draining_complete_def)
  moreover have "\<exists>self''. server_run w ts self' = (self'', None) \<and> engine_of self'' = engine_of self'"
    by (rule Cons.IH) (use Cons.prems h(2) in simp_all)
  ultimately show ?case using h(2) by simp
qed simp

text \<open>A draining server with a connection in FIN-WAIT-1, long after its deadline.\<close>

definition overdue_server :: server where
  "overdue_server = example_server\<lparr>engine_of := (engine_of example_server)\<lparr>shutdown_deadline := Some 0,
     connections := example_conns\<lparr>table := [(example_key, example_conn\<lparr>tcp_state_of := FinWait1 (SyncedState
       \<lparr>snd_wnd = SeqOffset 1, snd_wl1 = SeqPoint 500, snd_wl2 = SeqPoint 101\<rparr>)\<rparr>)]\<rparr>\<rparr>\<rparr>"

theorem grace_period_starved_witness:
  "\<exists>self'. server_run quiet_world (replicate 1000 (example_turn (\<lambda>_ _. Inr Readable) [0])) overdue_server = (self', None) \<and>
     engine_of self' = engine_of overdue_server"
proof (rule grace_period_starved)
  show "closing_in_progress (connections (engine_of overdue_server))"
    by (simp add: overdue_server_def closing_in_progress_def mid_close_def)
  show "\<forall>t \<in> set (replicate 1000 (example_turn (\<lambda>_ _. Inr Readable) [0])). (\<forall>x b. poll_result t x b = Inr Readable) \<and>
      (\<exists>buf n e. read_result t = Inr (buf, n) \<and> n \<le> length buf \<and> parse_packet (take n buf) = Inl (Err e))"
    by (auto simp: example_turn_def parse_packet_def inner_parse_ipv4_def split: if_splits)
qed

section \<open>Faults of the loop\<close>

text \<open>
  A packet whose IPv4 header claims to be four bytes long, and is otherwise the valid header of a
  UDP packet of 1500 bytes; the UDP header is then read from inside it, with a checksum field of zero.
\<close>

definition short_header :: bytes where
  "short_header = [0x41, 0, 0x05, 0xDC, 0x25, 0x0F, 0x40, 0, 0x40, 17, 0, 0, 10, 0, 0, 2, 10, 0, 0, 1]"

lemma parse_short_header:
  "\<exists>hdr d. parse_packet (short_header @ rest) = Inr (Ipv4Packet hdr (RouterUdp d)) \<and>
    length (udp_payload d) = length rest + 8"
proof -
  have "parse_ipv4_header (short_header @ rest) =
      Inr (Ipv4Header 1500 Udp (Ipv4AddrPair (Ipv4Addr 10 0 0 2) (Ipv4Addr 10 0 0 1)), drop 4 (short_header @ rest))"
    by (simp add: inner_parse_ipv4_def short_header_def calculate_compute ones_sum_def
      protocol_try_from_def Let_def u16_from_be_bytes_def be_nat_def)
  then show ?thesis
    by (simp add: parse_packet_def parse_udp_def short_header_def Let_def u16_from_be_bytes_def be_nat_def)
qed

lemma short_header_reply:
  assumes "length rest = 1480"
  shows "\<exists>eng outcome p. handle_packet server_app_ops now urand (short_header @ rest) self = (eng, Inr outcome) \<and>
    outcome_reply outcome = Some p \<and> good_packet p \<and> length (router_encoding (router p)) = 1496"
proof -
  obtain hdr d where d: "parse_packet (short_header @ rest) = Inr (Ipv4Packet hdr (RouterUdp d))"
    "length (udp_payload d) = 1488"
    using parse_short_header [of rest] assms by auto
  obtain app' r where r: "create_udp_reply server_app_ops (engine_app self) d = (app', r)" by fastforce
  then have len: "length (udp_payload r) = 1488"
    using server_app_udp_length [of "engine_app self" "udp_payload d"] d(2)
    by (auto simp: create_udp_reply_def split: prod.splits)
  obtain p where p: "packet_of_router (RouterUdp r) = Inr p"
    using packet_of_router_fits [of "RouterUdp r"] len by simp
  show ?thesis
    using d(1) r p good_packet_of_router [OF p] packet_of_router_router [OF p] len
    by (simp add: handle_packet_def create_reply_def Let_def)
qed

text \<open>
  C37: One packet can end the loop: a UDP packet of 1500 bytes whose IHL field is 1 is accepted, its
  reply carries 1496 bytes under a fresh header of 20 and does not fit into the buffer, and the error
  of writing it is not logged but ends the worker.
\<close>

theorem short_header_stops_worker:
  assumes "length (write_buf self) = 1500"
    and "poll_result t (poll_timeout (poll_later t) (poll_now t) (engine_of self)) (\<not> draining self) = Inr Readable"
    and "read_result t = Inr (short_header @ rest, 1500)" and "length rest = 1480"
  shows "\<exists>self' e. server_run w (t # ts) self = (self', Some (Inl (Err e)))"
proof -
  let ?data = "short_header @ rest"
  have len: "length ?data = 1500" using assms(4) by (simp add: short_header_def)
  then have data: "try_get ?data (RangeTo 1500) = Inr ?data" by (simp add: try_get_def in_bounds_def)
  obtain eng outcome p where h: "handle_packet server_app_ops (engine_now t) (turn_urandom t) ?data (engine_of self) = (eng, Inr outcome)"
    "outcome_reply outcome = Some p" "good_packet p" "length (router_encoding (router p)) = 1496"
    using short_header_reply [OF assms(4)] by blast
  obtain e where "send_pkt w p (self\<lparr>engine_of := eng\<rparr>) = (self\<lparr>engine_of := eng\<rparr>, Inl (Err e))"
    using send_pkt_too_long [OF h(3), of "self\<lparr>engine_of := eng\<rparr>" w] h(4) assms(1) by auto
  then have "handle_read w t ?data self = (self\<lparr>engine_of := eng\<rparr>, Inl (Err e))"
    by (simp add: handle_read_def h(1,2) Let_def)
  then have "server_step w t self = (self\<lparr>engine_of := eng\<rparr>, Inl (Err e))"
    unfolding server_step_def assms(2) by (simp add: handle_readable_def assms(3) data)
  then show ?thesis by simp
qed

theorem short_header_stops_worker_witness:
  "\<exists>self' e. server_run quiet_world [example_turn (\<lambda>_ _. Inr Readable) (short_header @ replicate 1480 0)] example_server =
     (self', Some (Inl (Err e)))"
  by (rule short_header_stops_worker [where rest = "replicate 1480 0"])
    (simp_all add: example_turn_def short_header_def)

text \<open>
  C39: When the device fails, as when its interface is deleted, \<open>poll\<close> returns at once with an error
  condition, which \<open>readable\<close> reports as a shutdown: without a shutdown signal the loop goes round for
  ever, without waiting, reading, changing anything or reporting an error.
\<close>

theorem device_error_spins:
  assumes "\<And>d watch. poll_result t d watch =
      readable device_gone errno fd (if watch then Some shutdown_fd else None) d"
    and "0 \<le> fd" and "\<not> shutdown_flag t"
  shows "server_run w (replicate n t) self = (self, None)"
proof (induction n)
  case (Suc n)
  have "poll_result t d watch = Inr Shutdown" for d watch
    using assms(2) by (simp add: assms(1) readable_def poll_fds_def device_gone_def pollin_def)
  then have "server_step w t self = (self, Inr False)"
    using assms(3) by (simp add: server_step_def check_shutdown_def)
  then show ?case using Suc by simp
qed simp

theorem device_error_spins_witness:
  "server_run quiet_world (replicate 1000 (example_turn
     (\<lambda>d watch. readable device_gone (IoError OtherKind []) 3 (if watch then Some 4 else None) d) [])) example_server =
   (example_server, None)"
  by (rule device_error_spins [where fd = 3 and shutdown_fd = 4 and errno = "IoError OtherKind []"])
    (simp_all add: example_turn_def)

end
