(* ===== verification/System.thy ===== *)
theory System
  imports Prelude Utils
begin

text \<open>
  \<open>server/src/sys/shutdown_signal.rs\<close> and \<open>server/src/sys/tun.rs\<close>: the shutdown flag with its signal
  handler and eventfd, and attaching to a TUN device. The results of the system calls are
  parameters; \<open>last_os_error\<close> stands for the error behind a failed call.
\<close>

section \<open>The shutdown signal\<close>

text \<open>
  The static variables, and the counter of the eventfd, which makes it readable when it is not zero.
  A write to an eventfd is all or nothing; \<open>written n\<close> is a write of \<open>n\<close> bytes.
\<close>

record signal_state =
  shutdown_set :: bool
  eventfd_raw :: int
  eventfd_count :: nat

definition signal_state_new :: signal_state where
  "signal_state_new = \<lparr>shutdown_set = False, eventfd_raw = -1, eventfd_count = 0\<rparr>"

datatype write_result = Written nat | FailedWrite int

datatype handler_end = Returned | Aborted

definition eintr :: int where "eintr = 4"

text \<open>The loop over the results of \<open>write\<close>; \<open>None\<close> means that it still runs after all of them.\<close>

fun write_loop :: "write_result list \<Rightarrow> signal_state \<Rightarrow> signal_state \<times> handler_end option" where
  "write_loop [] self = (self, None)"
| "write_loop (Written n # rs) self =
     (if n = 8 then (self\<lparr>eventfd_count := Suc (eventfd_count self)\<rparr>, Some Returned) else (self, Some Aborted))"
| "write_loop (FailedWrite errno # rs) self =
     (if errno = eintr then write_loop rs self else (self, Some Aborted))"

definition shutdown_signal_handler :: "write_result list \<Rightarrow> signal_state \<Rightarrow> signal_state \<times> handler_end option" where
  "shutdown_signal_handler rs self = write_loop rs (self\<lparr>shutdown_set := True\<rparr>)"

text \<open>
  The calls of \<open>libc\<close> that set up signals, over its opaque type \<open>sigset_t\<close>: what each is given, and its
  result with what it writes through a pointer. \<open>zeroed_set\<close> is a set of zero bytes.
\<close>

datatype signal_handler = NoHandler | ShutdownSignalHandler

record 'set sigaction =
  sa_sigaction :: signal_handler
  sa_mask :: 'set
  sa_flags :: int

record 'set signal_calls =
  zeroed_set :: 'set
  eventfd_call :: "int \<Rightarrow> int \<Rightarrow> int"
  sigemptyset_call :: "'set \<Rightarrow> int \<times> 'set"
  sigaddset_call :: "'set \<Rightarrow> int \<Rightarrow> int \<times> 'set"
  sigaction_call :: "int \<Rightarrow> 'set sigaction \<Rightarrow> int"
  sigmask_call :: "int \<Rightarrow> 'set \<Rightarrow> int"

definition sigint :: int where "sigint = 2"

definition sig_block :: int where "sig_block = 0"

text \<open>The structure is zeroed, so no flag is set, before the handler and the empty mask are written to it.\<close>

definition install ::
    "'set signal_calls \<Rightarrow> io_error \<Rightarrow> signal_state \<Rightarrow> (signal_state, unit) stateful" where
  "install libc last_os_error self =
     (let eventfd_raw = eventfd_call libc 0 0 in
      if eventfd_raw < 0 then (self, Inl (Err (Io last_os_error)))
      else
        let self = self\<lparr>eventfd_raw := eventfd_raw\<rparr>;
            sa = \<lparr>sa_sigaction = NoHandler, sa_mask = zeroed_set libc, sa_flags = 0\<rparr>;
            sa = sa\<lparr>sa_sigaction := ShutdownSignalHandler\<rparr>;
            (r, mask) = sigemptyset_call libc (sa_mask sa);
            sa = sa\<lparr>sa_mask := mask\<rparr>
        in
        if r \<noteq> 0 then (self, Inl (Err (Io last_os_error)))
        else if sigaction_call libc sigint sa \<noteq> 0 then (self, Inl (Err (Io last_os_error)))
        else (self, Inr ()))"

definition load_flag :: "signal_state \<Rightarrow> bool" where
  "load_flag self = shutdown_set self"

text \<open>\<open>pthread_sigmask\<close> returns its error; \<open>raw_os_error\<close> is \<open>io::Error::from_raw_os_error\<close>.\<close>

definition block_sigint_on_this_thread ::
    "'set signal_calls \<Rightarrow> io_error \<Rightarrow> (int \<Rightarrow> io_error) \<Rightarrow> unit result" where
  "block_sigint_on_this_thread libc last_os_error raw_os_error =
     (let (r, set) = sigemptyset_call libc (zeroed_set libc) in
      if r \<noteq> 0 then Inl (Err (Io last_os_error))
      else
        let (r, set) = sigaddset_call libc set sigint in
        if r \<noteq> 0 then Inl (Err (Io last_os_error))
        else
          let errno = sigmask_call libc sig_block set in
          if errno = 0 then Inr () else Inl (Err (Io (raw_os_error errno))))"

text \<open>Once an installed handler returns, every poll of the eventfd and every check of the flag sees the signal.\<close>

definition signalled :: "signal_state \<Rightarrow> bool" where
  "signalled self \<longleftrightarrow> load_flag self \<and> 0 < eventfd_count self"

lemma write_loop_returns:
  "write_loop rs self = (self', Some Returned) \<Longrightarrow>
   shutdown_set self' = shutdown_set self \<and> eventfd_count self' = Suc (eventfd_count self)"
  by (induction rs self rule: write_loop.induct) (auto split: if_splits)

lemma handler_returns_signalled: "shutdown_signal_handler rs self = (self', Some Returned) \<Longrightarrow> signalled self'"
  using write_loop_returns by (fastforce simp: shutdown_signal_handler_def signalled_def load_flag_def)

lemma handler_keeps_signalled: "signalled self \<Longrightarrow> signalled (fst (shutdown_signal_handler rs self))"
proof -
  have "eventfd_count self \<le> eventfd_count (fst (write_loop rs self)) \<and>
      shutdown_set (fst (write_loop rs self)) = shutdown_set self" for self
    by (induction rs self rule: write_loop.induct) auto
  from this [of "self\<lparr>shutdown_set := True\<rparr>"] show "signalled self \<Longrightarrow> ?thesis"
    by (auto simp: signalled_def load_flag_def shutdown_signal_handler_def)
qed

text \<open>The handler ends at the first write that is not interrupted.\<close>

lemma handler_ends: "\<exists>r \<in> set rs. r \<noteq> FailedWrite eintr \<Longrightarrow> snd (shutdown_signal_handler rs self) \<noteq> None"
proof -
  have "\<exists>r \<in> set rs. r \<noteq> FailedWrite eintr \<Longrightarrow> snd (write_loop rs self) \<noteq> None" for self
    by (induction rs self rule: write_loop.induct) auto
  then show "\<exists>r \<in> set rs. r \<noteq> FailedWrite eintr \<Longrightarrow> ?thesis" by (simp add: shutdown_signal_handler_def)
qed

text \<open>
  A successful installation has stored the descriptor and registered the handler, with every flag
  unset: without \<open>SA_RESTART\<close> a system call that the signal interrupts is not restarted.
\<close>

lemma install_registers:
  assumes "install libc e self = (self', Inr ())"
  shows "0 \<le> eventfd_raw self'" and "eventfd_raw self' = eventfd_call libc 0 0"
    and "shutdown_set self' = shutdown_set self" and "eventfd_count self' = eventfd_count self"
    and "sigaction_call libc sigint \<lparr>sa_sigaction = ShutdownSignalHandler,
      sa_mask = snd (sigemptyset_call libc (zeroed_set libc)), sa_flags = 0\<rparr> = 0"
  using assms by (auto simp: install_def Let_def split: if_splits prod.splits)

text \<open>The descriptor is stored before the handler that reads it can run, also when the registration fails.\<close>

lemma install_stores_first:
  "0 \<le> eventfd_call libc 0 0 \<Longrightarrow> eventfd_raw (fst (install libc e self)) = eventfd_call libc 0 0"
  by (simp add: install_def Let_def split: prod.split)

text \<open>Blocking adds \<open>SIGINT\<close>, and nothing else, to the mask of the thread.\<close>

lemma block_sigint_registers:
  assumes "block_sigint_on_this_thread libc e raw = Inr ()"
  shows "sigmask_call libc sig_block
    (snd (sigaddset_call libc (snd (sigemptyset_call libc (zeroed_set libc))) sigint)) = 0"
  using assms by (auto simp: block_sigint_on_this_thread_def Let_def split: if_splits prod.splits)

section \<open>TUN devices\<close>

definition tun_device_file :: string where
  "tun_device_file = ''/dev/net/tun''"

text \<open>\<open>IFF_TUN | IFF_NO_PI | IFF_MULTI_QUEUE\<close>.\<close>

definition ifru_flags :: u16 where
  "ifru_flags = 0x0001 OR 0x1000 OR 0x0100"

text \<open>\<open>c_char\<close> is a byte whose sign depends on the platform; the model keeps its bits.\<close>

definition u8_to_c_char :: "u8 \<Rightarrow> u8" where
  "u8_to_c_char b = b"

record ifreq =
  ifr_name :: bytes
  ifr_flags :: u16

text \<open>
  At most \<open>IFNAMSIZ - 1\<close> bytes of the name are copied into the zeroed field of \<open>IFNAMSIZ = 16\<close> bytes.
\<close>

definition ifreq_for :: "bytes \<Rightarrow> ifreq" where
  "ifreq_for name =
     (let copied = map u8_to_c_char (take 15 name)
      in \<lparr>ifr_name = copied @ replicate (16 - length copied) 0, ifr_flags = ifru_flags\<rparr>)"

text \<open>
  A name with a zero byte has no \<open>CString\<close>. \<open>if_nametoindex\<close>, the result of opening the device file
  (a handle or an error) and \<open>ioctl\<close> are parameters.
\<close>

definition attach ::
    "(bytes \<Rightarrow> nat) \<Rightarrow> io_error + 'fd \<Rightarrow> ('fd \<Rightarrow> ifreq \<Rightarrow> int) \<Rightarrow> io_error \<Rightarrow> string \<Rightarrow> 'fd result" where
  "attach if_nametoindex opened ioctl last_os_error device_name =
     (let name = map of_char device_name in
      if 0 \<in> set name \<or> if_nametoindex name = 0
      then Inl (Err (Dynamic (''TUN device '' @ device_name @ '' does not exist'')))
      else case opened of
        Inl e \<Rightarrow> Inl (Err (Io e))
      | Inr fd \<Rightarrow> if ioctl fd (ifreq_for name) \<noteq> -1 then Inr fd else Inl (Err (Io last_os_error)))"

text \<open>The request names the device: the name, ended by a zero byte, when the kernel's limit holds.\<close>

lemma ifreq_name: "length name < 16 \<Longrightarrow> ifr_name (ifreq_for name) = name @ replicate (16 - length name) 0"
  by (simp add: ifreq_for_def u8_to_c_char_def [abs_def])

lemma ifreq_name_length: "length (ifr_name (ifreq_for name)) = 16"
  by (simp add: ifreq_for_def)

lemma ifreq_name_terminated: "last (ifr_name (ifreq_for name)) = 0"
  by (simp add: ifreq_for_def)

end
