(* ===== verification/Loadgen.thy ===== *)
theory Loadgen
  imports Server_Config
begin

text \<open>
  The crate \<open>loadgen\<close>: the test client's configuration (\<open>config.rs\<close>), one connection (\<open>worker.rs\<close>),
  the measurement of the server's CPU time (\<open>server_cpu.rs\<close>) and the report (\<open>report.rs\<close>). Sockets and
  the \<open>proc\<close> file system are parameters: the result of each operation on them. So are the operations on
  \<open>f64\<close>, on which only two fields of the report depend, and the texts of \<open>Duration\<close> and \<open>f64\<close>.
\<close>

section \<open>Configuration\<close>

text \<open>The address is a value of the type \<open>IpAddr\<close> of the standard library, whose parser is a parameter.\<close>

record 'ip lg_config =
  target_addr :: 'ip
  target_port :: nat
  lg_connection_count :: nat
  payload_size :: nat

definition lg_config_load ::
    "(string \<Rightarrow> string + 'ip) \<Rightarrow> (ipv4_addr \<Rightarrow> 'ip) \<Rightarrow> (string \<Rightarrow> env_var) \<Rightarrow> 'ip lg_config result" where
  "lg_config_load parse_ip ip_from env =
     and_then (parse_env ''TYPENET_LG_ADDR'' ''core::net::ip_addr::IpAddr'' parse_ip (env ''TYPENET_LG_ADDR'')) (\<lambda>addr.
     and_then (parse_env ''TYPENET_LG_PORT'' ''core::num::nonzero::NonZero<u16>''
                 (parse_non_zero 65536) (env ''TYPENET_LG_PORT'')) (\<lambda>port.
     and_then (parse_env ''TYPENET_LG_CONNECTIONS'' ''core::num::nonzero::NonZero<usize>''
                 (parse_non_zero 18446744073709551616) (env ''TYPENET_LG_CONNECTIONS'')) (\<lambda>count.
     and_then (parse_env ''TYPENET_LG_PAYLOAD_BYTES'' ''core::num::nonzero::NonZero<usize>''
                 (parse_non_zero 18446744073709551616) (env ''TYPENET_LG_PAYLOAD_BYTES'')) (\<lambda>size.
     Inr \<lparr>target_addr = unwrap_or addr (ip_from (Ipv4Addr 10 0 0 2)),
          target_port = unwrap_or port 8080,
          lg_connection_count = unwrap_or count 50,
          payload_size = unwrap_or size 65536\<rparr>))))"

section \<open>One connection\<close>

record connection_outcome =
  verified :: bool
  bytes_echoed :: nat
  round_trip :: duration

text \<open>The results of connecting, writing, half-closing and reading to the end, and the two times.\<close>

record socket =
  connect_error :: "io_error option"
  write_error :: "bytes \<Rightarrow> io_error option"
  shutdown_error :: "io_error option"
  read_to_end :: "bytes \<Rightarrow> io_error + bytes"

definition check_io :: "io_error option \<Rightarrow> unit result" where
  "check_io e = (case e of None \<Rightarrow> Inr () | Some e \<Rightarrow> Inl (Err (Io e)))"

definition run_connection :: "socket \<Rightarrow> instant \<Rightarrow> instant \<Rightarrow> bytes \<Rightarrow> connection_outcome result" where
  "run_connection sock start end payload =
     and_then (check_io (connect_error sock)) (\<lambda>_.
     and_then (check_io (write_error sock payload)) (\<lambda>_.
     and_then (check_io (shutdown_error sock)) (\<lambda>_.
     case read_to_end sock payload of
       Inl e \<Rightarrow> Inl (Err (Io e))
     | Inr echoed \<Rightarrow>
         Inr \<lparr>verified = (echoed = payload), bytes_echoed = length echoed, round_trip = end - start\<rparr>)))"

section \<open>CPU time of the server\<close>

definition server_comm :: string where
  "server_comm = ''typenet-server''"

text \<open>\<open>pids\<close> are the processes whose \<open>comm\<close> is \<open>server_comm\<close>, in the order of \<open>/proc\<close>.\<close>

definition find_server_pid :: "io_error + nat list \<Rightarrow> nat result" where
  "find_server_pid proc =
     (case proc of
        Inl e \<Rightarrow> Inl (Err (Io e))
      | Inr [pid] \<Rightarrow> Inr pid
      | Inr [] \<Rightarrow> Inl (Err (Dynamic (''No running '' @ server_comm @ '' process found'')))
      | Inr _ \<Rightarrow> Inl (Err (Dynamic (''Multiple running '' @ server_comm @ '' processes found''))))"

text \<open>The first field of a line separated by ASCII white space.\<close>

definition ascii_space :: "char \<Rightarrow> bool" where
  "ascii_space c \<longleftrightarrow> (of_char c :: nat) \<in> {9, 10, 12, 13, 32}"

definition first_field :: "string \<Rightarrow> string option" where
  "first_field s =
     (let field = takeWhile (\<lambda>c. \<not> ascii_space c) (dropWhile ascii_space s)
      in if field = [] then None else Some field)"

definition run_time :: "io_error + string \<Rightarrow> duration result" where
  "run_time schedstat =
     and_then (case schedstat of Inl e \<Rightarrow> Inl (Err (Io e)) | Inr s \<Rightarrow> Inr s) (\<lambda>s.
     and_then (ok_or (first_field s) (Static ''Empty schedstat file'')) (\<lambda>field.
     case parse_unsigned 18446744073709551616 field of
       Inl e \<Rightarrow> Inl (Err (Dynamic (''Failed to parse schedstat run time nanos: '' @ e)))
     | Inr n \<Rightarrow> Inr n))"

text \<open>The threads of the process, each with the content of its \<open>schedstat\<close>.\<close>

fun sum_run_times :: "duration \<Rightarrow> (io_error + string) list \<Rightarrow> duration result" where
  "sum_run_times acc [] = Inr acc"
| "sum_run_times acc (s # ss) =
     and_then (run_time s) (\<lambda>n.
     if acc + n \<le> duration_max then sum_run_times (acc + n) ss
     else Inl (Err (Static ''Server CPU time overflowed `Duration`'')))"

definition cpu_time :: "io_error + (io_error + string) list \<Rightarrow> duration result" where
  "cpu_time tasks = (case tasks of Inl e \<Rightarrow> Inl (Err (Io e)) | Inr ss \<Rightarrow> sum_run_times 0 ss)"

record server_cpu_meter =
  meter_pid :: nat
  meter_start :: duration

definition result_ok :: "'a result \<Rightarrow> 'a option" where
  "result_ok r = (case r of Inl _ \<Rightarrow> None | Inr x \<Rightarrow> Some x)"

definition meter_new :: "io_error + nat list \<Rightarrow> (nat \<Rightarrow> io_error + (io_error + string) list) \<Rightarrow> server_cpu_meter option" where
  "meter_new proc tasks =
     result_ok (and_then (find_server_pid proc) (\<lambda>pid.
       and_then (cpu_time (tasks pid)) (\<lambda>start. Inr \<lparr>meter_pid = pid, meter_start = start\<rparr>)))"

definition meter_stop :: "(nat \<Rightarrow> io_error + (io_error + string) list) \<Rightarrow> server_cpu_meter \<Rightarrow> duration option" where
  "meter_stop tasks self =
     result_ok (and_then (cpu_time (tasks (meter_pid self))) (\<lambda>end.
       if meter_start self \<le> end then Inr (end - meter_start self)
       else Inl (Err (Static ''Server CPU time decreased (did the server restart?)''))))"

section \<open>The report\<close>

record 'f float_ops =
  as_secs_f64 :: "duration \<Rightarrow> 'f"
  usize_as_f64 :: "nat \<Rightarrow> 'f"
  positive :: "'f \<Rightarrow> bool"
  f64_div :: "'f \<Rightarrow> 'f \<Rightarrow> 'f"
  times_100 :: "'f \<Rightarrow> 'f"

record 'f report =
  attempted :: nat
  report_verified :: nat
  mismatched :: nat
  errored :: nat
  bytes_transferred :: nat
  wall_time :: duration
  throughput_bytes_per_sec :: "'f option"
  p50 :: "duration option"
  p95 :: "duration option"
  p99 :: "duration option"
  max_latency :: "duration option"
  server_cpu :: "duration option"
  server_cpu_pct_of_wall :: "'f option"

definition saturating_usize :: "nat \<Rightarrow> nat" where
  "saturating_usize n = min n 18446744073709551615"

definition percentile :: "duration list \<Rightarrow> nat \<Rightarrow> duration result" where
  "percentile xs pct =
     and_then (if xs = [] then Inl (Err (Static ''Cannot compute a percentile of an empty latency set''))
               else Inr (length xs - 1)) (\<lambda>last_index.
     let index = saturating_usize (last_index * pct) div 100
     in if index < length xs then Inr (xs ! index)
        else Inl (Err (Dynamic (''Index '' @ show_nat index @ '' out of range for '' @
          show_nat (length xs) @ '' latencies''))))"

definition summarize ::
    "'f float_ops \<Rightarrow> connection_outcome result list \<Rightarrow> duration \<Rightarrow> duration option \<Rightarrow> 'f report result" where
  "summarize fl outcomes wall cpu =
     (let wrong = length (filter (\<lambda>r. case r of Inl _ \<Rightarrow> False | Inr o' \<Rightarrow> \<not> verified o') outcomes);
          failed = length (filter (\<lambda>r. case r of Inl _ \<Rightarrow> True | Inr _ \<Rightarrow> False) outcomes);
          successes = filter verified (concat (map (\<lambda>r. case r of Inl _ \<Rightarrow> [] | Inr o' \<Rightarrow> [o']) outcomes));
          bytes = foldl (\<lambda>acc o'. saturating_usize (acc + bytes_echoed o')) 0 successes;
          latencies = sort (map round_trip successes);
          wall_secs = as_secs_f64 fl wall
      in and_then
           (if latencies = [] then Inr (None, None, None, None)
            else and_then (percentile latencies 50) (\<lambda>a. and_then (percentile latencies 95) (\<lambda>b.
                 and_then (percentile latencies 99) (\<lambda>c. Inr (Some a, Some b, Some c, Some (last latencies))))))
           (\<lambda>(a, b, c, d).
         Inr \<lparr>attempted = length outcomes, report_verified = length successes, mismatched = wrong,
              errored = failed, bytes_transferred = bytes, wall_time = wall,
              throughput_bytes_per_sec =
                (if positive fl wall_secs then Some (f64_div fl (usize_as_f64 fl bytes) wall_secs) else None),
              p50 = a, p95 = b, p99 = c, max_latency = d, server_cpu = cpu,
              server_cpu_pct_of_wall =
                (if positive fl wall_secs
                 then map_option (\<lambda>t. times_100 fl (f64_div fl (as_secs_f64 fl t) wall_secs)) cpu else None)\<rparr>))"

text \<open>The report as text; \<open>show_duration\<close> is \<open>{:?}\<close> of \<open>Duration\<close>, the others format \<open>f64\<close> values.\<close>

definition or_na :: "('a \<Rightarrow> string) \<Rightarrow> 'a option \<Rightarrow> string" where
  "or_na sh opt = (case opt of None \<Rightarrow> ''n/a'' | Some x \<Rightarrow> sh x)"

definition show_report ::
    "(duration \<Rightarrow> string) \<Rightarrow> ('f \<Rightarrow> string) \<Rightarrow> ('f \<Rightarrow> string) \<Rightarrow> 'f report \<Rightarrow> string" where
  "show_report show_duration megabytes one_digit self =
     (let nl = [CHR 0x0A] in
      ''Attempted connections : '' @ show_nat (attempted self) @ nl @
      ''Verified echoes       : '' @ show_nat (report_verified self) @ nl @
      ''Mismatched echoes     : '' @ show_nat (mismatched self) @ nl @
      ''Connection errors     : '' @ show_nat (errored self) @ nl @ nl @
      ''Bytes transferred     : '' @ show_nat (bytes_transferred self) @ nl @
      ''Wall time             : '' @ show_duration (wall_time self) @ nl @
      ''Server CPU time       : '' @ or_na show_duration (server_cpu self) @ nl @
      ''Server CPU / wall     : '' @ or_na (\<lambda>p. one_digit p @ ''%'') (server_cpu_pct_of_wall self) @ nl @
      ''Throughput            : '' @ or_na (\<lambda>b. megabytes b @ '' MB/s'') (throughput_bytes_per_sec self) @ nl @ nl @
      ''Latency p50           : '' @ or_na show_duration (p50 self) @ nl @
      ''Latency p95           : '' @ or_na show_duration (p95 self) @ nl @
      ''Latency p99           : '' @ or_na show_duration (p99 self) @ nl @
      ''Latency max           : '' @ or_na show_duration (max_latency self) @ nl)"

section \<open>The whole run\<close>

text \<open>\<open>random_bytes\<close> of \<open>utils/src/sys.rs\<close>: what reading \<open>n\<close> bytes of \<open>/dev/urandom\<close> gives.\<close>

definition random_bytes :: "(nat \<Rightarrow> io_error + bytes) \<Rightarrow> nat \<Rightarrow> bytes result" where
  "random_bytes source n = (case source n of Inl e \<Rightarrow> Inl (Err (Io e)) | Inr bs \<Rightarrow> Inr bs)"

text \<open>
  The \<open>i\<close>-th thread runs \<open>run_connection\<close> on the \<open>i\<close>-th payload or panics. The clock, the meter and
  the threads are parameters.
\<close>

definition loadgen_main ::
    "'f float_ops \<Rightarrow> 'ip lg_config result \<Rightarrow> (nat \<Rightarrow> nat \<Rightarrow> io_error + bytes) \<Rightarrow>
     (nat \<Rightarrow> panic_payload + socket \<times> instant \<times> instant) \<Rightarrow> server_cpu_meter option \<Rightarrow>
     (server_cpu_meter \<Rightarrow> duration option) \<Rightarrow> duration \<Rightarrow> 'f report result" where
  "loadgen_main fl cfg source threads meter stop wall =
     and_then cfg (\<lambda>cfg.
     and_then (collect_results (map (\<lambda>i. random_bytes (source i) (payload_size cfg)) [0..<lg_connection_count cfg]))
       (\<lambda>payloads.
     and_then (collect_results (map (\<lambda>(i, payload).
         case threads i of
           Inl p \<Rightarrow> Inl (Err (panic_error p))
         | Inr (sock, start, end) \<Rightarrow> Inr (run_connection sock start end payload)) (enumerate 0 payloads)))
       (\<lambda>outcomes.
     summarize fl outcomes wall (Option.bind meter stop))))"

section \<open>Properties\<close>

text \<open>On a sorted list that is not empty a percentile exists, and percentiles are ordered.\<close>

lemma percentile_index:
  assumes "pct \<le> 100" and "0 < n"
  shows "saturating_usize ((n - 1) * pct) div 100 < n"
proof -
  have "(n - 1) * pct \<le> (n - 1) * 100" using assms(1) by simp
  then have "saturating_usize ((n - 1) * pct) div 100 \<le> (n - 1) * 100 div 100"
    by (intro div_le_mono) (simp add: saturating_usize_def min_le_iff_disj)
  then show ?thesis using assms(2) by simp
qed

lemma percentile_eq:
  "pct \<le> 100 \<Longrightarrow> xs \<noteq> [] \<Longrightarrow> percentile xs pct = Inr (xs ! (saturating_usize ((length xs - 1) * pct) div 100))"
  using percentile_index [of pct "length xs"] by (simp add: percentile_def)

lemma percentile_mono:
  assumes "sorted xs" and "xs \<noteq> []" and "p \<le> q" "q \<le> 100"
  shows "xs ! (saturating_usize ((length xs - 1) * p) div 100) \<le> xs ! (saturating_usize ((length xs - 1) * q) div 100)"
proof (rule sorted_nth_mono [OF assms(1)])
  have "(length xs - 1) * p \<le> (length xs - 1) * q" using assms(3) by simp
  then show "saturating_usize ((length xs - 1) * p) div 100 \<le> saturating_usize ((length xs - 1) * q) div 100"
    unfolding saturating_usize_def by (intro div_le_mono min.mono) simp_all
qed (use percentile_index assms in auto)

text \<open>
  A report adds up: summarizing never fails; verified, mismatched and failed connections make up
  all that were attempted; there are latencies exactly if some echo was verified, and then the median, the 95th
  and the 99th percentile and the maximum are in order, each is the round trip of a verified echo, and none took longer than the maximum.
\<close>

theorem summarize_consistent:
  "\<exists>rep. summarize fl outcomes wall cpu = Inr rep \<and>
    report_verified rep + mismatched rep + errored rep = attempted rep \<and>
    (let times = {round_trip x | x. Inr x \<in> set outcomes \<and> verified x} in
     if times = {} then p50 rep = None \<and> p95 rep = None \<and> p99 rep = None \<and> max_latency rep = None
     else \<exists>a b c d. p50 rep = Some a \<and> p95 rep = Some b \<and> p99 rep = Some c \<and> max_latency rep = Some d \<and>
       a \<le> b \<and> b \<le> c \<and> c \<le> d \<and> {a, b, c, d} \<subseteq> times \<and> (\<forall>t \<in> times. t \<le> d))"
proof -
  define oks where "oks = concat (map (\<lambda>r. case r of Inl _ \<Rightarrow> [] | Inr o' \<Rightarrow> [o']) outcomes)"
  define lat where "lat = sort (map round_trip (filter verified oks))"
  define times where "times = {round_trip x | x. Inr x \<in> set outcomes \<and> verified x}"
  have oks: "set oks = {x. Inr x \<in> set outcomes}"
    unfolding oks_def by (induction outcomes) (auto split: sum.splits)
  have lat: "set lat = times" "sorted lat" by (auto simp: lat_def times_def oks)
  have count: "length (filter verified oks) +
      length (filter (\<lambda>r. case r of Inl _ \<Rightarrow> False | Inr o' \<Rightarrow> \<not> verified o') outcomes) +
      length (filter (\<lambda>r. case r of Inl _ \<Rightarrow> True | Inr _ \<Rightarrow> False) outcomes) = length outcomes"
    unfolding oks_def by (induction outcomes) (auto split: sum.splits)
  show ?thesis
  proof (cases "lat = []")
    case True
    then have "times = {}" using lat(1) by simp
    then show ?thesis
      using True count by (simp add: summarize_def Let_def lat_def oks_def times_def)
  next
    case False
    then have "times \<noteq> {}" using lat(1) by auto
    let ?p = "\<lambda>q. lat ! (saturating_usize ((length lat - 1) * q) div 100)"
    have p: "percentile lat q = Inr (?p q)" "?p q \<in> times" if "q \<le> 100" for q
      using percentile_eq [OF that False] percentile_index [OF that, of "length lat"] False lat(1) nth_mem
      by fastforce+
    have top: "x \<le> last lat" if "x \<in> times" for x
    proof -
      have "x \<in> set lat" using that lat(1) by simp
      then obtain i where "i < length lat" "x = lat ! i" by (metis in_set_conv_nth)
      then show ?thesis
        using sorted_nth_mono [OF lat(2), of i "length lat - 1"] False by (simp add: last_conv_nth)
    qed
    have "last lat \<in> times" using False lat(1) last_in_set by blast
    moreover have "?p 50 \<le> ?p 95" "?p 95 \<le> ?p 99"
      by (rule percentile_mono [OF lat(2) False]; simp)+
    ultimately show ?thesis
      using count p \<open>times \<noteq> {}\<close> top False
      by (simp add: summarize_def Let_def lat_def [symmetric] oks_def [symmetric] times_def [symmetric])
  qed
qed

definition nat_floats :: "nat float_ops" where
  "nat_floats = \<lparr>as_secs_f64 = id, usize_as_f64 = id, positive = (\<lambda>x. 0 < x), f64_div = (div), times_100 = (*) 100\<rparr>"

definition example_outcomes :: "connection_outcome result list" where
  "example_outcomes =
     [Inr \<lparr>verified = True, bytes_echoed = 10, round_trip = 5\<rparr>, Inl (Err Fmt),
      Inr \<lparr>verified = False, bytes_echoed = 9, round_trip = 8\<rparr>]"

theorem summarize_consistent_witness:
  "\<exists>rep. summarize nat_floats example_outcomes 7 None = Inr rep \<and> p50 rep = Some 5 \<and> max_latency rep = Some 5 \<and>
     report_verified rep + mismatched rep + errored rep = 3"
proof -
  have times: "{round_trip x | x. Inr x \<in> set example_outcomes \<and> verified x} = {5}"
    by (auto simp: example_outcomes_def intro!: exI [of _ "\<lparr>verified = True, bytes_echoed = 10, round_trip = 5\<rparr>"])
  obtain rep where rep: "summarize nat_floats example_outcomes 7 None = Inr rep"
    "report_verified rep + mismatched rep + errored rep = attempted rep"
    "\<exists>a b c d. p50 rep = Some a \<and> p95 rep = Some b \<and> p99 rep = Some c \<and> max_latency rep = Some d \<and>
       a \<le> b \<and> b \<le> c \<and> c \<le> d \<and> {a, b, c, d} \<subseteq> {5}"
    using summarize_consistent [of nat_floats example_outcomes 7 None] unfolding times by (auto simp: Let_def)
  moreover have "attempted rep = 3"
    using rep(1) by (auto simp: summarize_def Let_def example_outcomes_def percentile_def saturating_usize_def)
  ultimately show ?thesis by (intro exI [of _ rep]) auto
qed

end
