(* ===== verification/Conversations.thy ===== *)
theory Conversations
  imports Tcp_Scenarios Table_Properties
begin

text \<open>
  Whole lives of one connection. An \<open>event\<close> is what can happen to it: a segment arrives, a
  retransmission pass visits it, or a shutdown closes it; \<open>happen\<close> is what the code then does to this
  one connection, and \<open>conversation\<close> what a list of events leads to. The application is observed by
  \<open>recording\<close>, which passes every call on and keeps what it was given and what it appended.
\<close>

section \<open>Events\<close>

datatype event = Arrival instant in_segment | Timer instant instant | Close instant

text \<open>
  The segments sent and whether the connection is gone. The table \<open>conns\<close> is read for its
  configuration only.
\<close>

definition happen ::
    "'a application \<Rightarrow> tcp_connections \<Rightarrow> event \<Rightarrow> 'a \<times> conn_state \<Rightarrow>
     ('a \<times> conn_state, send_info list \<times> bool) stateful" where
  "happen ops conns ev s =
     (let (app, conn) = s in
      case ev of
        Arrival now seg \<Rightarrow>
          run_then (handle_known_conn ops now seg s) (\<lambda>s (reply, remove_it). (s, Inr (option_list reply, remove_it)))
      | Timer now later \<Rightarrow>
          if gives_up now later conns conn then (s, Inr ([], True))
          else ((app, resend now later conns conn),
                Inr (map pend_info (filter (is_due now later conns) (pending conn)), False))
      | Close now \<Rightarrow>
          (case close_conn now conn of
             None \<Rightarrow> (s, Inr ([], False))
           | Some (info, conn) \<Rightarrow> ((app, conn), Inr ([info], False))))"

fun conversation ::
    "'a application \<Rightarrow> tcp_connections \<Rightarrow> event list \<Rightarrow> 'a \<times> conn_state \<Rightarrow>
     ('a \<times> conn_state, send_info list) stateful" where
  "conversation ops conns [] s = (s, Inr [])"
| "conversation ops conns (ev # evs) s =
     run_then (happen ops conns ev s) (\<lambda>s (infos, gone).
       if gone then (s, Inr infos)
       else run_then (conversation ops conns evs s) (\<lambda>s more. (s, Inr (infos @ more))))"

text \<open>
  The three operations of the table do to each connection what \<open>happen\<close> says, and send the segments
  it lists.
\<close>

lemma decide_reply_happens:
  assumes "get_conn (key_of seg) conns = Some conn"
    and "happen ops conns (Arrival now seg) (app, conn) = ((app', conn'), Inr (infos, gone))"
  shows "\<exists>conns' reply. decide_reply ops now urandom seg (app, conns) = ((app', conns'), Inr reply) \<and>
    infos = option_list reply \<and> get_conn (key_of seg) conns' = (if gone then None else Some conn')"
proof -
  obtain reply where "handle_known_conn ops now seg (app, conn) = ((app', conn'), Inr (reply, gone))"
    "infos = option_list reply"
    using assms(2) by (cases "handle_known_conn ops now seg (app, conn)"; cases "snd (handle_known_conn ops now seg (app, conn))")
      (auto simp: happen_def)
  then show ?thesis using decide_reply_known [OF assms(1), of ops now app app' conn' reply gone urandom] by auto
qed

lemma make_retransmissions_happens:
  assumes wf: "table_wf conns" and run: "make_retransmissions now later conns = (segs, conns')"
    and get: "get_conn k conns = Some conn"
  shows "\<exists>conn' infos gone. happen ops conns (Timer now later) (app, conn) = ((app, conn'), Inr (infos, gone)) \<and>
    get_conn k conns' = (if gone then None else Some conn') \<and> segment_to k ` set infos \<subseteq> set segs"
proof (cases "gives_up now later conns conn")
  case True
  then show ?thesis
    using make_retransmissions_spec(1) [OF wf run, of k] get
    by (intro exI [of _ conn] exI [of _ "[]"] exI [of _ True]) (simp add: happen_def)
next
  case False
  then show ?thesis
    using make_retransmissions_spec(1) [OF wf run, of k] make_retransmissions_spec(2) [OF wf run] get
    by (auto simp: happen_def)
qed

lemma close_established_happens:
  assumes wf: "table_wf conns" and run: "close_established now conns = (segs, conns')"
    and get: "get_conn k conns = Some conn"
  shows "\<exists>conn' infos. happen ops conns (Close now) (app, conn) = ((app, conn'), Inr (infos, False)) \<and>
    get_conn k conns' = Some conn' \<and> segment_to k ` set infos \<subseteq> set segs"
  using get_close_established(1) [OF run, of k] close_segments [OF wf run] get
  by (cases "close_conn now conn") (auto simp: happen_def, blast)

section \<open>Conversations without errors\<close>

text \<open>The segments are well formed, and none acknowledges the antipode of SND.UNA.\<close>

fun event_ok :: "event \<Rightarrow> conn_state \<Rightarrow> bool" where
  "event_ok (Arrival now seg) conn \<longleftrightarrow> segment_wf seg \<and> ack_placeable conn seg"
| "event_ok _ conn \<longleftrightarrow> True"

text \<open>Every event of a list satisfies \<open>A\<close> in the state in which it happens.\<close>

fun along ::
    "'a application \<Rightarrow> tcp_connections \<Rightarrow> (event \<Rightarrow> 'a \<times> conn_state \<Rightarrow> bool) \<Rightarrow> event list \<Rightarrow> 'a \<times> conn_state \<Rightarrow> bool" where
  "along ops conns A [] s = True"
| "along ops conns A (ev # evs) s \<longleftrightarrow> A ev s \<and> along ops conns A evs (fst (happen ops conns ev s))"

lemma happen_ok:
  assumes "conn_inv conn" and "event_ok ev conn"
  obtains app' conn' infos gone where "happen ops conns ev (app, conn) = ((app', conn'), Inr (infos, gone))" "conn_inv conn'"
proof (cases ev)
  case (Arrival now seg)
  obtain app' conn' reply rm where
    h: "handle_known_conn ops now seg (app, conn) = ((app', conn'), Inr (reply, rm))" "handled ops seg (app, conn) (app', conn') reply"
    by (rule handle_known_connE [of conn seg ops now app]) (use assms Arrival in simp_all)
  show ?thesis by (rule that [of app' conn' "option_list reply" rm]) (use h in \<open>simp_all add: happen_def Arrival handled_def\<close>)
next
  case (Timer now later)
  show ?thesis
    using that assms(1) conn_inv_resend [OF assms(1), of now later conns]
    by (cases "gives_up now later conns conn") (simp_all add: happen_def Timer)
next
  case (Close now)
  show ?thesis
    using that [of app _ _ False] assms(1) close_conn_ok(1) [OF _ assms(1), of now]
    by (cases "close_conn now conn") (auto simp: happen_def Close)
qed

text \<open>
  A property \<open>P\<close> of the state that every event keeps, and a property \<open>Q\<close> of what is sent that grows
  with the state, hold along every conversation.
\<close>

lemma conversation_induct:
  assumes ok: "along ops conns A evs s" and inv: "conn_inv (snd s)" and "P s"
    and A: "\<And>ev s. A ev s \<Longrightarrow> event_ok ev (snd s)"
    and step: "\<And>ev app conn app' conn' infos gone. A ev (app, conn) \<Longrightarrow> conn_inv conn \<Longrightarrow> P (app, conn) \<Longrightarrow>
      happen ops conns ev (app, conn) = ((app', conn'), Inr (infos, gone)) \<Longrightarrow> conn_inv conn' \<Longrightarrow>
      P (app', conn') \<and> R (app, conn) (app', conn') infos"
    and refl: "\<And>s. R s s []"
    and trans: "\<And>s1 s2 s3 xs ys. R s1 s2 xs \<Longrightarrow> R s2 s3 ys \<Longrightarrow> R s1 s3 (xs @ ys)"
  shows "\<exists>s' infos. conversation ops conns evs s = (s', Inr infos) \<and> conn_inv (snd s') \<and> P s' \<and> R s s' infos"
  using ok inv \<open>P s\<close>
proof (induction evs arbitrary: s)
  case Nil
  then show ?case using refl by simp
next
  case (Cons ev evs)
  obtain app conn where s: "s = (app, conn)" by fastforce
  obtain app1 conn1 infos gone where h: "happen ops conns ev (app, conn) = ((app1, conn1), Inr (infos, gone))" "conn_inv conn1"
    by (rule happen_ok [of conn ev ops conns app]) (use Cons.prems A [of ev s] in \<open>simp_all add: s\<close>)
  have p: "P (app1, conn1) \<and> R (app, conn) (app1, conn1) infos"
    by (rule step [OF _ _ _ h]) (use Cons.prems in \<open>simp_all add: s\<close>)
  show ?case
  proof (cases gone)
    case True
    then show ?thesis using h p by (simp add: s)
  next
    case False
    obtain s' more where "conversation ops conns evs (app1, conn1) = (s', Inr more)" "conn_inv (snd s')" "P s'"
      "R (app1, conn1) s' more"
      using Cons.IH [of "(app1, conn1)"] Cons.prems(1) h p by (auto simp: s)
    moreover have "R (app, conn) s' (infos @ more)" by (rule trans [OF conjunct2 [OF p] calculation(4)])
    ultimately show ?thesis using h False by (simp add: s)
  qed
qed

section \<open>The recorder\<close>

record 'a recorder =
  observed :: 'a
  got :: bytes
  gave :: bytes

definition recording :: "'a application \<Rightarrow> 'a recorder application" where
  "recording ops =
     \<lparr>handle_udp = (\<lambda>app payload. let (a, reply) = handle_udp ops (observed app) payload in (app\<lparr>observed := a\<rparr>, reply)),
      handle_tcp = (\<lambda>app data. let (a, out) = handle_tcp ops (observed app) data
        in (app\<lparr>observed := a, got := got app @ data, gave := gave app @ out\<rparr>, out))\<rparr>"

lemma run_app_recording:
  "run_app (recording ops) app ps =
     (app\<lparr>observed := fst (run_app ops (observed app) ps), got := got app @ concat (map payload_data ps),
          gave := gave app @ snd (run_app ops (observed app) ps)\<rparr>,
      snd (run_app ops (observed app) ps))"
  by (induction ps arbitrary: app) (simp_all add: recording_def split_beta Let_def)

end
