(* ===== verification/Tcp_Streams.thy ===== *)
theory Tcp_Streams
  imports Conversations
begin

text \<open>
  What the application receives, over whole conversations: whatever segments of the peer's stream
  arrive, in whatever order, repeated or not, beside whatever else happens to the connection.
\<close>

lemma run_then_Inr:
  "run_then r f = (s', Inr y) \<longleftrightarrow> (\<exists>s x. r = (s, Inr x) \<and> f s x = (s', Inr y))"
  by (cases "(r, f)" rule: run_then.cases) auto

section \<open>The peer's stream\<close>

text \<open>
  A segment of the peer's stream \<open>s\<close> for a receiver that has received \<open>n\<close> bytes: what it carries are
  the stream's bytes at the position its sequence number stands for, at most \<open>2^31\<close> away from \<open>n\<close>,
  before or behind. Nothing is said of segments that cannot carry data, nor of any other field.
\<close>

definition carries :: "(nat \<Rightarrow> u8) \<Rightarrow> int \<Rightarrow> nat \<Rightarrow> in_segment \<Rightarrow> bool" where
  "carries s base n seg \<longleftrightarrow> (seg_flags seg = Ack \<or> seg_flags seg = FinAck \<longrightarrow>
     (\<exists>k. n < k + 2147483648 \<and> k < n + 2147483648 \<and> seg_seq_num seg = stream_pos base k \<and>
          payload_bytes (seg_payload seg) = stream_slice s k (k + length (payload_bytes (seg_payload seg)))))"

definition from_stream :: "(nat \<Rightarrow> u8) \<Rightarrow> int \<Rightarrow> event \<Rightarrow> 'a recorder \<times> conn_state \<Rightarrow> bool" where
  "from_stream s base ev st \<longleftrightarrow> event_ok ev (snd st) \<and>
     (case ev of Arrival now seg \<Rightarrow> carries s base (length (got (fst st))) seg | _ \<Rightarrow> True)"

text \<open>
  What is kept: the application has received a prefix of the stream; and as long as the connection
  still delivers, RCV.NXT is the end of that prefix and the buffer holds pieces of what follows.
\<close>

definition delivering :: "tcp_state \<Rightarrow> bool" where
  "delivering st \<longleftrightarrow> kind st = SYN_RECEIVED \<or> kind st = ESTABLISHED"

definition stream_inv :: "(nat \<Rightarrow> u8) \<Rightarrow> int \<Rightarrow> 'a recorder \<times> conn_state \<Rightarrow> bool" where
  "stream_inv s base st \<longleftrightarrow>
     (let n = length (got (fst st)); conn = snd st in
      got (fst st) = stream_slice s 0 n \<and>
      (delivering (tcp_state_of conn) \<longrightarrow>
         rcv_nxt conn = stream_pos base n \<and> genuine s base n (segments (reassembly conn))))"

lemma check_seq_stream:
  assumes "rcv_nxt conn = stream_pos base n" and "seg_seq_num seg = stream_pos base k"
    and "n < k + 2147483648" and "k < n + 2147483648"
  shows "check_seq seg conn = (if k = n then InOrder else if n < k \<and> k < n + 65535 then OutOfOrder else Unacceptable)"
proof -
  have same: "seg_seq_num seg = rcv_nxt conn \<longleftrightarrow> k = n"
    using assms stream_pos_order(2) [of k n base] by auto
  have fwd: "ahead (rcv_nxt conn) (seg_seq_num seg) = k - n" if "n \<le> k"
    using ahead_seq_at_less [of "base + int n" "base + int k", where 'a = dir_in] assms that
    by (simp add: stream_pos_def nat_diff_distrib [symmetric])
  have bwd: "\<not> ahead (rcv_nxt conn) (seg_seq_num seg) < 65535" if "k < n"
  proof
    assume "ahead (rcv_nxt conn) (seg_seq_num seg) < 65535"
    then have "precedes_or_eq (stream_pos base n) (stream_pos base k)"
      using assms(1,2) by (simp add: precedes_or_eq_iff)
    then show False using stream_pos_order(1) [of n k base] assms(3,4) that by simp
  qed
  show ?thesis
    using same fwd bwd by (cases "n \<le> k") (auto simp: check_seq_window)
qed


text \<open>The invariant of a connection that delivers.\<close>

definition in_stream :: "(nat \<Rightarrow> u8) \<Rightarrow> int \<Rightarrow> 'a recorder \<times> conn_state \<Rightarrow> bool" where
  "in_stream s base st \<longleftrightarrow> got (fst st) = stream_slice s 0 (length (got (fst st))) \<and>
     rcv_nxt (snd st) = stream_pos base (length (got (fst st))) \<and>
     genuine s base (length (got (fst st))) (segments (reassembly (snd st)))"

lemma stream_inv_in_stream: "in_stream s base st \<Longrightarrow> stream_inv s base st"
  by (simp add: stream_inv_def in_stream_def Let_def)

lemma stream_inv_delivering: "stream_inv s base st \<Longrightarrow> delivering (tcp_state_of (snd st)) \<Longrightarrow> in_stream s base st"
  by (simp add: stream_inv_def in_stream_def Let_def)

lemma in_stream_cong:
  "rcv_nxt conn' = rcv_nxt conn \<Longrightarrow> reassembly conn' = reassembly conn \<Longrightarrow>
   in_stream s base (app, conn') = in_stream s base (app, conn)"
  by (simp add: in_stream_def)

lemma stream_inv_done:
  "got app = stream_slice s 0 (length (got app)) \<Longrightarrow> \<not> delivering (tcp_state_of conn) \<Longrightarrow> stream_inv s base (app, conn)"
  by (simp add: stream_inv_def Let_def)

lemma in_stream_got: "in_stream s base (app, conn) \<Longrightarrow> got app = stream_slice s 0 (length (got app))"
  by (simp add: in_stream_def)

text \<open>Receiving in order, and everything that becomes contiguous.\<close>

lemma length_run_recording: "got (fst (run_app (recording ops) app ps)) = got app @ concat (map payload_data ps)"
  by (simp add: run_app_recording)

lemma extends_slice:
  assumes "xs = stream_slice s 0 (length xs)" and "ys = stream_slice s (length xs) r" and "length xs \<le> r"
  shows "xs @ ys = stream_slice s 0 r" and "length (xs @ ys) = r"
proof -
  have "stream_slice s 0 (length xs) @ stream_slice s (length xs) r = stream_slice s 0 r"
    using assms(3) by (intro stream_slice_append) simp_all
  then show "xs @ ys = stream_slice s 0 r" using assms by simp
  then show "length (xs @ ys) = r" by simp
qed

lemma receive_in_stream:
  assumes st: "in_stream s base (app, conn)" and segs: "segments_wf (segments (reassembly conn))"
    and pwf: "payload_opt_wf mp" and n: "n = length (got app)"
    and bytes: "payload_bytes mp = stream_slice s n (n + length (payload_bytes mp))"
    and new: "mp = None \<Longrightarrow> reassembly conn = reassembly_new"
  obtains app' conn' where
    "deliver_reassembled (recording ops) (receive_payload (recording ops) mp (app, conn)) = (app', conn')"
    "in_stream s base (app', conn')" "tcp_state_of conn' = tcp_state_of conn"
    "\<exists>more. got app' = got app @ payload_bytes mp @ more"
proof (cases mp)
  case None
  then have "deliver_reassembled (recording ops) (receive_payload (recording ops) mp (app, conn)) = (app, conn)"
    using new by (simp add: deliver_reassembled_def drain_contiguous_def reassembly_new_def drain_segments.simps
        receive_payload_def)
  from this st show ?thesis by (rule that) (simp_all add: None)
next
  case (Some p)
  obtain ps r' re' where d: "n + length (payload_data p) \<le> r'" "r' \<le> n + 131070" "concat (map payload_data ps) = stream_slice s n r'"
    "genuine s base r' (segments re')" "segments_wf (segments re')" "fin_seq re' = fin_seq (reassembly conn)"
    "\<exists>qs. drain_segments (stream_pos base (n + length (payload_data p))) (segments (reassembly conn)) =
       (qs, stream_pos base r', segments re')"
    "deliver_reassembled (recording ops) (receive_payload (recording ops) (Some p) (app, conn)) =
      (fst (run_app (recording ops) app ps), conn\<lparr>rcv_nxt := stream_pos base r', reassembly := re',
         send_buffer := send_buffer conn @ snd (run_app (recording ops) app ps)\<rparr>)"
    by (rule deliver_in_order [of s base n conn p "recording ops" app])
      (use st segs pwf bytes n Some in \<open>simp_all add: in_stream_def\<close>)
  let ?app = "fst (run_app (recording ops) app ps)"
  have "got ?app = got app @ stream_slice s n r'" by (simp add: length_run_recording d(3))
  moreover have "got app @ stream_slice s n r' = stream_slice s 0 r'"
    using extends_slice(1) [of "got app" s "stream_slice s n r'" r'] st d(1) n by (simp add: in_stream_def)
  ultimately have got: "got ?app = stream_slice s 0 r'" by simp
  have "stream_slice s 0 r' = (got app @ payload_bytes mp) @ stream_slice s (n + length (payload_data p)) r'"
    using stream_slice_append [of 0 n "n + length (payload_data p)" s] d(1) st bytes n Some
      stream_slice_append [of 0 "n + length (payload_data p)" r' s]
    by (simp add: in_stream_def)
  then have "\<exists>more. got ?app = got app @ payload_bytes mp @ more" unfolding got by auto
  from d(8) [folded Some] show ?thesis
    by (rule that) (use d(4) got \<open>\<exists>more. got ?app = got app @ payload_bytes mp @ more\<close> in \<open>simp_all add: in_stream_def\<close>)
qed

text \<open>Buffering what is ahead of RCV.NXT.\<close>

lemma buffer_in_stream:
  assumes "in_stream s base (app, conn)" and "segment_wf seg" and "n = length (got app)"
    and "seg_seq_num seg = stream_pos base k" and "n < k" and "k < n + 65535"
    and "payload_bytes (seg_payload seg) = stream_slice s k (k + length (payload_bytes (seg_payload seg)))"
  shows "in_stream s base (app, buffer_payload seg conn)"
proof (cases "seg_payload seg")
  case (Some p)
  have "genuine s base n (insert_segment (stream_pos base k) p (segments (reassembly conn)))"
    using assms Some by (intro genuine_insert) (simp_all add: in_stream_def segment_wf_def)
  then show ?thesis
    using assms(1,3,4) Some by (simp add: in_stream_def buffer_payload_def reassembly_insert_def)
qed (use assms(1) in \<open>simp add: buffer_payload_def\<close>)

lemma buffer_fin_in_stream [simp]: "in_stream s base (app, buffer_fin seg conn) = in_stream s base (app, conn)"
  by (simp add: in_stream_def)


text \<open>How a handler ends: by sending what the window allows, or by answering the peer's FIN.\<close>

lemma close_wait_or_last_ack_state:
  "close_wait_or_last_ack now cw conn = (conn', Inr info) \<Longrightarrow> \<not> delivering (tcp_state_of conn')"
  by (auto simp: close_wait_or_last_ack_def run_then_Inr data_payload_def delivering_def Let_def
      split: if_splits option.splits)

lemma reply_with_Inr:
  "reply_with r = (s', Inr d) \<longleftrightarrow> (\<exists>info. r = (s', Inr info) \<and> d = (Some info, False))"
  by (auto simp: reply_with_def run_then_Inr)

lemma closing_done:
  assumes "reply_with (beside app (close_wait_or_last_ack now cw conn)) = ((app', conn'), Inr d)"
    and "got app = stream_slice s 0 (length (got app))"
  shows "stream_inv s base (app', conn')" and "app' = app"
proof -
  show "app' = app" using assms(1) by (auto simp: reply_with_Inr beside_def)
  have "\<not> delivering (tcp_state_of conn')"
    using assms(1) close_wait_or_last_ack_state [of now cw conn conn']
    by (cases "close_wait_or_last_ack now cw conn") (auto simp: reply_with_Inr beside_def)
  then show "stream_inv s base (app', conn')"
    using assms(2) \<open>app' = app\<close> by (simp add: stream_inv_done)
qed

lemma drain_transmittable_frame:
  "rcv_nxt (fst (drain_transmittable e conn)) = rcv_nxt conn"
  "reassembly (fst (drain_transmittable e conn)) = reassembly conn"
  by (simp_all add: drain_transmittable_run run_then_cases Let_def split: sum.split)

text \<open>The code after \<open>drain_transmittable\<close> in both states: a data segment, or what is sent instead.\<close>

abbreviation (input) send_or ::
    "(conn_state \<Rightarrow> send_info option) \<Rightarrow> instant \<Rightarrow> ('a \<times> conn_state, tcp_payload option) stateful \<Rightarrow>
     ('a \<times> conn_state, decision) stateful" where
  "send_or idle now r \<equiv> run_then r (\<lambda>(app, conn) maybe_to_send.
     case maybe_to_send of
       Some to_send \<Rightarrow>
         (let (info, conn) = data_payload now to_send conn in ((app, conn), Inr (Some info, False)))
     | None \<Rightarrow> ((app, conn), Inr (idle conn, False)))"

lemma transmit_frame:
  assumes "send_or idle now (beside app (drain_transmittable e conn)) = ((app', conn'), Inr d)"
  shows "app' = app" and "rcv_nxt conn' = rcv_nxt conn" and "reassembly conn' = reassembly conn"
proof -
  obtain conn1 r where dr: "drain_transmittable e conn = (conn1, r)" by fastforce
  have "app' = app \<and> rcv_nxt conn' = rcv_nxt conn1 \<and> reassembly conn' = reassembly conn1"
  proof (cases r)
    case (Inr p)
    then show ?thesis
      using assms dr by (cases p) (auto simp: beside_def data_payload_def Let_def)
  qed (use assms dr in \<open>simp add: beside_def\<close>)
  then show "app' = app" and "rcv_nxt conn' = rcv_nxt conn" and "reassembly conn' = reassembly conn"
    using drain_transmittable_frame [of e conn] by (simp_all add: dr)
qed

text \<open>One segment, for each of the two states that deliver.\<close>

lemma in_order_fin_stream:
  assumes st: "in_stream s base (app, conn)"
    and bytes: "payload_bytes mp = stream_slice s (length (got app)) (length (got app) + length (payload_bytes mp))"
    and run: "reply_with (close_on_in_order_fin (recording ops) now seg mp e (app, conn)) = ((app', conn'), Inr d)"
  shows "stream_inv s base (app', conn')" and "\<exists>more. got app' = got app @ payload_bytes mp @ more"
proof -
  let ?app = "fst (run_app (recording ops) app (option_list mp))"
  have "concat (map payload_data (option_list mp)) = payload_bytes mp" by (cases mp) simp_all
  then have got: "got ?app = got app @ payload_bytes mp" by (simp add: length_run_recording)
  then have slice: "got ?app = stream_slice s 0 (length (got ?app))"
    using extends_slice [of "got app" s "payload_bytes mp"] bytes in_stream_got [OF st] by simp
  obtain cw conn2 where c: "reply_with (beside ?app (close_wait_or_last_ack now cw conn2)) = ((app', conn'), Inr d)"
    using run by (auto simp: close_on_in_order_fin_def receive_payload_eq Let_def split_beta)
  show "stream_inv s base (app', conn')" by (rule closing_done(1) [OF c slice])
  show "\<exists>more. got app' = got app @ payload_bytes mp @ more"
    using closing_done(2) [OF c slice] by (simp add: got)
qed

text \<open>After receiving everything contiguous: answering a FIN that has been reached, or sending.\<close>

lemma transmit_stream:
  assumes "in_stream s base (app, conn)"
    and "send_or idle now (beside app (drain_transmittable e conn)) = ((app', conn'), Inr d)"
  shows "stream_inv s base (app', conn')" and "app' = app"
proof -
  note t = transmit_frame [OF assms(2)]
  show "app' = app" by (rule t(1))
  have "in_stream s base (app, conn')" using assms(1) in_stream_cong [OF t(2,3), of s base app] by blast
  then show "stream_inv s base (app', conn')" unfolding t(1) by (rule stream_inv_in_stream)
qed

lemma received_all_stream:
  assumes st: "in_stream s base (app, conn)"
    and run: "(if fin_reached (rcv_nxt conn) (reassembly conn)
      then reply_with (beside app (close_wait_or_last_ack now cw (advance_past_fin conn)))
      else send_or idle now (beside app (drain_transmittable e conn))) = ((app', conn'), Inr d)"
  shows "stream_inv s base (app', conn')" and "app' = app"
proof -
  have "stream_inv s base (app', conn') \<and> app' = app"
  proof (cases "fin_reached (rcv_nxt conn) (reassembly conn)")
    case True
    then have "reply_with (beside app (close_wait_or_last_ack now cw (advance_past_fin conn))) = ((app', conn'), Inr d)"
      using run by simp
    from closing_done [OF this in_stream_got [OF st]] show ?thesis by blast
  next
    case False
    from run have "send_or idle now (beside app (drain_transmittable e conn)) = ((app', conn'), Inr d)"
      unfolding if_not_P [OF False] .
    from transmit_stream [OF st this] show ?thesis by blast
  qed
  then show "stream_inv s base (app', conn')" and "app' = app" by blast+
qed


text \<open>What one segment does to the two streams, in the state \<open>st'\<close> after it.\<close>

definition continues :: "(nat \<Rightarrow> u8) \<Rightarrow> int \<Rightarrow> 'a recorder \<Rightarrow> 'a recorder \<times> conn_state \<Rightarrow> bool" where
  "continues s base app st' \<longleftrightarrow> stream_inv s base st' \<and> (\<exists>more. got (fst st') = got app @ more)"

lemma continues_same: "in_stream s base (app, conn) \<Longrightarrow> continues s base app (app, conn)"
  by (simp add: continues_def stream_inv_in_stream)

lemma carriesE:
  assumes "carries s base n seg" and "seg_flags seg = Ack \<or> seg_flags seg = FinAck" and "rcv_nxt conn = stream_pos base n"
  obtains (in_order) "check_seq seg conn = InOrder" "payload_bytes (seg_payload seg) =
      stream_slice s n (n + length (payload_bytes (seg_payload seg)))"
    | (out_of_order) k where "check_seq seg conn = OutOfOrder" "n < k" "k < n + 65535" "seg_seq_num seg = stream_pos base k"
      "payload_bytes (seg_payload seg) = stream_slice s k (k + length (payload_bytes (seg_payload seg)))"
    | (unacceptable) "check_seq seg conn = Unacceptable"
proof -
  obtain k where k: "n < k + 2147483648" "k < n + 2147483648" "seg_seq_num seg = stream_pos base k"
    "payload_bytes (seg_payload seg) = stream_slice s k (k + length (payload_bytes (seg_payload seg)))"
    using assms(1,2) by (auto simp: carries_def)
  from check_seq_stream [OF assms(3) k(3,1,2)] k(3,4) show thesis
    by (cases "k = n"; cases "n < k \<and> k < n + 65535") (auto intro: in_order out_of_order unacceptable)
qed

lemma buffered_continues:
  assumes "in_stream s base (app, conn)" and "segment_wf seg"
    and "length (got app) < k" and "k < length (got app) + 65535" and "seg_seq_num seg = stream_pos base k"
    and "payload_bytes (seg_payload seg) = stream_slice s k (k + length (payload_bytes (seg_payload seg)))"
  shows "continues s base app (app, buffer_payload seg conn)"
    and "continues s base app (app, buffer_fin seg (buffer_payload seg conn))"
proof -
  have "in_stream s base (app, buffer_payload seg conn)"
    by (rule buffer_in_stream [OF assms(1,2) refl assms(5,3,4,6)])
  then show "continues s base app (app, buffer_payload seg conn)"
    and "continues s base app (app, buffer_fin seg (buffer_payload seg conn))"
    by (simp_all add: continues_same)
qed

lemma handle_established_stream:
  assumes st: "in_stream s base (app, conn)" and segs: "segments_wf (segments (reassembly conn))"
    and wf: "segment_wf seg" and carries: "carries s base (length (got app)) seg"
    and run: "handle_established (recording ops) now seg est (app, conn) = ((app', conn'), Inr d)"
  shows "continues s base app (app', conn')"
proof (cases "seg_flags seg = Ack \<or> seg_flags seg = FinAck")
  case True
  obtain e1 conn1 where u: "incoming_ack_update est seg conn = (e1, conn1)" by fastforce
  let ?conn2 = "conn1\<lparr>tcp_state_of := Established e1\<rparr>"
  have frame: "rcv_nxt ?conn2 = rcv_nxt conn" "reassembly ?conn2 = reassembly conn"
    using incoming_ack_update_frame [of est seg conn] u by simp_all
  have st2: "in_stream s base (app, ?conn2)" using st in_stream_cong [OF frame, of s base app] by blast
  have rcv: "rcv_nxt conn = stream_pos base (length (got app))" using st by (simp add: in_stream_def)
  note run = run [unfolded handle_established_def Let_def prod.case u]
  show ?thesis
    using carries True rcv
  proof (cases rule: carriesE)
    case unacceptable
    then show ?thesis using run continues_same [OF st] by simp
  next
    case (out_of_order k)
    note buffered = buffered_continues [OF st2 wf out_of_order(2,3,4,5)]
    show ?thesis
    proof (cases "seg_payload seg")
      case None
      then show ?thesis
        using run out_of_order(1) True continues_same [OF st] buffered
          transmit_stream [OF st2, where idle = "\<lambda>_. None" and now = now and e = e1 and app' = app' and conn' = conn' and d = d]
        by (auto simp: continues_def Let_def split: if_splits)
    next
      case (Some p)
      then show ?thesis
        using run out_of_order(1) True continues_same [OF st] buffered by (auto split: if_splits)
    qed
  next
    case in_order
    consider (fin) "seg_flags seg = FinAck" | (old) "seg_flags seg = Ack" "precedes (snd_nxt conn) (seg_ack_num seg)"
      | (ack) "seg_flags seg = Ack" "seg_payload seg = None" "\<not> precedes (snd_nxt conn) (seg_ack_num seg)"
      | (data) p where "seg_flags seg = Ack" "seg_payload seg = Some p" "\<not> precedes (snd_nxt conn) (seg_ack_num seg)"
      using True by (cases "seg_payload seg") auto
    then show ?thesis
    proof cases
      case fin
      then have "reply_with (close_on_in_order_fin (recording ops) now seg (seg_payload seg) est (app, conn)) =
          ((app', conn'), Inr d)"
        using run in_order(1) by simp
      from in_order_fin_stream [OF st in_order(2) this] show ?thesis by (auto simp: continues_def)
    next
      case old
      then show ?thesis using run in_order(1) continues_same [OF st] by simp
    next
      case ack
      then show ?thesis
        using run in_order(1) transmit_stream [OF st2, unfolded Let_def, where idle = "\<lambda>_. None" and now = now
            and e = e1 and app' = app' and conn' = conn' and d = d]
        by (auto simp: continues_def)
    next
      case data
      obtain app3 conn3 where r:
        "deliver_reassembled (recording ops) (receive_payload (recording ops) (seg_payload seg) (app, ?conn2)) = (app3, conn3)"
        "in_stream s base (app3, conn3)" "\<exists>more. got app3 = got app @ payload_bytes (seg_payload seg) @ more"
        by (rule receive_in_stream [OF st2 _ _ refl in_order(2)])
          (use segs frame wf data(2) in \<open>auto simp: segment_wf_def\<close>)
      have "stream_inv s base (app', conn') \<and> app' = app3"
        using run in_order(1) data received_all_stream [OF r(2), unfolded Let_def, where now = now and cw = "rcv_fin e1" and e = e1
            and idle = "\<lambda>c. Some (pure_ack c)" and app' = app' and conn' = conn' and d = d]
        by (simp add: r(1) [unfolded data(2)])
      then show ?thesis using r(3) by (auto simp: continues_def)
    qed
  qed
next
  case False
  then show ?thesis
    using run continues_same [OF st] by (auto simp: handle_established_def Let_def)
qed


lemma handle_syn_rcv_stream:
  assumes st: "in_stream s base (app, conn)" and new: "reassembly conn = reassembly_new"
    and wf: "segment_wf seg" and carries: "carries s base (length (got app)) seg"
    and run: "handle_syn_rcv (recording ops) now seg sr (app, conn) = ((app', conn'), Inr d)"
  shows "continues s base app (app', conn')"
proof (cases "(seg_flags seg = Ack \<or> seg_flags seg = FinAck) \<and>
    precedes (snd_una conn) (seg_ack_num seg) \<and> precedes_or_eq (seg_ack_num seg) (snd_nxt conn)")
  case True
  obtain est conn1 where h: "complete_handshake seg sr conn = (est, conn1)" by fastforce
  have frame: "rcv_nxt conn1 = rcv_nxt conn" "reassembly conn1 = reassembly conn"
    using h by (auto simp: complete_handshake_def Let_def)
  have st1: "in_stream s base (app, conn1)" using st in_stream_cong [OF frame, of s base app] by blast
  have rcv: "rcv_nxt conn = stream_pos base (length (got app))" using st by (simp add: in_stream_def)
  note run = run [unfolded handle_syn_rcv_def Let_def prod.case h]
  have flags: "seg_flags seg = Ack \<or> seg_flags seg = FinAck" using True by blast
  show ?thesis
    using carries flags rcv
  proof (cases rule: carriesE)
    case unacceptable
    then show ?thesis using run flags continues_same [OF st] by auto
  next
    case (out_of_order k)
    show ?thesis
      using run True out_of_order(1) buffered_continues [OF st1 wf out_of_order(2,3,4,5)] by (auto split: if_splits)
  next
    case in_order
    show ?thesis
    proof (cases "seg_flags seg = FinAck")
      case fin: True
      then have "reply_with (close_on_in_order_fin (recording ops) now seg (seg_payload seg) est (app, conn1)) =
          ((app', conn'), Inr d)"
        using run in_order(1) True by simp
      from in_order_fin_stream [OF st1 in_order(2) this] show ?thesis by (auto simp: continues_def)
    next
      case False
      obtain app3 conn3 where r:
        "deliver_reassembled (recording ops) (receive_payload (recording ops) (seg_payload seg) (app, conn1)) = (app3, conn3)"
        "in_stream s base (app3, conn3)" "\<exists>more. got app3 = got app @ payload_bytes (seg_payload seg) @ more"
        by (rule receive_in_stream [OF st1 _ _ refl in_order(2)])
          (use new frame wf in \<open>auto simp: segment_wf_def segments_wf_def reassembly_new_def\<close>)
      have "stream_inv s base (app', conn') \<and> app' = app3"
        using run in_order(1) False True flags received_all_stream [OF r(2), unfolded Let_def, where now = now and cw = "rcv_fin est" and e = est
            and idle = "\<lambda>c. Some (pure_ack c)" and app' = app' and conn' = conn' and d = d]
          stream_inv_in_stream [OF r(2)]
        by (auto simp: r(1) split: if_splits)
      then show ?thesis using r(3) by (auto simp: continues_def)
    qed
  qed
next
  case False
  have "app' = app" "rcv_nxt conn' = rcv_nxt conn" "reassembly conn' = reassembly conn"
    using run False by (auto simp: handle_syn_rcv_def Let_def split: if_splits)
  then show ?thesis
    using continues_same st in_stream_cong [of conn' conn s base app] by blast
qed


text \<open>The states that no longer deliver hand nothing to the application and never deliver again.\<close>

lemma rfc_steps_done: "rfc_steps a b \<Longrightarrow> a \<noteq> SYN_RECEIVED \<Longrightarrow> a \<noteq> ESTABLISHED \<Longrightarrow> b \<noteq> SYN_RECEIVED \<and> b \<noteq> ESTABLISHED"
  by (induction rule: rtranclp_induct) (auto simp: rfc_step_simps)

lemma handle_known_conn_done:
  assumes "handle_known_conn ops now seg (app, conn) = ((app', conn'), r)" and "\<not> delivering (tcp_state_of conn)"
  shows "app' = app"
  using assms
  by (cases "tcp_state_of conn") (auto simp: handle_known_conn_def delivering_def infallibly_def beside_def)

lemma handle_known_conn_stream:
  assumes inv: "conn_inv conn" and st: "stream_inv s base (app, conn)" and wf: "segment_wf seg"
    and carries: "carries s base (length (got app)) seg" and ack: "ack_placeable conn seg"
    and run: "handle_known_conn (recording ops) now seg (app, conn) = ((app', conn'), Inr d)"
  shows "continues s base app (app', conn')"
proof (cases "delivering (tcp_state_of conn)")
  case True
  then have ins: "in_stream s base (app, conn)" using stream_inv_delivering [OF st] by simp
  note c = conn_invD [OF inv]
  show ?thesis
  proof (cases "tcp_state_of conn")
    case (SynReceived sr)
    then have new: "reassembly conn = reassembly_new" using inv by (simp add: conn_inv_def)
    show ?thesis
      by (rule handle_syn_rcv_stream [OF ins new wf carries]) (use run SynReceived in \<open>simp add: handle_known_conn_def\<close>)
  next
    case (Established est)
    show ?thesis
      by (rule handle_established_stream [OF ins c(2) wf carries]) (use run Established in \<open>simp add: handle_known_conn_def\<close>)
  qed (use True in \<open>simp_all add: delivering_def\<close>)
next
  case False
  have "app' = app" by (rule handle_known_conn_done [OF run False])
  have "handled (recording ops) seg (app, conn) (app', conn') (fst d)"
    using handle_known_conn_handled [OF inv wf ack, of "recording ops" now app app' conn' "fst d" "snd d"] run by simp
  then have "rfc_steps (kind (tcp_state_of conn)) (kind (tcp_state_of conn'))" by (simp add: handled_def)
  then have "\<not> delivering (tcp_state_of conn')"
    using False rfc_steps_done by (auto simp: delivering_def)
  then show ?thesis
    using st \<open>app' = app\<close> by (simp add: continues_def stream_inv_def Let_def)
qed

lemma happen_stream:
  assumes "from_stream s base ev (app, conn)" and inv: "conn_inv conn" and st: "stream_inv s base (app, conn)"
    and run: "happen (recording ops) conns ev (app, conn) = ((app', conn'), Inr (infos, gone))"
  shows "continues s base app (app', conn')"
proof (cases ev)
  case (Arrival now seg)
  obtain reply where h: "handle_known_conn (recording ops) now seg (app, conn) = ((app', conn'), Inr (reply, gone))"
    using run by (cases "handle_known_conn (recording ops) now seg (app, conn)";
        cases "snd (handle_known_conn (recording ops) now seg (app, conn))") (auto simp: happen_def Arrival)
  show ?thesis
    by (rule handle_known_conn_stream [OF inv st _ _ _ h]) (use assms(1) in \<open>simp_all add: from_stream_def Arrival\<close>)
next
  case (Timer now later)
  then have "app' = app" "rcv_nxt conn' = rcv_nxt conn" "reassembly conn' = reassembly conn" "tcp_state_of conn' = tcp_state_of conn"
    using run by (auto simp: happen_def resend_def split: if_splits)
  then show ?thesis using st by (simp add: continues_def stream_inv_def Let_def)
next
  case (Close now)
  have "app' = app" "conn' = conn \<or> \<not> delivering (tcp_state_of conn')"
    using run Close close_conn_ok(4) [OF _ inv, of now] by (auto simp: happen_def delivering_def split: option.splits)
  then show ?thesis using st by (auto simp: continues_def stream_inv_def Let_def)
qed

text \<open>
  C1: The application receives the peer's stream, whatever the network does. Let the peer's stream be
  \<open>s\<close>, and let a connection, from its SYN on, take part in any conversation: segments of the stream
  in any order, repeated, lost, overlapping, old or far ahead, with any flags, acknowledgments and
  windows, except that none acknowledges the antipode of SND.UNA, 2^31 away, when it arrives (the premise
  \<open>event_ok\<close> of \<open>from_stream\<close>; \<open>antipodal_fin_breaks_connection\<close> shows what such a segment can do),
  and retransmission passes and a shutdown in between. Then no step fails, and what the application has
  been given, all calls together, is exactly a prefix of the stream; it only grows, and as long as
  the connection delivers, RCV.NXT is its end.
\<close>

theorem application_receives_stream:
  assumes "conn_inv conn" and "stream_inv s base (app, conn)"
    and "along (recording ops) conns (from_stream s base) evs (app, conn)"
  shows "\<exists>app' conn' infos. conversation (recording ops) conns evs (app, conn) = ((app', conn'), Inr infos) \<and>
    got app' = stream_slice s 0 (length (got app')) \<and> (\<exists>more. got app' = got app @ more) \<and>
    (delivering (tcp_state_of conn') \<longrightarrow> rcv_nxt conn' = stream_pos base (length (got app')))"
proof -
  have "\<exists>st' infos. conversation (recording ops) conns evs (app, conn) = (st', Inr infos) \<and> conn_inv (snd st') \<and>
      stream_inv s base st' \<and> (\<exists>more. got (fst st') = got (fst (app, conn)) @ more)"
  proof (rule conversation_induct [where P = "stream_inv s base" and R = "\<lambda>st st' _. \<exists>more. got (fst st') = got (fst st) @ more",
        OF assms(3) _ assms(2)])
    show "from_stream s base ev st \<Longrightarrow> event_ok ev (snd st)" for ev and st :: "'a recorder \<times> conn_state"
      by (simp add: from_stream_def)
    show "stream_inv s base (app', conn') \<and> (\<exists>more. got (fst (app', conn')) = got (fst (app, conn)) @ more)"
      if "from_stream s base ev (app, conn)" "conn_inv conn" "stream_inv s base (app, conn)"
        "happen (recording ops) conns ev (app, conn) = ((app', conn'), Inr (infos, gone))"
      for ev app conn app' conn' infos gone
      using happen_stream [OF that] by (simp add: continues_def)
  qed (use assms(1) in auto)
  then show ?thesis by (auto simp: stream_inv_def Let_def)
qed

text \<open>An application that has seen nothing, and the stream \<open>hijk\<close> in two segments, the second first.\<close>

abbreviation fresh :: "unit recorder" where
  "fresh \<equiv> \<lparr>observed = (), got = [], gave = []\<rparr>"

definition hijk :: "nat \<Rightarrow> u8" where "hijk k = 0x68 + of_nat k"

abbreviation example_jk :: in_segment where
  "example_jk \<equiv> example_seg Ack 503 101 (Some \<lparr>payload_data = [0x6A, 0x6B], payload_len = 2\<rparr>)"

lemma example_jk_wf [simp]: "segment_wf example_jk"
  by (simp add: segment_wf_def payload_wf_def)

lemma example_early:
  "happen ops conns (Arrival now example_jk) (app, example_conn) = ((app, c), r) \<Longrightarrow>
   snd_una c = SeqPoint 101 \<and> snd_nxt c = SeqPoint 101"
  by (auto simp: happen_def tcp_eval example_conn_def in_window_iff offset_u32_from_u16_def buffer_payload_def)

lemma example_early_app:
  "fst (fst (happen ops conns (Arrival now example_jk) (app, example_conn))) = app"
  by (simp add: happen_def tcp_eval example_conn_def in_window_iff offset_u32_from_u16_def)

lemma example_in_stream: "in_stream hijk 501 (fresh, example_conn)"
  by (simp add: in_stream_def stream_slice_def stream_pos_def seq_at_def genuine_def example_conn_def reassembly_new_def)

lemma example_carries: "carries hijk 501 0 example_hi" "carries hijk 501 0 example_jk"
proof -
  show "carries hijk 501 0 example_hi"
    unfolding carries_def by (intro impI exI [of _ 0]) (simp add: stream_pos_def seq_at_def stream_slice_def hijk_def upt_rec)
  show "carries hijk 501 0 example_jk"
    unfolding carries_def by (intro impI exI [of _ 2]) (simp add: stream_pos_def seq_at_def stream_slice_def hijk_def upt_rec)
qed

theorem application_receives_stream_witness:
  "\<exists>app' conn' infos. conversation (recording test_app) example_conns
     [Arrival 0 example_jk, Arrival 1 example_hi, Timer 2 2, Close 3] (fresh, example_conn) = ((app', conn'), Inr infos) \<and>
     got app' = stream_slice hijk 0 (length (got app'))"
proof -
  let ?evs = "[Arrival 0 example_jk, Arrival 1 example_hi, Timer 2 2, Close 3]"
  obtain c r where e: "happen (recording test_app) example_conns (Arrival 0 example_jk) (fresh, example_conn) = ((fresh, c), r)"
    using example_early_app [of "recording test_app" example_conns 0 fresh] by (metis prod.collapse)
  have "along (recording test_app) example_conns (from_stream hijk 501) ?evs (fresh, example_conn)"
    using example_early [OF e] example_carries by (simp add: e from_stream_def ack_placeable_def ahead_def)
  from application_receives_stream [OF example_conn_inv stream_inv_in_stream [OF example_in_stream] this]
  show ?thesis by blast
qed

end
