(* ===== verification/Tcp_Delivery.thy ===== *)
theory Tcp_Delivery
  imports Tcp_Streams
begin

text \<open>
  Completeness of delivery: when the peer has cut its stream into segments and each of them has
  arrived at least once, in any order, the application has received all of it.
\<close>

section \<open>A stream cut into segments\<close>

text \<open>
  \<open>seams\<close> is the set of the positions at which the peer's segments meet: a segment goes from one of
  them to the next.
\<close>

definition between_seams :: "nat set \<Rightarrow> nat \<Rightarrow> nat \<Rightarrow> bool" where
  "between_seams seams k m \<longleftrightarrow> k \<in> seams \<and> k + m \<in> seams \<and> (\<forall>x \<in> seams. \<not> (k < x \<and> x < k + m))"

lemma between_seams_unique: "between_seams seams k m \<Longrightarrow> between_seams seams k m' \<Longrightarrow> 0 < m \<Longrightarrow> 0 < m' \<Longrightarrow> m = m'"
  unfolding between_seams_def by (metis linorder_neqE_nat nat_add_left_cancel_less less_add_same_cancel1)

text \<open>Every buffered segment is one of the pieces; \<open>arrived\<close> holds the positions that have been seen.\<close>

definition buffered_pieces ::
    "nat set \<Rightarrow> int \<Rightarrow> nat set \<Rightarrow> (dir_in seq_point \<times> tcp_payload) list \<Rightarrow> bool" where
  "buffered_pieces seams base arrived segs \<longleftrightarrow> (\<forall>(start, p) \<in> set segs.
     \<exists>k \<in> arrived. start = stream_pos base k \<and> between_seams seams k (length (payload_data p)))"

text \<open>Draining goes from boundary to boundary.\<close>

lemma drain_segments_seams:
  assumes "buffered_pieces seams base seams segs" and "segments_wf segs" and "r \<in> seams" and "\<forall>k \<in> seams. lo \<le> k \<and> k \<le> lo + 65535"
    and "drain_segments (stream_pos base r) segs = (ps, rcv', segs')"
  shows "\<exists>r' \<in> seams. rcv' = stream_pos base r'"
  using assms
proof (induction "stream_pos base r" segs arbitrary: r ps rcv' segs' rule: drain_segments.induct)
  case (1 segs)
  obtain found kept where e: "extract_contiguous (stream_pos base r) segs = (found, kept)" by fastforce
  note spec = extract_contiguous_spec [OF e]
  show ?case
  proof (cases found)
    case None
    then show ?thesis using 1(4,6) e by (auto simp: drain_segments.simps [of "stream_pos base r"])
  next
    case (Some p)
    have p: "(stream_pos base r, p) \<in> set segs" by (rule spec(5) [OF Some])
    then obtain k where k: "k \<in> seams" "stream_pos base r = stream_pos base k" "between_seams seams k (length (payload_data p))"
      using 1(2) by (auto simp: buffered_pieces_def)
    have "k \<le> lo + 65535" "lo \<le> k" "r \<le> lo + 65535" "lo \<le> r" using 1(4,5) k(1) by auto
    then have "k = r" using k(2) stream_pos_order(2) [of k r base] by simp
    have pwf: "payload_wf p" using p 1(3) by (auto simp: segments_wf_def)
    let ?q = "r + length (payload_data p)"
    have q: "?q \<in> seams" using k(3) \<open>k = r\<close> by (simp add: between_seams_def)
    have next_pos: "seq_add (stream_pos base r) (offset_from_len (payload_len p)) = stream_pos base ?q"
      using pwf by (simp add: stream_pos_add payload_wf_len)
    obtain qs t ks where d: "drain_segments (stream_pos base ?q) kept = (qs, t, ks)"
      by (metis prod_cases3)
    have "buffered_pieces seams base seams kept" using 1(2) spec(1) by (auto simp: buffered_pieces_def)
    moreover have "segments_wf kept" using 1(3) spec(1,2) by (auto simp: segments_wf_def)
    ultimately have "\<exists>r' \<in> seams. t = stream_pos base r'"
      using 1(1) [OF e [symmetric] Some next_pos _ _ q 1(5)] d by (simp add: next_pos)
    then show ?thesis using 1(6) e Some d by (auto simp: drain_segments.simps [of "stream_pos base r"] next_pos)
  qed
qed

section \<open>One segment\<close>

text \<open>
  An arrival of the next data: an in-window or old piece of the stream, on an ESTABLISHED connection,
  with an acknowledgment of nothing that has not been sent.
\<close>

definition piece :: "(nat \<Rightarrow> u8) \<Rightarrow> int \<Rightarrow> nat set \<Rightarrow> nat \<Rightarrow> in_segment \<Rightarrow> bool" where
  "piece s base seams k seg \<longleftrightarrow> seg_flags seg = Ack \<and> segment_wf seg \<and> seg_seq_num seg = stream_pos base k \<and>
     (\<exists>p. seg_payload seg = Some p \<and> between_seams seams k (length (payload_data p)) \<and>
          payload_data p = stream_slice s k (k + length (payload_data p)))"

definition piece_event :: "(nat \<Rightarrow> u8) \<Rightarrow> int \<Rightarrow> nat set \<Rightarrow> tcp_connections \<Rightarrow> event \<Rightarrow> 'a recorder \<times> conn_state \<Rightarrow> bool" where
  "piece_event s base seams conns ev st \<longleftrightarrow>
     (case ev of
        Arrival now seg \<Rightarrow> (\<exists>k. piece s base seams k seg) \<and> ack_placeable (snd st) seg \<and>
          \<not> precedes (snd_nxt (snd st)) (seg_ack_num seg)
      | Timer now later \<Rightarrow> \<not> gives_up now later conns (snd st)
      | Close now \<Rightarrow> False)"

text \<open>The first boundary that is missing is where the application has got to.\<close>

definition gap_inv ::
    "(nat \<Rightarrow> u8) \<Rightarrow> int \<Rightarrow> nat set \<Rightarrow> nat set \<Rightarrow> 'a recorder \<times> conn_state \<Rightarrow> bool" where
  "gap_inv s base seams arrived st \<longleftrightarrow>
     (let n = length (got (fst st)); conn = snd st; segs = segments (reassembly conn) in
      in_stream s base st \<and> kind (tcp_state_of conn) = ESTABLISHED \<and> fin_seq (reassembly conn) = None \<and>
      n \<in> seams \<and> n \<notin> arrived \<and> arrived \<subseteq> seams \<and> buffered_pieces seams base arrived segs \<and>
      (\<forall>k \<in> arrived. n \<le> k \<longrightarrow> stream_pos base k \<in> fst ` set segs))"


text \<open>What one piece does, by where it starts.\<close>

lemma established_piece:
  assumes inv: "conn_inv conn" and st: "in_stream s base (app, conn)" and est: "tcp_state_of conn = Established est"
    and wf: "segment_wf seg" and ack: "ack_placeable conn seg" and cur: "\<not> precedes (snd_nxt conn) (seg_ack_num seg)"
    and nofin: "fin_seq (reassembly conn) = None" and n: "n = length (got app)"
    and seg: "seg_flags seg = Ack" "seg_payload seg = Some p" "seg_seq_num seg = stream_pos base k"
      "payload_data p = stream_slice s k (k + length (payload_data p))"
    and near: "n < k + 2147483648" "k < n + 65535"
  obtains app' conn' reply where
    "handle_known_conn (recording ops) now seg (app, conn) = ((app', conn'), Inr (reply, False))"
    "kind (tcp_state_of conn') = ESTABLISHED" "fin_seq (reassembly conn') = None"
    "k = n \<Longrightarrow> (\<exists>qs. drain_segments (stream_pos base (n + length (payload_data p))) (segments (reassembly conn)) =
        (qs, stream_pos base (length (got app')), segments (reassembly conn'))) \<and>
      n + length (payload_data p) \<le> length (got app') \<and> length (got app') \<le> n + 131070"
    "n < k \<Longrightarrow> app' = app \<and> segments (reassembly conn') = insert_segment (stream_pos base k) p (segments (reassembly conn))"
    "k < n \<Longrightarrow> app' = app \<and> segments (reassembly conn') = segments (reassembly conn)"
proof -
  note c = conn_invD [OF inv]
  have rcv: "rcv_nxt conn = stream_pos base n" using st n by (simp add: in_stream_def)
  have flight: "in_flight conn \<le> 65535" using inv est by (simp add: conn_inv_def)
  have check: "check_seq seg conn = (if k = n then InOrder else if n < k then OutOfOrder else Unacceptable)"
    using check_seq_stream [OF rcv seg(3)] near by auto
  obtain e1 conn1 where u: "incoming_ack_update est seg conn = (e1, conn1)" "send_inv conn1"
    "in_flight conn1 \<le> in_flight conn" "snd_nxt conn1 = snd_nxt conn" "rcv_nxt conn1 = rcv_nxt conn"
    "send_buffer conn1 = send_buffer conn" "reassembly conn1 = reassembly conn"
    "tcp_state_of conn1 = tcp_state_of conn"
    by (rule ack_updateE [OF c(1) ack])
  let ?conn2 = "conn1\<lparr>tcp_state_of := Established e1\<rparr>"
  have h: "handle_known_conn (recording ops) now seg (app, conn) = handle_established (recording ops) now seg est (app, conn)"
    by (simp add: handle_known_conn_def est)
  consider "k < n" | "n < k" | "k = n" by linarith
  then show thesis
  proof cases
    case 1
    have fb: "known_conn_common_fallback seg conn = (Some (pure_ack conn), False)"
      using 1 check seg(1) by (simp add: known_conn_common_fallback_def Let_def)
    have "handle_known_conn (recording ops) now seg (app, conn) = ((app, conn), Inr (Some (pure_ack conn), False))"
      using 1 check seg(1,2) by (simp add: h handle_established_def fb Let_def)
    then show ?thesis by (rule that) (use 1 est nofin in simp_all)
  next
    case 2
    have "handle_known_conn (recording ops) now seg (app, conn) =
        ((app, buffer_payload seg ?conn2), Inr (Some (pure_ack (buffer_payload seg ?conn2)), False))"
      using 2 check seg(1,2) cur u(1) by (simp add: h handle_established_def Let_def)
    then show ?thesis
      by (rule that) (use 2 nofin seg(2,3) u(7) in \<open>simp_all add: buffer_payload_def reassembly_insert_def\<close>)
  next
    case 3
    obtain ps r' re' where d: "n + length (payload_data p) \<le> r'" "r' \<le> n + 131070"
      "concat (map payload_data ps) = stream_slice s n r'"
      "genuine s base r' (segments re')" "segments_wf (segments re')" "fin_seq re' = fin_seq (reassembly ?conn2)"
      "\<exists>qs. drain_segments (stream_pos base (n + length (payload_data p))) (segments (reassembly ?conn2)) =
         (qs, stream_pos base r', segments re')"
      "deliver_reassembled (recording ops) (receive_payload (recording ops) (Some p) (app, ?conn2)) =
        (fst (run_app (recording ops) app ps), ?conn2\<lparr>rcv_nxt := stream_pos base r', reassembly := re',
           send_buffer := send_buffer ?conn2 @ snd (run_app (recording ops) app ps)\<rparr>)"
      by (rule deliver_in_order [of s base n ?conn2 p "recording ops" app])
        (use st rcv n u c(2) wf seg 3 in \<open>simp_all add: in_stream_def segment_wf_def\<close>)
    define conn4 where "conn4 = ?conn2\<lparr>rcv_nxt := stream_pos base r', reassembly := re',
      send_buffer := send_buffer ?conn2 @ snd (run_app (recording ops) app ps)\<rparr>"
    have inv4: "send_inv conn4" "in_flight conn4 \<le> 65535" "segments_wf (segments (reassembly conn4))"
      "tcp_state_of conn4 = Established e1" "snd_nxt conn4 = snd_nxt conn" "\<not> fin_reached (rcv_nxt conn4) (reassembly conn4)"
      using u flight d(5,6) nofin send_inv_cong [of conn4 conn1]
      by (simp_all add: conn4_def in_flight_def fin_reached_def)
    obtain conn5 reply where t: "handle_established (recording ops) now seg est (app, conn) =
        ((fst (run_app (recording ops) app ps), conn5), Inr (reply, False))"
      "rcv_nxt conn5 = rcv_nxt conn4" "reassembly conn5 = reassembly conn4" "tcp_state_of conn5 = Established e1"
      by (rule established_in_order [OF u(1) seg(1,2) cur _ d(8) [folded conn4_def seg(2)] inv4]) (simp add: check 3)
    show ?thesis
      by (rule that [OF t(1) [folded h]])
        (use t(2-4) d(1,2,3,6,7) nofin u(7) 3 n in \<open>simp_all add: conn4_def length_run_recording\<close>)
  qed
qed


text \<open>An arriving piece moves the first gap past itself and everything that was waiting behind it.\<close>

lemma buffered_pieces_mono:
  "buffered_pieces seams base arrived segs \<Longrightarrow> arrived \<subseteq> arrived' \<Longrightarrow> set segs' \<subseteq> set segs \<Longrightarrow>
   buffered_pieces seams base arrived' segs'"
  by (fastforce simp: buffered_pieces_def)

text \<open>What draining leaves of the pieces that have arrived: all those after the new first gap.\<close>

lemma drain_gap:
  assumes gen: "genuine s base n segs" and pieces: "buffered_pieces seams base arrived segs" and wf: "segments_wf segs"
    and near: "\<forall>x \<in> seams. lo \<le> x \<and> x \<le> lo + 65535" and "arrived \<subseteq> seams" "q \<in> seams" "lo \<le> n" "n \<le> q" "n \<le> n'" "n' \<le> n + 131070"
    and waiting: "\<And>x. x \<in> arrived \<Longrightarrow> n \<le> x \<Longrightarrow> stream_pos base x \<in> fst ` set segs"
    and d: "drain_segments (stream_pos base q) segs = (qs, stream_pos base n', segs')"
  shows "n' \<in> seams" and "n' \<notin> arrived" and "set segs' \<subseteq> set segs"
    and "x \<in> arrived \<Longrightarrow> n' \<le> x \<Longrightarrow> stream_pos base x \<in> fst ` set segs'"
proof -
  have q: "q \<le> n + 131070" using near assms(6,7) by fastforce
  obtain r' where r': "q \<le> r'" "stream_pos base n' = stream_pos base r'" "r' \<le> n + 131070"
    "segs' = filter (starts_after (stream_pos base n')) segs" "stream_pos base n' \<notin> fst ` set segs"
    using drain_segments_stream [OF gen assms(8) q d] by auto
  have "buffered_pieces seams base seams segs" using buffered_pieces_mono [OF pieces assms(5) order.refl] .
  from drain_segments_seams [OF this wf assms(6) near d] obtain r2 where "r2 \<in> seams" "stream_pos base n' = stream_pos base r2"
    by blast
  moreover from this near have "lo \<le> r2" "r2 \<le> lo + 65535" by auto
  moreover have "q \<le> lo + 65535" using near assms(6) by auto
  then have "n' < r2 + 2147483648" "r2 < n' + 2147483648" using calculation(3,4) assms(7-10) by linarith+
  ultimately show seam: "n' \<in> seams" using stream_pos_order(2) [of n' r2 base] by simp
  show new: "n' \<notin> arrived" using waiting [of n'] r'(5) assms(9) by blast
  show "set segs' \<subseteq> set segs" by (simp add: r'(4))
  show "stream_pos base x \<in> fst ` set segs'" if x: "x \<in> arrived" "n' \<le> x"
  proof -
    have "n \<le> x" using x(2) assms(9) by simp
    from waiting [OF x(1) this] obtain p where p: "(stream_pos base x, p) \<in> set segs" by auto
    obtain k where k: "n \<le> k" "k < n + 65535" "stream_pos base x = stream_pos base k"
      using genuineE [OF gen p] by metis
    have "x \<le> lo + 65535" using near x(1) assms(5) by auto
    then have "x < k + 2147483648" "k < x + 2147483648" using k(1,2) assms(7) \<open>n \<le> x\<close> by linarith+
    then have "x = k" using k(3) stream_pos_order(2) [of x k base] by simp
    have "x \<noteq> n'" using new x(1) by auto
    then have "starts_after (stream_pos base n') (stream_pos base x, p)"
      using starts_after_stream_pos(1) [of n k "(stream_pos base x, p)" base n'] k x(2) assms(9,10) \<open>x = k\<close> by simp
    then have "(stream_pos base x, p) \<in> set segs'" using p by (simp add: r'(4))
    then show ?thesis by force
  qed
qed

lemma buffered_pieces_insert:
  assumes "buffered_pieces seams base arrived segs" and "between_seams seams k (length (payload_data p))"
  shows "buffered_pieces seams base (insert k arrived) (insert_segment (stream_pos base k) p segs)"
  using assms by (fastforce simp: buffered_pieces_def dest!: insert_segment_members)

lemma gap_piece:
  assumes gap: "gap_inv s base seams arrived (app, conn)" and inv: "conn_inv conn"
    and near: "\<forall>x \<in> seams. lo \<le> x \<and> x \<le> lo + 65535" and seg: "piece s base seams k seg"
    and ack: "ack_placeable conn seg" "\<not> precedes (snd_nxt conn) (seg_ack_num seg)"
  obtains app' conn' reply where
    "handle_known_conn (recording ops) now seg (app, conn) = ((app', conn'), Inr (reply, False))"
    "gap_inv s base seams (insert k arrived) (app', conn')"
proof -
  define n where "n = length (got app)"
  obtain p where p: "seg_flags seg = Ack" "segment_wf seg" "seg_seq_num seg = stream_pos base k" "seg_payload seg = Some p"
    "between_seams seams k (length (payload_data p))" "payload_data p = stream_slice s k (k + length (payload_data p))"
    using seg by (auto simp: piece_def)
  have g: "in_stream s base (app, conn)" "kind (tcp_state_of conn) = ESTABLISHED" "fin_seq (reassembly conn) = None"
    "n \<in> seams" "n \<notin> arrived" "arrived \<subseteq> seams" "buffered_pieces seams base arrived (segments (reassembly conn))"
    "\<And>x. x \<in> arrived \<Longrightarrow> n \<le> x \<Longrightarrow> stream_pos base x \<in> fst ` set (segments (reassembly conn))"
    using gap by (simp_all add: gap_inv_def n_def Let_def)
  obtain est where est: "tcp_state_of conn = Established est" using g(2) by (cases "tcp_state_of conn") simp_all
  have pos: "0 < length (payload_data p)" using p(2,4) payload_wf_nonempty [of p] by (simp add: segment_wf_def)
  have k: "k \<in> seams" "k + length (payload_data p) \<in> seams" using p(5) by (simp_all add: between_seams_def)
  have range: "lo \<le> n" "n \<le> lo + 65535" "lo \<le> k" "k + length (payload_data p) \<le> lo + 65535" using near g(4) k by auto
  then have close: "n < k + 2147483648" "k < n + 65535" using pos by linarith+
  obtain app' conn' reply where h: "handle_known_conn (recording ops) now seg (app, conn) = ((app', conn'), Inr (reply, False))"
    "kind (tcp_state_of conn') = ESTABLISHED" "fin_seq (reassembly conn') = None"
    and at: "k = n \<Longrightarrow> (\<exists>qs. drain_segments (stream_pos base (n + length (payload_data p))) (segments (reassembly conn)) =
        (qs, stream_pos base (length (got app')), segments (reassembly conn'))) \<and>
      n + length (payload_data p) \<le> length (got app') \<and> length (got app') \<le> n + 131070"
    and ahead: "n < k \<Longrightarrow> app' = app \<and> segments (reassembly conn') = insert_segment (stream_pos base k) p (segments (reassembly conn))"
    and behind: "k < n \<Longrightarrow> app' = app \<and> segments (reassembly conn') = segments (reassembly conn)"
    by (rule established_piece [OF inv g(1) est p(2) ack g(3) n_def p(1,4,3,6) close]) blast
  have "carries s base n seg" using p close by (auto simp: carries_def)
  then have "stream_inv s base (app', conn')"
    using handle_known_conn_stream [OF inv stream_inv_in_stream [OF g(1)] p(2) _ ack(1) h(1)]
    by (simp add: continues_def n_def)
  then have ins: "in_stream s base (app', conn')" using h(2) stream_inv_delivering by (force simp: delivering_def)
  have "gap_inv s base seams (insert k arrived) (app', conn')"
  proof (rule linorder_cases [of k n])
    assume lt: "k < n"
    then show ?thesis
      using behind [OF lt] g h(2,3) ins k(1) buffered_pieces_mono [OF g(7), of "insert k arrived", OF subset_insertI order.refl]
      by (auto simp: gap_inv_def n_def Let_def)
  next
    assume gt: "n < k"
    then show ?thesis
      using ahead [OF gt] g h(2,3) ins k(1) buffered_pieces_insert [OF g(7) p(5)] set_insert_segment_fst
      by (auto simp: gap_inv_def n_def Let_def)
  next
    assume eq: "k = n"
    obtain qs where d: "drain_segments (stream_pos base (n + length (payload_data p))) (segments (reassembly conn)) =
        (qs, stream_pos base (length (got app')), segments (reassembly conn'))"
      using at [OF eq] by blast
    have gen: "genuine s base n (segments (reassembly conn))" using g(1) by (simp add: in_stream_def n_def)
    note drained = drain_gap [OF gen g(7) conn_invD(2) [OF inv] near g(6) k(2) [unfolded eq] range(1) _ _ _ g(8) d]
    have "n < length (got app')" using at [OF eq] pos by linarith
    then show ?thesis
      using drained at [OF eq] g h(2,3) ins k(1) eq buffered_pieces_mono [OF g(7), of "insert k arrived", OF subset_insertI drained(3)]
      by (auto simp: gap_inv_def n_def Let_def)
  qed
  with h(1) show thesis by (rule that)
qed


section \<open>Everything that has arrived is delivered\<close>

text \<open>The positions at which the segments of a list of events start.\<close>

definition starts :: "int \<Rightarrow> nat set \<Rightarrow> event list \<Rightarrow> nat set" where
  "starts base seams evs = {k \<in> seams. \<exists>now seg. Arrival now seg \<in> set evs \<and> seg_seq_num seg = stream_pos base k}"

lemma starts_Cons:
  "starts base seams (ev # evs) = starts base seams [ev] \<union> starts base seams evs"
  by (auto simp: starts_def)

lemma starts_piece:
  assumes "piece s base seams k seg" and "\<forall>x \<in> seams. lo \<le> x \<and> x \<le> lo + 65535"
  shows "starts base seams [Arrival now seg] = {k}"
proof -
  have k: "k \<in> seams" "seg_seq_num seg = stream_pos base k" using assms(1) by (auto simp: piece_def between_seams_def)
  have "x = k" if "x \<in> seams" "stream_pos base k = stream_pos base x" for x
  proof -
    have "lo \<le> x" "x \<le> lo + 65535" "lo \<le> k" "k \<le> lo + 65535" using that(1) k(1) assms(2) by auto
    then show ?thesis using that(2) stream_pos_order(2) [of k x base] by simp
  qed
  then show ?thesis using k by (auto simp: starts_def)
qed

lemma conversation_gap:
  assumes "gap_inv s base seams arrived st" and "conn_inv (snd st)" and near: "\<forall>x \<in> seams. lo \<le> x \<and> x \<le> lo + 65535"
    and "along (recording ops) conns (piece_event s base seams conns) evs st"
  shows "\<exists>st' infos. conversation (recording ops) conns evs st = (st', Inr infos) \<and>
    gap_inv s base seams (arrived \<union> starts base seams evs) st'"
  using assms(1,2,4)
proof (induction evs arbitrary: arrived st)
  case Nil
  then show ?case by (simp add: starts_def)
next
  case (Cons ev evs)
  obtain app conn where st: "st = (app, conn)" by fastforce
  have one: "\<exists>app' conn' infos. happen (recording ops) conns ev (app, conn) = ((app', conn'), Inr (infos, False)) \<and>
      gap_inv s base seams (arrived \<union> starts base seams [ev]) (app', conn') \<and> conn_inv conn'"
  proof (cases ev)
    case (Arrival now seg)
    obtain k where k: "piece s base seams k seg" "ack_placeable conn seg" "\<not> precedes (snd_nxt conn) (seg_ack_num seg)"
      using Cons.prems(3) by (auto simp: st piece_event_def Arrival)
    have wf: "segment_wf seg" using k(1) by (simp add: piece_def)
    obtain app' conn' reply where h: "handle_known_conn (recording ops) now seg (app, conn) = ((app', conn'), Inr (reply, False))"
      "gap_inv s base seams (insert k arrived) (app', conn')"
      by (rule gap_piece [OF Cons.prems(1) [unfolded st] _ near k]) (use Cons.prems(2) st in simp_all)
    have "conn_inv conn'"
      using handle_known_conn_handled [OF _ wf k(2) h(1)] Cons.prems(2) by (simp add: st handled_def)
    then show ?thesis
      using h starts_piece [OF k(1) near] by (simp add: happen_def Arrival)
  next
    case (Timer now later)
    then have "\<not> gives_up now later conns conn" using Cons.prems(3) by (simp add: st piece_event_def)
    moreover have "gap_inv s base seams arrived (app, resend now later conns conn)"
      using Cons.prems(1) by (simp add: st gap_inv_def in_stream_def resend_def Let_def)
    ultimately show ?thesis
      using conn_inv_resend Cons.prems(2) by (simp add: st happen_def Timer starts_def)
  next
    case (Close now)
    then show ?thesis using Cons.prems(3) by (simp add: piece_event_def)
  qed
  then obtain app' conn' infos where h: "happen (recording ops) conns ev (app, conn) = ((app', conn'), Inr (infos, False))"
    "gap_inv s base seams (arrived \<union> starts base seams [ev]) (app', conn')" "conn_inv conn'" by blast
  have "\<exists>st' infos. conversation (recording ops) conns evs (app', conn') = (st', Inr infos) \<and>
      gap_inv s base seams (arrived \<union> starts base seams [ev] \<union> starts base seams evs) st'"
    by (rule Cons.IH) (use h(2,3) Cons.prems(3) in \<open>simp_all add: st h(1)\<close>)
  then show ?case using h(1) unfolding starts_Cons [of base seams ev evs] by (auto simp: st Un_assoc)
qed

text \<open>
  C2: Everything that arrives is delivered. Let the peer have cut the stretch of its stream from what
  has been received to position \<open>hi\<close>, at most one window, into segments. Let an ESTABLISHED
  connection receive them in any order, repeated at will, with retransmission passes in between and no
  shutdown, none of them acknowledging more than was sent or the antipode of SND.UNA. Then every segment is accepted; and once each of them has arrived at least once, the application has been
  given the whole stretch, however the last of them to arrive was placed among the others.
\<close>

theorem all_arrived_all_delivered:
  assumes "conn_inv conn" and "in_stream s base (app, conn)" and "kind (tcp_state_of conn) = ESTABLISHED"
    and "reassembly conn = reassembly_new"
    and "lo = length (got app)" and "lo \<in> seams" and "hi \<in> seams" and "\<forall>x \<in> seams. lo \<le> x \<and> x \<le> hi" "hi \<le> lo + 65535"
    and "along (recording ops) conns (piece_event s base seams conns) evs (app, conn)"
    and all: "seams - {hi} \<subseteq> starts base seams evs"
  shows "\<exists>app' conn' infos. conversation (recording ops) conns evs (app, conn) = ((app', conn'), Inr infos) \<and>
    got app' = stream_slice s 0 hi \<and> rcv_nxt conn' = stream_pos base hi \<and> kind (tcp_state_of conn') = ESTABLISHED"
proof -
  have near: "\<forall>x \<in> seams. lo \<le> x \<and> x \<le> lo + 65535" using assms(8,9) by fastforce
  have "gap_inv s base seams {} (app, conn)"
    using assms(2-6) by (simp add: gap_inv_def buffered_pieces_def reassembly_new_def Let_def)
  from conversation_gap [OF this _ near assms(10)] obtain st' infos where
    run: "conversation (recording ops) conns evs (app, conn) = (st', Inr infos)" "gap_inv s base seams (starts base seams evs) st'"
    using assms(1) by auto
  obtain app' conn' where st': "st' = (app', conn')" by fastforce
  have "length (got app') = hi"
    using run(2) all by (auto simp: st' gap_inv_def Let_def)
  then show ?thesis
    using run by (auto simp: st' gap_inv_def in_stream_def Let_def)
qed

lemma example_pieces:
  "piece hijk 501 {0, 2, 4} 0 example_hi" "piece hijk 501 {0, 2, 4} 2 example_jk"
  by (simp_all add: piece_def between_seams_def stream_pos_def seq_at_def stream_slice_def hijk_def upt_rec)

theorem all_arrived_all_delivered_witness:
  "\<exists>app' conn' infos. conversation (recording test_app) example_conns
     [Arrival 0 example_jk, Arrival 1 example_hi] (fresh, example_conn) = ((app', conn'), Inr infos) \<and>
     got app' = [0x68, 0x69, 0x6A, 0x6B]"
proof -
  let ?evs = "[Arrival 0 example_jk, Arrival 1 example_hi]"
  obtain c r where e: "happen (recording test_app) example_conns (Arrival 0 example_jk) (fresh, example_conn) = ((fresh, c), r)"
    using example_early_app [of "recording test_app" example_conns 0 fresh] by (metis prod.collapse)
  have "along (recording test_app) example_conns (piece_event hijk 501 {0, 2, 4} example_conns) ?evs (fresh, example_conn)"
    using example_early [OF e] example_pieces
    by (auto simp: e piece_event_def ack_placeable_def precedes_iff ahead_def)
  moreover have "{0, 2, 4} - {4} \<subseteq> starts 501 {0, 2, 4} ?evs"
    by (auto simp: starts_def stream_pos_def seq_at_def) (metis example_seg_sel(2))+
  ultimately have "\<exists>app' conn' infos. conversation (recording test_app) example_conns ?evs (fresh, example_conn) =
      ((app', conn'), Inr infos) \<and> got app' = stream_slice hijk 0 4"
    using all_arrived_all_delivered [OF example_conn_inv example_in_stream, of 0 "{0, 2, 4}" 4 test_app example_conns ?evs]
    by (auto simp: example_conn_def)
  then show ?thesis by (simp add: stream_slice_def hijk_def upt_rec)
qed

end
