(* ===== verification/Tcp_Output.thy ===== *)
theory Tcp_Output
  imports Tcp_Streams
begin

text \<open>
  What the peer is sent, over whole conversations: every data segment, the first time and at every
  retransmission, carries the bytes of the application's output at its sequence number; after our FIN
  nothing more is sent.
\<close>

section \<open>What one segment adds to the send side\<close>

text \<open>
  A handler records for retransmission at most the segment it replies with, and it sends a FIN only
  when it enters LAST-ACK.
\<close>

definition tidy :: "conn_state \<Rightarrow> ('a \<times> conn_state, decision) stateful \<Rightarrow> bool" where
  "tidy conn r \<longleftrightarrow> (\<forall>s' reply rm. r = (s', Inr (reply, rm)) \<longrightarrow>
     (\<forall>q \<in> set (pending (snd s')). q \<in> set (pending conn) \<or> reply = Some (pend_info q)) \<and>
     (\<forall>info. reply = Some info \<and> info_flags info = FinAck \<longrightarrow> kind (tcp_state_of (snd s')) = LAST_ACK))"

lemma tidy_if: "(b \<Longrightarrow> tidy conn r) \<Longrightarrow> (\<not> b \<Longrightarrow> tidy conn r') \<Longrightarrow> tidy conn (if b then r else r')"
  by simp

lemma tidy_leaf:
  assumes "set (pending conn') \<subseteq> set (pending conn)" and "\<And>info. reply = Some info \<Longrightarrow> info_flags info \<noteq> FinAck"
  shows "tidy conn ((app, conn'), Inr (reply, rm))"
  using assms by (auto simp: tidy_def)

lemma fallback_flags: "fst (known_conn_common_fallback seg conn) = Some info \<Longrightarrow> info_flags info \<noteq> FinAck"
  by (auto simp: known_conn_common_fallback_def Let_def rst_def pure_ack_def split: if_splits seq_check.splits)

lemma tidy_fallback: "tidy conn ((app, conn), Inr (known_conn_common_fallback seg conn))"
  using tidy_leaf [of conn conn "fst (known_conn_common_fallback seg conn)" app "snd (known_conn_common_fallback seg conn)"]
    fallback_flags by simp

lemma pending_drain_transmittable [simp]: "pending (fst (drain_transmittable e conn)) = pending conn"
  by (simp add: drain_transmittable_run Let_def split: sum.split)

lemma tidy_send_or:
  assumes "set (pending conn1) \<subseteq> set (pending conn)" and "\<And>c info. idle c = Some info \<Longrightarrow> info_flags info \<noteq> FinAck"
  shows "tidy conn (send_or idle now (beside app (drain_transmittable e conn1)))"
proof -
  obtain conn2 r where d: "drain_transmittable e conn1 = (conn2, r)" by fastforce
  then have p: "pending conn2 = pending conn1" using pending_drain_transmittable [of e conn1] by simp
  show ?thesis
  proof (cases r)
    case (Inr q)
    then show ?thesis
      using assms p by (cases q) (auto simp: tidy_def d beside_def data_payload_def pending_new_def Let_def)
  qed (simp add: tidy_def d beside_def)
qed

lemma tidy_close:
  assumes "set (pending conn1) \<subseteq> set (pending conn)"
  shows "tidy conn (reply_with (beside app (close_wait_or_last_ack now cw conn1)))"
proof -
  obtain conn2 r where d: "drain_transmittable cw conn1 = (conn2, r)" by fastforce
  then have p: "pending conn2 = pending conn1" using pending_drain_transmittable [of cw conn1] by simp
  show ?thesis
  proof (cases r)
    case (Inr q)
    then show ?thesis
      using assms p
      by (cases q) (auto simp: tidy_def reply_with_def close_wait_or_last_ack_def d beside_def data_payload_def
          pending_new_def pure_ack_def Let_def)
  qed (simp add: tidy_def d beside_def reply_with_def close_wait_or_last_ack_def)
qed

lemma pending_receive [simp]: "pending (snd (receive_payload ops mp s)) = pending (snd s)"
  by (cases s) (simp add: receive_payload_eq)

lemma pending_deliver_reassembled [simp]: "pending (snd (deliver_reassembled ops s)) = pending (snd s)"
proof -
  obtain ps rcv' re' where "drain_contiguous (rcv_nxt (snd s)) (reassembly (snd s)) = (ps, rcv', re')"
    by (metis prod_cases3)
  then show ?thesis using deliver_reassembled_eq [of "snd s" ps rcv' re' ops "fst s"] by simp
qed

lemma pending_buffered [simp]:
  "pending (buffer_payload seg conn) = pending conn" "pending (buffer_fin seg conn) = pending conn"
  "pending (advance_past_fin conn) = pending conn"
  by (auto simp: buffer_payload_def buffer_fin_def advance_past_fin_def split: option.split)

lemma tidy_in_order_fin:
  assumes "set (pending conn1) \<subseteq> set (pending conn)"
  shows "tidy conn (reply_with (close_on_in_order_fin ops now seg mp e (app, conn1)))"
proof -
  obtain app2 conn2 where r: "receive_payload ops mp (app, conn1) = (app2, conn2)" by fastforce
  obtain e3 conn3 where u: "incoming_ack_update e seg (advance_past_fin conn2) = (e3, conn3)" by fastforce
  have "pending conn2 = pending conn1" using pending_receive [of ops mp "(app, conn1)"] r by simp
  then have "set (pending conn3) \<subseteq> set (pending conn)"
    using assms incoming_ack_update_pending_subset [of e seg "advance_past_fin conn2"] u by auto
  then show ?thesis
    unfolding close_on_in_order_fin_def Let_def r prod.case u by (rule tidy_close)
qed


lemma tidy_established: "tidy conn (handle_established ops now seg est (app, conn))"
proof -
  obtain e1 conn1 where u: "incoming_ack_update est seg conn = (e1, conn1)" by fastforce
  let ?conn2 = "conn1\<lparr>tcp_state_of := Established e1\<rparr>"
  have p: "set (pending ?conn2) \<subseteq> set (pending conn)"
    using incoming_ack_update_pending_subset [of est seg conn] u by simp
  obtain app3 conn3 where r: "deliver_reassembled ops (receive_payload ops (seg_payload seg) (app, ?conn2)) = (app3, conn3)"
    by fastforce
  have p3: "set (pending conn3) \<subseteq> set (pending conn)"
    using p pending_deliver_reassembled [of ops "receive_payload ops (seg_payload seg) (app, ?conn2)"]
      pending_receive [of ops "seg_payload seg" "(app, ?conn2)"] r by simp
  note sends = tidy_send_or [OF p3, unfolded Let_def] tidy_send_or [OF p, unfolded Let_def] tidy_close tidy_in_order_fin
  show ?thesis
    unfolding handle_established_def Let_def prod.case u r
    by (intro tidy_if tidy_fallback sends; (rule tidy_leaf)?; use p p3 in \<open>(auto; fail)?\<close>)
qed

lemma tidy_syn_rcv: "tidy conn (handle_syn_rcv ops now seg sr (app, conn))"
proof -
  obtain est conn1 where h: "complete_handshake seg sr conn = (est, conn1)" by fastforce
  have p: "set (pending conn1) \<subseteq> set (pending conn)"
    using h by (auto simp: complete_handshake_def Let_def)
  obtain app3 conn3 where r: "deliver_reassembled ops (receive_payload ops (seg_payload seg) (app, conn1)) = (app3, conn3)"
    by fastforce
  have p3: "set (pending conn3) \<subseteq> set (pending conn)"
    using p pending_deliver_reassembled [of ops "receive_payload ops (seg_payload seg) (app, conn1)"]
      pending_receive [of ops "seg_payload seg" "(app, conn1)"] r by simp
  note sends = tidy_send_or [OF p3, unfolded Let_def] tidy_close tidy_in_order_fin
  have syn: "tidy conn ((app, conn\<lparr>pending := pending conn @ [pending_new info now]\<rparr>), Inr (Some info, False))"
    if "info_flags info = SynAck" for info
    using that by (auto simp: tidy_def pending_new_def)
  show ?thesis
    unfolding handle_syn_rcv_def Let_def prod.case h r
    by (intro tidy_if tidy_fallback sends; (rule syn tidy_leaf)?; use p p3 in \<open>(auto; fail)?\<close>)
qed

lemma tidy_close_wait: "tidy conn (beside app (handle_close_wait now seg cw conn))"
proof -
  obtain e1 conn1 where u: "incoming_ack_update cw seg conn = (e1, conn1)" by fastforce
  have "tidy conn (beside app (reply_with (close_wait_or_last_ack now e1 conn1)))"
    using tidy_close [of conn1 conn app now e1] incoming_ack_update_pending_subset [of cw seg conn] u
    by (cases "close_wait_or_last_ack now e1 conn1"; cases "snd (close_wait_or_last_ack now e1 conn1)")
      (simp_all add: beside_def reply_with_def)
  then show ?thesis
    using tidy_fallback [of conn app seg] by (simp add: handle_close_wait_def u beside_def)
qed

text \<open>The four states after our FIN.\<close>

definition fin_sent :: "tcp_state \<Rightarrow> bool" where
  "fin_sent st \<longleftrightarrow> kind st \<in> {FIN_WAIT_1, FIN_WAIT_2, CLOSING, LAST_ACK}"

definition quiet :: "conn_state \<Rightarrow> conn_state \<times> decision \<Rightarrow> bool" where
  "quiet conn r \<longleftrightarrow> (let (conn', reply, rm) = r in
     send_buffer conn' = send_buffer conn \<and> snd_nxt conn' = snd_nxt conn \<and> set (pending conn') \<subseteq> set (pending conn) \<and>
     reply_payload reply = [] \<and> (\<forall>info. reply = Some info \<longrightarrow> info_flags info \<noteq> FinAck))"

lemma quiet_if: "(b \<Longrightarrow> quiet conn r) \<Longrightarrow> (\<not> b \<Longrightarrow> quiet conn r') \<Longrightarrow> quiet conn (if b then r else r')"
  by simp

lemma quiet_leaf:
  assumes "send_buffer conn' = send_buffer conn" "snd_nxt conn' = snd_nxt conn" "set (pending conn') \<subseteq> set (pending conn)"
  shows "quiet conn (conn', Some (pure_ack c), rm)" and "quiet conn (conn', None, rm)"
  using assms by (simp_all add: quiet_def)

lemma quiet_fallback: "quiet conn (conn, known_conn_common_fallback seg conn)"
  using fallback_flags [of seg conn] fallback_no_payload [of seg conn] by (simp add: quiet_def split_beta Let_def)

lemma quiet_update:
  assumes "send_buffer c = send_buffer conn" "snd_nxt c = snd_nxt conn" "pending c = pending conn"
  shows "quiet conn (case incoming_ack_update e seg c of (e', c') \<Rightarrow> (c'\<lparr>tcp_state_of := f e'\<rparr>, Some (pure_ack d), rm))"
    and "quiet conn (case incoming_ack_update e seg c of (e', c') \<Rightarrow> (c'\<lparr>tcp_state_of := f e'\<rparr>, None, rm))"
proof -
  obtain e' c' where u: "incoming_ack_update e seg c = (e', c')" by fastforce
  then have "send_buffer c' = send_buffer conn" "snd_nxt c' = snd_nxt conn" "set (pending c') \<subseteq> set (pending conn)"
    using incoming_ack_update_frame [of e seg c] incoming_ack_update_pending_subset [of e seg c] assms by simp_all
  then show "quiet conn (case incoming_ack_update e seg c of (e', c') \<Rightarrow> (c'\<lparr>tcp_state_of := f e'\<rparr>, Some (pure_ack d), rm))"
    and "quiet conn (case incoming_ack_update e seg c of (e', c') \<Rightarrow> (c'\<lparr>tcp_state_of := f e'\<rparr>, None, rm))"
    by (simp_all add: u quiet_leaf)
qed

lemmas quiet_intros = quiet_if quiet_fallback quiet_update quiet_leaf

lemma quiet_handlers:
  "quiet conn (handle_fin_wait_1 seg fw1 conn)" "quiet conn (handle_fin_wait_2 seg fw2 conn)"
  "quiet conn (handle_closing seg cl conn)" "quiet conn (handle_last_ack seg la conn)"
  unfolding handle_fin_wait_1_def handle_fin_wait_2_def handle_closing_def handle_last_ack_def Let_def
  by (intro quiet_intros; simp)+

lemma infallibly_eq: "infallibly app r = ((app', conn'), Inr d) \<longleftrightarrow> app' = app \<and> r = (conn', d)"
  by (cases r) (auto simp: infallibly_def)

lemma known_conn_fin_sent:
  assumes "handle_known_conn ops now seg (app, conn) = ((app', conn'), Inr (reply, rm))" and "fin_sent (tcp_state_of conn)"
  shows "app' = app" and "quiet conn (conn', reply, rm)"
proof -
  have "app' = app \<and> quiet conn (conn', reply, rm)"
  proof (cases "tcp_state_of conn")
    case (FinWait1 fw1)
    then show ?thesis using assms quiet_handlers(1) [of conn seg fw1] by (simp add: handle_known_conn_def infallibly_eq)
  next
    case (FinWait2 fw2)
    then show ?thesis using assms quiet_handlers(2) [of conn seg fw2] by (simp add: handle_known_conn_def infallibly_eq)
  next
    case (Closing cl)
    then show ?thesis using assms quiet_handlers(3) [of conn seg cl] by (simp add: handle_known_conn_def infallibly_eq)
  next
    case (LastAck la)
    then show ?thesis using assms quiet_handlers(4) [of conn seg la] by (simp add: handle_known_conn_def infallibly_eq)
  qed (use assms in \<open>simp_all add: fin_sent_def\<close>)
  then show "app' = app" and "quiet conn (conn', reply, rm)" by simp_all
qed

text \<open>What can be pending, and when a FIN is sent, in every state.\<close>

lemma known_conn_tidy: "tidy conn (handle_known_conn ops now seg (app, conn))"
proof (cases "fin_sent (tcp_state_of conn)")
  case True
  then show ?thesis
    using known_conn_fin_sent [of ops now seg app conn] by (fastforce simp: tidy_def quiet_def)
next
  case False
  then show ?thesis
    using tidy_established tidy_syn_rcv tidy_close_wait
    by (cases "tcp_state_of conn") (simp_all add: handle_known_conn_def fin_sent_def)
qed


section \<open>The outgoing stream\<close>

text \<open>
  The application's output is \<open>gave app\<close>: what has been taken from the send buffer so far, then what
  is still in it. Byte \<open>k\<close> of the output has the sequence number \<open>obase + k\<close>. A segment is of the output
  if what it carries are the bytes at its sequence number.
\<close>

definition taken :: "'a recorder \<times> conn_state \<Rightarrow> bytes" where
  "taken st = take (length (gave (fst st)) - length (send_buffer (snd st))) (gave (fst st))"

definition of_output :: "int \<Rightarrow> bytes \<Rightarrow> send_info \<Rightarrow> bool" where
  "of_output obase out info \<longleftrightarrow> payload_bytes (info_payload info) = [] \<or>
     (\<exists>k. info_seq_num info = seq_at (obase + int k) \<and> k + length (payload_bytes (info_payload info)) \<le> length out \<and>
          payload_bytes (info_payload info) = take (length (payload_bytes (info_payload info))) (drop k out))"

definition output_inv :: "int \<Rightarrow> 'a recorder \<times> conn_state \<Rightarrow> bool" where
  "output_inv obase st \<longleftrightarrow>
     gave (fst st) = taken st @ send_buffer (snd st) \<and>
     (\<not> fin_sent (tcp_state_of (snd st)) \<longrightarrow> snd_nxt (snd st) = seq_at (obase + int (length (taken st)))) \<and>
     (\<forall>q \<in> set (pending (snd st)). of_output obase (taken st) (pend_info q))"

lemma of_output_more: "of_output obase out info \<Longrightarrow> of_output obase (out @ rest) info"
  by (fastforce simp: of_output_def)

lemma taken_eq: "gave app = out @ send_buffer conn \<Longrightarrow> taken (app, conn) = out"
  by (simp add: taken_def)

text \<open>Handing over what \<open>d\<close> holds, in one segment that starts where the output so far ends.\<close>

lemma of_output_next:
  assumes "info_seq_num info = seq_at (obase + int (length out))" and "payload_bytes (info_payload info) = d"
  shows "of_output obase (out @ d) info"
  using assms by (auto simp: of_output_def intro!: exI [of _ "length out"])

lemma app_stream_recording:
  assumes "app_stream_ok (recording ops) (app, conn) (app', conn') reply" and "gave app = out @ send_buffer conn"
  shows "gave app' = (out @ reply_payload reply) @ send_buffer conn'"
proof -
  obtain ps where r: "run_app (recording ops) app ps =
      (app', drop (length (send_buffer conn)) (reply_payload reply @ send_buffer conn'))"
    "take (length (send_buffer conn)) (reply_payload reply @ send_buffer conn') = send_buffer conn"
    using assms(1) by (auto simp: app_stream_ok_def)
  have "gave app' = gave app @ drop (length (send_buffer conn)) (reply_payload reply @ send_buffer conn')"
    using r(1) by (auto simp: run_app_recording)
  also have "\<dots> = out @ (take (length (send_buffer conn)) (reply_payload reply @ send_buffer conn') @
      drop (length (send_buffer conn)) (reply_payload reply @ send_buffer conn'))"
    using assms(2) r(2) by simp
  finally show ?thesis by (simp only: append_take_drop_id append_assoc)
qed

lemma rfc_steps_fin_sent:
  "rfc_steps a b \<Longrightarrow> a \<in> {FIN_WAIT_1, FIN_WAIT_2, CLOSING, LAST_ACK} \<Longrightarrow> b \<in> {FIN_WAIT_1, FIN_WAIT_2, CLOSING, LAST_ACK}"
  by (induction rule: rtranclp_induct) (auto simp: rfc_step_simps)

lemma arrival_output:
  assumes ok: "segment_wf seg" "ack_placeable conn seg" and inv: "conn_inv conn" and out: "output_inv obase (app, conn)"
    and run: "handle_known_conn (recording ops) now seg (app, conn) = ((app', conn'), Inr (reply, rm))"
  shows "output_inv obase (app', conn')" and "taken (app', conn') = taken (app, conn) @ reply_payload reply"
    and "reply = Some info \<Longrightarrow> of_output obase (taken (app', conn')) info"
proof -
  define n where "n = taken (app, conn)"
  note h = handle_known_conn_handled [OF inv ok run, unfolded handled_def]
  have gave: "gave app = n @ send_buffer conn" using out by (simp add: output_inv_def n_def)
  then have gave': "gave app' = (n @ reply_payload reply) @ send_buffer conn'"
    using app_stream_recording h by blast
  then show taken: "taken (app', conn') = taken (app, conn) @ reply_payload reply" by (simp add: taken_eq n_def)
  have reply: "of_output obase (taken (app', conn')) info" if "reply = Some info" for info
  proof (cases "payload_bytes (info_payload info) = []")
    case True
    then show ?thesis by (simp add: of_output_def)
  next
    case False
    then have "\<not> fin_sent (tcp_state_of conn)"
      using known_conn_fin_sent(2) [OF run] that by (auto simp: quiet_def)
    then have nxt: "snd_nxt conn = seq_at (obase + int (length n))" using out by (simp add: output_inv_def n_def)
    have "info_payload info \<noteq> None" using False by (cases "info_payload info") simp_all
    then have "info_seq_num info = snd_nxt conn"
      using h that by (auto simp: reply_ok_def rst_def)
    then show ?thesis using nxt that by (simp add: taken of_output_next n_def)
  qed
  then show "reply = Some info \<Longrightarrow> of_output obase (taken (app', conn')) info" by blast
  have "of_output obase (taken (app', conn')) (pend_info q)" if "q \<in> set (pending conn')" for q
  proof -
    have "q \<in> set (pending conn) \<or> reply = Some (pend_info q)"
      using known_conn_tidy [of conn "recording ops" now seg app] run that by (fastforce simp: tidy_def)
    then show ?thesis using out reply of_output_more by (auto simp: output_inv_def taken)
  qed
  moreover have "snd_nxt conn' = seq_at (obase + int (length (taken (app', conn'))))" if open': "\<not> fin_sent (tcp_state_of conn')"
  proof -
    have active: "\<not> fin_sent (tcp_state_of conn)"
      using h open' rfc_steps_fin_sent by (auto simp: fin_sent_def)
    then have nxt: "snd_nxt conn = seq_at (obase + int (length n))" using out by (simp add: output_inv_def n_def)
    show ?thesis
    proof (cases reply)
      case None
      then show ?thesis using h nxt by (simp add: taken n_def reply_ok_def)
    next
      case (Some info)
      have "info_flags info \<noteq> FinAck"
        using known_conn_tidy [of conn "recording ops" now seg app] run Some open' by (auto simp: tidy_def fin_sent_def)
      then consider "info_payload info = None" "snd_nxt conn' = snd_nxt conn"
        | "info_flags info = Ack" "snd_nxt conn' = seq_add (snd_nxt conn) (SeqOffset (word_of_nat (consumed info)))"
          "length (payload_bytes (info_payload info)) \<le> max_payload_len"
        using h Some by (auto simp: reply_ok_def rst_def)
      then show ?thesis
      proof cases
        case 2
        then have "unat (word_of_nat (consumed info) :: u32) = length (payload_bytes (info_payload info))"
          by (simp add: consumed_def consumes_flag_def max_payload_len_def unat_of_nat_small)
        then show ?thesis using 2 nxt Some by (simp add: taken n_def seq_add_seq_at add.assoc)
      qed (use nxt Some in \<open>simp add: taken n_def\<close>)
    qed
  qed
  ultimately show "output_inv obase (app', conn')"
    using gave' by (simp add: output_inv_def taken n_def)
qed


text \<open>The same for every event; \<open>fresh\<close> are the segments that are sent for the first time.\<close>

definition output_grows :: "int \<Rightarrow> 'a recorder \<times> conn_state \<Rightarrow> 'a recorder \<times> conn_state \<Rightarrow> send_info list \<Rightarrow> bool" where
  "output_grows obase st st' infos \<longleftrightarrow>
     (\<exists>first. set first \<subseteq> set infos \<and> taken st' = taken st @ concat (map (\<lambda>i. payload_bytes (info_payload i)) first)) \<and>
     (\<forall>info \<in> set infos. of_output obase (taken st') info)"

lemma output_grows_trans:
  assumes "output_grows obase st1 st2 xs" and "output_grows obase st2 st3 ys"
  shows "output_grows obase st1 st3 (xs @ ys)"
proof -
  obtain f g where f: "set f \<subseteq> set xs" "taken st2 = taken st1 @ concat (map (\<lambda>i. payload_bytes (info_payload i)) f)"
    and g: "set g \<subseteq> set ys" "taken st3 = taken st2 @ concat (map (\<lambda>i. payload_bytes (info_payload i)) g)"
    using assms by (auto simp: output_grows_def)
  have "\<exists>first. set first \<subseteq> set (xs @ ys) \<and>
      taken st3 = taken st1 @ concat (map (\<lambda>i. payload_bytes (info_payload i)) first)"
    using f g by (intro exI [of _ "f @ g"]) auto
  moreover have "of_output obase (taken st3) info" if "info \<in> set xs" for info
    using assms(1) that of_output_more unfolding g(2) output_grows_def by blast
  ultimately show ?thesis using assms(2) by (auto simp: output_grows_def)
qed

lemma happen_output:
  assumes ok: "event_ok ev conn" and inv: "conn_inv conn" and out: "output_inv obase (app, conn)"
    and run: "happen (recording ops) conns ev (app, conn) = ((app', conn'), Inr (infos, gone))"
  shows "output_inv obase (app', conn') \<and> output_grows obase (app, conn) (app', conn') infos"
proof (cases ev)
  case (Arrival now seg)
  obtain reply where h: "handle_known_conn (recording ops) now seg (app, conn) = ((app', conn'), Inr (reply, gone))"
    and infos: "infos = option_list reply"
    using run by (cases "handle_known_conn (recording ops) now seg (app, conn)";
        cases "snd (handle_known_conn (recording ops) now seg (app, conn))") (auto simp: happen_def Arrival)
  have seg: "segment_wf seg" "ack_placeable conn seg" using ok by (simp_all add: Arrival)
  note step = arrival_output [OF seg inv out h]
  have "output_grows obase (app, conn) (app', conn') infos"
    unfolding output_grows_def infos using step(2,3)
    by (cases reply) (auto intro: exI [of _ "option_list reply"] exI [of _ "[]"])
  then show ?thesis using step(1) by blast
next
  case (Timer now later)
  show ?thesis
  proof (cases "gives_up now later conns conn")
    case True
    then show ?thesis using run out by (auto simp: happen_def Timer output_grows_def)
  next
    case False
    then have r: "app' = app" "conn' = resend now later conns conn"
      "infos = map pend_info (filter (is_due now later conns) (pending conn))"
      using run by (auto simp: happen_def Timer)
    have taken: "taken (app', conn') = taken (app, conn)" by (simp add: r taken_def resend_def)
    have "output_grows obase (app, conn) (app', conn') infos"
      using out by (auto simp: output_grows_def taken r(3) output_inv_def intro: exI [of _ "[]"])
    moreover have "output_inv obase (app', conn')"
      using out taken by (auto simp: output_inv_def r(1,2) resend_def)
    ultimately show ?thesis by blast
  qed
next
  case (Close now)
  show ?thesis
  proof (cases "close_conn now conn")
    case None
    then show ?thesis using run out by (auto simp: happen_def Close output_grows_def)
  next
    case (Some x)
    obtain info conn1 where x: "x = (info, conn1)" by fastforce
    have r: "app' = app" "conn' = conn1" "infos = [info]" using run Some x by (auto simp: happen_def Close)
    note c = close_conn_ok [OF Some [unfolded x] inv]
    have p: "pending conn1 = pending conn @ [pending_new info now]" "send_buffer conn1 = send_buffer conn"
      using Some x by (auto simp: close_conn_def Let_def split: tcp_state.splits)
    have "output_grows obase (app, conn) (app', conn') infos"
      using c(3) by (auto simp: output_grows_def r taken_def p(2) of_output_def intro: exI [of _ "[]"])
    moreover have "output_inv obase (app', conn')"
      using out c(3,4) by (auto simp: output_inv_def r p taken_def fin_sent_def of_output_def pending_new_def)
    ultimately show ?thesis by blast
  qed
qed

text \<open>
  C3: The peer sees the application's output and nothing else. In any conversation in which no segment
  acknowledges the antipode of SND.UNA, every segment that is sent, whether in reply, at a retransmission or at a shutdown, carries no data or exactly the bytes
  of the application's output at the place its sequence number stands for; the segments sent for the
  first time carry the output in order, without a gap or an overlap, and what has not been sent is what
  the send buffer holds. So a peer that reassembles what it gets by sequence numbers can only get a
  prefix of the output.
\<close>

theorem peer_sees_output:
  assumes "conn_inv conn" and "output_inv obase (app, conn)"
    and "along (recording ops) conns (\<lambda>ev st. event_ok ev (snd st)) evs (app, conn)"
  shows "\<exists>app' conn' infos first. conversation (recording ops) conns evs (app, conn) = ((app', conn'), Inr infos) \<and>
    (\<forall>info \<in> set infos. of_output obase (gave app') info) \<and>
    set first \<subseteq> set infos \<and>
    gave app' = taken (app, conn) @ concat (map (\<lambda>i. payload_bytes (info_payload i)) first) @ send_buffer conn'"
proof -
  have "\<exists>st' infos. conversation (recording ops) conns evs (app, conn) = (st', Inr infos) \<and> conn_inv (snd st') \<and>
      output_inv obase st' \<and> output_grows obase (app, conn) st' infos"
  proof (rule conversation_induct [where P = "output_inv obase" and R = "output_grows obase", OF assms(3) _ assms(2)])
    show "output_inv obase (app', conn') \<and> output_grows obase (app, conn) (app', conn') infos"
      if "event_ok ev (snd (app, conn))" "conn_inv conn" "output_inv obase (app, conn)"
        "happen (recording ops) conns ev (app, conn) = ((app', conn'), Inr (infos, gone))"
      for ev app conn app' conn' infos gone
      using happen_output [OF _ that(2-4)] that(1) by simp
    show "output_grows obase st st []" for st :: "'a recorder \<times> conn_state"
      by (simp add: output_grows_def)
  qed (use assms(1) output_grows_trans in auto)
  then obtain app' conn' infos where run: "conversation (recording ops) conns evs (app, conn) = ((app', conn'), Inr infos)"
    "output_inv obase (app', conn')" "output_grows obase (app, conn) (app', conn') infos" by auto
  have gave: "gave app' = taken (app', conn') @ send_buffer conn'" using run(2) by (simp add: output_inv_def)
  then have "\<forall>info \<in> set infos. of_output obase (gave app') info"
    using run(3) of_output_more by (auto simp: output_grows_def)
  then show ?thesis using run gave by (auto simp: output_grows_def)
qed


lemma example_output_inv: "output_inv 101 (fresh, example_conn)"
  by (simp add: output_inv_def taken_def example_conn_def seq_at_def)

theorem peer_sees_output_witness:
  "\<exists>app' conn' infos. conversation (recording shouting_test_app) example_conns [Arrival 0 example_hi, Timer 5 5, Close 6]
     (fresh, example_conn) = ((app', conn'), Inr infos) \<and> (\<forall>info \<in> set infos. of_output 101 (gave app') info)"
proof -
  have "along (recording shouting_test_app) example_conns (\<lambda>ev st. event_ok ev (snd st))
      [Arrival 0 example_hi, Timer 5 5, Close 6] (fresh, example_conn)"
    by simp
  from peer_sees_output [OF example_conn_inv example_output_inv this] show ?thesis by blast
qed

section \<open>After our FIN\<close>

lemma happen_fin_sent:
  assumes ok: "event_ok ev conn" and inv: "conn_inv conn" and fin: "fin_sent (tcp_state_of conn)"
    and run: "happen ops conns ev (app, conn) = ((app', conn'), Inr (infos, gone))"
  shows "app' = app \<and> send_buffer conn' = send_buffer conn \<and> snd_nxt conn' = snd_nxt conn \<and> fin_sent (tcp_state_of conn')"
proof (cases ev)
  case (Arrival now seg)
  obtain reply where h: "handle_known_conn ops now seg (app, conn) = ((app', conn'), Inr (reply, gone))"
    using run by (cases "handle_known_conn ops now seg (app, conn)";
        cases "snd (handle_known_conn ops now seg (app, conn))") (auto simp: happen_def Arrival)
  have "rfc_steps (kind (tcp_state_of conn)) (kind (tcp_state_of conn'))"
    using handle_known_conn_handled [OF inv _ _ h] ok by (simp add: Arrival handled_def)
  then show ?thesis
    using known_conn_fin_sent [OF h fin] rfc_steps_fin_sent fin by (auto simp: fin_sent_def quiet_def)
next
  case (Timer now later)
  then show ?thesis using run fin by (auto simp: happen_def resend_def split: if_splits)
next
  case (Close now)
  have "close_conn now conn = None" using fin by (cases "tcp_state_of conn") (auto simp: fin_sent_def close_conn_def)
  then show ?thesis using run fin by (auto simp: happen_def Close)
qed

lemma conversation_fin_sent:
  assumes inv: "conn_inv conn" and fin: "fin_sent (tcp_state_of conn)" and out: "output_inv obase (app, conn)"
    and ok: "along (recording ops) conns (\<lambda>ev st. event_ok ev (snd st)) evs (app, conn)"
  shows "\<exists>conn' infos. conversation (recording ops) conns evs (app, conn) = ((app, conn'), Inr infos) \<and>
    send_buffer conn' = send_buffer conn \<and> snd_nxt conn' = snd_nxt conn \<and>
    (\<forall>info \<in> set infos. of_output obase (taken (app, conn)) info)"
proof -
  let ?P = "\<lambda>st. output_inv obase st \<and> fin_sent (tcp_state_of (snd st)) \<and> fst st = app \<and>
    send_buffer (snd st) = send_buffer conn \<and> snd_nxt (snd st) = snd_nxt conn"
  let ?R = "\<lambda>st st' infos. \<forall>info \<in> set infos. of_output obase (taken (app, conn)) info"
  have "\<exists>st' infos. conversation (recording ops) conns evs (app, conn) = (st', Inr infos) \<and> conn_inv (snd st') \<and>
      ?P st' \<and> ?R (app, conn) st' infos"
  proof (rule conversation_induct [where P = ?P and R = ?R, OF ok])
    show "?P (app2, conn2) \<and> ?R (app1, conn1) (app2, conn2) infos"
      if "event_ok ev (snd (app1, conn1))" "conn_inv conn1" "?P (app1, conn1)"
        "happen (recording ops) conns ev (app1, conn1) = ((app2, conn2), Inr (infos, gone))"
      for ev app1 conn1 app2 conn2 infos gone
      using happen_fin_sent [OF _ that(2) _ that(4)] happen_output [OF _ that(2) _ that(4), of obase] that(1,3)
      by (auto simp: output_grows_def taken_def)
  qed (use inv fin out in auto)
  then show ?thesis by auto
qed

text \<open>
  C18: A shutdown loses what has not been sent. RFC 9293 has a CLOSE send everything that is queued
  before its FIN; \<open>close_established\<close> sends the FIN at once. Whatever happens afterwards, however long
  the grace period and however wide the peer's window, no byte that was in the send buffer is ever
  sent: every later segment carries only output from before, and the FIN tells the peer that the
  stream ends there.
\<close>

theorem shutdown_loses_unsent_data:
  assumes inv: "conn_inv conn" and st: "tcp_state_of conn = Established est" and out: "output_inv obase (app, conn)"
    and ok: "along (recording ops) conns (\<lambda>ev st. event_ok ev (snd st)) (Close now # evs) (app, conn)"
  shows "\<exists>conn' infos. conversation (recording ops) conns (Close now # evs) (app, conn) = ((app, conn'), Inr infos) \<and>
    gave app = taken (app, conn) @ send_buffer conn \<and> send_buffer conn' = send_buffer conn \<and>
    (\<forall>info \<in> set infos. of_output obase (taken (app, conn)) info) \<and>
    (\<exists>fin \<in> set infos. info_flags fin = FinAck \<and> info_seq_num fin = seq_at (obase + int (length (taken (app, conn)))))"
proof -
  obtain info conn1 where c: "close_conn now conn = Some (info, conn1)"
    and info: "info = \<lparr>info_seq_num = snd_nxt conn, info_ack_num = rcv_nxt conn, info_flags = FinAck, info_payload = None\<rparr>"
    and buf: "send_buffer conn1 = send_buffer conn"
    using st by (simp add: close_conn_def Let_def)
  have h: "happen (recording ops) conns (Close now) (app, conn) = ((app, conn1), Inr ([info], False))"
    by (simp add: happen_def c)
  note closed = close_conn_ok [OF c inv]
  have out1: "output_inv obase (app, conn1)" using happen_output [OF _ inv out h] by simp
  have "fin_sent (tcp_state_of conn1)" using closed(4) by (simp add: fin_sent_def)
  from conversation_fin_sent [OF closed(1) this out1, of ops conns evs] obtain conn' infos where
    rest: "conversation (recording ops) conns evs (app, conn1) = ((app, conn'), Inr infos)"
    "send_buffer conn' = send_buffer conn1" "\<forall>info \<in> set infos. of_output obase (taken (app, conn1)) info"
    using ok by (auto simp: h)
  have "snd_nxt conn = seq_at (obase + int (length (taken (app, conn))))"
    using out st by (simp add: output_inv_def fin_sent_def)
  moreover have "taken (app, conn1) = taken (app, conn)" by (simp add: taken_def buf)
  moreover have "gave app = taken (app, conn) @ send_buffer conn" using out by (simp add: output_inv_def)
  moreover have "of_output obase (taken (app, conn)) info" by (simp add: info of_output_def)
  ultimately show ?thesis
    using rest buf by (simp add: h info)
qed

text \<open>A connection that still has one byte to send when the shutdown comes.\<close>

definition unsent_conn :: conn_state where
  "unsent_conn = example_conn\<lparr>send_buffer := [0x49]\<rparr>"

lemma unsent_conn_inv: "conn_inv unsent_conn"
  by (simp add: unsent_conn_def conn_inv_def example_conn_def send_inv_def in_flight_def segments_wf_def reassembly_new_def)

theorem shutdown_loses_unsent_data_witness:
  "\<exists>conn' infos. conversation (recording shouting_test_app) example_conns [Close 0, Timer 1000000000 1000000000]
     (fresh\<lparr>gave := [0x49]\<rparr>, unsent_conn) = ((fresh\<lparr>gave := [0x49]\<rparr>, conn'), Inr infos) \<and>
     send_buffer conn' = [0x49] \<and> (\<forall>info \<in> set infos. of_output 101 [] info)"
proof -
  let ?app = "fresh\<lparr>gave := [0x49]\<rparr>"
  have st: "tcp_state_of unsent_conn = Established (SyncedState
     \<lparr>snd_wnd = SeqOffset 1, snd_wl1 = SeqPoint 500, snd_wl2 = SeqPoint 101\<rparr>)"
    by (simp add: unsent_conn_def example_conn_def)
  have out: "output_inv 101 (?app, unsent_conn)" and "taken (?app, unsent_conn) = []"
    by (simp_all add: output_inv_def taken_def unsent_conn_def example_conn_def seq_at_def)
  moreover have "along (recording shouting_test_app) example_conns (\<lambda>ev st. event_ok ev (snd st))
      (Close 0 # [Timer 1000000000 1000000000]) (?app, unsent_conn)" by simp
  note shutdown_loses_unsent_data [OF unsent_conn_inv st out this]
  ultimately show ?thesis by (auto simp: unsent_conn_def)
qed

end
