(* ===== verification/Tcp_Diagram.thy ===== *)
theory Tcp_Diagram
  imports Conversations
begin

text \<open>
  The state diagram of RFC 9293, Figure 5, with its arcs labelled, and the arcs one event takes a
  connection along. A removed connection is at TIME-WAIT, in which the program does not linger, or at
  CLOSED.
\<close>

section \<open>The diagram\<close>

datatype node = Live conn_kind | TIME_WAIT | CLOSED

datatype arc = AckOfSyn | AckOfFin | RcvFin | SendFin | Abort

fun follow :: "node \<Rightarrow> arc \<Rightarrow> node option" where
  "follow (Live SYN_RECEIVED) AckOfSyn = Some (Live ESTABLISHED)"
| "follow (Live ESTABLISHED) RcvFin = Some (Live CLOSE_WAIT)"
| "follow (Live ESTABLISHED) SendFin = Some (Live FIN_WAIT_1)"
| "follow (Live CLOSE_WAIT) SendFin = Some (Live LAST_ACK)"
| "follow (Live FIN_WAIT_1) AckOfFin = Some (Live FIN_WAIT_2)"
| "follow (Live FIN_WAIT_1) RcvFin = Some (Live CLOSING)"
| "follow (Live FIN_WAIT_2) RcvFin = Some TIME_WAIT"
| "follow (Live CLOSING) AckOfFin = Some TIME_WAIT"
| "follow (Live LAST_ACK) AckOfFin = Some CLOSED"
| "follow (Live _) Abort = Some CLOSED"
| "follow _ _ = None"

fun path :: "node \<Rightarrow> arc list \<Rightarrow> node option" where
  "path n [] = Some n"
| "path n (a # as) = (case follow n a of None \<Rightarrow> None | Some m \<Rightarrow> path m as)"

section \<open>The arcs of an event\<close>

text \<open>
  Which arcs a segment stands for, read from the segment and the connection: it acknowledges our
  SYN; it acknowledges our FIN, everything we sent; it is the peer's FIN in order, or completes the data up to a
  FIN that was buffered; it is an in-order reset.
\<close>

definition acks_syn :: "conn_state \<Rightarrow> in_segment \<Rightarrow> bool" where
  "acks_syn conn seg \<longleftrightarrow> seg_flags seg \<in> {Ack, FinAck} \<and> check_seq seg conn \<noteq> Unacceptable \<and>
     precedes (snd_una conn) (seg_ack_num seg) \<and> precedes_or_eq (seg_ack_num seg) (snd_nxt conn)"

definition acks_fin :: "conn_state \<Rightarrow> in_segment \<Rightarrow> bool" where
  "acks_fin conn seg \<longleftrightarrow> seg_ack_num seg = snd_nxt conn \<and>
     (seg_flags seg = Ack \<and> seg_payload seg = None \<and> check_seq seg conn \<noteq> Unacceptable \<or>
      seg_flags seg = FinAck \<and> check_seq seg conn = InOrder \<and> kind (tcp_state_of conn) = FIN_WAIT_1)"

definition completes_fin :: "conn_state \<Rightarrow> in_segment \<Rightarrow> bool" where
  "completes_fin conn seg =
     (let (_, rcv, re) = drain_contiguous (seq_add (rcv_nxt conn) (len_or_default_offset (seg_payload seg))) (reassembly conn)
      in fin_reached rcv re)"

definition brings_fin :: "conn_state \<Rightarrow> in_segment \<Rightarrow> bool" where
  "brings_fin conn seg \<longleftrightarrow> check_seq seg conn = InOrder \<and>
     (case kind (tcp_state_of conn) of
        SYN_RECEIVED \<Rightarrow> acks_syn conn seg \<and> (seg_flags seg = FinAck \<or> completes_fin conn seg)
      | ESTABLISHED \<Rightarrow> seg_flags seg = FinAck \<or>
          seg_flags seg = Ack \<and> seg_payload seg \<noteq> None \<and> \<not> precedes (snd_nxt conn) (seg_ack_num seg) \<and>
          completes_fin conn seg
      | FIN_WAIT_1 \<Rightarrow> seg_flags seg = FinAck
      | FIN_WAIT_2 \<Rightarrow> seg_flags seg = FinAck
      | _ \<Rightarrow> False)"

definition resets :: "conn_state \<Rightarrow> in_segment \<Rightarrow> bool" where
  "resets conn seg \<longleftrightarrow> seg_flags seg \<in> {Rst, RstAck} \<and> check_seq seg conn = InOrder"

text \<open>The arcs of an event that sent \<open>infos\<close>: a FIN-ACK among them is ours, sent for the first time
  unless the timer sent it.\<close>

fun arcs :: "event \<Rightarrow> tcp_connections \<Rightarrow> conn_state \<Rightarrow> send_info list \<Rightarrow> arc list" where
  "arcs (Arrival now seg) conns conn infos =
     (if kind (tcp_state_of conn) = SYN_RECEIVED \<and> acks_syn conn seg then [AckOfSyn] else []) @
     (if kind (tcp_state_of conn) \<in> {FIN_WAIT_1, CLOSING, LAST_ACK} \<and> acks_fin conn seg then [AckOfFin] else []) @
     (if brings_fin conn seg then [RcvFin] else []) @
     (if \<exists>info \<in> set infos. info_flags info = FinAck then [SendFin] else []) @
     (if resets conn seg then [Abort] else [])"
| "arcs (Timer now later) conns conn infos = (if gives_up now later conns conn then [Abort] else [])"
| "arcs (Close now) conns conn infos = (if \<exists>info \<in> set infos. info_flags info = FinAck then [SendFin] else [])"

text \<open>Where the arcs lead to: the state of the connection, or the end if it is gone.\<close>

definition leads_to :: "conn_state \<Rightarrow> arc list \<Rightarrow> conn_state \<Rightarrow> bool \<Rightarrow> bool" where
  "leads_to conn as conn' gone \<longleftrightarrow> (\<exists>n. path (Live (kind (tcp_state_of conn))) as = Some n \<and>
     (if gone then n = TIME_WAIT \<or> n = CLOSED else n = Live (kind (tcp_state_of conn'))))"

section \<open>The handlers\<close>

lemma fallback_arcs:
  "known_conn_common_fallback seg conn = (reply, gone) \<Longrightarrow>
   (gone \<longleftrightarrow> resets conn seg) \<and> (\<forall>info \<in> set (option_list reply). info_flags info \<noteq> FinAck)"
  by (auto simp: known_conn_common_fallback_def resets_def Let_def rst_def split: if_splits seq_check.splits)

lemma close_wait_or_last_ack_kind:
  "snd (close_wait_or_last_ack now cw conn) = Inr info \<Longrightarrow>
   info_flags info = FinAck \<and> kind (tcp_state_of (fst (close_wait_or_last_ack now cw conn))) = LAST_ACK \<or>
   info_flags info = Ack \<and> kind (tcp_state_of (fst (close_wait_or_last_ack now cw conn))) = CLOSE_WAIT"
  by (auto simp: close_wait_or_last_ack_def run_then_cases data_payload_def Let_def split_beta
      split: sum.splits if_splits option.splits)

lemma drain_transmittable_state:
  "drain_transmittable cw conn = (conn', r) \<Longrightarrow> tcp_state_of conn' = tcp_state_of conn"
  by (auto simp: drain_transmittable_run Let_def split: sum.splits)

lemmas arcs_simps = acks_syn_def acks_fin_def brings_fin_def resets_def leads_to_def

lemma fin_wait_1_arcs:
  assumes "handle_fin_wait_1 seg fw1 conn = (conn', (reply, gone))" and "tcp_state_of conn = FinWait1 fw1"
  shows "leads_to conn (arcs (Arrival now seg) conns conn (option_list reply)) conn' gone"
  using assms
  by (cases "seg_flags seg"; cases "check_seq seg conn"; cases "seg_payload seg"; cases "seg_ack_num seg = snd_nxt conn")
    (auto simp: handle_fin_wait_1_def known_conn_common_fallback_def rst_def arcs_simps Let_def split_beta is_syn_received_def)

lemma fin_wait_2_arcs:
  assumes "handle_fin_wait_2 seg fw2 conn = (conn', (reply, gone))" and "tcp_state_of conn = FinWait2 fw2"
  shows "leads_to conn (arcs (Arrival now seg) conns conn (option_list reply)) conn' gone"
  using assms
  by (cases "seg_flags seg"; cases "check_seq seg conn"; cases "seg_payload seg")
    (auto simp: handle_fin_wait_2_def known_conn_common_fallback_def rst_def arcs_simps Let_def split_beta is_syn_received_def)

lemma closing_arcs:
  assumes "handle_closing seg cl conn = (conn', (reply, gone))" and "tcp_state_of conn = Closing cl"
  shows "leads_to conn (arcs (Arrival now seg) conns conn (option_list reply)) conn' gone"
  using assms
  by (cases "seg_flags seg"; cases "check_seq seg conn"; cases "seg_payload seg"; cases "seg_ack_num seg = snd_nxt conn")
    (auto simp: handle_closing_def known_conn_common_fallback_def rst_def arcs_simps Let_def split_beta is_syn_received_def)

lemma last_ack_arcs:
  assumes "handle_last_ack seg la conn = (conn', (reply, gone))" and "tcp_state_of conn = LastAck la"
  shows "leads_to conn (arcs (Arrival now seg) conns conn (option_list reply)) conn' gone"
  using assms
  by (cases "seg_flags seg"; cases "check_seq seg conn"; cases "seg_payload seg"; cases "seg_ack_num seg = snd_nxt conn")
    (auto simp: handle_last_ack_def known_conn_common_fallback_def rst_def arcs_simps Let_def split_beta is_syn_received_def)

text \<open>A handler that falls back stays where it is or, on a reset, ends.\<close>

lemma fallback_leads:
  assumes "known_conn_common_fallback seg conn = (reply, gone)"
    and "\<not> (kind (tcp_state_of conn) = SYN_RECEIVED \<and> acks_syn conn seg)"
    and "\<not> (kind (tcp_state_of conn) \<in> {FIN_WAIT_1, CLOSING, LAST_ACK} \<and> acks_fin conn seg)" and "\<not> brings_fin conn seg"
  shows "leads_to conn (arcs (Arrival now seg) conns conn (option_list reply)) conn gone"
  using fallback_arcs [OF assms(1)] assms(2-) by (auto simp: leads_to_def)

lemma close_wait_arcs:
  assumes "handle_close_wait now seg cw conn = (conn', Inr (reply, gone))" and st: "tcp_state_of conn = CloseWait cw"
  shows "leads_to conn (arcs (Arrival now seg) conns conn (option_list reply)) conn' gone"
proof (cases "seg_flags seg = Ack \<and> seg_payload seg = None \<and> check_seq seg conn \<noteq> Unacceptable")
  case True
  obtain cw1 conn1 where "incoming_ack_update cw seg conn = (cw1, conn1)" by fastforce
  then obtain info where "snd (close_wait_or_last_ack now cw1 conn1) = Inr info" "reply = Some info" "\<not> gone"
    "conn' = fst (close_wait_or_last_ack now cw1 conn1)"
    using assms True by (auto simp: handle_close_wait_def reply_with_def run_then_cases split_beta split: sum.splits)
  then show ?thesis using close_wait_or_last_ack_kind True st by (fastforce simp: arcs_simps)
next
  case False
  then have "known_conn_common_fallback seg conn = (reply, gone)" "conn' = conn"
    using assms(1) by (auto simp: handle_close_wait_def)
  then show ?thesis using fallback_leads [of seg conn reply gone] st by (simp add: brings_fin_def)
qed

text \<open>The two ways a handler that reaches the application goes on: it stays, or takes the peer's FIN.\<close>

definition stays :: "conn_kind \<Rightarrow> ('a \<times> conn_state, decision) stateful \<Rightarrow> bool" where
  "stays k r \<longleftrightarrow> (\<forall>app' conn' reply gone. r = ((app', conn'), Inr (reply, gone)) \<longrightarrow>
     kind (tcp_state_of conn') = k \<and> \<not> gone \<and> (\<forall>info \<in> set (option_list reply). info_flags info \<noteq> FinAck))"

definition takes_fin :: "('a \<times> conn_state, decision) stateful \<Rightarrow> bool" where
  "takes_fin r \<longleftrightarrow> (\<forall>app' conn' reply gone. r = ((app', conn'), Inr (reply, gone)) \<longrightarrow> \<not> gone \<and>
     (if \<exists>info \<in> set (option_list reply). info_flags info = FinAck then kind (tcp_state_of conn') = LAST_ACK
      else kind (tcp_state_of conn') = CLOSE_WAIT))"

lemma stays_reply:
  "kind (tcp_state_of conn) = k \<Longrightarrow> stays k ((app, conn), Inr (None, False))"
  "kind (tcp_state_of conn) = k \<Longrightarrow> stays k ((app, conn), Inr (Some (pure_ack c), False))"
  by (simp_all add: stays_def)

lemma stays_transmit:
  assumes "kind (tcp_state_of conn) = k" and "idle = (\<lambda>_. None) \<or> idle = (\<lambda>conn. Some (pure_ack conn))"
  shows "stays k (run_then (beside app (drain_transmittable est conn)) (\<lambda>(app, conn) maybe_to_send.
    case maybe_to_send of
      Some to_send \<Rightarrow> (let (info, conn) = data_payload now to_send conn in ((app, conn), Inr (Some info, False)))
    | None \<Rightarrow> ((app, conn), Inr (idle conn, False))))"
proof -
  obtain conn1 r where d: "drain_transmittable est conn = (conn1, r)" by fastforce
  show ?thesis
    using drain_transmittable_state [OF d] assms
    by (auto simp: stays_def beside_def d data_payload_def Let_def run_then_cases split: sum.splits option.splits)
qed

lemma takes_fin_close: "takes_fin (reply_with (beside app (close_wait_or_last_ack now cw conn)))"
  using close_wait_or_last_ack_kind [of now cw conn]
  by (auto simp: takes_fin_def reply_with_def beside_def run_then_cases split: sum.splits)

lemma takes_fin_in_order: "takes_fin (reply_with (close_on_in_order_fin ops now seg mp est s))"
  by (simp add: close_on_in_order_fin_def Let_def split_beta takes_fin_close)

lemma delivered_fin:
  assumes "deliver_reassembled ops (receive_payload ops (seg_payload seg) (app, conn1)) = (app2, conn2)"
    and "rcv_nxt conn1 = rcv_nxt conn" and "reassembly conn1 = reassembly conn"
  shows "fin_reached (rcv_nxt conn2) (reassembly conn2) = completes_fin conn seg"
    and "tcp_state_of conn2 = tcp_state_of conn1"
proof -
  obtain ps rcv' re' where d: "drain_contiguous (seq_add (rcv_nxt conn) (len_or_default_offset (seg_payload seg)))
      (reassembly conn) = (ps, rcv', re')" by (metis prod.collapse)
  have "rcv_nxt conn2 = rcv' \<and> reassembly conn2 = re' \<and> tcp_state_of conn2 = tcp_state_of conn1"
    using assms(1) by (auto simp: receive_payload_eq deliver_reassembled_def d assms(2,3) fold_deliver)
  then show "fin_reached (rcv_nxt conn2) (reassembly conn2) = completes_fin conn seg"
    and "tcp_state_of conn2 = tcp_state_of conn1"
    by (simp_all add: completes_fin_def d)
qed

lemma stays_leads:
  assumes "stays k r" and "r = ((app', conn'), Inr (reply, gone))" and "\<not> resets conn seg" and "\<not> brings_fin conn seg"
    and "kind (tcp_state_of conn) = k \<and> k = ESTABLISHED \<or>
      kind (tcp_state_of conn) = SYN_RECEIVED \<and> (if acks_syn conn seg then k = ESTABLISHED else k = SYN_RECEIVED)"
  shows "leads_to conn (arcs (Arrival now seg) conns conn (option_list reply)) conn' gone"
  using assms by (auto simp: stays_def leads_to_def)

lemma takes_fin_leads:
  assumes "takes_fin r" and "r = ((app', conn'), Inr (reply, gone))" and "\<not> resets conn seg" and "brings_fin conn seg"
    and "kind (tcp_state_of conn) = ESTABLISHED \<or> kind (tcp_state_of conn) = SYN_RECEIVED \<and> acks_syn conn seg"
  shows "leads_to conn (arcs (Arrival now seg) conns conn (option_list reply)) conn' gone"
  using assms by (auto simp: takes_fin_def leads_to_def split: if_splits)

text \<open>ESTABLISHED, branch by branch.\<close>

lemma established_branches:
  assumes "tcp_state_of conn = Established est" and r_def: "r = handle_established ops now seg est (app, conn)"
  shows "brings_fin conn seg \<Longrightarrow> takes_fin r"
    and "\<not> brings_fin conn seg \<Longrightarrow> stays ESTABLISHED r \<and> seg_flags seg \<in> {Ack, FinAck} \<or>
      r = ((app, conn), Inr (known_conn_common_fallback seg conn))"
proof -
  obtain est1 conn1 where u: "incoming_ack_update est seg conn = (est1, conn1)" by fastforce
  obtain app2 conn2 where d: "deliver_reassembled ops (receive_payload ops (seg_payload seg)
      (app, conn1\<lparr>tcp_state_of := Established est1\<rparr>)) = (app2, conn2)" by fastforce
  have frame: "rcv_nxt conn1 = rcv_nxt conn" "reassembly conn1 = reassembly conn"
    using incoming_ack_update_frame [of est seg conn] by (simp_all add: u)
  note fin = delivered_fin [OF d, of conn, simplified, OF frame]
  have transmit: "stays ESTABLISHED (run_then (beside app' (drain_transmittable est1 c)) (\<lambda>(app, conn) maybe_to_send.
      case maybe_to_send of
        Some to_send \<Rightarrow> (let (info, conn) = data_payload now to_send conn in ((app, conn), Inr (Some info, False)))
      | None \<Rightarrow> ((app, conn), Inr (idle conn, False))))"
    if "tcp_state_of c = Established est1" "idle = (\<lambda>_. None) \<or> idle = (\<lambda>conn. Some (pure_ack conn))" for app' c idle
    by (rule stays_transmit) (use that in simp_all)
  note branches = stays_reply transmit [unfolded Let_def] takes_fin_close takes_fin_in_order
  note simps = r_def handle_established_def u d Let_def brings_fin_def
  show "brings_fin conn seg \<Longrightarrow> takes_fin r"
    using fin assms(1)
    by (cases "seg_flags seg"; cases "seg_payload seg = None"; auto simp: simps intro!: branches)
  show "\<not> brings_fin conn seg \<Longrightarrow> stays ESTABLISHED r \<and> seg_flags seg \<in> {Ack, FinAck} \<or>
      r = ((app, conn), Inr (known_conn_common_fallback seg conn))"
    using fin assms(1)
    by (cases "seg_flags seg"; cases "check_seq seg conn"; cases "seg_payload seg = None"; auto simp: simps intro!: branches)
qed

lemma established_arcs:
  assumes "handle_established ops now seg est (app, conn) = ((app', conn'), Inr (reply, gone))"
    and "tcp_state_of conn = Established est"
  shows "leads_to conn (arcs (Arrival now seg) conns conn (option_list reply)) conn' gone"
proof (cases "brings_fin conn seg")
  case True
  then have nr: "\<not> resets conn seg" using assms(2) by (auto simp: resets_def brings_fin_def)
  show ?thesis
    by (rule takes_fin_leads [OF established_branches(1) [OF assms(2) refl True] assms(1) nr True]) (simp add: assms(2))
next
  case False
  show ?thesis
    using established_branches(2) [OF assms(2) assms(1) [symmetric] False]
  proof
    assume s: "stays ESTABLISHED ((app', conn'), Inr (reply, gone)) \<and> seg_flags seg \<in> {Ack, FinAck}"
    show ?thesis by (rule stays_leads [OF conjunct1 [OF s] refl]) (use s False assms(2) in \<open>auto simp: resets_def\<close>)
  next
    assume "((app', conn'), Inr (reply, gone)) = ((app, conn), Inr (known_conn_common_fallback seg conn))"
    then show ?thesis using fallback_leads [of seg conn reply gone now conns] False assms(2) by simp
  qed
qed

text \<open>SYN-RECEIVED, branch by branch.\<close>

lemma syn_rcv_branches:
  assumes "tcp_state_of conn = SynReceived sr" and r_def: "r = handle_syn_rcv ops now seg sr (app, conn)"
  shows "brings_fin conn seg \<Longrightarrow> takes_fin r"
    and "\<not> brings_fin conn seg \<Longrightarrow> acks_syn conn seg \<Longrightarrow> stays ESTABLISHED r"
    and "\<not> acks_syn conn seg \<Longrightarrow> stays SYN_RECEIVED r \<and> \<not> resets conn seg \<or>
      r = ((app, conn), Inr (known_conn_common_fallback seg conn))"
proof -
  obtain est1 conn1 where u: "complete_handshake seg sr conn = (est1, conn1)" by fastforce
  obtain app2 conn2 where d: "deliver_reassembled ops (receive_payload ops (seg_payload seg) (app, conn1)) = (app2, conn2)"
    by fastforce
  have frame: "rcv_nxt conn1 = rcv_nxt conn" "reassembly conn1 = reassembly conn" "tcp_state_of conn1 = Established est1"
    using u by (auto simp: complete_handshake_def Let_def)
  note fin = delivered_fin [OF d frame(1,2)]
  have transmit: "stays ESTABLISHED (run_then (beside app' (drain_transmittable est1 c)) (\<lambda>(app, conn) maybe_to_send.
      case maybe_to_send of
        Some to_send \<Rightarrow> (let (info, conn) = data_payload now to_send conn in ((app, conn), Inr (Some info, False)))
      | None \<Rightarrow> ((app, conn), Inr (idle conn, False))))"
    if "tcp_state_of c = Established est1" "idle = (\<lambda>_. None) \<or> idle = (\<lambda>conn. Some (pure_ack conn))" for app' c idle
    by (rule stays_transmit) (use that in simp_all)
  note branches = stays_reply transmit [unfolded Let_def] takes_fin_close takes_fin_in_order
  show "brings_fin conn seg \<Longrightarrow> takes_fin r"
    using fin frame assms(1)
    by (cases "seg_flags seg"; cases "check_seq seg conn"; auto simp: r_def handle_syn_rcv_def u d Let_def brings_fin_def acks_syn_def intro!: branches)
  show "\<not> brings_fin conn seg \<Longrightarrow> acks_syn conn seg \<Longrightarrow> stays ESTABLISHED r"
    using fin frame assms(1)
    by (cases "check_seq seg conn")
      (auto simp: r_def handle_syn_rcv_def u d Let_def brings_fin_def acks_syn_def intro!: branches)
  show "\<not> acks_syn conn seg \<Longrightarrow> stays SYN_RECEIVED r \<and> \<not> resets conn seg \<or>
      r = ((app, conn), Inr (known_conn_common_fallback seg conn))"
    using assms(1)
    by (auto simp: r_def handle_syn_rcv_def Let_def acks_syn_def resets_def stays_def)
qed

lemma syn_rcv_arcs:
  assumes "handle_syn_rcv ops now seg sr (app, conn) = ((app', conn'), Inr (reply, gone))"
    and st: "tcp_state_of conn = SynReceived sr"
  shows "leads_to conn (arcs (Arrival now seg) conns conn (option_list reply)) conn' gone"
proof (cases "acks_syn conn seg")
  case True
  then have nr: "\<not> resets conn seg" by (auto simp: resets_def acks_syn_def)
  note b = syn_rcv_branches [OF st assms(1) [symmetric]]
  show ?thesis
  proof (cases "brings_fin conn seg")
    case fin: True
    show ?thesis by (rule takes_fin_leads [OF b(1) [OF fin] refl nr fin]) (simp add: st True)
  next
    case no_fin: False
    show ?thesis by (rule stays_leads [OF b(2) [OF no_fin True] refl nr no_fin]) (simp add: st True)
  qed
next
  case False
  then have nb: "\<not> brings_fin conn seg" using st by (simp add: brings_fin_def)
  show ?thesis
    using syn_rcv_branches(3) [OF st assms(1) [symmetric] False]
  proof
    assume s: "stays SYN_RECEIVED ((app', conn'), Inr (reply, gone)) \<and> \<not> resets conn seg"
    show ?thesis by (rule stays_leads [OF conjunct1 [OF s] refl conjunct2 [OF s] nb]) (simp add: st False)
  next
    assume "((app', conn'), Inr (reply, gone)) = ((app, conn), Inr (known_conn_common_fallback seg conn))"
    then show ?thesis using fallback_leads [of seg conn reply gone now conns] False nb st by simp
  qed
qed

lemma known_conn_arcs:
  assumes "handle_known_conn ops now seg (app, conn) = ((app', conn'), Inr (reply, gone))"
  shows "leads_to conn (arcs (Arrival now seg) conns conn (option_list reply)) conn' gone"
proof (cases "tcp_state_of conn")
  case (SynReceived sr)
  show ?thesis by (rule syn_rcv_arcs [OF _ SynReceived]) (use assms in \<open>simp add: handle_known_conn_def SynReceived\<close>)
next
  case (Established est)
  show ?thesis by (rule established_arcs [OF _ Established]) (use assms in \<open>simp add: handle_known_conn_def Established\<close>)
next
  case (FinWait1 fw1)
  show ?thesis by (rule fin_wait_1_arcs [OF _ FinWait1])
    (use assms in \<open>simp add: handle_known_conn_def FinWait1 infallibly_def prod_eq_iff\<close>)
next
  case (FinWait2 fw2)
  show ?thesis by (rule fin_wait_2_arcs [OF _ FinWait2])
    (use assms in \<open>simp add: handle_known_conn_def FinWait2 infallibly_def prod_eq_iff\<close>)
next
  case (CloseWait cw)
  show ?thesis by (rule close_wait_arcs [OF _ CloseWait])
    (use assms in \<open>simp add: handle_known_conn_def CloseWait beside_def prod_eq_iff\<close>)
next
  case (Closing cl)
  show ?thesis by (rule closing_arcs [OF _ Closing])
    (use assms in \<open>simp add: handle_known_conn_def Closing infallibly_def prod_eq_iff\<close>)
next
  case (LastAck la)
  show ?thesis by (rule last_ack_arcs [OF _ LastAck])
    (use assms in \<open>simp add: handle_known_conn_def LastAck infallibly_def prod_eq_iff\<close>)
qed

lemma happen_leads:
  assumes "happen ops conns ev (app, conn) = ((app', conn'), Inr (infos, gone))"
  shows "leads_to conn (arcs ev conns conn infos) conn' gone"
proof (cases ev)
  case (Arrival now seg)
  then obtain reply where h: "handle_known_conn ops now seg (app, conn) = ((app', conn'), Inr (reply, gone))"
    "infos = option_list reply"
    using assms by (cases "handle_known_conn ops now seg (app, conn)") (auto simp: happen_def run_then_cases split: sum.splits)
  show "leads_to conn (arcs ev conns conn infos) conn' gone"
    using known_conn_arcs [OF h(1)] by (simp add: Arrival h(2) del: arcs.simps)
next
  case (Timer now later)
  then show "leads_to conn (arcs ev conns conn infos) conn' gone"
    using assms by (auto simp: happen_def leads_to_def resend_def split: if_splits)
next
  case (Close now)
  then show "leads_to conn (arcs ev conns conn infos) conn' gone"
    using assms by (cases "tcp_state_of conn") (auto simp: happen_def leads_to_def close_conn_def Let_def)
qed

section \<open>Failures\<close>

text \<open>
  A handler that fails has not changed the state, except that the handshake may be complete: the
  sending of data or of a FIN is what fails.
\<close>

definition fails_at :: "conn_kind \<Rightarrow> ('a \<times> conn_state, 'b) stateful \<Rightarrow> bool" where
  "fails_at k r \<longleftrightarrow> (\<forall>app' conn' e. r = ((app', conn'), Inl e) \<longrightarrow> kind (tcp_state_of conn') = k)"

lemma fails_at_ok: "fails_at k (s, Inr x)"
  by (simp add: fails_at_def)

lemma fails_at_transmit:
  assumes "kind (tcp_state_of conn) = k" and "idle = (\<lambda>_. None) \<or> idle = (\<lambda>conn. Some (pure_ack conn))"
  shows "fails_at k (run_then (beside app (drain_transmittable est conn)) (\<lambda>(app, conn) maybe_to_send.
    case maybe_to_send of
      Some to_send \<Rightarrow> (let (info, conn) = data_payload now to_send conn in ((app, conn), Inr (Some info, False)))
    | None \<Rightarrow> ((app, conn), Inr (idle conn, False))))"
proof -
  obtain conn1 r where d: "drain_transmittable est conn = (conn1, r)" by fastforce
  show ?thesis
    using drain_transmittable_state [OF d] assms
    by (auto simp: fails_at_def beside_def d data_payload_def Let_def run_then_cases split: sum.splits option.splits)
qed

lemma fails_at_close:
  assumes "kind (tcp_state_of conn) = k"
  shows "fails_at k (reply_with (beside app (close_wait_or_last_ack now cw conn)))"
proof -
  obtain conn1 r where d: "drain_transmittable cw conn = (conn1, r)" by fastforce
  show ?thesis
    using drain_transmittable_state [OF d] assms
    by (auto simp: fails_at_def reply_with_def beside_def close_wait_or_last_ack_def d data_payload_def Let_def run_then_cases
        split: sum.splits option.splits)
qed

lemma fails_at_in_order:
  assumes "kind (tcp_state_of conn) = k"
  shows "fails_at k (reply_with (close_on_in_order_fin ops now seg mp est (app, conn)))"
  using assms
  by (auto simp: close_on_in_order_fin_def receive_payload_eq advance_past_fin_def split_beta Let_def intro: fails_at_close)

lemma established_fails:
  assumes "tcp_state_of conn = Established est"
  shows "fails_at ESTABLISHED (handle_established ops now seg est (app, conn))"
proof -
  obtain est1 conn1 where u: "incoming_ack_update est seg conn = (est1, conn1)" by fastforce
  obtain app2 conn2 where d: "deliver_reassembled ops (receive_payload ops (seg_payload seg)
      (app, conn1\<lparr>tcp_state_of := Established est1\<rparr>)) = (app2, conn2)" by fastforce
  note fin = delivered_fin(2) [OF d, of "conn1\<lparr>tcp_state_of := Established est1\<rparr>", simplified]
  have transmit: "fails_at ESTABLISHED (run_then (beside app' (drain_transmittable est1 c)) (\<lambda>(app, conn) maybe_to_send.
      case maybe_to_send of
        Some to_send \<Rightarrow> (let (info, conn) = data_payload now to_send conn in ((app, conn), Inr (Some info, False)))
      | None \<Rightarrow> ((app, conn), Inr (idle conn, False))))"
    if "tcp_state_of c = Established est1" "idle = (\<lambda>_. None) \<or> idle = (\<lambda>conn. Some (pure_ack conn))" for app' c idle
    by (rule fails_at_transmit) (use that in simp_all)
  note branches = fails_at_ok transmit [unfolded Let_def] fails_at_close fails_at_in_order
  show ?thesis
    using fin assms
    by (cases "seg_flags seg"; cases "check_seq seg conn"; cases "seg_payload seg = None";
        auto simp: handle_established_def u d Let_def advance_past_fin_def intro!: branches)
qed

lemma syn_rcv_fails:
  assumes "tcp_state_of conn = SynReceived sr"
  shows "fails_at (if acks_syn conn seg then ESTABLISHED else SYN_RECEIVED) (handle_syn_rcv ops now seg sr (app, conn))"
proof -
  obtain est1 conn1 where u: "complete_handshake seg sr conn = (est1, conn1)" by fastforce
  obtain app2 conn2 where d: "deliver_reassembled ops (receive_payload ops (seg_payload seg) (app, conn1)) = (app2, conn2)"
    by fastforce
  have frame: "tcp_state_of conn1 = Established est1" using u by (auto simp: complete_handshake_def Let_def)
  note fin = delivered_fin(2) [OF d refl refl]
  have transmit: "fails_at ESTABLISHED (run_then (beside app' (drain_transmittable est1 c)) (\<lambda>(app, conn) maybe_to_send.
      case maybe_to_send of
        Some to_send \<Rightarrow> (let (info, conn) = data_payload now to_send conn in ((app, conn), Inr (Some info, False)))
      | None \<Rightarrow> ((app, conn), Inr (idle conn, False))))"
    if "tcp_state_of c = Established est1" "idle = (\<lambda>_. None) \<or> idle = (\<lambda>conn. Some (pure_ack conn))" for app' c idle
    by (rule fails_at_transmit) (use that in simp_all)
  note branches = fails_at_ok transmit [unfolded Let_def] fails_at_close fails_at_in_order
  show ?thesis
    using fin frame assms
    by (cases "seg_flags seg"; cases "check_seq seg conn";
        auto simp: handle_syn_rcv_def u d Let_def acks_syn_def advance_past_fin_def intro!: branches)
qed

text \<open>On a failure, the connection is where the acknowledgment of our SYN alone leads.\<close>

lemma known_conn_fails:
  assumes "handle_known_conn ops now seg (app, conn) = ((app', conn'), Inl e)"
  shows "kind (tcp_state_of conn') =
    (if kind (tcp_state_of conn) = SYN_RECEIVED \<and> acks_syn conn seg then ESTABLISHED else kind (tcp_state_of conn))"
proof (cases "tcp_state_of conn")
  case (SynReceived sr)
  then show ?thesis
    using syn_rcv_fails [OF SynReceived, of seg ops now app] assms by (auto simp: fails_at_def handle_known_conn_def)
next
  case (Established est)
  then show ?thesis
    using established_fails [OF Established, of ops now seg app] assms by (auto simp: fails_at_def handle_known_conn_def)
next
  case (CloseWait cw)
  obtain cw1 conn1 where u: "incoming_ack_update cw seg conn = (cw1, conn1)" by fastforce
  have "tcp_state_of conn1 = CloseWait cw" using incoming_ack_update_frame [of cw seg conn] CloseWait by (simp add: u)
  then have "fails_at CLOSE_WAIT (reply_with (beside app (close_wait_or_last_ack now cw1 conn1)))"
    by (intro fails_at_close) simp
  then show ?thesis
    using assms CloseWait
    by (auto simp: handle_known_conn_def handle_close_wait_def u fails_at_def reply_with_def beside_def run_then_cases
        split: if_splits sum.splits)
qed (use assms in \<open>auto simp: handle_known_conn_def infallibly_def\<close>)

section \<open>The theorem\<close>


end
