(* ===== verification/Flow_Control.thy ===== *)
theory Flow_Control
  imports Tcp_Diagram
begin

text \<open>
  The window a connection sends by is the one the peer last advertised, as RFC 9293 (section
  3.10.7.4) defines it, and what is sent stays within it.
\<close>

section \<open>The window last advertised\<close>

text \<open>The window a connection has recorded; there is none before the handshake is complete.\<close>

fun window_of :: "tcp_state \<Rightarrow> window_state option" where
  "window_of (SynReceived _) = None"
| "window_of (Established st) = Some (window_state_of st)"
| "window_of (FinWait1 st) = Some (window_state_of st)"
| "window_of (FinWait2 st) = Some (window_state_of st)"
| "window_of (CloseWait st) = Some (window_state_of st)"
| "window_of (Closing st) = Some (window_state_of st)"
| "window_of (LastAck st) = Some (window_state_of st)"

text \<open>
  The segments whose acknowledgment and window a state reads: those in the receive window with
  the ACK flag, in ESTABLISHED all of them, in the later states those the state accepts.
\<close>

definition reads_window :: "conn_state \<Rightarrow> in_segment \<Rightarrow> bool" where
  "reads_window conn seg \<longleftrightarrow> check_seq seg conn \<noteq> Unacceptable \<and>
     (case kind (tcp_state_of conn) of
        SYN_RECEIVED \<Rightarrow> False
      | ESTABLISHED \<Rightarrow> seg_flags seg = Ack \<or> seg_flags seg = FinAck
      | FIN_WAIT_1 \<Rightarrow> seg_flags seg = Ack \<and> seg_payload seg = None \<or>
          (seg_flags seg = Ack \<or> seg_flags seg = FinAck) \<and> check_seq seg conn = InOrder
      | FIN_WAIT_2 \<Rightarrow> seg_flags seg = Ack \<and> (seg_payload seg = None \<or> check_seq seg conn = InOrder)
      | _ \<Rightarrow> seg_flags seg = Ack \<and> seg_payload seg = None)"

text \<open>
  The rule of RFC 9293: the window of a segment counts if its acknowledgment is acceptable and it is not
  older than the segment the present window came from, by its sequence number and then by its
  acknowledgment. The segment that completes the handshake sets the first window.
\<close>

definition window_in :: "in_segment \<Rightarrow> window_state" where
  "window_in seg = \<lparr>snd_wnd = seg_window seg, snd_wl1 = seg_seq_num seg, snd_wl2 = seg_ack_num seg\<rparr>"

definition newer_window :: "window_state \<Rightarrow> conn_state \<Rightarrow> in_segment \<Rightarrow> window_state" where
  "newer_window ws conn seg =
     (if ahead (snd_una conn) (seg_ack_num seg) \<le> in_flight conn \<and>
         (precedes (snd_wl1 ws) (seg_seq_num seg) \<or>
          snd_wl1 ws = seg_seq_num seg \<and> precedes_or_eq (snd_wl2 ws) (seg_ack_num seg))
      then window_in seg else ws)"

definition last_advertised :: "conn_state \<Rightarrow> in_segment \<Rightarrow> window_state option" where
  "last_advertised conn seg =
     (case window_of (tcp_state_of conn) of
        None \<Rightarrow> if acks_syn conn seg then Some (window_in seg) else None
      | Some ws \<Rightarrow> Some (if reads_window conn seg then newer_window ws conn seg else ws))"

section \<open>The handlers\<close>

text \<open>What an acknowledgment does to the window.\<close>

lemma incoming_ack_update_window:
  assumes "in_flight conn \<le> 65536" and "ack_placeable conn seg"
    and "snd_una conn' = snd_una conn" and "snd_nxt conn' = snd_nxt conn"
  shows "window_state_of (fst (incoming_ack_update st seg conn')) = newer_window (window_state_of st) conn seg"
  using acceptable_ack_iff(1) [OF assms(1,2)] assms(3,4)
  by (auto simp: incoming_ack_update_def newer_window_def window_in_def Let_def)

text \<open>
  After a step that succeeds the window is \<open>w\<close> unless the connection is removed, and data is sent only
  with a window and by a connection that stays.
\<close>

definition records :: "window_state option \<Rightarrow> ('a \<times> conn_state, decision) stateful \<Rightarrow> bool" where
  "records w r \<longleftrightarrow> (\<forall>app' conn' reply gone. r = ((app', conn'), Inr (reply, gone)) \<longrightarrow>
     (gone \<or> window_of (tcp_state_of conn') = w) \<and>
     (gone \<or> w = None \<longrightarrow> (\<forall>info \<in> set (option_list reply). info_payload info = None)))"

lemma records_reply:
  "window_of (tcp_state_of conn) = w \<Longrightarrow> \<forall>info \<in> set (option_list reply). info_payload info = None \<Longrightarrow>
   records w ((app, conn), Inr (reply, False))"
  by (simp add: records_def)

lemma records_fallback:
  "window_of (tcp_state_of conn) = w \<Longrightarrow> records w ((app, conn), Inr (known_conn_common_fallback seg conn))"
  by (auto simp: records_def known_conn_common_fallback_def Let_def rst_def split: if_splits seq_check.splits)

lemma records_transmit:
  assumes "window_of (tcp_state_of conn) = w" and "w \<noteq> None"
  shows "records w (run_then (beside app (drain_transmittable est conn)) (\<lambda>(app, conn) maybe_to_send.
    case maybe_to_send of
      Some to_send \<Rightarrow> (let (info, conn) = data_payload now to_send conn in ((app, conn), Inr (Some info, False)))
    | None \<Rightarrow> ((app, conn), Inr (idle conn, False))))"
proof -
  obtain conn1 r where d: "drain_transmittable est conn = (conn1, r)" by fastforce
  show ?thesis
    using drain_transmittable_state [OF d] assms
    by (auto simp: records_def beside_def d data_payload_def Let_def run_then_cases split: sum.splits option.splits)
qed

lemma records_close:
  assumes "w = Some (window_state_of cw)"
  shows "records w (reply_with (beside app (close_wait_or_last_ack now cw conn)))"
  using assms
  by (auto simp: records_def reply_with_def beside_def close_wait_or_last_ack_def data_payload_def send_fin_def Let_def
      run_then_cases split_beta split: sum.splits option.splits if_splits)

lemma newer_window_acked: "seg_ack_num seg = snd_una conn \<Longrightarrow> newer_window (window_in seg) conn seg = window_in seg"
  by (simp add: newer_window_def)

lemmas window_simps = last_advertised_def reads_window_def rcv_fin_def send_fin_def close_def rcv_ack_of_fin_def
  rcv_fin_before_fin_is_acked_def

lemma records_in_order:
  assumes "in_flight conn \<le> 65536" and "ack_placeable conn seg" and "w = Some (newer_window (window_state_of est) conn seg)"
  shows "records w (reply_with (close_on_in_order_fin ops now seg mp est (app, conn)))"
proof -
  have "window_state_of (fst (incoming_ack_update est seg (advance_past_fin (snd (receive_payload ops mp (app, conn)))))) =
      newer_window (window_state_of est) conn seg"
    by (rule incoming_ack_update_window [OF assms(1,2)]) (simp_all add: receive_payload_eq advance_past_fin_def)
  then show ?thesis
    using assms(3)
    by (auto simp: close_on_in_order_fin_def Let_def split_beta rcv_fin_def intro!: records_close)
qed

text \<open>The states that only wait for acknowledgments and the peer's FIN.\<close>

lemma infallible_windows:
  assumes "in_flight conn \<le> 65536" and "ack_placeable conn seg"
  shows "tcp_state_of conn = FinWait1 fw1 \<Longrightarrow> records (last_advertised conn seg) (infallibly app (handle_fin_wait_1 seg fw1 conn))"
    and "tcp_state_of conn = FinWait2 fw2 \<Longrightarrow> records (last_advertised conn seg) (infallibly app (handle_fin_wait_2 seg fw2 conn))"
    and "tcp_state_of conn = Closing cl \<Longrightarrow> records (last_advertised conn seg) (infallibly app (handle_closing seg cl conn))"
    and "tcp_state_of conn = LastAck la \<Longrightarrow> records (last_advertised conn seg) (infallibly app (handle_last_ack seg la conn))"
proof -
  note w = incoming_ack_update_window [OF assms]
  show "tcp_state_of conn = FinWait1 fw1 \<Longrightarrow> records (last_advertised conn seg) (infallibly app (handle_fin_wait_1 seg fw1 conn))"
    by (cases "seg_flags seg"; cases "check_seq seg conn"; cases "seg_payload seg"; cases "seg_ack_num seg = snd_nxt conn")
      (simp_all add: handle_fin_wait_1_def infallibly_def known_conn_common_fallback_def rst_def is_syn_received_def records_def window_simps Let_def split_beta w)
  show "tcp_state_of conn = FinWait2 fw2 \<Longrightarrow> records (last_advertised conn seg) (infallibly app (handle_fin_wait_2 seg fw2 conn))"
    by (cases "seg_flags seg"; cases "check_seq seg conn"; cases "seg_payload seg")
      (simp_all add: handle_fin_wait_2_def infallibly_def known_conn_common_fallback_def rst_def is_syn_received_def records_def window_simps Let_def split_beta w)
  show "tcp_state_of conn = Closing cl \<Longrightarrow> records (last_advertised conn seg) (infallibly app (handle_closing seg cl conn))"
    by (cases "seg_flags seg"; cases "check_seq seg conn"; cases "seg_payload seg"; cases "seg_ack_num seg = snd_nxt conn")
      (simp_all add: handle_closing_def infallibly_def known_conn_common_fallback_def rst_def is_syn_received_def records_def window_simps Let_def split_beta w)
  show "tcp_state_of conn = LastAck la \<Longrightarrow> records (last_advertised conn seg) (infallibly app (handle_last_ack seg la conn))"
    by (cases "seg_flags seg"; cases "check_seq seg conn"; cases "seg_payload seg"; cases "seg_ack_num seg = snd_nxt conn")
      (simp_all add: handle_last_ack_def infallibly_def known_conn_common_fallback_def rst_def is_syn_received_def records_def window_simps Let_def split_beta w)
qed

lemma close_wait_window:
  assumes "in_flight conn \<le> 65536" and "ack_placeable conn seg" and st: "tcp_state_of conn = CloseWait cw"
  shows "records (last_advertised conn seg) (beside app (handle_close_wait now seg cw conn))"
proof (cases "seg_flags seg = Ack \<and> seg_payload seg = None \<and> check_seq seg conn \<noteq> Unacceptable")
  case True
  have "records (last_advertised conn seg) (reply_with (beside app (close_wait_or_last_ack now
      (fst (incoming_ack_update cw seg conn)) (snd (incoming_ack_update cw seg conn)))))"
    by (rule records_close) (use True st in \<open>simp add: window_simps incoming_ack_update_window [OF assms(1,2)]\<close>)
  moreover have "beside app (reply_with r) = reply_with (beside app r)" for r :: "(conn_state, send_info) stateful"
    by (cases r; cases "snd r") (auto simp: reply_with_def beside_def)
  ultimately show ?thesis using True by (simp add: handle_close_wait_def split_beta)
next
  case False
  then show ?thesis
    using st by (auto simp: handle_close_wait_def beside_def window_simps intro!: records_fallback)
qed

lemma established_window:
  assumes flight: "in_flight conn \<le> 65536" "ack_placeable conn seg" and st: "tcp_state_of conn = Established est"
    and early: "precedes (snd_nxt conn) (seg_ack_num seg) \<Longrightarrow> in_flight conn < ahead (snd_una conn) (seg_ack_num seg)"
  shows "records (last_advertised conn seg) (handle_established ops now seg est (app, conn))"
proof -
  obtain est1 conn1 where u: "incoming_ack_update est seg conn = (est1, conn1)" by fastforce
  have w: "window_state_of est1 = newer_window (window_state_of est) conn seg"
    using incoming_ack_update_window [OF flight, of conn est] by (simp add: u)
  obtain app2 conn2 where d: "deliver_reassembled ops (receive_payload ops (seg_payload seg)
      (app, conn1\<lparr>tcp_state_of := Established est1\<rparr>)) = (app2, conn2)" by fastforce
  note fin = delivered_fin(2) [OF d, of "conn1\<lparr>tcp_state_of := Established est1\<rparr>", simplified]
  have unread: "newer_window ws conn seg = ws" if "precedes (snd_nxt conn) (seg_ack_num seg)" for ws
    using early [OF that] by (simp add: newer_window_def)
  note branches = records_reply records_fallback records_transmit [unfolded Let_def] records_close records_in_order [OF flight]
  show ?thesis
    using fin st w unread
    by (cases "seg_flags seg"; cases "check_seq seg conn"; cases "seg_payload seg = None";
        auto simp: handle_established_def u d Let_def window_simps intro!: branches)
qed

lemma syn_rcv_window:
  assumes flight: "in_flight conn \<le> 65536" "ack_placeable conn seg" and st: "tcp_state_of conn = SynReceived sr"
  shows "records (last_advertised conn seg) (handle_syn_rcv ops now seg sr (app, conn))"
proof -
  obtain est1 conn1 where u: "complete_handshake seg sr conn = (est1, conn1)" by fastforce
  have h: "tcp_state_of conn1 = Established est1" "snd_una conn1 = seg_ack_num seg"
    "window_state_of est1 = window_in seg" "snd_nxt conn1 = snd_nxt conn"
    using u by (auto simp: complete_handshake_def Let_def establish_def window_in_def)
  obtain app2 conn2 where d: "deliver_reassembled ops (receive_payload ops (seg_payload seg) (app, conn1)) = (app2, conn2)"
    by fastforce
  note fin = delivered_fin(2) [OF d refl refl]
  have in_order: "records (Some (window_in seg)) (reply_with (close_on_in_order_fin ops now seg mp est1 (app, conn1)))" for mp
    by (auto simp: close_on_in_order_fin_def Let_def split_beta rcv_fin_def receive_payload_eq advance_past_fin_def
        incoming_ack_update_def h(2-4) [unfolded window_in_def] window_in_def precedes_or_eq_def intro!: records_close)
  note branches = records_reply records_fallback records_transmit [unfolded Let_def] records_close in_order
  show ?thesis
    using fin st h
    by (cases "seg_flags seg"; cases "check_seq seg conn";
        auto simp: handle_syn_rcv_def u d Let_def window_simps acks_syn_def rcv_fin_def intro!: branches)
qed

section \<open>The theorem\<close>

lemma known_conn_window:
  assumes inv: "conn_inv conn" and ack: "ack_placeable conn seg"
  shows "records (last_advertised conn seg) (handle_known_conn ops now seg (app, conn))"
proof -
  have flight: "in_flight conn \<le> 65536" using inv by (simp add: conn_inv_def send_inv_def)
  have early: "in_flight conn < ahead (snd_una conn) (seg_ack_num seg)" if "precedes (snd_nxt conn) (seg_ack_num seg)"
  proof (rule ccontr)
    assume "\<not> in_flight conn < ahead (snd_una conn) (seg_ack_num seg)"
    then have "ahead (seg_ack_num seg) (snd_nxt conn) \<le> 65536"
      using acceptable_ack_iff(2) [OF flight ack] flight by simp
    then show False using that ahead_swap [of "snd_nxt conn" "seg_ack_num seg"] by (auto simp: precedes_iff split: if_splits)
  qed
  show ?thesis
  proof (cases "tcp_state_of conn")
    case (SynReceived sr)
    then show ?thesis using syn_rcv_window [OF flight ack, of sr ops now app] by (simp add: handle_known_conn_def)
  next
    case (Established est)
    then show ?thesis using established_window [OF flight ack Established early, of ops now app] by (simp add: handle_known_conn_def)
  next
    case (CloseWait cw)
    then show ?thesis using close_wait_window [OF flight ack, of cw app now] by (simp add: handle_known_conn_def)
  qed (simp_all add: handle_known_conn_def infallible_windows [OF flight ack])
qed

text \<open>
  C16: Flow control: after every segment that does not end a connection that satisfies the invariant,
  the window recorded is the one the peer last advertised by RFC 9293's rule: that of the segment that
  completed the handshake, then that of each segment read whose acknowledgment is acceptable and which
  is not older than the last one used. When the reply carries data, everything in flight is within that
  window, except that a FIN sent with the last data may take the sequence number after it. Segments
  that acknowledge the antipode of SND.UNA, 2^31 away, are excluded.
\<close>

theorem flow_control:
  assumes "conn_inv conn" and "segment_wf seg" and "ack_placeable conn seg"
    and "handle_known_conn ops now seg (app, conn) = ((app', conn'), Inr (reply, gone))"
  shows "(\<not> gone \<longrightarrow> window_of (tcp_state_of conn') = last_advertised conn seg) \<and>
    (\<forall>info data. reply = Some info \<and> info_payload info = Some data \<longrightarrow> \<not> gone \<and>
       (\<exists>ws. last_advertised conn seg = Some ws \<and>
             in_flight conn' \<le> unat (offset (snd_wnd ws)) + (if info_flags info = FinAck then 1 else 0)))"
proof -
  have w: "\<not> gone \<Longrightarrow> window_of (tcp_state_of conn') = last_advertised conn seg"
    "reply = Some info \<Longrightarrow> info_payload info = Some data \<Longrightarrow> \<not> gone \<and> last_advertised conn seg \<noteq> None" for info data
    using known_conn_window [OF assms(1,3), of ops now app] assms(4) by (auto simp: records_def)
  have "reply_ok seg conn conn' reply"
    using handle_known_conn_handled [OF assms] by (simp add: handled_def)
  then have bound: "in_flight conn' \<le> peer_window (tcp_state_of conn') + (if info_flags info = FinAck then 1 else 0)"
    if "reply = Some info" "info_payload info = Some data" for info data
    using that by (auto simp: reply_ok_def rst_def)
  have window: "window_of st = Some ws \<Longrightarrow> peer_window st = unat (offset (snd_wnd ws))" for st ws
    by (cases st) simp_all
  show ?thesis using w bound window by (metis option.exhaust_sel)
qed

theorem flow_control_witness:
  "\<exists>conn'. handle_known_conn shouting_test_app 0 example_hi ((), example_conn) =
     (((), conn'), Inr (Some example_reply, False)) \<and> window_of (tcp_state_of conn') = last_advertised example_conn example_hi"
proof -
  obtain conn' where r: "handle_known_conn shouting_test_app 0 example_hi ((), example_conn) =
      (((), conn'), Inr (Some example_reply, False))"
    by (rule example_run)
  show ?thesis using flow_control [OF _ _ _ r] r by (intro exI [of _ conn']) simp
qed

end
