(* ===== verification/Echo_Service.thy ===== *)
theory Echo_Service
  imports Tcp_Delivery Tcp_Output Server_Config
begin

text \<open>
  What a client of the server sees: the two directions of a connection together, with an application
  between them that serves a stream, the locale \<open>stream_service\<close>; the server's applications
  (\<open>server/src/application.rs\<close>) and those of the tests are its interpretations.
\<close>

text \<open>Every event hands the application some payloads, if any.\<close>

lemma happen_runs_app:
  assumes ok: "event_ok ev conn" and inv: "conn_inv conn"
    and run: "happen ops conns ev (app, conn) = ((app', conn'), Inr (infos, gone))"
  shows "\<exists>ps. app' = fst (run_app ops app ps)"
proof (cases ev)
  case (Arrival now seg)
  obtain reply where h: "handle_known_conn ops now seg (app, conn) = ((app', conn'), Inr (reply, gone))"
    using run by (cases "handle_known_conn ops now seg (app, conn)";
        cases "snd (handle_known_conn ops now seg (app, conn))") (auto simp: happen_def Arrival)
  have "app_stream_ok ops (app, conn) (app', conn') reply"
    using handle_known_conn_handled [OF inv _ _ h] ok by (simp add: Arrival handled_def)
  then show ?thesis by (auto simp: app_stream_ok_def) (metis fst_conv)
next
  case (Timer now later)
  then have "app' = app" using run by (auto simp: happen_def split: if_splits)
  then show ?thesis by (intro exI [of _ "[]"]) simp
next
  case (Close now)
  then have "app' = app" using run by (auto simp: happen_def split: option.splits)
  then show ?thesis by (intro exI [of _ "[]"]) simp
qed

section \<open>Applications that serve a stream\<close>

text \<open>
  The interface between the stack and an application that answers a stream byte by byte: what it
  appends for some data, and what it replies to a datagram, is a function of the data that respects
  concatenation, and serving does not change the function. How a stream is cut into segments
  then makes no difference to the answer.
\<close>

locale stream_service =
  fixes ops :: "'a application" and serve :: "'a \<Rightarrow> bytes \<Rightarrow> bytes"
  assumes tcp_serves: "snd (handle_tcp ops app data) = serve app data"
    and tcp_keeps: "serve (fst (handle_tcp ops app data)) = serve app"
    and udp_serves: "snd (handle_udp ops app data) = serve app data"
    and serve_append: "serve app (xs @ ys) = serve app xs @ serve app ys"
begin

lemma serve_Nil: "serve app [] = []"
  using serve_append [of app "[]" "[]"] by simp

lemma run_app_serves:
  "snd (run_app ops app ps) = serve app (concat (map payload_data ps))"
  "serve (fst (run_app ops app ps)) = serve app"
  by (induction ps arbitrary: app) (simp_all add: split_beta Let_def serve_Nil serve_append tcp_serves tcp_keeps)

lemma udp_reply_serves: "udp_payload (snd (create_udp_reply ops app d)) = serve app (udp_payload d)"
  by (simp add: create_udp_reply_def split_beta udp_serves)

lemma end_to_end:
  assumes inv: "conn_inv conn" and st: "stream_inv s base (app, conn)" and out: "output_inv obase (app, conn)"
    and new: "got app = []" "gave app = []"
    and ok: "along (recording ops) conns (from_stream s base) evs (app, conn)"
  shows "\<exists>app' conn' infos first n. conversation (recording ops) conns evs (app, conn) = ((app', conn'), Inr infos) \<and>
    got app' = stream_slice s 0 n \<and> set first \<subseteq> set infos \<and>
    concat (map (\<lambda>i. payload_bytes (info_payload i)) first) @ send_buffer conn' = serve (observed app) (stream_slice s 0 n) \<and>
    (\<forall>info \<in> set infos. of_output obase (serve (observed app) (stream_slice s 0 n)) info)"
proof -
  let ?P = "\<lambda>st. stream_inv s base st \<and> output_inv obase st \<and> serve (observed (fst st)) = serve (observed app) \<and>
    gave (fst st) = serve (observed app) (got (fst st))"
  have "\<exists>st' infos. conversation (recording ops) conns evs (app, conn) = (st', Inr infos) \<and> conn_inv (snd st') \<and>
      ?P st' \<and> output_grows obase (app, conn) st' infos"
  proof (rule conversation_induct [where P = ?P and R = "output_grows obase", OF ok])
    fix ev app1 conn1 app2 conn2 infos gone
    assume a: "from_stream s base ev (app1, conn1)" "conn_inv conn1" "?P (app1, conn1)"
      "happen (recording ops) conns ev (app1, conn1) = ((app2, conn2), Inr (infos, gone))"
    have ev: "event_ok ev conn1" using a(1) by (simp add: from_stream_def)
    obtain ps where "app2 = fst (run_app (recording ops) app1 ps)"
      using happen_runs_app [OF ev a(2,4)] by blast
    then have "serve (observed app2) = serve (observed app)" "gave app2 = serve (observed app) (got app2)"
      using a(3) by (simp_all add: run_app_recording run_app_serves serve_append)
    then show "?P (app2, conn2) \<and> output_grows obase (app1, conn1) (app2, conn2) infos"
      using happen_stream [OF a(1,2) _ a(4)] happen_output [OF ev a(2) _ a(4)] a(3) by (simp add: continues_def)
  next
    show "output_grows obase st st []" for st :: "'a recorder \<times> conn_state"
      by (simp add: output_grows_def)
    show "?P (app, conn)" using st out new by (simp add: serve_Nil)
  qed (use inv output_grows_trans in \<open>auto simp: from_stream_def\<close>)
  then obtain app' conn' infos where r: "conversation (recording ops) conns evs (app, conn) = ((app', conn'), Inr infos)"
    "?P (app', conn')" "output_grows obase (app, conn) (app', conn') infos" by auto
  let ?n = "length (got app')"
  have got: "got app' = stream_slice s 0 ?n" using r(2) by (simp add: stream_inv_def Let_def)
  have gave: "serve (observed app) (stream_slice s 0 ?n) = taken (app', conn') @ send_buffer conn'"
    unfolding got [symmetric] using r(2) unfolding output_inv_def fst_conv snd_conv by metis
  obtain first where first: "set first \<subseteq> set infos"
    "taken (app', conn') = concat (map (\<lambda>i. payload_bytes (info_payload i)) first)"
    using r(3) by (auto simp: output_grows_def taken_def new)
  have "\<forall>info \<in> set infos. of_output obase (serve (observed app) (stream_slice s 0 ?n)) info"
    unfolding gave using r(3) of_output_more by (auto simp: output_grows_def)
  then show ?thesis
    using r(1) got gave first by (intro exI [of _ app'] exI [of _ conn'] exI [of _ infos] exI [of _ first] exI [of _ ?n]) simp
qed

end

fun service :: "server_app \<Rightarrow> bytes \<Rightarrow> bytes" where
  "service Echo data = data"
| "service Shout data = map to_ascii_uppercase data"

text \<open>The server's application and those of the tests are such services.\<close>

interpretation server_service: stream_service server_app_ops service
proof unfold_locales
  fix app data xs ys
  show "snd (handle_tcp server_app_ops app data) = service app data"
    and "service (fst (handle_tcp server_app_ops app data)) = service app"
    and "snd (handle_udp server_app_ops app data) = service app data"
    and "service app (xs @ ys) = service app xs @ service app ys"
    by (cases app; simp add: server_app_ops_def)+
qed

interpretation echo_service: stream_service test_app "\<lambda>_ data. data"
  by unfold_locales (simp_all add: test_app_def)

interpretation shouting_service: stream_service shouting_test_app "\<lambda>_. map to_ascii_uppercase"
  by unfold_locales (simp_all add: shouting_test_app_def)

text \<open>
  C4: The service end to end. Let a client send the stream \<open>s\<close> over any network, and let a connection
  with nothing received yet take part in any conversation in which no segment acknowledges the antipode
  of SND.UNA. However the segments arrive, there is a
  number \<open>n\<close> of bytes that have been received in order, and the bytes sent back for the first time,
  followed by those that still wait in the send buffer, are the server's service of exactly these \<open>n\<close>
  bytes: themselves for the echo server, in capitals for the shouting one. Every segment sent carries
  bytes of this answer at its sequence number.
\<close>

theorem service_end_to_end:
  assumes inv: "conn_inv conn" and st: "stream_inv s base (app, conn)" and out: "output_inv obase (app, conn)"
    and new: "got app = []" "gave app = []"
    and ok: "along (recording server_app_ops) conns (from_stream s base) evs (app, conn)"
  shows "\<exists>app' conn' infos first n. conversation (recording server_app_ops) conns evs (app, conn) = ((app', conn'), Inr infos) \<and>
    got app' = stream_slice s 0 n \<and> set first \<subseteq> set infos \<and>
    concat (map (\<lambda>i. payload_bytes (info_payload i)) first) @ send_buffer conn' = service (observed app) (stream_slice s 0 n) \<and>
    (\<forall>info \<in> set infos. of_output obase (service (observed app) (stream_slice s 0 n)) info)"
  by (rule server_service.end_to_end [OF assms])

theorem service_end_to_end_witness:
  "\<exists>app' conn' infos first n. conversation (recording server_app_ops) example_conns
     [Arrival 0 example_jk, Arrival 1 example_hi, Timer 2 2, Close 3]
     (\<lparr>observed = Shout, got = [], gave = []\<rparr>, example_conn) = ((app', conn'), Inr infos) \<and> set first \<subseteq> set infos \<and>
     concat (map (\<lambda>i. payload_bytes (info_payload i)) first) @ send_buffer conn' = map to_ascii_uppercase (stream_slice hijk 0 n)"
proof -
  let ?evs = "[Arrival 0 example_jk, Arrival 1 example_hi, Timer 2 2, Close 3]"
  let ?app = "\<lparr>observed = Shout, got = [], gave = []\<rparr>"
  obtain c r where e: "happen (recording server_app_ops) example_conns (Arrival 0 example_jk) (?app, example_conn) = ((?app, c), r)"
    using example_early_app [of "recording server_app_ops" example_conns 0 ?app] by (metis prod.collapse)
  have ok: "along (recording server_app_ops) example_conns (from_stream hijk 501) ?evs (?app, example_conn)"
    using example_early [OF e] example_carries by (simp add: e from_stream_def ack_placeable_def ahead_def)
  have st: "stream_inv hijk 501 (?app, example_conn)"
    by (simp add: stream_inv_def stream_slice_def stream_pos_def seq_at_def genuine_def example_conn_def reassembly_new_def Let_def)
  have out: "output_inv 101 (?app, example_conn)"
    by (simp add: output_inv_def taken_def example_conn_def seq_at_def)
  have "got ?app = []" "gave ?app = []" by simp_all
  from service_end_to_end [OF example_conn_inv st out this ok] obtain app' conn' infos first n where
    run: "conversation (recording server_app_ops) example_conns ?evs (?app, example_conn) = ((app', conn'), Inr infos)"
    and first: "set first \<subseteq> set infos"
    and bytes: "concat (map (\<lambda>i. payload_bytes (info_payload i)) first) @ send_buffer conn' =
      service (observed ?app) (stream_slice hijk 0 n)"
    by (elim exE conjE) (rule that, assumption, assumption, assumption)
  have "service (observed ?app) (stream_slice hijk 0 n) = map to_ascii_uppercase (stream_slice hijk 0 n)" by simp
  with run first bytes show ?thesis by (intro exI conjI) (assumption, assumption, simp only:)
qed

end
