(* ===== verification/Retransmission.thy ===== *)
theory Retransmission
  imports Table_Properties
begin

text \<open>
  Repeated retransmission passes: a peer that stays silent is given up after a bounded number of
  passes, so no connection with something unacknowledged stays in the table for ever.
\<close>

text \<open>A list of passes, each with its two readings of the clock.\<close>

fun run_passes :: "(instant \<times> instant) list \<Rightarrow> tcp_connections \<Rightarrow> tcp_connections" where
  "run_passes [] conns = conns"
| "run_passes ((now, later) # ts) conns = run_passes ts (snd (make_retransmissions now later conns))"

text \<open>Each pass comes at least \<open>d\<close> after the one before, and no time overflows.\<close>

fun spaced :: "duration \<Rightarrow> instant \<Rightarrow> (instant \<times> instant) list \<Rightarrow> bool" where
  "spaced d prev [] = True"
| "spaced d prev ((now, later) # ts) \<longleftrightarrow> prev + d \<le> now \<and> now \<le> instant_max \<and> spaced d now ts"

lemma timeout_bound: "retransmission_timeout (rto_config_new d) n \<le> tcp_rto_max"
  by (simp add: retransmission_timeout_def rto_config_new_def clamp_def tcp_rto_min_def tcp_rto_max_def)

lemma spaced_due:
  assumes "rto_config_of conns = rto_config_new d" and "last_sent_at p + tcp_rto_max \<le> now" and "now \<le> instant_max"
  shows "is_due now later conns p"
proof -
  have "last_sent_at p + retransmission_timeout (rto_config_new d) (retries p) \<le> now"
    using timeout_bound [of d "retries p"] assms(2) by linarith
  then show ?thesis using assms(1,3) by (simp add: is_due_def time_due_def checked_add_instant_def)
qed

lemma run_passes_unknown:
  "connections_inv conns \<Longrightarrow> get_conn k conns = None \<Longrightarrow> get_conn k (run_passes ts conns) = None"
proof (induction ts conns rule: run_passes.induct)
  case (2 now later ts conns)
  obtain segs conns' where m: "make_retransmissions now later conns = (segs, conns')" by fastforce
  have "table_wf conns" using 2(2) by (simp add: connections_inv_def)
  then have "get_conn k conns' = None" using make_retransmissions_spec(1) [OF _ m] 2(3) by simp
  then show ?case using 2(1) make_retransmissions_inv [OF 2(2) m] by (simp add: m)
qed simp

lemma silent_peer:
  assumes "connections_inv conns" and "rto_config_of conns = rto_config_new d" and "get_conn k conns = Some conn"
    and "p \<in> set (pending conn)" and "spaced tcp_rto_max (last_sent_at p) ts"
    and "unat (max_retries conns) < length ts + unat (retries p)" and "ts \<noteq> []"
  shows "get_conn k (run_passes ts conns) = None"
  using assms
proof (induction ts arbitrary: conns conn p)
  case (Cons t ts)
  obtain now later where t: "t = (now, later)" by fastforce
  obtain segs conns' where m: "make_retransmissions now later conns = (segs, conns')" by fastforce
  have wf: "table_wf conns" using Cons.prems(1) by (simp add: connections_inv_def)
  note spec = make_retransmissions_spec [OF wf m]
  have inv': "connections_inv conns'" by (rule make_retransmissions_inv [OF Cons.prems(1) m])
  have due: "is_due now later conns p"
    using Cons.prems(5) spaced_due [OF Cons.prems(2)] by (simp add: t)
  show ?case
  proof (cases "gives_up now later conns conn")
    case True
    then have "get_conn k conns' = None" using spec(1) Cons.prems(3) by simp
    then show ?thesis using run_passes_unknown [OF inv'] by (simp add: t m)
  next
    case False
    then have get: "get_conn k conns' = Some (resend now later conns conn)" using spec(1) Cons.prems(3) by simp
    let ?p = "p\<lparr>retries := saturating_inc (retries p), last_sent_at := now\<rparr>"
    have member: "?p \<in> set (pending (resend now later conns conn))"
      using Cons.prems(4) due by (force simp: resend_def)
    have "\<not> exhausted_retries (max_retries conns) p" using False Cons.prems(4) due by (auto simp: gives_up_def)
    then have less: "unat (retries p) < unat (max_retries conns)"
      by (simp add: exhausted_retries_def word_le_nat_alt)
    then have "unat (retries p) < 255" using unat_u8_bound [of "max_retries conns"] by linarith
    then have "unat (saturating_inc (retries p)) = Suc (unat (retries p))"
      by (simp add: unat_saturating_inc)
    moreover have "ts \<noteq> []" using Cons.prems(6) less by auto
    ultimately have "get_conn k (run_passes ts conns') = None"
      using Cons.IH [OF inv' _ get member] Cons.prems(2,5,6) spec(4,5) less by (auto simp: t)
    then show ?thesis by (simp add: t m)
  qed
qed simp

lemma spaced_later: "spaced d t ts \<Longrightarrow> t' \<le> t \<Longrightarrow> spaced d t' ts"
  by (cases ts) auto

text \<open>
  C19: A silent peer is given up: let a connection have something in flight, let nothing arrive, and
  let the passes come at least the longest timeout, 120 s, apart. Then the pass after \<open>max_retries\<close>
  further ones at the latest finds the retries of a segment used up and removes the connection, whatever its
  state, the initial timeout and the other connections are.
\<close>

theorem silent_peer_given_up:
  assumes inv: "connections_inv conns" and cfg: "rto_config_of conns = rto_config_new d"
    and get: "get_conn k conns = Some conn" and flight: "0 < in_flight conn"
    and since: "\<forall>p \<in> set (pending conn). last_sent_at p \<le> since" and spaced: "spaced tcp_rto_max since ts"
    and many: "unat (max_retries conns) < length ts"
  shows "get_conn k (run_passes ts conns) = None"
proof -
  have "send_inv conn" using connections_inv_get [OF inv get] by (simp add: conn_inv_def)
  then obtain p where p: "p \<in> set (pending conn)" using flight by (auto simp: send_inv_def)
  show ?thesis
    by (rule silent_peer [OF inv cfg get p spaced_later [OF spaced]]) (use since p many in auto)
qed

text \<open>A handshake that is never completed, with five retries: six passes.\<close>

theorem silent_peer_given_up_witness:
  "get_conn example_key (run_passes (map (\<lambda>n. (n * 120000000000, 0)) [1, 2, 3, 4, 5, 6]) (example_retries 0)) = None"
proof (rule silent_peer_given_up)
  show "rto_config_of (example_retries 0) = rto_config_new 0" by (simp add: example_retries_def)
  show "get_conn example_key (example_retries 0) = Some (example_syn_rcv 0)" by (rule get_example_retries)
  show "0 < in_flight (example_syn_rcv 0)" by (simp add: example_syn_rcv_def in_flight_def ahead_def)
  show "\<forall>p \<in> set (pending (example_syn_rcv 0)). last_sent_at p \<le> 0" by (simp add: example_syn_rcv_def pending_new_def)
  show "spaced tcp_rto_max 0 (map (\<lambda>n. (n * 120000000000, 0)) [1, 2, 3, 4, 5, 6])"
    by (simp add: tcp_rto_max_def instant_max_def)
  show "unat (max_retries (example_retries 0)) < length (map (\<lambda>n. (n * 120000000000, 0 :: nat)) [1, 2, 3, 4, 5, 6 :: nat])"
    by (simp add: max_retries_example)
qed simp

end
