(* ===== verification/Workers.thy ===== *)
theory Workers
  imports Server_Properties System
begin

text \<open>
  \<open>server/src/main.rs\<close>: the whole program. The first part is \<open>main\<close> itself: installing the signal
  handler, attaching one queue of the device per worker, and what comes of joining the workers. The
  second part is the system of the worker threads and the signal handler, whose steps interleave; they
  share the flag and the eventfd only.
\<close>

section \<open>The main function\<close>

text \<open>\<open>collect\<close> stops at the first queue that cannot be attached; \<open>queues i\<close> is the result of call \<open>i\<close>.\<close>

fun attach_queues :: "(nat \<Rightarrow> 'fd result) \<Rightarrow> nat \<Rightarrow> nat \<Rightarrow> 'fd list result" where
  "attach_queues queues i 0 = Inr []"
| "attach_queues queues i (Suc n) =
     and_then (queues i) (\<lambda>fd. and_then (attach_queues queues (Suc i) n) (\<lambda>fds. Inr (fd # fds)))"

text \<open>
  The closures that \<open>main\<close> hands to each worker, as a condition on the worker's turn: the outcome of
  polling its queue \<open>fd\<close>, with the eventfd as long as it watches for a shutdown, and the flag. The
  signal may come while the turn lasts, so the flag is read in a state \<open>sig'\<close> that may be a later one.
\<close>

definition worker_closures ::
    "(pollfd \<times> pollfd \<Rightarrow> int \<Rightarrow> int \<times> pollfd \<times> pollfd) \<Rightarrow> io_error \<Rightarrow> int \<Rightarrow> signal_state \<Rightarrow> signal_state \<Rightarrow> turn \<Rightarrow> bool" where
  "worker_closures libc_poll errno fd sig sig' t \<longleftrightarrow>
     poll_result t = (\<lambda>timeout watch_shutdown.
       readable libc_poll errno fd (if watch_shutdown then Some (eventfd_raw sig) else None) timeout) \<and>
     shutdown_flag t = load_flag sig'"

text \<open>
  Joining: the workers are joined in order up to the first that panicked or failed, so \<open>main\<close> waits as
  long as one before it still runs (\<open>None\<close>). The handles after it are dropped; the scope still waits
  for their threads, and panics itself if one of these panicked.
\<close>

fun join_handles ::
    "(panic_payload + unit result) option list \<Rightarrow> (unit result \<times> (panic_payload + unit result) option list) option" where
  "join_handles [] = Some (Inr (), [])"
| "join_handles (None # hs) = None"
| "join_handles (Some h # hs) =
     (case (case h of Inl p \<Rightarrow> Inl (Err (panic_error p)) | Inr r \<Rightarrow> r) of
        Inl e \<Rightarrow> Some (Inl e, hs)
      | Inr _ \<Rightarrow> join_handles hs)"

definition end_scope ::
    "unit result \<Rightarrow> (panic_payload + unit result) option list \<Rightarrow> unit result option" where
  "end_scope body unjoined =
     (if None \<in> set unjoined then None
      else if list_ex (\<lambda>h. case h of Some (Inl _) \<Rightarrow> True | _ \<Rightarrow> False) unjoined then Some (Inl Panic)
      else Some body)"

text \<open>
  \<open>installed\<close>, \<open>loaded\<close> and \<open>blocked\<close> are the results of \<open>ShutdownSignal::install\<close>, \<open>Config::load\<close> and
  \<open>block_sigint_on_this_thread\<close>; \<open>worker_end cfg fd i\<close> is what becomes of the thread of worker \<open>i\<close>,
  \<open>None\<close> while it runs. \<open>None\<close> means that \<open>main\<close> has not returned.
\<close>

definition main_program ::
    "unit result \<Rightarrow> config result \<Rightarrow> (config \<Rightarrow> nat \<Rightarrow> 'fd result) \<Rightarrow>
     (config \<Rightarrow> 'fd \<Rightarrow> nat \<Rightarrow> (panic_payload + unit result) option) \<Rightarrow> unit result \<Rightarrow> unit result option" where
  "main_program installed loaded queues worker_end blocked =
     (case installed of Inl e \<Rightarrow> Some (Inl e) | Inr _ \<Rightarrow>
      case loaded of Inl e \<Rightarrow> Some (Inl e) | Inr cfg \<Rightarrow>
      case attach_queues (queues cfg) 0 (worker_count cfg) of Inl e \<Rightarrow> Some (Inl e) | Inr tuns \<Rightarrow>
      let handles = map (\<lambda>(worker_id, tun). worker_end cfg tun worker_id) (List.enumerate 0 tuns) in
      case blocked of Inl e \<Rightarrow> end_scope (Inl e) handles | Inr _ \<Rightarrow>
      case join_handles handles of None \<Rightarrow> None | Some (body, unjoined) \<Rightarrow> end_scope body unjoined)"

text \<open>What a worker's thread leaves for its handle: the panic, or what \<open>server::run\<close> returns.\<close>

definition thread_end :: "panic_payload \<Rightarrow> unit result option \<Rightarrow> (panic_payload + unit result) option" where
  "thread_end p r = map_option (\<lambda>r. if r = Inl Panic then Inl p else Inr r) r"

section \<open>The threads\<close>

record system =
  signals :: signal_state
  workers :: "server list"
  running :: "bool list"

datatype label = Turn nat | Signal

text \<open>
  One step: worker \<open>i\<close>, still in its loop, takes a turn, during which the handler may run; or the handler runs
  while no worker takes a step. A handler that aborts ends the process and is no step.
\<close>

definition handled_signal :: "signal_state \<Rightarrow> signal_state \<Rightarrow> bool" where
  "handled_signal sig sig' \<longleftrightarrow> (\<exists>rs. shutdown_signal_handler rs sig = (sig', Some Returned))"

text \<open>
  The descriptor of the eventfd is readable exactly when its counter is not zero (manual page of
  \<open>eventfd\<close>), and it is not among the queues.
\<close>

definition polls_eventfd :: "(pollfd \<times> pollfd \<Rightarrow> int \<Rightarrow> int \<times> pollfd \<times> pollfd) \<Rightarrow> signal_state \<Rightarrow> bool" where
  "polls_eventfd libc_poll sig \<longleftrightarrow> poll_contract libc_poll \<and>
     (\<forall>fd0 fd1 ms r fd0' fd1'. libc_poll (fd0, fd1) ms = (r, fd0', fd1') \<longrightarrow> 0 \<le> r \<longrightarrow>
        pfd fd1 = eventfd_raw sig \<longrightarrow> (revents fd1' \<noteq> 0 \<longleftrightarrow> 0 < eventfd_count sig))"

inductive system_step :: "(nat \<Rightarrow> world) \<Rightarrow> label \<Rightarrow> system \<Rightarrow> system \<Rightarrow> bool" for w where
  turn: "i < length (workers sys) \<Longrightarrow> running sys ! i \<Longrightarrow> polls_eventfd libc_poll (signals sys) \<Longrightarrow>
    sig' = signals sys \<or> handled_signal (signals sys) sig' \<Longrightarrow>
    worker_closures libc_poll errno fd (signals sys) sig' t \<Longrightarrow> placeable_turn t (workers sys ! i) \<Longrightarrow>
    server_step (w i) t (workers sys ! i) = (self, r) \<Longrightarrow>
    system_step w (Turn i) sys
      \<lparr>signals = sig', workers = (workers sys)[i := self], running = (running sys)[i := (r = Inr False)]\<rparr>"
| signal: "handled_signal (signals sys) sig' \<Longrightarrow> system_step w Signal sys (sys\<lparr>signals := sig'\<rparr>)"

inductive system_run :: "(nat \<Rightarrow> world) \<Rightarrow> label list \<Rightarrow> system \<Rightarrow> system \<Rightarrow> bool" for w where
  stop: "system_run w [] sys sys"
| step: "system_step w l sys sys' \<Longrightarrow> system_run w ls sys' sys'' \<Longrightarrow> system_run w (l # ls) sys sys''"



text \<open>The system when its threads have been spawned.\<close>

definition system_start :: "signal_state \<Rightarrow> config \<Rightarrow> logger list \<Rightarrow> system" where
  "system_start sig cfg ls = \<lparr>signals = sig, workers = map (server_new cfg) ls, running = replicate (length ls) True\<rparr>"

section \<open>Each worker on its own\<close>

text \<open>The projection of a run to one worker is a course of that worker's own loop.\<close>

lemma system_step_worker:
  assumes "system_step w l sys sys'" and "i < length (workers sys)"
  shows "(serves (w i))\<^sup>*\<^sup>* (workers sys ! i) (workers sys' ! i)" and "length (workers sys') = length (workers sys)"
proof -
  show "(serves (w i))\<^sup>*\<^sup>* (workers sys ! i) (workers sys' ! i)"
    using assms(1)
  proof (cases rule: system_step.cases)
    case (turn j libc_poll sig' errno fd t self r)
    have "serves (w j) (workers sys ! j) self"
      using serves.turn [OF turn(8), of "w j"] turn(9) by simp
    then show ?thesis using turn(2) assms(2) by (cases "i = j") auto
  qed simp
  show "length (workers sys') = length (workers sys)"
    using assms(1) by (cases rule: system_step.cases) simp_all
qed

lemma system_run_worker:
  assumes "system_run w ls sys sys'" and "i < length (workers sys)"
  shows "(serves (w i))\<^sup>*\<^sup>* (workers sys ! i) (workers sys' ! i)" and "length (workers sys') = length (workers sys)"
proof -
  have "(serves (w i))\<^sup>*\<^sup>* (workers sys ! i) (workers sys' ! i) \<and> length (workers sys') = length (workers sys)"
    using assms
  proof (induction rule: system_run.induct)
    case (step l sys sys1 ls sys2)
    note s = system_step_worker [OF step.hyps(1)]
    have "i < length (workers sys1)" using s(2) [OF step.prems] step.prems by simp
    from step.IH [OF this] s [OF step.prems] show ?case by (auto intro: rtranclp_trans)
  qed simp
  then show "(serves (w i))\<^sup>*\<^sup>* (workers sys ! i) (workers sys' ! i)" and "length (workers sys') = length (workers sys)"
    by simp_all
qed


text \<open>
  C6: Every worker is a server of its own: in any interleaving of the workers' turns with signals, each worker
  only takes steps of its own loop, from its own start; and as long as no worker reads a segment that
  acknowledges the antipode of SND.UNA, 2^31 away (the premise \<open>placeable_turn\<close> of a step), everything
  that any of them writes to its queue is a valid packet, and every engine satisfies its invariant.
\<close>

theorem workers_independent:
  assumes "system_run w ls (system_start sig cfg loggers) sys" and "i < length loggers"
  shows "(serves (w i))\<^sup>*\<^sup>* (server_new cfg (loggers ! i)) (workers sys ! i) \<and>
    connections_inv (connections (engine_of (workers sys ! i))) \<and>
    (\<forall>bs \<in> set (sent (workers sys ! i)). valid_on_wire bs)"
proof -
  have "(serves (w i))\<^sup>*\<^sup>* (server_new cfg (loggers ! i)) (workers sys ! i)"
    using system_run_worker(1) [OF assms(1), of i] assms(2) by (simp add: system_start_def)
  moreover from serves_inv [OF this] have "connections_inv (connections (engine_of (workers sys ! i)))"
    "\<forall>bs \<in> set (sent (workers sys ! i)). valid_on_wire bs"
    by (simp_all add: server_inv_def list_all_iff)
  ultimately show ?thesis by blast
qed

section \<open>The signal reaches every worker\<close>

lemma draining_frame [simp]:
  "draining (fst (with_logger f self)) = draining self" "draining (fst (send_pkt w p self)) = draining self"
  by (auto simp: with_logger_def send_pkt_def run_then_cases split_beta Let_def split: sum.split option.split)

lemma draining_transmit [simp]: "draining (fst (transmit w b rs self)) = draining self"
proof (induction rs arbitrary: self)
  case (Cons r rs)
  show ?case
    unfolding transmit.simps
    by (intro run_then_keeps [where P = "\<lambda>s. draining s = draining self"]) (simp_all add: Cons.IH)
qed simp

lemma draining_interrupt: "draining (fst (handle_shutdown_interrupt w t self))"
proof -
  obtain eng r where h: "handle_shutdown (engine_now t) (turn_now t) (engine_of self) = (eng, r)" by fastforce
  show ?thesis
  proof (cases r)
    case (Inr outcome)
    then show ?thesis
      by (cases outcome)
        (auto simp: handle_shutdown_interrupt_def h Let_def intro!: run_then_keeps [where P = draining])
  qed (simp add: handle_shutdown_interrupt_def h)
qed

lemma draining_check: "draining self \<or> shutdown_flag t \<Longrightarrow> draining (fst (check_shutdown w t self))"
  by (auto simp: check_shutdown_def draining_interrupt)

lemma draining_read [simp]: "draining (fst (handle_read w t data self)) = draining self"
proof -
  obtain eng r where h: "handle_packet server_app_ops (engine_now t) (turn_urandom t) data (engine_of self) = (eng, r)"
    by fastforce
  show ?thesis
  proof (cases r)
    case (Inl e)
    then show ?thesis by (cases e) (simp_all add: handle_read_def h)
  next
    case (Inr outcome)
    show ?thesis
      unfolding handle_read_def h Inr Let_def
      by (auto intro!: run_then_keeps [where P = "\<lambda>s. draining s = draining self"] split: option.split)
  qed
qed

lemma draining_readable:
  assumes "draining self"
  shows "draining (fst (handle_readable w t both self))"
proof (cases "read_result t")
  case (Inl e)
  then show ?thesis using assms by (simp add: handle_readable_def draining_check)
next
  case (Inr bn)
  obtain buf n where "bn = (buf, n)" by fastforce
  then show ?thesis
    using assms Inr by (auto simp: handle_readable_def draining_check intro!: run_then_keeps [where P = draining])
qed

text \<open>A worker that drains goes on draining.\<close>

lemma draining_step: "draining self \<Longrightarrow> draining (fst (server_step w t self))"
  by (auto simp: server_step_def handle_timeout_def draining_check draining_readable split_beta Let_def
      intro!: run_then_keeps [where P = draining] split: sum.split poll_outcome.split)

lemma both_begins_draining:
  assumes "shutdown_flag t" and "handle_readable w t True self = (self', Inr False)"
  shows "draining self'"
proof (cases "read_result t")
  case (Inl e)
  then show ?thesis using assms draining_check [of self t w] by (auto simp: handle_readable_def split: if_splits)
next
  case (Inr bn)
  obtain buf n where bn: "bn = (buf, n)" by fastforce
  have *: "draining (fst (check_shutdown w t x))" for x using assms(1) by (simp add: draining_check)
  show ?thesis
    using assms(2) * unfolding handle_readable_def Inr bn
    by (auto simp: run_then_cases split: sum.splits if_splits)
qed

lemma signalled_turn:
  assumes sig: "signalled sig" "sig' = sig \<or> handled_signal sig sig'" and poll: "polls_eventfd libc_poll sig"
    and cl: "worker_closures libc_poll errno fd sig sig' t" and run: "server_step w t self = (self', Inr False)"
  shows "draining self'"
proof (cases "draining self")
  case True
  then show ?thesis using draining_step [of self w t] run by simp
next
  case False
  have flag: "shutdown_flag t"
    using sig cl handler_returns_signalled by (auto simp: worker_closures_def handled_signal_def signalled_def)
  let ?timeout = "poll_timeout (poll_later t) (poll_now t) (engine_of self)"
  obtain r fd0 fd1 where p: "libc_poll (poll_fds fd (Some (eventfd_raw sig))) (timeout_ms ?timeout) = (r, fd0, fd1)"
    by (metis prod_cases3)
  have poll_result: "poll_result t ?timeout (\<not> draining self) =
      readable libc_poll errno fd (Some (eventfd_raw sig)) ?timeout"
    using cl False by (simp add: worker_closures_def)
  have count: "0 < eventfd_count sig" using sig(1) by (simp add: signalled_def)
  show ?thesis
  proof (cases "r < 0")
    case True
    then show ?thesis
      using run draining_check [of "self\<lparr>logger_of := server_newline (logger_of self)\<rparr>" t w] flag
      by (auto simp: server_step_def poll_result readable_def p split: if_splits)
  next
    case False
    define a b where "a = fst (poll_fds fd (Some (eventfd_raw sig)))" and "b = snd (poll_fds fd (Some (eventfd_raw sig)))"
    have p': "libc_poll (a, b) (timeout_ms ?timeout) = (r, fd0, fd1)" "pfd b = eventfd_raw sig"
      using p by (simp_all add: a_def b_def poll_fds_def)
    have nonneg: "0 \<le> r" using False by simp
    have ready: "revents fd1 \<noteq> 0" using poll p' nonneg count unfolding polls_eventfd_def by blast
    have "r = (if revents fd0 \<noteq> 0 then 1 else 0) + (if revents fd1 \<noteq> 0 then 1 else 0)"
      using poll p'(1) nonneg unfolding polls_eventfd_def poll_contract_def by blast
    then have total: "r = (if revents fd0 \<noteq> 0 then 1 else 0) + 1" using ready by simp
    have no_error: "\<not> (r = 1 \<and> revents fd0 AND pollin \<noteq> 0)" using total by (auto split: if_splits)
    have "readable libc_poll errno fd (Some (eventfd_raw sig)) ?timeout \<in> {Inr Shutdown, Inr Both}"
      using total no_error by (auto simp: readable_def p split: if_splits)
    then consider "check_shutdown w t self = (self', Inr False)" | "handle_readable w t True self = (self', Inr False)"
      using run by (auto simp: server_step_def poll_result)
    then show ?thesis
      using draining_check [of self t w] both_begins_draining [OF flag] flag by cases auto
  qed
qed

lemma handled_signal_keeps: "handled_signal sig sig' \<Longrightarrow> signalled sig'"
  using handler_returns_signalled by (auto simp: handled_signal_def)

lemma system_step_signalled:
  assumes "system_step w l sys sys'" and "signalled (signals sys) \<or> l = Signal"
  shows "signalled (signals sys')"
  using assms by (cases rule: system_step.cases) (auto intro: handled_signal_keeps)

text \<open>A worker that has been notified drains or has left its loop.\<close>

definition notified :: "nat \<Rightarrow> system \<Rightarrow> bool" where
  "notified i sys \<longleftrightarrow> draining (workers sys ! i) \<or> \<not> running sys ! i"

lemma system_step_notifies:
  assumes step: "system_step w l sys sys'" and sig: "signalled (signals sys)"
    and i: "i < length (workers sys)" "length (running sys) = length (workers sys)"
    and "notified i sys \<or> l = Turn i"
  shows "notified i sys'"
  using step
proof (cases rule: system_step.cases)
  case (turn j libc_poll sig' errno fd t self r)
  show ?thesis
  proof (cases "i = j")
    case True
    have "draining self" if "r = Inr False"
      using signalled_turn [OF sig turn(6,5,7)] turn(9) that True by blast
    then show ?thesis using turn(2) i True by (auto simp: notified_def)
  next
    case False
    then show ?thesis using turn(1,2) assms(5) by (auto simp: notified_def)
  qed
next
  case (signal sig')
  then show ?thesis using assms(5) by (simp add: notified_def)
qed

text \<open>
  C5: The signal reaches every worker, whichever thread it was delivered to. Once a handler has
  returned, every worker that takes at least one more turn, in whatever order the workers run and
  whatever their polls, reads and writes return, has begun to drain or has left its loop after it; and
  no worker ever goes back. The steps of the system leave out reads of a segment that acknowledges the
  antipode of SND.UNA.
\<close>

theorem signal_reaches_every_worker:
  assumes "system_run w ls sys sys'" and "signalled (signals sys)"
    and "i < length (workers sys)" and "length (running sys) = length (workers sys)"
    and "Turn i \<in> set ls \<or> notified i sys"
  shows "notified i sys' \<and> signalled (signals sys')"
  using assms
proof (induction rule: system_run.induct)
  case (step l sys sys1 ls sys2)
  have one: "signalled (signals sys1)" "length (workers sys1) = length (workers sys)"
    "length (running sys1) = length (workers sys1)"
    using system_step_signalled [OF step.hyps(1)] step.prems(1,3) system_step_worker(2) [OF step.hyps(1) step.prems(2)]
      step.hyps(1) by (auto elim: system_step.cases)
  have "notified i sys1" if "notified i sys \<or> l = Turn i"
    using system_step_notifies [OF step.hyps(1) step.prems(1-3)] that by simp
  then have "Turn i \<in> set ls \<or> notified i sys1" using step.prems(4) by auto
  then show ?case using step.IH one step.prems(2) by simp
qed simp


text \<open>A poll that sees nothing but the eventfd, and two workers after a signal.\<close>

definition eventfd_poll :: "int \<Rightarrow> nat \<Rightarrow> pollfd \<times> pollfd \<Rightarrow> int \<Rightarrow> int \<times> pollfd \<times> pollfd" where
  "eventfd_poll efd count fds ms =
     (if pfd (snd fds) = efd \<and> 0 \<le> efd \<and> 0 < count
      then (1, (fst fds)\<lparr>revents := 0\<rparr>, (snd fds)\<lparr>revents := pollin\<rparr>)
      else (0, (fst fds)\<lparr>revents := 0\<rparr>, (snd fds)\<lparr>revents := 0\<rparr>))"

definition raised :: signal_state where
  "raised = \<lparr>shutdown_set = True, eventfd_raw = 7, eventfd_count = 1\<rparr>"

definition two_workers :: system where
  "two_workers = system_start raised example_config [logger_new PktFull 0 0, logger_new PktFull 0 1]"

lemma two_workers_turn: "\<exists>sys'. system_run (\<lambda>_. quiet_world) [Turn 1] two_workers sys'"
proof -
  let ?t = "(example_turn (\<lambda>timeout watch. readable (eventfd_poll 7 1) (IoError OtherKind []) 3
    (if watch then Some 7 else None) timeout) [])\<lparr>shutdown_flag := True\<rparr>"
  obtain self r where run: "server_step quiet_world ?t (workers two_workers ! 1) = (self, r)" by fastforce
  have poll: "polls_eventfd (eventfd_poll 7 1) (signals two_workers)"
    by (auto simp: polls_eventfd_def poll_contract_def eventfd_poll_def two_workers_def system_start_def raised_def pollin_def
        split: if_splits)
  have closures: "worker_closures (eventfd_poll 7 1) (IoError OtherKind []) 3 (signals two_workers) (signals two_workers) ?t"
    by (simp add: worker_closures_def example_turn_def two_workers_def system_start_def raised_def load_flag_def fun_eq_iff)
  have place: "placeable_turn ?t (workers two_workers ! 1)"
    by (auto simp: placeable_turn_def two_workers_def system_start_def server_new_def engine_new_def placeable_packet_def
        connections_new_def get_conn_def)
  have "system_step (\<lambda>_. quiet_world) (Turn 1) two_workers \<lparr>signals = signals two_workers,
      workers = (workers two_workers)[1 := self], running = (running two_workers)[1 := (r = Inr False)]\<rparr>"
    by (rule system_step.turn [OF _ _ poll disjI1 [OF refl] closures place run])
      (simp_all add: two_workers_def system_start_def)
  then show ?thesis by (blast intro: system_run.intros)
qed

theorem signal_reaches_every_worker_witness:
  "\<exists>sys'. system_run (\<lambda>_. quiet_world) [Turn 1] two_workers sys' \<and> notified 1 sys'"
proof -
  obtain sys' where run: "system_run (\<lambda>_. quiet_world) [Turn 1] two_workers sys'" using two_workers_turn by blast
  have "signalled (signals two_workers)" by (simp add: two_workers_def system_start_def raised_def signalled_def load_flag_def)
  from signal_reaches_every_worker [OF run this, of 1] run show ?thesis
    by (auto simp: two_workers_def system_start_def)
qed

theorem workers_independent_witness:
  "\<exists>sys'. system_run (\<lambda>_. quiet_world) [Turn 1] two_workers sys' \<and> connections_inv (connections (engine_of (workers sys' ! 1)))"
proof -
  obtain sys' where run: "system_run (\<lambda>_. quiet_world) [Turn 1] two_workers sys'" using two_workers_turn by blast
  from workers_independent [OF run [unfolded two_workers_def], of 1] run show ?thesis by auto
qed

section \<open>What main returns\<close>

lemma attach_queues_Inr:
  "attach_queues queues i n = Inr fds \<Longrightarrow> length fds = n \<and> (\<forall>j < n. queues (i + j) = Inr (fds ! j))"
proof (induction n arbitrary: i fds)
  case (Suc n)
  then obtain fd rest where q: "queues i = Inr fd" "attach_queues queues (Suc i) n = Inr rest" "fds = fd # rest"
    by (auto simp: and_then_Inr_iff)
  have "queues (i + j) = Inr (fds ! j)" if "j < Suc n" for j
    using Suc.IH [OF q(2)] q that by (cases j) auto
  then show ?case using Suc.IH [OF q(2)] q by simp
qed simp

text \<open>What joining makes of one handle, and whether its thread panicked.\<close>

definition joined :: "(panic_payload + unit result) option \<Rightarrow> unit result" where
  "joined h = (case h of Some (Inl p) \<Rightarrow> Inl (Err (panic_error p)) | Some (Inr r) \<Rightarrow> r | None \<Rightarrow> Inr ())"

definition panicked :: "(panic_payload + unit result) option \<Rightarrow> bool" where
  "panicked h \<longleftrightarrow> (\<exists>p. h = Some (Inl p))"

lemma join_handles_cases:
  "None \<notin> set hs \<Longrightarrow> (\<forall>h \<in> set hs. joined h = Inr ()) \<Longrightarrow> join_handles hs = Some (Inr (), [])"
  "None \<notin> set hs \<Longrightarrow> (\<forall>h \<in> set hs. joined h = Inr ()) \<Longrightarrow> joined (Some h) = Inl e \<Longrightarrow>
   join_handles (hs @ Some h # rest) = Some (Inl e, rest)"
  "join_handles hs = Some (body, unjoined) \<Longrightarrow> None \<in> set hs \<Longrightarrow> None \<in> set unjoined"
  by (induction hs rule: join_handles.induct) (auto simp: joined_def split: sum.splits)

lemma panicked_iff: "(case h of Some (Inl _) \<Rightarrow> True | _ \<Rightarrow> False) = panicked h"
  by (auto simp: panicked_def split: option.splits sum.splits)

text \<open>
  C40: What \<open>main\<close> returns, after a successful start. It returns only when every worker's thread has
  ended: a worker that fails early is noticed neither by it nor by the others as long as any worker
  runs. Then it returns \<open>Ok\<close> if all workers did; otherwise the first worker, by number, that failed or
  panicked decides: its error, or its panic as an error, is returned, unless a later worker panicked,
  for then \<open>main\<close> panics and the error is lost.
\<close>

theorem main_result:
  assumes "attach_queues (queues cfg) 0 (worker_count cfg) = Inr tuns"
    and "handles = map (\<lambda>(worker_id, tun). worker_end cfg tun worker_id) (List.enumerate 0 tuns)"
  shows "(None \<in> set handles \<longrightarrow> main_program (Inr ()) (Inr cfg) queues worker_end (Inr ()) = None) \<and>
    (None \<notin> set handles \<and> (\<forall>h \<in> set handles. joined h = Inr ()) \<longrightarrow>
       main_program (Inr ()) (Inr cfg) queues worker_end (Inr ()) = Some (Inr ())) \<and>
    (\<forall>before h rest e. None \<notin> set handles \<and> handles = before @ h # rest \<and> (\<forall>h \<in> set before. joined h = Inr ()) \<and>
       joined h = Inl e \<longrightarrow>
       main_program (Inr ()) (Inr cfg) queues worker_end (Inr ()) =
         Some (if \<exists>h \<in> set rest. panicked h then Inl Panic else Inl e))"
proof -
  have m: "main_program (Inr ()) (Inr cfg) queues worker_end (Inr ()) =
      (case join_handles handles of None \<Rightarrow> None | Some (body, unjoined) \<Rightarrow> end_scope body unjoined)"
    by (simp add: main_program_def assms Let_def)
  have "main_program (Inr ()) (Inr cfg) queues worker_end (Inr ()) = None" if "None \<in> set handles"
    using join_handles_cases(3) [OF _ that] by (auto simp: m end_scope_def split: option.split)
  moreover have "main_program (Inr ()) (Inr cfg) queues worker_end (Inr ()) = Some (Inr ())"
    if "None \<notin> set handles" "\<forall>h \<in> set handles. joined h = Inr ()"
    using join_handles_cases(1) [OF that] by (simp add: m end_scope_def)
  moreover have "main_program (Inr ()) (Inr cfg) queues worker_end (Inr ()) =
      Some (if \<exists>h \<in> set rest. panicked h then Inl Panic else Inl e)"
    if "None \<notin> set handles" "handles = before @ h # rest" "\<forall>h \<in> set before. joined h = Inr ()" "joined h = Inl e"
    for before h rest e
  proof -
    have "h \<noteq> None" using that(1,2) by (cases h) auto
    then obtain h' where h': "h = Some h'" by (cases h) simp_all
    have "join_handles handles = Some (Inl e, rest)"
      using join_handles_cases(2) [of before h' e rest] that h' by simp
    then show ?thesis using that(1,2) by (auto simp: m end_scope_def panicked_iff list_ex_iff)
  qed
  ultimately show ?thesis by blast
qed

text \<open>Two workers: while the second still runs, \<open>main\<close> does not see that the first has failed.\<close>

theorem main_result_witness:
  "main_program (Inr ()) (Inr (example_config\<lparr>worker_count := 2\<rparr>)) (\<lambda>_ i. Inr i)
     (\<lambda>_ _ i. if i = 0 then Some (Inr (Inl (Err (Static ''no room'')))) else None) (Inr ()) = None"
proof -
  let ?cfg = "example_config\<lparr>worker_count := 2\<rparr>"
  have "attach_queues (\<lambda>i. Inr i) 0 (worker_count ?cfg) = Inr [0, 1 :: nat]" by (simp add: numeral_2_eq_2)
  from main_result [where queues = "\<lambda>_ i. Inr i", OF this refl] show ?thesis by simp
qed

end
