(* ===== verification/Packet_Types.thy ===== *)
theory Packet_Types
  imports Engine_Properties
begin

text \<open>
  The types of packets. Rust's type system ties a packet's direction to its type; that its header
  names the protocol it carries, that header and message have the same addresses, and that a reply
  is a packet of the same protocol back to the sender, are not in its types. Here they are a type
  system of their own, and every outcome of \<open>Engine::handle_packet\<close> (\<open>stack/src/engine.rs\<close>,
  \<open>stack/src/ipv4_packet.rs\<close>) is well typed.
\<close>

fun router_kind :: "('d, 'r) protocol_router \<Rightarrow> protocol" where
  "router_kind (RouterIcmp _) = Icmp"
| "router_kind (RouterTcp _) = Tcp"
| "router_kind (RouterUdp _) = Udp"

fun router_addrs :: "('d, 'r) protocol_router \<Rightarrow> 'd ipv4_addr_pair" where
  "router_addrs (RouterIcmp m) = icmp_ip_pair m"
| "router_addrs (RouterTcp s) = seg_ip_pair s"
| "router_addrs (RouterUdp d) = udp_ip_pair d"

text \<open>ICMP has no ports; an Echo message is told apart by its identifier and sequence number.\<close>

fun same_endpoint :: "out_router \<Rightarrow> (dir_in, dir_out) protocol_router \<Rightarrow> bool" where
  "same_endpoint (RouterIcmp r) (RouterIcmp m) \<longleftrightarrow>
     icmp_identifier r = icmp_identifier m \<and> icmp_sequence r = icmp_sequence m"
| "same_endpoint (RouterTcp r) (RouterTcp s) \<longleftrightarrow> seg_ports r = port_swapped (seg_ports s)"
| "same_endpoint (RouterUdp r) (RouterUdp d) \<longleftrightarrow> udp_ports r = port_swapped (udp_ports d)"
| "same_endpoint _ _ \<longleftrightarrow> False"

fun message_typed :: "('d, 'r) protocol_router \<Rightarrow> bool" where
  "message_typed (RouterTcp s) \<longleftrightarrow> segment_wf s"
| "message_typed _ \<longleftrightarrow> True"

definition well_typed :: "('d, 'r) ipv4_packet \<Rightarrow> bool" where
  "well_typed p \<longleftrightarrow> hdr_protocol (ipv4_hdr p) = router_kind (router p) \<and>
     hdr_ip_pair (ipv4_hdr p) = router_addrs (router p) \<and> message_typed (router p)"

definition answers :: "out_packet \<Rightarrow> in_packet \<Rightarrow> bool" where
  "answers r p \<longleftrightarrow> router_addrs (router r) = ip_swapped (router_addrs (router p)) \<and>
     same_endpoint (router r) (router p) \<and>
     unat (total_len (ipv4_hdr r)) = 20 + length (router_encoding (router r))"

section \<open>Parsing\<close>

lemma parse_addrs:
  "parse_icmp data ip = Inr m \<Longrightarrow> icmp_ip_pair m = ip"
  "parse_udp data ip = Inr d \<Longrightarrow> udp_ip_pair d = ip"
  "inner_parse_tcp data ip = Inr s \<Longrightarrow> seg_ip_pair s = ip"
  by (auto simp: parse_icmp_def parse_udp_def inner_parse_tcp_def Let_def and_then_Inr_iff split: if_splits)

lemma parse_packet_typed:
  assumes "parse_packet data = Inr p"
  shows "well_typed p"
proof -
  obtain hdr rest where "parse_ipv4_header data = Inr (hdr, rest)"
    using assms by (auto simp: parse_packet_def and_then_Inr_iff)
  then show ?thesis
    using assms by (cases "hdr_protocol hdr")
      (auto simp: parse_packet_def and_then_Inr_iff well_typed_def parse_addrs parse_tcp_wf)
qed

section \<open>Replies\<close>

lemma router_views: "router_kind r = router_proto r" "router_addrs r = router_ip_pair r"
    "message_typed r = router_wf r" for r :: out_router
  by (cases r; simp)+

lemma packet_of_router_typed:
  assumes "packet_of_router r = Inr p" and "router_wf r"
  shows "router p = r" and "well_typed p" and "unat (total_len (ipv4_hdr p)) = 20 + length (router_encoding r)"
proof -
  have fits: "length (router_encoding r) < 65536"
    using assms router.proto_len_overflow [of r] by (force simp: packet_of_router_def and_then_Inr_iff)
  then have n: "router_proto_len r = Inr (word_of_nat (length (router_encoding r)))"
    using router.proto_len_fits assms(2) by simp
  have u: "unat (word_of_nat (length (router_encoding r)) :: u16) = length (router_encoding r)"
    using fits by (intro unat_of_nat_small) simp
  show "router p = r" and "well_typed p" and "unat (total_len (ipv4_hdr p)) = 20 + length (router_encoding r)"
    using assms u
    by (auto simp: packet_of_router_def n inner_try_new_ipv4_def and_then_Inr_iff well_typed_def router_views
        dest: try_add_u16_unat)
qed

text \<open>What \<open>create_reply\<close> hands out comes from \<open>packet_of_router\<close> on a router that answers.\<close>

lemma create_reply_typed:
  assumes "snd (create_reply ops now urandom p s) = Inr (Some r)" and "well_typed p"
  shows "well_typed r \<and> answers r p"
proof -
  have "\<exists>m. packet_of_router m = Inr r \<and> router_wf m \<and> same_endpoint m (router p) \<and>
      router_addrs m = ip_swapped (router_addrs (router p))"
  proof (cases "router p")
    case (RouterTcp seg)
    obtain s' t where t: "create_tcp_reply ops now urandom seg s = (s', t)" by fastforce
    then obtain reply where reply: "t = Inr (Some reply)" "packet_of_router (RouterTcp reply) = Inr r"
      using assms(1)
      by (cases t) (auto simp: create_reply_def RouterTcp and_then_Inr_iff split: option.splits)
    moreover have "segment_wf reply" using create_tcp_reply_no_panic(2) [OF t] reply(1) by simp
    moreover have "seg_ports reply = port_swapped (seg_ports seg) \<and> seg_ip_pair reply = ip_swapped (seg_ip_pair seg)"
      using t reply(1)
      by (auto simp: create_tcp_reply_def run_then_cases from_pairs_and_info_def split: sum.splits)
    ultimately show ?thesis by (intro exI [of _ "RouterTcp reply"]) (simp add: RouterTcp)
  qed (use assms(1) in \<open>auto simp: create_reply_def create_icmp_reply_def create_udp_reply_def and_then_Inr_iff
      Let_def split_beta intro!: exI\<close>)
  then show ?thesis using packet_of_router_typed by (auto simp: answers_def)
qed

text \<open>
  C11: Every outcome of \<open>handle_packet\<close> is well typed: the header of the accepted packet and of its
  reply names the protocol of the message it carries and has the message's addresses, TCP payloads are
  not empty, and the reply is a packet of the same protocol back to the sender's address and port (for
  ICMP with the same identifier and sequence number) whose header gives its exact length.
\<close>

theorem replies_well_typed:
  assumes "handle_packet ops now urandom data self = (self', Inr outcome)"
  shows "well_typed (incoming outcome) \<and>
    (\<forall>r. outcome_reply outcome = Some r \<longrightarrow> well_typed r \<and> answers r (incoming outcome))"
proof -
  obtain p where p: "parse_packet data = Inr p"
    using assms by (auto simp: handle_packet_def run_then_cases split: sum.splits)
  let ?r = "create_reply ops now urandom p (engine_app self, connections self)"
  have "snd ?r = Inr (outcome_reply outcome)" and inc: "incoming outcome = p"
    using assms by (auto simp: handle_packet_def run_then_cases p Let_def split_beta split: sum.splits)
  then show ?thesis
    using create_reply_typed [of ops now urandom p] parse_packet_typed [OF p] unfolding inc by metis
qed

text \<open>A segment of no connection, answered by a RST.\<close>

theorem replies_well_typed_witness:
  "\<exists>self' outcome reply. handle_packet test_app 0 (Inr []) example_bytes (engine_new () 0 5 0) = (self', Inr outcome) \<and>
     outcome_reply outcome = Some reply \<and> well_typed reply \<and> answers reply (incoming outcome)"
proof -
  let ?eng = "engine_new () 0 5 0"
  have d: "decide_reply test_app 0 (Inr []) example_hi (engine_app ?eng, connections ?eng) =
      ((engine_app ?eng, connections ?eng), Inr (Some (rst example_hi)))"
    by (simp add: decide_reply_def handle_unknown_conn_def engine_new_def connections_new_def get_conn_def example_seg_def)
  obtain p where p: "packet_try_from (segment_to (key_of example_hi) (rst example_hi)) = Inr p"
    using packet_try_from_fits [of "rst example_hi" "key_of example_hi"] by (auto simp: rst_def)
  have "handle_packet test_app 0 (Inr []) example_bytes ?eng =
      (?eng\<lparr>engine_app := engine_app ?eng, connections := connections ?eng\<rparr>,
       Inr \<lparr>incoming = Ipv4Packet (Ipv4Header 42 Tcp (seg_ip_pair example_hi)) (RouterTcp example_hi),
            outcome_reply = map_option (\<lambda>_. p) (Some (rst example_hi))\<rparr>)"
    by (rule handle_packet_tcp [OF parse_example _ d]) (simp_all add: reply_pairs p del: key_of_example)
  from this replies_well_typed [OF this] show ?thesis by fastforce
qed

end
