(* ===== verification/Assertions.thy ===== *)
theory Assertions
  imports Utils Text
begin

text \<open>
  The vocabulary of the unit tests beside the code (the \<open>mod tests\<close> of the files under \<open>src\<close>). A
  test is a computation of type \<open>unit result\<close>: a failed assertion is a panic, and a test that
  returns \<open>TraceableResult\<close> may also stop at an error with \<open>?\<close>. It passes when it returns \<open>Ok(())\<close>.
  The theories \<open>Tests_Utils\<close>, \<open>Tests_Net\<close>, \<open>Tests_Tcp\<close> and \<open>Tests_Engine\<close> translate the tests one by
  one, each under the name of its module and its own, and show that the model passes them.
\<close>

definition assert_that :: "bool \<Rightarrow> unit result" where
  "assert_that b = (if b then Inr () else Inl Panic)"

definition assert_eq :: "'a \<Rightarrow> 'a \<Rightarrow> unit result" where
  "assert_eq a b = assert_that (a = b)"

definition passes :: "unit result \<Rightarrow> bool" where
  "passes t \<longleftrightarrow> t = Inr ()"

text \<open>One assertion after the other, and a loop over an array.\<close>

fun in_order :: "unit result list \<Rightarrow> unit result" where
  "in_order [] = Inr ()"
| "in_order (t # ts) = and_then t (\<lambda>_. in_order ts)"

definition for_each :: "'a list \<Rightarrow> ('a \<Rightarrow> unit result) \<Rightarrow> unit result" where
  "for_each xs f = in_order (map f xs)"

text \<open>\<open>assert_matches!(r, Err(e) if e.to_string().contains(text))\<close>, for each of the texts.\<close>

fun assert_err_with :: "string list \<Rightarrow> 'a result \<Rightarrow> unit result" where
  "assert_err_with texts (Inr x) = Inl Panic"
| "assert_err_with texts (Inl Panic) = Inl Panic"
| "assert_err_with texts (Inl (Err e)) =
     assert_that (list_all (\<lambda>text. str_contains text (display_error e)) texts)"

abbreviation assert_err :: "'a result \<Rightarrow> unit result" where
  "assert_err \<equiv> assert_err_with []"

text \<open>A test passes exactly when its assertions do.\<close>

lemma passes_simps [simp]:
  "passes (Inr ())" "passes (assert_that b) \<longleftrightarrow> b" "passes (assert_eq x y) \<longleftrightarrow> x = y"
  "passes (and_then (assert_that b) f) \<longleftrightarrow> b \<and> passes (f ())"
  "passes (and_then (assert_eq x y) f) \<longleftrightarrow> x = y \<and> passes (f ())"
  by (simp_all add: passes_def assert_that_def assert_eq_def)

lemma passes_and_then: "passes (and_then t f) \<longleftrightarrow> (\<exists>x. t = Inr x \<and> passes (f x))"
  by (cases t) (auto simp: passes_def)

lemma passes_in_order [simp]: "passes (in_order ts) \<longleftrightarrow> list_all passes ts"
proof (induction ts)
  case (Cons t ts)
  then show ?case by (cases t) (auto simp: passes_def)
qed simp

lemma passes_for_each [simp]: "passes (for_each xs f) \<longleftrightarrow> (\<forall>x \<in> set xs. passes (f x))"
  by (simp add: for_each_def list_all_iff)

lemma passes_err_with [simp]: "passes (assert_err_with texts r) \<longleftrightarrow>
    (\<exists>e. r = Inl (Err e) \<and> (\<forall>text \<in> set texts. str_contains text (display_error e)))"
  by (cases "(texts, r)" rule: assert_err_with.cases) (auto simp: passes_def assert_that_def list_all_iff)

declare in_order.simps [simp del]

end
