(* ===== verification/Fixtures.thy ===== *)
theory Fixtures
  imports Packet_Types Assertions
begin

text \<open>
  What the tests of the crate \<open>stack\<close> are built from: the constants of \<open>protocol.rs\<close>
  (\<open>test_consts\<close>) and \<open>stack/src/protocol/tcp/test_utils.rs\<close>, and the constructors that
  \<open>ipv4_header.rs\<close>, \<open>tcp/connections.rs\<close>, \<open>tcp/state.rs\<close> and \<open>engine.rs\<close> compile for tests. The
  fixtures encode an incoming segment into a whole packet, which the program itself never does, and
  decode an outgoing one; \<open>packet_roundtrip\<close> shows that both are exact.
\<close>

section \<open>Addresses and headers\<close>

definition ip_pair_in :: "dir_in ipv4_addr_pair" where
  "ip_pair_in = Ipv4AddrPair (Ipv4Addr 10 0 0 2) (Ipv4Addr 10 0 0 1)"

definition ip_pair_out :: "dir_out ipv4_addr_pair" where
  "ip_pair_out = ip_swapped ip_pair_in"

definition test_parse_outgoing :: "bytes \<Rightarrow> (dir_out ipv4_header \<times> bytes) result" where
  "test_parse_outgoing data = inner_parse_ipv4 data"

definition test_try_new_incoming :: "protocol \<Rightarrow> dir_in ipv4_addr_pair \<Rightarrow> u16 \<Rightarrow> dir_in ipv4_header result" where
  "test_try_new_incoming protocol ip_pair proto_len = inner_try_new_ipv4 protocol ip_pair proto_len"

definition test_write_into_incoming :: "dir_in ipv4_header \<Rightarrow> bytes \<Rightarrow> bytes result" where
  "test_write_into_incoming self buf = inner_write_into_ipv4 self buf"

section \<open>A connection and its segments\<close>

definition client_isn :: "dir_in seq_point" where "client_isn = SeqPoint 100"

definition server_isn :: "dir_out seq_point" where "server_isn = SeqPoint 400"

definition test_key :: conn_key where
  "test_key = \<lparr>client_ip = ip_src ip_pair_in, client_port = 1234, server_ip = ip_dst ip_pair_in, server_port = 80\<rparr>"

definition window_test_new ::
    "(u16, dir_out) seq_offset \<Rightarrow> dir_in seq_point \<Rightarrow> dir_out seq_point \<Rightarrow> window_state" where
  "window_test_new wnd wl1 wl2 = \<lparr>snd_wnd = wnd, snd_wl1 = wl1, snd_wl2 = wl2\<rparr>"

definition synced_test_new :: "window_state \<Rightarrow> 't synced_state" where
  "synced_test_new ws = SyncedState ws"

definition window_after_handshake :: window_state where
  "window_after_handshake =
     window_test_new (SeqOffset 0xFFFF) (seq_add client_isn syn_byte_in) (seq_add server_isn syn_byte_out)"

definition after_handshake :: conn_state where
  "after_handshake =
     \<lparr>tcp_state_of = Established (synced_test_new window_after_handshake),
      snd_nxt = seq_add server_isn syn_byte_out, rcv_nxt = seq_add client_isn syn_byte_in,
      snd_una = seq_add server_isn syn_byte_out, pending = [], send_buffer = [],
      reassembly = reassembly_new\<rparr>"

definition client_pkt :: in_segment where
  "client_pkt =
     \<lparr>seg_ip_pair = Ipv4AddrPair (client_ip test_key) (server_ip test_key),
      seg_ports = PortPair (client_port test_key) (server_port test_key),
      seg_seq_num = SeqPoint 0, seg_ack_num = SeqPoint 0, seg_offset_bytes = 20, seg_flags = Ack,
      seg_window = SeqOffset 0xFFFF, seg_payload = None\<rparr>"

definition server_reply :: out_segment where
  "server_reply =
     \<lparr>seg_ip_pair = Ipv4AddrPair (server_ip test_key) (client_ip test_key),
      seg_ports = PortPair (server_port test_key) (client_port test_key),
      seg_seq_num = SeqPoint 0, seg_ack_num = SeqPoint 0, seg_offset_bytes = 20, seg_flags = Ack,
      seg_window = SeqOffset 0xFFFF, seg_payload = None\<rparr>"

definition client_syn :: in_segment where "client_syn = client_pkt\<lparr>seg_flags := Syn\<rparr>"

definition client_ack_completing_handshake :: in_segment where
  "client_ack_completing_handshake =
     client_pkt\<lparr>seg_seq_num := seq_add client_isn syn_byte_in, seg_ack_num := seq_add server_isn syn_byte_out\<rparr>"

definition client_fin_ack_completing_close :: in_segment where
  "client_fin_ack_completing_close =
     client_pkt\<lparr>seg_seq_num := seq_add client_isn syn_byte_in,
       seg_ack_num := seq_add (seq_add server_isn syn_byte_out) fin_byte_out, seg_flags := FinAck\<rparr>"

definition server_syn_ack :: out_segment where
  "server_syn_ack =
     server_reply\<lparr>seg_seq_num := server_isn, seg_ack_num := seq_add client_isn syn_byte_in, seg_flags := SynAck\<rparr>"

definition server_fin_ack_initiating_close :: out_segment where
  "server_fin_ack_initiating_close =
     server_reply\<lparr>seg_seq_num := seq_add server_isn syn_byte_out, seg_ack_num := seq_add client_isn syn_byte_in,
       seg_flags := FinAck\<rparr>"

definition server_final_ack_completing_close :: out_segment where
  "server_final_ack_completing_close =
     server_reply\<lparr>seg_seq_num := seq_add (seq_add server_isn syn_byte_out) fin_byte_out,
       seg_ack_num := seq_add (seq_add client_isn syn_byte_in) fin_byte_in\<rparr>"

section \<open>Tables and engines\<close>

definition rto_config_default :: rto_config where
  "rto_config_default = \<lparr>rto_initial = 0, rto_min = 0, rto_max = duration_max\<rparr>"

definition connections_default :: tcp_connections where
  "connections_default = \<lparr>table = [], rto_config_of = rto_config_default, max_retries = 0\<rparr>"

definition connections_test_new :: "duration \<Rightarrow> u8 \<Rightarrow> tcp_connections" where
  "connections_test_new initial_rto retries_limit =
     \<lparr>table = [], rto_config_of = \<lparr>rto_initial = initial_rto, rto_min = 0, rto_max = duration_max\<rparr>,
      max_retries = retries_limit\<rparr>"

text \<open>The lookup and the insertion that use \<open>KEY\<close>.\<close>

definition test_try_get :: "tcp_connections \<Rightarrow> conn_state result" where
  "test_try_get self = ok_or (get_conn test_key self) (Static ''Connection not found'')"

definition test_insert :: "conn_state \<Rightarrow> tcp_connections \<Rightarrow> tcp_connections" where
  "test_insert conn self = set_conn test_key conn self"

definition with_syn_rcv_and_pkt_last_sent :: "instant \<Rightarrow> tcp_connections \<Rightarrow> tcp_connections" where
  "with_syn_rcv_and_pkt_last_sent sent_at self =
     set_conn test_key
       \<lparr>tcp_state_of = SynReceived SynReceivedMark,
        snd_nxt = seq_add server_isn syn_byte_out, rcv_nxt = seq_add client_isn syn_byte_in, snd_una = server_isn,
        pending = [pending_new
          \<lparr>info_seq_num = server_isn, info_ack_num = seq_add client_isn syn_byte_in, info_flags = SynAck,
           info_payload = None\<rparr> sent_at],
        send_buffer = [], reassembly = reassembly_new\<rparr> self"

text \<open>\<open>now\<close> is the reading of the clock.\<close>

definition with_syn_rcv :: "instant \<Rightarrow> tcp_connections \<Rightarrow> tcp_connections" where
  "with_syn_rcv now self = with_syn_rcv_and_pkt_last_sent now self"

definition with_after_handshake :: "tcp_connections \<Rightarrow> tcp_connections" where
  "with_after_handshake self = set_conn test_key after_handshake self"

definition engine_test_new :: "'a \<Rightarrow> tcp_connections \<Rightarrow> duration \<Rightarrow> 'a engine" where
  "engine_test_new app conns grace =
     \<lparr>engine_app = app, connections = conns, shutdown_grace_period = grace, shutdown_deadline = None\<rparr>"

text \<open>\<open>PartialEq for ConnState\<close> leaves \<open>pending\<close> out.\<close>

definition conn_state_eq :: "conn_state \<Rightarrow> conn_state \<Rightarrow> bool" where
  "conn_state_eq self other \<longleftrightarrow> tcp_state_of self = tcp_state_of other \<and> snd_nxt self = snd_nxt other \<and>
     rcv_nxt self = rcv_nxt other \<and> snd_una self = snd_una other \<and> send_buffer self = send_buffer other \<and>
     reassembly self = reassembly other"

definition test_get_snd_wnd :: "conn_state \<Rightarrow> (u16, dir_out) seq_offset option" where
  "test_get_snd_wnd self =
     (case tcp_state_of self of
        SynReceived _ \<Rightarrow> None
      | Established s \<Rightarrow> Some (snd_wnd (window_state_of s))
      | FinWait1 s \<Rightarrow> Some (snd_wnd (window_state_of s))
      | FinWait2 s \<Rightarrow> Some (snd_wnd (window_state_of s))
      | CloseWait s \<Rightarrow> Some (snd_wnd (window_state_of s))
      | Closing s \<Rightarrow> Some (snd_wnd (window_state_of s))
      | LastAck s \<Rightarrow> Some (snd_wnd (window_state_of s)))"

section \<open>Whole packets\<close>

text \<open>
  \<open>TcpSegment<In>::encode_test_pkt\<close>: the segment behind 20 bytes of a zeroed buffer of one MTU, the
  header in front of it, and the packet cut to its total length. \<open>decode_test_pkt\<close> is the way back
  for outgoing packets.
\<close>

definition encode_test_pkt :: "in_segment \<Rightarrow> bytes result" where
  "encode_test_pkt self =
     (let buf = replicate 1500 0 in
      and_then (inner_write_into_tcp self (drop 20 buf)) (\<lambda>b.
      let buf = take 20 buf @ b in
      and_then (inner_tcp_proto_len self) (\<lambda>n.
      and_then (test_try_new_incoming Tcp (seg_ip_pair self) n) (\<lambda>ipv4_hdr.
      and_then (test_write_into_incoming ipv4_hdr buf) (\<lambda>buf.
      try_get buf (RangeTo (unat (total_len ipv4_hdr))))))))"

definition decode_test_pkt :: "bytes \<Rightarrow> out_segment result" where
  "decode_test_pkt bs =
     and_then (test_parse_outgoing bs) (\<lambda>(ipv4_hdr, payload). inner_parse_tcp payload (hdr_ip_pair ipv4_hdr))"

definition encoded_pkt :: "in_segment \<Rightarrow> bytes" where
  "encoded_pkt s =
     ipv4_header_encoding (Ipv4Header (20 + word_of_nat (length (tcp_encoding s))) Tcp (seg_ip_pair s)) @ tcp_encoding s"

lemma encode_test_pkt_eq:
  assumes "segment_wf s" and "length (tcp_encoding s) \<le> 1480"
  shows "encode_test_pkt s = Inr (encoded_pkt s)"
proof -
  let ?n = "length (tcp_encoding s)"
  let ?z = "replicate 1500 0 :: bytes"
  let ?h = "Ipv4Header (20 + word_of_nat ?n) Tcp (seg_ip_pair s)"
  have len: "20 + length (payload_bytes (seg_payload s)) = ?n" by simp
  have u: "unat (word_of_nat ?n :: u16) = ?n" using assms(2) by (intro unat_of_nat_small) simp
  then have t: "unat (20 + word_of_nat ?n :: u16) = 20 + ?n"
    using unat_add_small [of "20 :: u16" "word_of_nat ?n"] assms(2) by simp
  have w: "inner_write_into_tcp s (drop 20 ?z) = Inr (tcp_encoding s @ drop ?n (drop 20 ?z))"
    using write_tcp_fits [OF assms(1), of "drop 20 ?z"] assms(2) unfolding len by simp
  have n: "inner_tcp_proto_len s = Inr (word_of_nat ?n)"
    using tcp_proto_len_fits [OF assms(1)] assms(2) unfolding len by simp
  have h: "test_try_new_incoming Tcp (seg_ip_pair s) (word_of_nat ?n) = Inr ?h"
    using u assms(2) by (simp only: test_try_new_incoming_def inner_try_new_ipv4_def try_add_u16_def) simp
  let ?b = "take 20 ?z @ tcp_encoding s @ drop ?n (drop 20 ?z)"
  have b: "20 \<le> length ?b" "drop 20 ?b = tcp_encoding s @ drop ?n (drop 20 ?z)"
    using assms(2) by simp_all
  have "encode_test_pkt s = try_get (ipv4_header_encoding ?h @ tcp_encoding s @ drop ?n (drop 20 ?z)) (RangeTo (20 + ?n))"
    unfolding encode_test_pkt_def Let_def w n and_then.simps h test_write_into_incoming_def
      inner_write_into_ipv4_eq [OF b(1)] b(2) by (simp only: ipv4_header.sel t)
  also have "\<dots> = Inr (encoded_pkt s)"
    by (simp add: try_get_def in_bounds_def encoded_pkt_def del: length_tcp_encoding)
  finally show ?thesis .
qed

lemma parse_encoded_pkt:
  assumes "segment_wf s" and "seg_offset_bytes s = 20" and "length (tcp_encoding s) \<le> 1480"
  shows "parse_packet (encoded_pkt s) =
    Inr (Ipv4Packet (Ipv4Header (20 + word_of_nat (length (tcp_encoding s))) Tcp (seg_ip_pair s)) (RouterTcp s))"
  using parse_tcp_encoding [OF assms(1,2)] assms(3)
  by (simp add: parse_packet_def encoded_pkt_def inner_parse_ipv4_encoding)

lemma decode_written:
  assumes "segment_wf r" and "seg_offset_bytes r = 20" and "length (tcp_encoding r) \<le> 1480"
    and "packet_try_from r = Inr p"
  shows "decode_test_pkt (packet_encoding p) = Inr r"
proof -
  have p: "p = Ipv4Packet (Ipv4Header (20 + word_of_nat (length (tcp_encoding r))) Tcp (seg_ip_pair r)) (RouterTcp r)"
    using assms packet_of_router_fits [of "RouterTcp r"] by (simp add: packet_try_from_eq)
  show ?thesis
    using parse_tcp_encoding [OF assms(1,2)] assms(3)
    by (simp add: decode_test_pkt_def test_parse_outgoing_def packet_encoding_def p inner_parse_ipv4_encoding)
qed

text \<open>
  C29: Whole TCP packets survive the wire in both directions, with both headers, both checksums and
  the payload: the packet a client encodes for a segment of at most one MTU is parsed to that
  segment, and a segment turned into a packet and written into the server's buffer is decoded by its
  receiver as the same segment.
\<close>

theorem tcp_packet_roundtrip:
  assumes "segment_wf s" and "seg_offset_bytes s = 20" and "length (tcp_encoding s) \<le> 1480"
    and "segment_wf r" and "seg_offset_bytes r = 20" and "length (tcp_encoding r) \<le> 1480"
    and "length buf = 1500"
  shows "(\<exists>bs hdr. encode_test_pkt s = Inr bs \<and> parse_packet bs = Inr (Ipv4Packet hdr (RouterTcp s))) \<and>
    (\<exists>p bs. packet_try_from r = Inr p \<and> write_packet p buf = Inr (bs @ drop (length bs) buf) \<and>
       unat (packet_total_len p) = length bs \<and> decode_test_pkt bs = Inr r)"
proof -
  obtain p where p: "packet_try_from r = Inr p"
    using packet_of_router_fits [of "RouterTcp r"] assms(4,6) by (simp add: packet_try_from_eq)
  then have "packet_of_router (RouterTcp r) = Inr p" by (simp add: packet_try_from_eq)
  then have "write_packet p buf = Inr (packet_encoding p @ drop (length (packet_encoding p)) buf)"
    and "unat (packet_total_len p) = length (packet_encoding p)"
    using assms(4,6,7) by (auto intro: write_packet_fits simp del: length_tcp_encoding)
  then show ?thesis
    using encode_test_pkt_eq [OF assms(1,3)] parse_encoded_pkt [OF assms(1-3)] p decode_written [OF assms(4-6) p]
    by fastforce
qed

theorem tcp_packet_roundtrip_witness:
  "\<exists>bs hdr p out. encode_test_pkt client_syn = Inr bs \<and> parse_packet bs = Inr (Ipv4Packet hdr (RouterTcp client_syn)) \<and>
     packet_try_from server_syn_ack = Inr p \<and> decode_test_pkt out = Inr server_syn_ack"
proof -
  have "segment_wf client_syn" "seg_offset_bytes client_syn = 20" "length (tcp_encoding client_syn) \<le> 1480"
    "segment_wf server_syn_ack" "seg_offset_bytes server_syn_ack = 20" "length (tcp_encoding server_syn_ack) \<le> 1480"
    by (simp_all add: client_syn_def client_pkt_def server_syn_ack_def server_reply_def segment_wf_def)
  from tcp_packet_roundtrip [OF this, of "replicate 1500 0"] show ?thesis by auto
qed

end
