(* ===== verification/Error_Debug.thy ===== *)
theory Error_Debug
  imports Display Text
begin

text \<open>
  The rest of \<open>utils/src/error.rs\<close>: what \<open>Debug\<close> prints for an error, which is how the runtime
  prints the one that \<open>main\<close> returns, with its optional backtrace; the conversions into the error
  type; and the comparison the tests use. \<open>TraceableError\<close> is the kind of the error with the
  backtrace captured where it was created. What \<open>Backtrace\<close> holds and how \<open>io::Error\<close> prints itself
  under \<open>Debug\<close> is the standard library's: parameters.
\<close>

datatype backtrace = Captured string | Disabled | Unsupported | UnknownStatus

record traceable_error =
  error_kind :: traceable_error_kind
  error_backtrace :: backtrace

text \<open>\<open>From<E>\<close>: \<open>capture\<close> is what \<open>Backtrace::capture()\<close> returns at the conversion.\<close>

definition error_from :: "backtrace \<Rightarrow> traceable_error_kind \<Rightarrow> traceable_error" where
  "error_from capture value = \<lparr>error_kind = value, error_backtrace = capture\<rparr>"

definition show_error :: "traceable_error \<Rightarrow> string" where
  "show_error self = display_error (error_kind self)"

section \<open>Debug\<close>

text \<open>
  \<open>Debug\<close> of a \<open>str\<close>: in quotes, each character as \<open>escape_debug\<close> has it, but every grapheme
  extender escaped and the single quote not. A Rust string is well-formed UTF-8.
\<close>

definition debug_char :: "unicode \<Rightarrow> nat \<Rightarrow> string" where
  "debug_char uni c = (if c = 0x27 then [char_of c] else escape_char uni True c)"

definition debug_str :: "unicode \<Rightarrow> string \<Rightarrow> string" where
  "debug_str uni s =
     (case utf8_decode (map of_char s) of
        None \<Rightarrow> []
      | Some cs \<Rightarrow> [CHR 0x22] @ concat (map (debug_char uni) cs) @ [CHR 0x22])"

fun debug_error_kind :: "unicode \<Rightarrow> (io_error \<Rightarrow> string) \<Rightarrow> traceable_error_kind \<Rightarrow> string" where
  "debug_error_kind uni io_debug (Static s) = debug_str uni s"
| "debug_error_kind uni io_debug (Dynamic s) = debug_str uni s"
| "debug_error_kind uni io_debug (Io e) = ''I/O error: '' @ io_debug e"
| "debug_error_kind uni io_debug TryFromInt = ''Integer conversion error: TryFromIntError(())''"
| "debug_error_kind uni io_debug Fmt = ''Formatting error: Error''"

definition crate_name :: string where
  "crate_name = ''typenet_utils''"

definition backtrace_end :: string where
  "backtrace_end = ''__rust_begin_short_backtrace''"

definition trimmed_lines :: "string list \<Rightarrow> string list" where
  "trimmed_lines ls =
     takeWhile (\<lambda>line. \<not> str_contains backtrace_end line) (dropWhile (\<lambda>line. \<not> str_contains crate_name line) ls)"

fun debug_backtrace :: "backtrace \<Rightarrow> string" where
  "debug_backtrace (Captured text) =
     ''Stack backtrace (trimmed):'' @ [CHR 0x0A] @ concat (map (\<lambda>line. line @ [CHR 0x0A]) (trimmed_lines (str_lines text)))"
| "debug_backtrace Disabled =
     ''Set `RUST_BACKTRACE=1` or `RUST_LIB_BACKTRACE=1` to display a backtrace''"
| "debug_backtrace Unsupported = ''(Backtrace unsupported)''"
| "debug_backtrace UnknownStatus = ''Unexpected backtrace status''"

definition debug_error :: "unicode \<Rightarrow> (io_error \<Rightarrow> string) \<Rightarrow> traceable_error \<Rightarrow> string" where
  "debug_error uni io_debug self =
     debug_error_kind uni io_debug (error_kind self) @ [CHR 0x0A] @ debug_backtrace (error_backtrace self)"

section \<open>Comparison\<close>

text \<open>\<open>raw_os_error\<close> is the code of an error of the operating system, which its text shows, too.\<close>

fun error_kind_eq :: "(io_error \<Rightarrow> int option) \<Rightarrow> traceable_error_kind \<Rightarrow> traceable_error_kind \<Rightarrow> bool" where
  "error_kind_eq raw_os_error (Static s1) (Static s2) \<longleftrightarrow> s1 = s2"
| "error_kind_eq raw_os_error (Dynamic s1) (Dynamic s2) \<longleftrightarrow> s1 = s2"
| "error_kind_eq raw_os_error (Io e1) (Io e2) \<longleftrightarrow>
     io_error_kind e1 = io_error_kind e2 \<and> raw_os_error e1 = raw_os_error e2 \<and> io_error_text e1 = io_error_text e2"
| "error_kind_eq raw_os_error TryFromInt TryFromInt \<longleftrightarrow> True"
| "error_kind_eq raw_os_error Fmt Fmt \<longleftrightarrow> True"
| "error_kind_eq raw_os_error _ _ \<longleftrightarrow> False"

fun backtrace_status :: "backtrace \<Rightarrow> nat" where
  "backtrace_status Unsupported = 0"
| "backtrace_status Disabled = 1"
| "backtrace_status (Captured _) = 2"
| "backtrace_status UnknownStatus = 3"

definition error_eq :: "(io_error \<Rightarrow> int option) \<Rightarrow> traceable_error \<Rightarrow> traceable_error \<Rightarrow> bool" where
  "error_eq raw_os_error self other \<longleftrightarrow> error_kind_eq raw_os_error (error_kind self) (error_kind other) \<and>
     backtrace_status (error_backtrace self) = backtrace_status (error_backtrace other)"

lemma error_kind_eq_iff: "error_kind_eq raw a b \<longleftrightarrow> a = b"
  by (cases "(raw, a, b)" rule: error_kind_eq.cases) (auto intro: io_error.expand)

text \<open>The comparison is an equivalence, and exact but for the text of a captured backtrace.\<close>

lemma error_eq_equivalence:
  "error_eq raw a a" "error_eq raw a b \<Longrightarrow> error_eq raw b a"
  "error_eq raw a b \<Longrightarrow> error_eq raw b c \<Longrightarrow> error_eq raw a c"
  by (auto simp: error_eq_def error_kind_eq_iff)

lemma error_eq_exact:
  "error_eq raw a b \<longleftrightarrow> error_kind a = error_kind b \<and>
     (error_backtrace a = error_backtrace b \<or>
      (\<exists>s t. error_backtrace a = Captured s \<and> error_backtrace b = Captured t))"
  by (cases "error_backtrace a"; cases "error_backtrace b") (auto simp: error_eq_def error_kind_eq_iff)

section \<open>What is printed\<close>

lemma trimmed_lines_infix: "\<exists>before after. ls = before @ trimmed_lines ls @ after"
  unfolding trimmed_lines_def by (metis takeWhile_dropWhile_id)

lemma trimmed_lines_start:
  "trimmed_lines ls = line # rest \<Longrightarrow> str_contains crate_name line \<and> \<not> str_contains backtrace_end line"
  unfolding trimmed_lines_def by (cases "dropWhile (\<lambda>line. \<not> str_contains crate_name line) ls")
    (auto simp: dropWhile_eq_Cons_conv split: if_splits)

text \<open>
  A message is printed on one line: nothing printed for it is a control character, whatever the
  message holds.
\<close>

lemma debug_str_shown:
  assumes "\<And>n. n < 32 \<or> n = 127 \<Longrightarrow> \<not> printable uni n"
  shows "all_shown (debug_str uni s)"
proof (cases "utf8_decode (map of_char s)")
  case (Some cs)
  have "all_shown (debug_char uni c)" if "c \<in> set cs" for c
    using all_shown_escape [OF assms utf8_decode_bound [OF Some that]] by (simp add: debug_char_def shown_char_of)
  then show ?thesis by (auto simp: debug_str_def Some shown_def intro: all_shown_concat)
qed (simp add: debug_str_def)

end
