(* ===== verification/Tests_Utils.thy ===== *)
theory Tests_Utils
  imports Assertions Engine Server_Config Loadgen
begin

text \<open>
  The unit tests beside \<open>utils/src/try_ops.rs\<close> and \<open>utils/src/sys.rs\<close>. The first group tests a
  read through \<open>try_get_mut\<close>, which the program never does; \<open>try_get_mut\<close> is a reference here, the
  slice it denotes and what the buffer becomes when it is assigned, and \<open>try_write\<close>, the form the
  encoders use, is an assignment through it.
\<close>

section \<open>Fallible operations\<close>

definition try_get_mut :: "bytes \<Rightarrow> slice_index \<Rightarrow> (bytes \<times> (bytes \<Rightarrow> bytes)) result" where
  "try_get_mut buf i = and_then (try_get buf i) (\<lambda>slice. Inr (slice, overwrite buf (index_start i)))"

lemma try_write_through_reference:
  "try_write i src buf =
     and_then (try_get_mut buf i) (\<lambda>(slice, put). if length src = length slice then Inr (put src) else Inl Panic)"
  by (auto simp: try_write_def try_get_mut_def try_get_def in_bounds_def)

definition try_get_at :: "bytes \<Rightarrow> nat \<Rightarrow> u8 result" where
  "try_get_at buf i =
     (if i < length buf then Inr (buf ! i) else Inl (Err (out_of_range (show_nat i) (length buf))))"

definition try_get_mut_at :: "bytes \<Rightarrow> nat \<Rightarrow> (u8 \<times> (u8 \<Rightarrow> bytes)) result" where
  "try_get_mut_at buf i = and_then (try_get_at buf i) (\<lambda>b. Inr (b, \<lambda>b. buf[i := b]))"

lemma try_write_byte_through_reference:
  "try_write_byte i b buf = and_then (try_get_mut_at buf i) (\<lambda>(_, put). Inr (put b))"
  by (simp add: try_write_byte_def try_get_mut_at_def try_get_at_def)

definition try_add_errors_for_overflow :: "instant \<Rightarrow> unit result" where
  "try_add_errors_for_overflow now =
     in_order [assert_err (try_add_u16 0xFFFF 1), assert_err (try_add_instant now duration_max)]"

definition try_add_adds_successfully :: "instant \<Rightarrow> unit result" where
  "try_add_adds_successfully now =
     and_then (assert_eq (try_add_u16 (0xFFFF - 1) 1) (Inr 0xFFFF)) (\<lambda>_.
     let an_hour = 3600 * 1000000000 in
     and_then (ok_or (checked_add_instant now an_hour) (Static ''Regular checked_add overflowed'')) (\<lambda>an_hour_from_now.
     assert_eq (try_add_instant now an_hour) (Inr an_hour_from_now)))"

definition try_get_errors_out_of_bounds :: "unit result" where
  "try_get_errors_out_of_bounds =
     (let data1 = [1, 2, 3, 4, 5]; data2 = [10, 20, 30, 40, 50] in
      in_order [assert_err (try_get_at data1 5), assert_err (try_get data1 (Range 2 10)),
        assert_err (try_get_mut_at data2 5), assert_err (try_get_mut data2 (Range 2 10))])"

definition try_get_succeeds_in_bounds :: "unit result" where
  "try_get_succeeds_in_bounds =
     (let data1 = [1, 2, 3, 4, 5]; data2 = [10, 20, 30, 40, 50] in
      in_order [assert_eq (try_get_at data1 2) (Inr 3), assert_eq (try_get data1 (Range 1 3)) (Inr [2, 3]),
        assert_eq (and_then (try_get_mut_at data2 2) (\<lambda>(b, _). Inr b)) (Inr 30),
        assert_eq (and_then (try_get_mut data2 (Range 1 3)) (\<lambda>(slice, _). Inr slice)) (Inr [20, 30])])"

lemma try_ops_tests_pass:
  assumes "now + 3600 * 1000000000 \<le> instant_max"
  shows "passes (try_add_errors_for_overflow now)" "passes (try_add_adds_successfully now)"
    "passes try_get_errors_out_of_bounds" "passes try_get_succeeds_in_bounds"
proof -
  have "instant_max < now + duration_max" by (simp add: instant_max_def duration_max_def)
  then show "passes (try_add_errors_for_overflow now)"
    by (simp add: try_add_errors_for_overflow_def try_add_u16_def try_add_instant_def checked_add_instant_def)
  show "passes (try_add_adds_successfully now)"
    using assms by (simp add: try_add_adds_successfully_def try_add_u16_def try_add_instant_def
        checked_add_instant_def)
  show "passes try_get_errors_out_of_bounds" "passes try_get_succeeds_in_bounds"
    by (simp_all add: try_get_errors_out_of_bounds_def try_get_succeeds_in_bounds_def try_get_at_def
        try_get_mut_at_def try_get_mut_def try_get_def in_bounds_def Let_def)
qed

section \<open>Randomness and the environment\<close>

text \<open>The two readings of \<open>/dev/urandom\<close> are parameters, and so is the environment.\<close>

definition different_u32s_across_calls :: "io_error + bytes \<Rightarrow> io_error + bytes \<Rightarrow> unit result" where
  "different_u32s_across_calls first second =
     and_then (random_u32 first) (\<lambda>a. and_then (random_u32 second) (\<lambda>b. assert_that (a \<noteq> b)))"

definition different_bytes_across_calls ::
    "(nat \<Rightarrow> io_error + bytes) \<Rightarrow> (nat \<Rightarrow> io_error + bytes) \<Rightarrow> unit result" where
  "different_bytes_across_calls first second =
     and_then (random_bytes first 65536) (\<lambda>a. and_then (random_bytes second 65536) (\<lambda>b. assert_that (a \<noteq> b)))"

abbreviation parse_env_u16 :: "string \<Rightarrow> env_var \<Rightarrow> nat option result" where
  "parse_env_u16 key v \<equiv> parse_env key ''u16'' (parse_unsigned 65536) v"

definition none_for_missing_env_var :: "unit result" where
  "none_for_missing_env_var = assert_eq (parse_env_u16 ''TYPENET_TEST_ENV_NOT_PRESENT'' NotPresent) (Inr None)"

definition err_for_non_unicode_env_var :: "unit result" where
  "err_for_non_unicode_env_var =
     assert_err_with [''not valid Unicode''] (parse_env_u16 ''TYPENET_TEST_ENV_NOT_UNICODE'' NotUnicode)"

definition err_for_unparsable_env_var :: "unit result" where
  "err_for_unparsable_env_var =
     assert_err_with [''could not be parsed as u16'']
       (parse_env_u16 ''TYPENET_TEST_ENV_UNPARSABLE'' (Present ''not a number''))"

definition parses_valid_env_var :: "unit result" where
  "parses_valid_env_var = assert_eq (parse_env_u16 ''TYPENET_TEST_ENV_VALID'' (Present ''8080'')) (Inr (Some 8080))"

lemma random_tests_pass:
  assumes "length xs = 4" "length ys = 4" "xs \<noteq> ys"
    and "f 65536 = Inr bs" "g 65536 = Inr cs" "bs \<noteq> cs"
  shows "passes (different_u32s_across_calls (Inr xs) (Inr ys))" "passes (different_bytes_across_calls f g)"
proof -
  have "u32_from_be_bytes (rev xs) \<noteq> u32_from_be_bytes (rev ys)"
    using assms(1-3) by (metis length_rev nat_be_be_nat rev_is_rev_conv unat_u32_from_be)
  then show "passes (different_u32s_across_calls (Inr xs) (Inr ys))"
    by (simp add: different_u32s_across_calls_def random_u32_def)
  show "passes (different_bytes_across_calls f g)"
    using assms by (simp add: different_bytes_across_calls_def random_bytes_def)
qed

lemma env_tests_pass:
  "list_all passes [none_for_missing_env_var, err_for_non_unicode_env_var, err_for_unparsable_env_var,
     parses_valid_env_var]"
  by (simp add: none_for_missing_env_var_def err_for_non_unicode_env_var_def err_for_unparsable_env_var_def
      parses_valid_env_var_def parse_env_def parse_unsigned_def digit_value_def)

end
