(* ===== verification/Tests_Net.thy ===== *)
theory Tests_Net
  imports Fixtures Display Server_Config
begin

text \<open>
  The unit tests beside \<open>stack/src/checksum.rs\<close>, \<open>ipv4_header.rs\<close>, \<open>protocol/icmp_echo.rs\<close>,
  \<open>protocol/udp.rs\<close> and \<open>display.rs\<close>, and \<open>server/src/application.rs\<close>.
\<close>

section \<open>Checksum\<close>

definition empty_input_produces_negative_zero :: "unit result" where
  "empty_input_produces_negative_zero = assert_eq (calculate []) 0xFFFF"

definition zeros_produce_all_ones :: "unit result" where
  "zeros_produce_all_ones = assert_eq (calculate (replicate 20 0)) 0xFFFF"

definition all_ones_produce_zero :: "unit result" where
  "all_ones_produce_zero = assert_eq (calculate (replicate 20 0xFF)) 0x0000"

definition handles_odd_length :: "unit result" where
  "handles_odd_length =
     in_order [assert_eq (calculate [0x12, 0x34, 0x56]) 0x97CB,
               assert_eq (calculate [0x12, 0x34, 0x56, 0x78, 0xAB]) 0xEC52]"

definition folds_carry_bits :: "unit result" where
  "folds_carry_bits =
     in_order [assert_eq (calculate (replicate 4 0xFF)) 0x0000,
               assert_eq (calculate [0xAA, 0xAA, 0xBB, 0xBB]) 0x9999]"

definition known_ipv4_hdr_without_folding :: "unit result" where
  "known_ipv4_hdr_without_folding =
     assert_eq (calculate [0x45, 0x00, 0x00, 0x20, 0x00, 0x01, 0x00, 0x00, 0x40, 0x11, 0x00, 0x00,
       0x0A, 0x00, 0x00, 0x01, 0x0A, 0x00, 0x00, 0x02]) 0x66CA"

definition known_ipv4_hdr_with_folding :: "unit result" where
  "known_ipv4_hdr_with_folding =
     assert_eq (calculate [0x45, 0x00, 0x00, 0x54, 0xAB, 0xCD, 0x00, 0x00, 0x40, 0x06, 0x00, 0x00,
       0xC0, 0xA8, 0xFF, 0x64, 0xC0, 0xA8, 0xFF, 0xC8]) 0x4E58"

definition roundtrip_produces_zero :: "unit result" where
  "roundtrip_produces_zero =
     assert_eq (calculate [0x45, 0x00, 0x00, 0x3C, 0x1C, 0x46, 0x40, 0x00, 0x40, 0x06, 0xB1, 0xE6,
       0xAC, 0x10, 0x0A, 0x63, 0xAC, 0x10, 0x0A, 0x0C]) 0x0000"

definition commutative_over_16_bit_word_order :: "unit result" where
  "commutative_over_16_bit_word_order =
     assert_eq (calculate [0x12, 0x34, 0x56, 0x78, 0x9A, 0xBC, 0xDE, 0xF0])
       (calculate [0x9A, 0xBC, 0x12, 0x34, 0xDE, 0xF0, 0x56, 0x78])"

definition accumulator_does_not_overflow_on_worst_case :: "unit result" where
  "accumulator_does_not_overflow_on_worst_case =
     in_order
       [for_each [deferred_carries_max_bytes - 10..<deferred_carries_max_bytes + 1] (\<lambda>num_bytes.
          let data = replicate num_bytes 0xFF; expected = (if num_bytes mod 2 = 1 then 0xFF else 0) in
          in_order [assert_eq expected (naive_wrapping_cksum data), assert_eq expected (range_checked_cksum data),
            assert_eq expected (always_folded_cksum data), assert_eq expected (calculate data)]),
        for_each [deferred_carries_max_bytes + 1..<deferred_carries_max_bytes + 10] (\<lambda>num_bytes.
          let data = replicate num_bytes 0xFF; expected = (if num_bytes mod 2 = 1 then 0xFF else 0) in
          in_order [assert_that (expected \<noteq> naive_wrapping_cksum data),
            assert_eq expected (range_checked_cksum data), assert_eq expected (always_folded_cksum data),
            assert_eq expected (calculate data)])]"

text \<open>The worst case without running it: the sum of \<open>n\<close> bytes \<open>0xFF\<close> and its remainder modulo \<open>2^32\<close>.\<close>

lemma word_sum_ff: "word_sum (replicate n 0xFF) = 65535 * (n div 2) + (if odd n then 65280 else 0)"
proof (cases "even n")
  case True
  then obtain k where "n = 2 * k" by (elim evenE)
  then show ?thesis by (simp add: word_sum_all_ones)
next
  case False
  then obtain k where n: "n = 2 * k + 1" by (elim oddE)
  then have "replicate n (0xFF :: u8) = replicate (2 * k) 0xFF @ [0xFF]" by (simp add: replicate_append_same)
  then show ?thesis by (simp add: n word_sum_append word_sum_all_ones)
qed

lemma checksum_tests_pass:
  "list_all passes [empty_input_produces_negative_zero, zeros_produce_all_ones, all_ones_produce_zero,
     handles_odd_length, folds_carry_bits, known_ipv4_hdr_without_folding, known_ipv4_hdr_with_folding,
     roundtrip_produces_zero, commutative_over_16_bit_word_order]"
  by (simp add: empty_input_produces_negative_zero_def zeros_produce_all_ones_def all_ones_produce_zero_def
      handles_odd_length_def folds_carry_bits_def known_ipv4_hdr_without_folding_def
      known_ipv4_hdr_with_folding_def roundtrip_produces_zero_def commutative_over_16_bit_word_order_def
      calculate_compute ones_sum_def word_sum_ff)

lemma ones_sum_ff:
  assumes "2 \<le> n"
  shows "65535 - ones_sum (word_sum (replicate n 0xFF)) = (if odd n then 0xFF else 0)"
proof -
  have "ones_sum (65535 * (n div 2) + 65280) = ones_sum 65280"
    unfolding ones_sum_eq_iff by simp
  moreover have "0 < n div 2" using assms by (simp add: div_greater_zero_iff)
  ultimately show ?thesis by (simp add: word_sum_ff ones_sum_multiple)
qed

text \<open>The value the test expects.\<close>

definition expected_ff :: "nat \<Rightarrow> u16" where
  "expected_ff n = (if n mod 2 = 1 then 0xFF else 0)"

lemma unat_expected_ff: "unat (expected_ff n) = (if odd n then 0xFF else 0)"
  by (auto simp: expected_ff_def odd_iff_mod_2_eq_one)

lemma sound_on_ff:
  assumes "2 \<le> n" and "n \<le> isize_max"
  shows "calculate (replicate n 0xFF) = expected_ff n" and "range_checked_cksum (replicate n 0xFF) = expected_ff n"
    and "always_folded_cksum (replicate n 0xFF) = expected_ff n"
    and "n \<le> deferred_carries_max_bytes \<Longrightarrow> naive_wrapping_cksum (replicate n 0xFF) = expected_ff n"
  using assms ones_sum_ff [OF assms(1)] production.cksum_ones [of "replicate n 0xFF"]
    range_checked.cksum_ones [of "replicate n 0xFF"] always_folded.cksum_ones [of "replicate n 0xFF"]
    naive_wrapping.cksum_ones [of "replicate n 0xFF"]
  by (simp_all add: word_unat_eq_iff unat_expected_ff)

lemma naive_wrong_on_ff:
  assumes "131074 < n" and "n < 131084"
  shows "expected_ff n \<noteq> naive_wrapping_cksum (replicate n 0xFF)"
proof -
  have "n \<in> {131075, 131076, 131077, 131078, 131079, 131080, 131081, 131082, 131083}"
    using assms by auto
  then show ?thesis by (auto simp: word_unat_eq_iff unat_naive word_sum_ff ones_sum_def unat_expected_ff)
qed

lemma worst_case_test_passes: "passes accumulator_does_not_overflow_on_worst_case"
proof -
  have d: "deferred_carries_max_bytes = 131074" by (simp add: deferred_carries_max_bytes_def)
  have s: "2 \<le> n \<and> n \<le> isize_max" if "131064 \<le> n" "n < 131084" for n using that by simp
  show ?thesis
    unfolding accumulator_does_not_overflow_on_worst_case_def Let_def expected_ff_def [symmetric]
    using s sound_on_ff naive_wrong_on_ff by (simp add: d del: upt_rec_numeral)
qed

section \<open>IPv4 header\<close>

definition ipv4_parses_valid_pkt :: "unit result" where
  "ipv4_parses_valid_pkt =
     (let data = [0x45, 0x00, 0x00, 0x3C, 0x1C, 0x46, 0x40, 0x00, 0x40, 0x06, 0xA6, 0x4D,
                  192, 168, 1, 100, 172, 16, 10, 12] in
      and_then (parse_ipv4_header data) (\<lambda>(hdr, payload).
      in_order [assert_eq (total_len hdr) 60, assert_eq (hdr_protocol hdr) Tcp,
        assert_eq (ip_src (hdr_ip_pair hdr)) (Ipv4Addr 192 168 1 100),
        assert_eq (ip_dst (hdr_ip_pair hdr)) (Ipv4Addr 172 16 10 12), assert_eq payload (drop 20 data)]))"

definition ipv4_fails_if_too_short :: "unit result" where
  "ipv4_fails_if_too_short = assert_err_with [''Too short''] (parse_ipv4_header [0x45, 0x00, 0x00])"

definition ipv4_fails_on_invalid_cksum :: "unit result" where
  "ipv4_fails_on_invalid_cksum =
     assert_err_with [''checksum''] (parse_ipv4_header
       [0x45, 0x00, 0x00, 0x3C, 0x1C, 0x46, 0x40, 0x00, 0x40, 0x06, 0x00, 0x00, 192, 168, 1, 100, 172, 16, 10, 12])"

definition ipv4_fails_if_not_ipv4 :: "unit result" where
  "ipv4_fails_if_not_ipv4 =
     assert_err_with [''IPv6''] (parse_ipv4_header
       [0x60, 0x00, 0x00, 0x00, 0x00, 0x14, 0x06, 0x40, 0x20, 0x01, 0x0D, 0xB8,
        0x00, 0x00, 0x00, 0x00, 0x00, 0x00, 0x00, 0x00, 0x00, 0x00, 0x00, 0x01])"

definition ipv4_creates_valid_hdr_for_reply :: "unit result" where
  "ipv4_creates_valid_hdr_for_reply =
     (let request = [0x45, 0x00, 0x00, 0x3C, 0x1C, 0x46, 0x40, 0x00, 0x40, 0x11, 0xA6, 0x42,
                     192, 168, 1, 100, 172, 16, 10, 12] in
      and_then (parse_ipv4_header request) (\<lambda>(hdr, _).
      let reply = replicate 1500 0; proto_len = 48 - 20 in
      and_then (try_new_ipv4_header (hdr_protocol hdr) (ip_swapped (hdr_ip_pair hdr)) proto_len) (\<lambda>reply_hdr.
      and_then (write_ipv4_header reply_hdr reply) (\<lambda>reply.
      in_order
        [assert_eq (total_len reply_hdr) 48, assert_eq (reply ! 0) 0x45, assert_eq (reply ! 1) 0x00,
         assert_eq (take 2 (drop 2 reply)) [0x00, 0x30], assert_eq (take 2 (drop 4 reply)) [0x00, 0x00],
         assert_eq (take 2 (drop 6 reply)) [0x40, 0x00], assert_eq (reply ! 8) 64, assert_eq (reply ! 9) 0x11,
         assert_eq (take 4 (drop 12 reply)) [172, 16, 10, 12], assert_eq (take 4 (drop 16 reply)) [192, 168, 1, 100],
         assert_eq (calculate (take 20 reply)) 0]))))"

lemmas parse_compute = calculate_compute ones_sum_def u16_from_be_bytes_def be_nat_def Let_def

lemma ipv4_tests_pass:
  "list_all passes [ipv4_parses_valid_pkt, ipv4_fails_if_too_short, ipv4_fails_on_invalid_cksum,
     ipv4_fails_if_not_ipv4]"
  by (simp add: ipv4_parses_valid_pkt_def ipv4_fails_if_too_short_def ipv4_fails_on_invalid_cksum_def
      ipv4_fails_if_not_ipv4_def inner_parse_ipv4_def parse_compute protocol_try_from_def)

text \<open>The reply's header is its encoding, whatever buffer it is written to.\<close>

lemma ipv4_reply_test_passes: "passes ipv4_creates_valid_hdr_for_reply"
proof -
  let ?request = "[0x45, 0x00, 0x00, 0x3C, 0x1C, 0x46, 0x40, 0x00, 0x40, 0x11, 0xA6, 0x42,
                     192, 168, 1, 100, 172, 16, 10, 12] :: bytes"
  let ?ip = "Ipv4AddrPair (Ipv4Addr 192 168 1 100) (Ipv4Addr 172 16 10 12) :: dir_in ipv4_addr_pair"
  let ?h = "Ipv4Header 48 Udp (Ipv4AddrPair (Ipv4Addr 172 16 10 12) (Ipv4Addr 192 168 1 100)) :: dir_out ipv4_header"
  let ?e = "[0x45, 0, 0, 48, 0, 0, 0x40, 0, 64, 17, 194, 148, 172, 16, 10, 12, 192, 168, 1, 100] :: bytes"
  have "parse_ipv4_header ?request = Inr (Ipv4Header 60 Udp ?ip, [])"
    by (simp add: inner_parse_ipv4_def parse_compute protocol_try_from_def)
  moreover have "try_new_ipv4_header Udp (ip_swapped ?ip) (48 - 20) = Inr ?h"
    by (simp add: inner_try_new_ipv4_def try_add_u16_def ip_swapped_def)
  moreover have "ipv4_header_encoding ?h = ?e"
    by (simp add: ipv4_header_encoding_def ipv4_header_bytes_def u16_to_be_bytes_def nat_be_2 calculate_compute
        ones_sum_def)
  then have "write_ipv4_header ?h (replicate 1500 0) = Inr (?e @ replicate 1480 0)"
    using inner_write_into_ipv4_eq [of "replicate 1500 0" ?h] by simp
  moreover have "calculate ?e = 0" by (simp add: calculate_compute ones_sum_def)
  ultimately show ?thesis by (simp add: ipv4_creates_valid_hdr_for_reply_def)
qed

section \<open>ICMP Echo\<close>

definition icmp_parses_valid_request :: "unit result" where
  "icmp_parses_valid_request =
     and_then (parse_icmp [8, 0, 0x0B, 0x11, 0x12, 0x34, 0x56, 0x78, 0x41, 0x42, 0x43] ip_pair_in) (\<lambda>msg.
     in_order [assert_eq (icmp_identifier msg) 0x1234, assert_eq (icmp_sequence msg) 0x5678,
       assert_eq (icmp_payload msg) [0x41, 0x42, 0x43]])"

definition icmp_fails_when_too_short :: "unit result" where
  "icmp_fails_when_too_short = assert_err_with [''Too short''] (parse_icmp [8, 0, 0x3A, 0x4B, 0x12] ip_pair_in)"

definition icmp_fails_when_wrong_type :: "unit result" where
  "icmp_fails_when_wrong_type =
     assert_err_with [''Not an Echo Request''] (parse_icmp [0, 0, 0x97, 0x53, 0x12, 0x34, 0x56, 0x78] ip_pair_in)"

definition icmp_fails_when_wrong_code :: "unit result" where
  "icmp_fails_when_wrong_code =
     assert_err_with [''Not an Echo Request''] (parse_icmp [8, 1, 0x8F, 0x52, 0x12, 0x34, 0x56, 0x78] ip_pair_in)"

definition icmp_fails_on_invalid_cksum :: "unit result" where
  "icmp_fails_on_invalid_cksum =
     assert_err_with [''checksum'']
       (parse_icmp [8, 0, 0x3A, 0x4B, 0x12, 0x34, 0x56, 0x78, 0x41, 0x42, 0x43] ip_pair_in)"

definition icmp_handles_empty_payload :: "unit result" where
  "icmp_handles_empty_payload =
     and_then (parse_icmp [8, 0, 0xF7, 0xFE, 0x00, 0x00, 0x00, 0x01] ip_pair_in) (\<lambda>msg.
     in_order [assert_eq (icmp_identifier msg) 0, assert_eq (icmp_sequence msg) 1,
       assert_eq (length (icmp_payload msg)) 0])"

text \<open>\<open>reply.write_into(&mut reply_buf[20..])\<close> writes into the part of the buffer behind a header.\<close>

definition write_behind_header :: "(bytes \<Rightarrow> bytes result) \<Rightarrow> bytes \<Rightarrow> bytes result" where
  "write_behind_header write_into buf = and_then (write_into (drop 20 buf)) (\<lambda>b. Inr (take 20 buf @ b))"

definition icmp_creates_valid_echo_reply :: "unit result" where
  "icmp_creates_valid_echo_reply =
     and_then (parse_icmp [8, 0, 0x6B, 0x81, 0x12, 0x34, 0x56, 0x78, 0x48, 0x65, 0x6C, 0x6C, 0x6F] ip_pair_in) (\<lambda>msg.
     let reply = create_icmp_reply msg in
     and_then (write_behind_header (write_icmp reply) (replicate 1500 0)) (\<lambda>reply_buf.
     and_then (icmp_proto_len reply) (\<lambda>proto_len.
     in_order
       [assert_eq (icmp_ip_pair reply) (ip_swapped ip_pair_in), assert_eq (reply_buf ! 20) 0,
        assert_eq (reply_buf ! 21) 0, assert_eq (take 2 (drop 24 reply_buf)) [0x12, 0x34],
        assert_eq (take 2 (drop 26 reply_buf)) [0x56, 0x78],
        assert_eq (take 5 (drop 28 reply_buf)) (map of_char ''Hello''), assert_eq proto_len (8 + 5),
        assert_eq (calculate (take 13 (drop 20 reply_buf))) 0])))"

lemma icmp_tests_pass:
  "list_all passes [icmp_parses_valid_request, icmp_fails_when_too_short, icmp_fails_when_wrong_type,
     icmp_fails_when_wrong_code, icmp_fails_on_invalid_cksum, icmp_handles_empty_payload]"
  by (simp add: icmp_parses_valid_request_def icmp_fails_when_too_short_def icmp_fails_when_wrong_type_def
      icmp_fails_when_wrong_code_def icmp_fails_on_invalid_cksum_def icmp_handles_empty_payload_def
      parse_icmp_def parse_compute)

lemma write_behind_header_encoding:
  assumes "write_into (replicate 1480 0) = Inr (bs @ replicate (1480 - length bs) 0)"
  shows "write_behind_header write_into (replicate 1500 0) = Inr (replicate 20 0 @ bs @ replicate (1480 - length bs) 0)"
  using assms by (simp add: write_behind_header_def)

lemma icmp_reply_test_passes: "passes icmp_creates_valid_echo_reply"
proof -
  let ?request = "[8, 0, 0x6B, 0x81, 0x12, 0x34, 0x56, 0x78, 0x48, 0x65, 0x6C, 0x6C, 0x6F] :: bytes"
  let ?msg = "IcmpEchoMsg ip_pair_in 8 0x1234 0x5678 [0x48, 0x65, 0x6C, 0x6C, 0x6F]"
  let ?r = "create_icmp_reply ?msg"
  let ?e = "[0, 0, 0x73, 0x81, 0x12, 0x34, 0x56, 0x78, 0x48, 0x65, 0x6C, 0x6C, 0x6F] :: bytes"
  have "parse_icmp ?request ip_pair_in = Inr ?msg"
    by (simp add: parse_icmp_def parse_compute)
  moreover have e: "icmp_encoding ?r = ?e"
    by (simp add: icmp_encoding_def icmp_bytes_def create_icmp_reply_def u16_to_be_bytes_def nat_be_2
        calculate_compute ones_sum_def)
  then have "write_icmp ?r (replicate 1480 0) = Inr (?e @ replicate (1480 - length ?e) 0)"
    using icmp.writes_encoding [of ?r "replicate 1480 0"] by (simp del: length_icmp_encoding)
  note write_behind_header_encoding [of "write_icmp ?r" ?e, OF this]
  moreover have "icmp_proto_len ?r = Inr 13"
    using icmp.proto_len_fits [of ?r] e by (simp del: length_icmp_encoding)
  moreover have "calculate ?e = 0" by (simp add: calculate_compute ones_sum_def)
  moreover have "icmp_ip_pair ?r = ip_swapped ip_pair_in" by (simp add: create_icmp_reply_def)
  ultimately show ?thesis by (simp add: icmp_creates_valid_echo_reply_def nth_append)
qed

section \<open>UDP\<close>

definition hello_datagram :: bytes where
  "hello_datagram = [0x04, 0xD2, 0x00, 0x35, 0x00, 0x10, 0xA1, 0xB0, 0x48, 0x65, 0x6C, 0x6C, 0x6F, 0x21, 0x21, 0x21]"

definition udp_parses_valid_datagram :: "unit result" where
  "udp_parses_valid_datagram =
     and_then (parse_udp hello_datagram ip_pair_in) (\<lambda>dgram.
     in_order [assert_eq (udp_ports dgram) (PortPair 1234 53), assert_eq (udp_payload dgram) (map of_char ''Hello!!!'')])"

definition udp_fails_when_too_short :: "unit result" where
  "udp_fails_when_too_short = assert_err_with [''Too short''] (parse_udp [0x04, 0xD2, 0x00] ip_pair_in)"

definition udp_fails_on_invalid_nonzero_checksum :: "unit result" where
  "udp_fails_on_invalid_nonzero_checksum =
     assert_err_with [''checksum''] (parse_udp [0x04, 0xD2, 0x00, 0x35, 0x00, 0x10, 0xBE, 0xEF,
       0x48, 0x65, 0x6C, 0x6C, 0x6F, 0x21, 0x21, 0x21] ip_pair_in)"

definition udp_accepts_zero_checksum :: "unit result" where
  "udp_accepts_zero_checksum =
     and_then (parse_udp [0x04, 0xD2, 0x00, 0x35, 0x00, 0x10, 0x00, 0x00,
       0x48, 0x65, 0x6C, 0x6C, 0x6F, 0x21, 0x21, 0x21] ip_pair_in) (\<lambda>dgram.
     in_order [assert_eq (udp_ports dgram) (PortPair 1234 53), assert_eq (udp_payload dgram) (map of_char ''Hello!!!'')])"

definition udp_handles_empty_payload :: "unit result" where
  "udp_handles_empty_payload =
     and_then (parse_udp [0x1F, 0x90, 0x00, 0x50, 0x00, 0x08, 0xCB, 0xFB] ip_pair_in) (\<lambda>dgram.
     in_order [assert_eq (udp_ports dgram) (PortPair 8080 80), assert_eq (length (udp_payload dgram)) 0])"

definition udp_extracts_ports_correctly :: "unit result" where
  "udp_extracts_ports_correctly =
     and_then (parse_udp [0xFF, 0xFF, 0x00, 0x01, 0x00, 0x0C, 0x03, 0xF9, 0x74, 0x65, 0x73, 0x74] ip_pair_in) (\<lambda>dgram.
     assert_eq (udp_ports dgram) (PortPair 65535 1))"

definition udp_transmits_all_ones :: "unit result" where
  "udp_transmits_all_ones =
     (let dgram = UdpDatagram ip_pair_out (PortPair 1234 80) [0xE6, 0xB5] in
      and_then (write_udp dgram (replicate 1500 0)) (\<lambda>buf.
      assert_eq (take 2 (drop 6 buf)) [0xFF, 0xFF]))"

definition udp_creates_valid_echo_reply :: "unit result" where
  "udp_creates_valid_echo_reply =
     and_then (parse_udp hello_datagram ip_pair_in) (\<lambda>dgram.
     let (_, reply) = create_udp_reply test_app () dgram in
     and_then (write_behind_header (write_udp reply) (replicate 1500 0)) (\<lambda>reply_buf.
     and_then (udp_proto_len reply) (\<lambda>proto_len.
     and_then (pseudo_hdr_cksum (take 16 (drop 20 reply_buf)) ip_pair_in Udp) (\<lambda>cksum.
     in_order
       [assert_eq (udp_ip_pair reply) (ip_swapped ip_pair_in),
        assert_eq (take 2 (drop 20 reply_buf)) [0x00, 0x35], assert_eq (take 2 (drop 22 reply_buf)) [0x04, 0xD2],
        assert_eq (take 2 (drop 24 reply_buf)) [0x00, 0x10],
        assert_eq (take 8 (drop 28 reply_buf)) (map of_char ''Hello!!!''), assert_eq proto_len (8 + 8),
        assert_eq cksum 0]))))"

definition udp_reply_is_what_the_application_returns :: "unit result" where
  "udp_reply_is_what_the_application_returns =
     and_then (parse_udp hello_datagram ip_pair_in) (\<lambda>dgram.
     let (_, reply) = create_udp_reply shouting_test_app () dgram in
     assert_eq (udp_payload reply) (map of_char ''HELLO!!!''))"

lemmas udp_compute = parse_compute pseudo_hdr_cksum_fits pseudo_header_def ip_pair_in_def u16_to_be_bytes_def nat_be_2

lemma parse_hello: "parse_udp hello_datagram ip_pair_in =
    Inr (UdpDatagram ip_pair_in (PortPair 1234 53) (map of_char ''Hello!!!''))"
  by (simp add: parse_udp_def hello_datagram_def udp_compute)

lemma udp_hello_tests_pass:
  "list_all passes [udp_parses_valid_datagram, udp_reply_is_what_the_application_returns]"
  by (simp add: udp_parses_valid_datagram_def parse_hello udp_reply_is_what_the_application_returns_def
      create_udp_reply_def shouting_test_app_def to_ascii_uppercase_def)

lemma udp_parser_tests_pass:
  "list_all passes [udp_fails_when_too_short, udp_fails_on_invalid_nonzero_checksum,
     udp_accepts_zero_checksum, udp_handles_empty_payload, udp_extracts_ports_correctly]"
  by (simp add: udp_fails_when_too_short_def udp_fails_on_invalid_nonzero_checksum_def
      udp_accepts_zero_checksum_def udp_handles_empty_payload_def udp_extracts_ports_correctly_def
      parse_udp_def udp_compute)

lemma udp_all_ones_test_passes: "passes udp_transmits_all_ones"
proof -
  let ?d = "UdpDatagram ip_pair_out (PortPair 1234 80) [0xE6, 0xB5]"
  have "udp_encoding ?d = [4, 210, 0, 80, 0, 10, 255, 255, 0xE6, 0xB5]"
    by (simp add: udp_encoding_def udp_checksum_def udp_bytes_def ip_pair_out_def ip_swapped_def udp_compute)
  then have "write_udp ?d (replicate 1500 0) =
      Inr ([4, 210, 0, 80, 0, 10, 255, 255, 0xE6, 0xB5] @ replicate 1490 0)"
    using udp.writes_encoding [of ?d "replicate 1500 0"] by (simp del: length_udp_encoding)
  then show ?thesis by (simp add: udp_transmits_all_ones_def)
qed

lemma udp_reply_test_passes: "passes udp_creates_valid_echo_reply"
proof -
  let ?r = "UdpDatagram (ip_swapped ip_pair_in) (PortPair 53 1234) (map of_char ''Hello!!!'') :: dir_out udp_datagram"
  let ?e = "[0x00, 0x35, 0x04, 0xD2, 0x00, 0x10, 0xA1, 0xB0, 0x48, 0x65, 0x6C, 0x6C, 0x6F, 0x21, 0x21, 0x21] :: bytes"
  have r: "create_udp_reply test_app () (UdpDatagram ip_pair_in (PortPair 1234 53) (map of_char ''Hello!!!'')) = ((), ?r)"
    by (simp add: create_udp_reply_def test_app_def port_swapped_def)
  have e: "udp_encoding ?r = ?e"
    by (simp add: udp_encoding_def udp_checksum_def udp_bytes_def ip_swapped_def udp_compute)
  then have "write_udp ?r (replicate 1480 0) = Inr (?e @ replicate (1480 - length ?e) 0)"
    using udp.writes_encoding [of ?r "replicate 1480 0"] by (simp del: length_udp_encoding)
  note write_behind_header_encoding [of "write_udp ?r" ?e, OF this]
  moreover have "udp_proto_len ?r = Inr 16"
    using udp.proto_len_fits [of ?r] e by (simp del: length_udp_encoding)
  moreover have "pseudo_hdr_cksum ?e ip_pair_in Udp = Inr 0" by (simp add: udp_compute)
  ultimately show ?thesis by (simp add: udp_creates_valid_echo_reply_def parse_hello r [simplified])
qed

section \<open>Display\<close>

text \<open>\<open>limit\<close> stands for the type: \<open>2^16\<close> for \<open>u16\<close>, \<open>2^32\<close> for \<open>u32\<close>.\<close>

definition comma_round_trip :: "nat \<Rightarrow> string \<Rightarrow> string + string" where
  "comma_round_trip limit s =
     map_sum id thousands_separated (parse_unsigned limit (filter (\<lambda>c. c \<noteq> CHR '','') s))"

text \<open>The error of \<open>?\<close> here is \<open>ParseIntError\<close>; any of them fails the test.\<close>

definition assert_round_trips :: "nat \<Rightarrow> string \<Rightarrow> unit result" where
  "assert_round_trips limit s =
     (case comma_round_trip limit s of Inl e \<Rightarrow> Inl (Err (Dynamic e)) | Inr t \<Rightarrow> assert_eq s t)"

definition separates_all_widths :: "unit result" where
  "separates_all_widths =
     in_order
       [for_each [''65,535'', ''4,321'', ''321'', ''21'', ''1'', ''0''] (assert_round_trips 65536),
        for_each [''4,294,967,295'', ''987,654,321'', ''87,654,321'', ''7,654,321'', ''654,321'', ''54,321'',
          ''4,321'', ''321'', ''21'', ''1'', ''0''] (assert_round_trips 4294967296)]"

definition handles_trailing_and_internal_zeros :: "unit result" where
  "handles_trailing_and_internal_zeros =
     in_order
       [for_each [''60,000'', ''60,001'', ''4,000'', ''4,001'', ''300'', ''301'', ''20''] (assert_round_trips 65536),
        for_each [''4,000,000,000'', ''4,000,000,001'', ''900,000,000'', ''900,000,001'', ''80,000,000'',
          ''80,000,001'', ''4,000'', ''4,001'', ''300'', ''301'', ''20''] (assert_round_trips 4294967296)]"

lemma digit_chars:
  "char_of (48 :: nat) = CHR ''0''" "char_of (49 :: nat) = CHR ''1''" "char_of (50 :: nat) = CHR ''2''"
  "char_of (51 :: nat) = CHR ''3''" "char_of (52 :: nat) = CHR ''4''" "char_of (53 :: nat) = CHR ''5''"
  "char_of (54 :: nat) = CHR ''6''" "char_of (55 :: nat) = CHR ''7''" "char_of (56 :: nat) = CHR ''8''"
  "char_of (57 :: nat) = CHR ''9''"
  by (simp_all add: char_eval)

lemma replicate_two: "replicate 2 c = [c, c]"
  by (simp add: numeral_2_eq_2)

lemma display_tests_pass: "list_all passes [separates_all_widths, handles_trailing_and_internal_zeros]"
  by (simp add: separates_all_widths_def handles_trailing_and_internal_zeros_def assert_round_trips_def
      comma_round_trip_def parse_unsigned_def digit_value_def thousands_separated.simps show_padded_def show_nat.simps
      digit_chars replicate_two)

section \<open>The server's application\<close>

text \<open>Whether the \<open>Cow\<close> that \<open>handle_udp\<close> returns borrows its payload is not in the model.\<close>

definition echo_udp_echoes :: "unit result" where
  "echo_udp_echoes = assert_eq (snd (server_app_udp Echo (map of_char ''Hello!!!''))) (map of_char ''Hello!!!'')"

definition echo_tcp_appends_data :: "unit result" where
  "echo_tcp_appends_data =
     assert_eq (map of_char ''Hello'' @ snd (server_app_tcp Echo (map of_char ''World''))) (map of_char ''HelloWorld'')"

definition shout_udp_capitalizes :: "unit result" where
  "shout_udp_capitalizes = assert_eq (snd (server_app_udp Shout (map of_char ''Hello!!!''))) (map of_char ''HELLO!!!'')"

definition shout_tcp_appends_capitalized_data :: "unit result" where
  "shout_tcp_appends_capitalized_data =
     assert_eq (map of_char ''Hello'' @ snd (server_app_tcp Shout (map of_char ''World''))) (map of_char ''HelloWORLD'')"

lemma server_app_tests_pass:
  "list_all passes [echo_udp_echoes, echo_tcp_appends_data, shout_udp_capitalizes,
     shout_tcp_appends_capitalized_data]"
  by (simp add: echo_udp_echoes_def echo_tcp_appends_data_def shout_udp_capitalizes_def
      shout_tcp_appends_capitalized_data_def to_ascii_uppercase_def)

end
