(* ===== verification/Tests_Tcp.thy ===== *)
theory Tests_Tcp
  imports Assertions Reassembly Pending_Segment
begin

text \<open>
  The unit tests beside \<open>stack/src/protocol/tcp/seq_space.rs\<close>, \<open>flags.rs\<close>, \<open>payload.rs\<close>,
  \<open>pending_segment.rs\<close> and \<open>reassembly.rs\<close>, with the constructors that only they use.
\<close>

section \<open>Sequence number space\<close>

definition point_const_add :: "'d seq_point \<Rightarrow> (u32, 'd) seq_offset \<Rightarrow> 'd seq_point" where
  "point_const_add self rhs = SeqPoint (wrapping self + offset rhs)"

definition point_const_sub :: "'d seq_point \<Rightarrow> (u32, 'd) seq_offset \<Rightarrow> 'd seq_point" where
  "point_const_sub self rhs = SeqPoint (wrapping self - offset rhs)"

definition offset_const_add :: "(u32, 'd) seq_offset \<Rightarrow> (u32, 'd) seq_offset \<Rightarrow> (u32, 'd) seq_offset" where
  "offset_const_add self rhs = SeqOffset (offset self + offset rhs)"

definition point_sub :: "'d seq_point \<Rightarrow> (u32, 'd) seq_offset \<Rightarrow> 'd seq_point" where
  "point_sub self rhs = SeqPoint (wrapping self - offset rhs)"

definition offset_add :: "(u32, 'd) seq_offset \<Rightarrow> (u32, 'd) seq_offset \<Rightarrow> (u32, 'd) seq_offset" where
  "offset_add self rhs = SeqOffset (offset self + offset rhs)"

lemma point_const_add [simp]: "point_const_add p n = seq_add p n"
  by (simp add: point_const_add_def seq_add_def)

lemma point_sub_add [simp]: "seq_add (point_sub p n) n = p" "point_sub (seq_add p n) n = p"
  by (simp_all add: point_sub_def seq_add_def)

lemma offset_add_add: "seq_add (seq_add p m) n = seq_add p (offset_add m n)"
  by (simp add: offset_add_def seq_add_def add.assoc)

definition seq_point_equality :: "unit result" where
  "seq_point_equality =
     for_each (map SeqPoint [0, 1, 42, 2 ^ 31, 0xFFFFFFFF] :: dir_out seq_point list) (\<lambda>num. assert_eq num num)"

definition seq_comparison_is_not_transitive :: "unit result" where
  "seq_comparison_is_not_transitive =
     (let a = SeqPoint 0 :: dir_out seq_point; b = SeqPoint 0x60000000; c = SeqPoint 0xC0000000
      in in_order [assert_that (precedes a b), assert_that (precedes b c), assert_that (\<not> precedes a c)])"

definition seq_agrees_with_linear_comparison :: "unit result" where
  "seq_agrees_with_linear_comparison =
     for_each [(0, 1), (42, 2 ^ 31), (0xBEEFCAFE, 0xCAFEBEEF)] (\<lambda>(prim_left, prim_right).
       let seq_left = SeqPoint prim_left :: dir_out seq_point; seq_right = SeqPoint prim_right
       in in_order [assert_that (precedes seq_left seq_right), assert_that (prim_left < prim_right),
            assert_that (\<not> precedes seq_right seq_left), assert_that (\<not> prim_right < prim_left)])"

definition seq_differs_from_linear_comparison :: "unit result" where
  "seq_differs_from_linear_comparison =
     for_each [(0xFFFFFFFF, 0), (2 ^ 31 + 42, 1), (0xBAADD00D, 0xD00D)] (\<lambda>(prim_left, prim_right).
       let seq_left = SeqPoint prim_left :: dir_out seq_point; seq_right = SeqPoint prim_right
       in in_order [assert_that (precedes seq_left seq_right), assert_that (\<not> prim_left < prim_right),
            assert_that (\<not> precedes seq_right seq_left), assert_that (prim_right < prim_left)])"

definition seq_antipode_comparisons :: "unit result" where
  "seq_antipode_comparisons =
     (let num = SeqPoint 42 :: dir_out seq_point;
          antipode = point_const_add num (SeqOffset (2 ^ 31));
          farthest_greater = point_const_sub antipode (SeqOffset 1);
          farthest_less = point_const_add antipode (SeqOffset 1)
      in in_order
           [assert_that (precedes num farthest_greater \<and> \<not> precedes farthest_greater num),
            assert_that (precedes farthest_less num \<and> \<not> precedes num farthest_less),
            assert_that (precedes num antipode \<and> precedes antipode num)])"

definition seq_sub_zero_when_equal :: "unit result" where
  "seq_sub_zero_when_equal =
     for_each [0, 42, 0xFFFFFFFF] (\<lambda>primitive.
       assert_eq (seq_sub (SeqPoint primitive :: dir_out seq_point) (SeqPoint primitive)) (SeqOffset 0))"

definition seq_sub_i32_min_for_antipodes :: "unit result" where
  "seq_sub_i32_min_for_antipodes =
     for_each [(0, 2 ^ 31), (42, 2 ^ 31 + 42), (0xFFFFFFFF, 2 ^ 31 - 1)] (\<lambda>(x, y).
       let a = SeqPoint x :: dir_out seq_point; b = SeqPoint y
       in in_order [assert_eq (seq_sub a b) (SeqOffset (-(2 ^ 31))), assert_eq (seq_sub b a) (SeqOffset (-(2 ^ 31)))])"

text \<open>\<open>(1i32 << 31).wrapping_sub(42)\<close> wraps to \<open>2^31 - 42\<close>, \<open>42i32.wrapping_sub(1 << 31)\<close> to \<open>42 - 2^31\<close>.\<close>

definition seq_sub_positive :: "unit result" where
  "seq_sub_positive =
     for_each [(140, 100, 40), (0, 0xFFFFFFFF, 1), (2 ^ 31, 42, sint (2 ^ 31 - 42 :: 32 word))]
       (\<lambda>(later, earlier, expected).
         assert_eq (seq_sub (SeqPoint later :: dir_out seq_point) (SeqPoint earlier)) (SeqOffset expected))"

definition seq_sub_negative :: "unit result" where
  "seq_sub_negative =
     for_each [(100, 140, -40), (0xFFFFFFFF, 0, -1), (42, 2 ^ 31, sint (42 - 2 ^ 31 :: 32 word))]
       (\<lambda>(earlier, later, expected).
         assert_eq (seq_sub (SeqPoint earlier :: dir_out seq_point) (SeqPoint later)) (SeqOffset expected))"

definition window_true_at_start :: "unit result" where
  "window_true_at_start = assert_that (in_window (SeqPoint 100 :: dir_out seq_point) (SeqPoint 100) (SeqOffset 10))"

definition window_true_in_middle :: "unit result" where
  "window_true_in_middle = assert_that (in_window (SeqPoint 105 :: dir_out seq_point) (SeqPoint 100) (SeqOffset 10))"

definition window_true_at_last_point :: "unit result" where
  "window_true_at_last_point = assert_that (in_window (SeqPoint 109 :: dir_out seq_point) (SeqPoint 100) (SeqOffset 10))"

definition window_false_at_end :: "unit result" where
  "window_false_at_end = assert_that (\<not> in_window (SeqPoint 110 :: dir_out seq_point) (SeqPoint 100) (SeqOffset 10))"

definition window_false_before_start :: "unit result" where
  "window_false_before_start = assert_that (\<not> in_window (SeqPoint 99 :: dir_out seq_point) (SeqPoint 100) (SeqOffset 10))"

definition window_handles_wraparound :: "unit result" where
  "window_handles_wraparound =
     (let start = SeqPoint (0xFFFFFFFF - 4) :: dir_out seq_point; len = SeqOffset 10
      in in_order [assert_that (in_window (SeqPoint 2) start len), assert_that (\<not> in_window (SeqPoint 6) start len)])"

lemma seq_space_tests_pass:
  "list_all passes [seq_point_equality, seq_comparison_is_not_transitive, seq_agrees_with_linear_comparison,
     seq_differs_from_linear_comparison, seq_antipode_comparisons, seq_sub_zero_when_equal,
     seq_sub_i32_min_for_antipodes, seq_sub_positive, seq_sub_negative, window_true_at_start,
     window_true_in_middle, window_true_at_last_point, window_false_at_end, window_false_before_start,
     window_handles_wraparound]"
  by code_simp

section \<open>Flags\<close>

definition flags_round_trips_all_variants :: "unit result" where
  "flags_round_trips_all_variants =
     for_each [(Syn, 0b00000010), (SynAck, 0b00010010), (Ack, 0b00010000), (FinAck, 0b00010001),
               (Rst, 0b00000100), (RstAck, 0b00010100)] (\<lambda>(flags, byte).
       in_order [assert_eq (flags_to_u8 flags) byte, assert_eq (flags_try_from byte) (Inr flags)])"

definition flags_masks_off_irrelevant_bits :: "unit result" where
  "flags_masks_off_irrelevant_bits = assert_eq (flags_try_from 0b11101010) (Inr Syn)"

definition flags_errors_on_invalid_combinations :: "unit result" where
  "flags_errors_on_invalid_combinations =
     in_order (map (\<lambda>b. assert_err (flags_try_from b)) [0b00000000, 0b00000001, 0b00000011])"

lemma flags_tests_pass:
  "list_all passes [flags_round_trips_all_variants, flags_masks_off_irrelevant_bits,
     flags_errors_on_invalid_combinations]"
  by code_simp

section \<open>Payloads\<close>

definition from_test_str :: "string \<Rightarrow> tcp_payload option result" where
  "from_test_str s = try_from_iter (map of_char s)"

text \<open>\<open>MAX_ARRAY\<close>: 65535 times the letter H.\<close>

definition max_array :: bytes where
  "max_array = replicate 65535 (of_char (CHR ''H''))"

text \<open>\<open>NonZeroU16::try_from\<close> fails on zero.\<close>

definition non_zero_u16 :: "u16 \<Rightarrow> u16 result" where
  "non_zero_u16 n = (if n = 0 then Inl (Err TryFromInt) else Inr n)"

definition payload_valid_when_length_in_range :: "unit result" where
  "payload_valid_when_length_in_range =
     for_each [map of_char ''H'', map of_char ''Hello'', max_array] (\<lambda>data.
       and_then (u16_try_from (length data)) (\<lambda>n.
       and_then (non_zero_u16 n) (\<lambda>len.
       assert_eq (try_from_iter data) (Inr (Some \<lparr>payload_data = data, payload_len = len\<rparr>)))))"

definition payload_ok_none_for_empty :: "unit result" where
  "payload_ok_none_for_empty = assert_eq (try_from_iter []) (Inr None)"

definition payload_err_for_too_large :: "unit result" where
  "payload_err_for_too_large =
     assert_err_with [''longer than''] (try_from_iter (max_array @ map of_char ''e''))"

lemma payload_valid_test:
  "passes (payload_valid_when_length_in_range)"
proof -
  have "try_from_iter data = Inr (Some \<lparr>payload_data = data, payload_len = word_of_nat (length data)\<rparr>) \<and>
      word_of_nat (length data) \<noteq> (0 :: u16)"
    if "0 < length data" "length data < 65536" for data
    using that try_from_iter_fits [of data] unat_of_nat_small [of "length data", where 'a = 16] by auto
  then have "passes (and_then (u16_try_from (length data)) (\<lambda>n. and_then (non_zero_u16 n) (\<lambda>len.
      assert_eq (try_from_iter data) (Inr (Some \<lparr>payload_data = data, payload_len = len\<rparr>)))))"
    if "0 < length data" "length data < 65536" for data
    using that by (simp add: u16_try_from_def non_zero_u16_def)
  moreover have "\<forall>data \<in> set [map of_char ''H'', map of_char ''Hello'', max_array].
      0 < length data \<and> length data < 65536"
    by (simp add: max_array_def)
  ultimately show ?thesis unfolding payload_valid_when_length_in_range_def passes_for_each by blast
qed

lemma payload_too_large_test: "passes payload_err_for_too_large"
proof -
  have len: "length (max_array @ map of_char ''e'') = 65536" by (simp add: max_array_def)
  have "try_from_iter data = Inl (Err (Static
      ''Attempted to create a `TcpPayload` from an iterator longer than `u16::MAX`''))"
    if "length data = 65536" for data
    using that by (cases data) (simp_all add: try_from_iter_def u16_try_from_def Let_def)
  from this [OF len] show ?thesis by (simp add: payload_err_for_too_large_def)
qed

lemma payload_none_test: "passes payload_ok_none_for_empty"
  by code_simp

section \<open>Pending segments\<close>

text \<open>\<open>Instant + Duration\<close> panics on overflow. Each reading of the clock is a parameter.\<close>

definition instant_plus :: "instant \<Rightarrow> duration \<Rightarrow> instant result" where
  "instant_plus t d = (case checked_add_instant t d of None \<Rightarrow> Inl Panic | Some u \<Rightarrow> Inr u)"

definition pending_test_info :: "tcp_payload option \<Rightarrow> send_info" where
  "pending_test_info p = \<lparr>info_seq_num = SeqPoint 42, info_ack_num = SeqPoint 24, info_flags = Ack, info_payload = p\<rparr>"

definition pending_clamps_rto :: "instant \<Rightarrow> instant \<Rightarrow> unit result" where
  "pending_clamps_rto now later =
     and_then (from_test_str ''Hello'') (\<lambda>hello.
     let pend = pending_new (pending_test_info hello) now in
     and_then (instant_plus now (10 * 1000000000)) (\<lambda>expected.
     and_then (assert_eq (time_due later \<lparr>rto_initial = duration_max, rto_min = 0, rto_max = 10 * 1000000000\<rparr> pend)
       expected) (\<lambda>_.
     and_then (instant_plus now (2 * 1000000000)) (\<lambda>expected.
     assert_eq (time_due later \<lparr>rto_initial = 0, rto_min = 2 * 1000000000, rto_max = duration_max\<rparr> pend)
       expected))))"

definition pending_due_now_on_overflow :: "instant \<Rightarrow> instant \<Rightarrow> instant \<Rightarrow> unit result" where
  "pending_due_now_on_overflow created fallback now =
     and_then (from_test_str ''Hello'') (\<lambda>hello.
     assert_that (time_due fallback \<lparr>rto_initial = duration_max, rto_min = 0, rto_max = duration_max\<rparr>
       (pending_new (pending_test_info hello) created) \<le> now))"

lemma from_test_str_hello: "from_test_str ''Hello'' =
    Inr (Some \<lparr>payload_data = [72, 101, 108, 108, 111], payload_len = 5\<rparr>)"
  by (simp add: from_test_str_def try_from_iter_fits)

lemma pending_clamps_rto_passes:
  assumes "now + 10 * 1000000000 \<le> instant_max"
  shows "passes (pending_clamps_rto now later)"
proof -
  have "clamp (saturating_mul duration_max (saturating_pow_2 0)) 0 (10 * 1000000000) = 10 * 1000000000"
    "clamp (saturating_mul 0 (saturating_pow_2 0)) (2 * 1000000000) duration_max = 2 * 1000000000"
    by (simp_all add: clamp_def saturating_mul_def saturating_pow_2_def duration_max_def)
  then show ?thesis
    using assms
    by (simp add: pending_clamps_rto_def from_test_str_hello instant_plus_def checked_add_instant_def Let_def
        time_due_def retransmission_timeout_def pending_new_def)
qed

lemma pending_due_now_on_overflow_passes:
  assumes "fallback \<le> now"
  shows "passes (pending_due_now_on_overflow created fallback now)"
proof -
  have "clamp (saturating_mul duration_max (saturating_pow_2 0)) 0 duration_max = duration_max"
    by (simp add: clamp_def saturating_mul_def saturating_pow_2_def)
  moreover have "instant_max < created + duration_max" by (simp add: instant_max_def duration_max_def)
  ultimately show ?thesis
    using assms
    by (simp add: pending_due_now_on_overflow_def from_test_str_hello checked_add_instant_def
        time_due_def retransmission_timeout_def pending_new_def)
qed

section \<open>Reassembly\<close>

definition reassembly_len :: "tcp_reassembly \<Rightarrow> nat" where
  "reassembly_len self = length (segments self)"

definition test_payload :: "string \<Rightarrow> tcp_payload result" where
  "test_payload s = and_then (from_test_str s) (\<lambda>opt. ok_or opt (Static ''Test payload must not be empty''))"

text \<open>One call of \<open>next\<close> on the iterator of \<open>drain_contiguous\<close>.\<close>

definition drain_next ::
    "dir_in seq_point \<Rightarrow> tcp_reassembly \<Rightarrow> tcp_payload option \<times> dir_in seq_point \<times> tcp_reassembly" where
  "drain_next rcv_nxt self =
     (let (found, kept) = extract_contiguous rcv_nxt (segments self)
      in (found, case found of None \<Rightarrow> rcv_nxt | Some p \<Rightarrow> seq_add rcv_nxt (offset_from_len (payload_len p)),
          self\<lparr>segments := kept\<rparr>))"

definition drains_segment_starting_at_rcv_nxt :: "unit result" where
  "drains_segment_starting_at_rcv_nxt =
     (let rcv_nxt = SeqPoint 100; expected_rcv_next = seq_add rcv_nxt (SeqOffset 3) in
      and_then (test_payload ''abc'') (\<lambda>p.
      let r = reassembly_insert rcv_nxt p reassembly_new;
          (out, rcv_nxt, r) = drain_contiguous rcv_nxt r
      in in_order [assert_eq out [p], assert_eq rcv_nxt expected_rcv_next, assert_eq (reassembly_len r) 0]))"

definition does_not_drain_when_gap_remains :: "unit result" where
  "does_not_drain_when_gap_remains =
     (let rcv_nxt = SeqPoint 100; expected_rcv_nxt = rcv_nxt in
      and_then (test_payload ''later'') (\<lambda>p.
      let r = reassembly_insert (seq_add rcv_nxt (SeqOffset 3)) p reassembly_new;
          (out, rcv_nxt, r) = drain_next rcv_nxt r
      in in_order [assert_eq out None, assert_eq rcv_nxt expected_rcv_nxt, assert_eq (reassembly_len r) 1]))"

definition drains_multiple_once_gap_closes :: "unit result" where
  "drains_multiple_once_gap_closes =
     and_then (test_payload ''pay'') (\<lambda>pay.
     and_then (test_payload ''load'') (\<lambda>load.
     let rcv_nxt = SeqPoint 100;
         expected_rcv_nxt = seq_add rcv_nxt (SeqOffset 7);
         r = reassembly_insert (seq_add rcv_nxt (SeqOffset 3)) load reassembly_new;
         r = reassembly_insert rcv_nxt pay r;
         (out, rcv_nxt, r) = drain_contiguous rcv_nxt r
     in in_order [assert_eq out [pay, load], assert_eq rcv_nxt expected_rcv_nxt, assert_eq (reassembly_len r) 0]))"

definition discards_segment_before_rcv_nxt :: "unit result" where
  "discards_segment_before_rcv_nxt =
     (let rcv_nxt = SeqPoint 100; expected_rcv_nxt = rcv_nxt in
      and_then (test_payload ''stale'') (\<lambda>p.
      let r = reassembly_insert (SeqPoint 90) p reassembly_new;
          (out, rcv_nxt, r) = drain_next rcv_nxt r
      in in_order [assert_eq out None, assert_eq rcv_nxt expected_rcv_nxt, assert_eq (reassembly_len r) 0]))"

definition keeps_longer_segment :: "unit result" where
  "keeps_longer_segment =
     and_then (test_payload ''longer'') (\<lambda>longer.
     and_then (test_payload ''short'') (\<lambda>short.
     let seq = SeqPoint 100;
         r = reassembly_insert seq short (reassembly_insert seq longer reassembly_new);
         (out, seq, r) = drain_contiguous seq r
     in assert_eq out [longer]))"

definition replaces_shorter_segment :: "unit result" where
  "replaces_shorter_segment =
     and_then (test_payload ''longer'') (\<lambda>longer.
     and_then (test_payload ''short'') (\<lambda>short.
     let seq = SeqPoint 100;
         r = reassembly_insert seq longer (reassembly_insert seq short reassembly_new);
         (out, seq, r) = drain_contiguous seq r
     in assert_eq out [longer]))"

definition fin_not_reached_when_no_fin_marked :: "unit result" where
  "fin_not_reached_when_no_fin_marked = assert_that (\<not> fin_reached (SeqPoint 100) reassembly_new)"

definition fin_not_reached_before_rcv_nxt_catches_up :: "unit result" where
  "fin_not_reached_before_rcv_nxt_catches_up =
     assert_that (\<not> fin_reached (SeqPoint 100) (mark_fin (SeqPoint 107) reassembly_new))"

definition fin_reached_once_rcv_nxt_catches_up :: "unit result" where
  "fin_reached_once_rcv_nxt_catches_up =
     assert_that (fin_reached (SeqPoint 107) (mark_fin (SeqPoint 107) reassembly_new))"

definition fin_reached_after_draining :: "unit result" where
  "fin_reached_after_draining =
     and_then (test_payload ''pay'') (\<lambda>pay.
     and_then (test_payload ''load'') (\<lambda>load.
     let rcv_nxt = SeqPoint 100;
         fin_rcv_nxt = seq_add rcv_nxt (SeqOffset 7);
         r = mark_fin fin_rcv_nxt (reassembly_insert (seq_add rcv_nxt (SeqOffset 3)) load reassembly_new)
     in and_then (assert_that (\<not> fin_reached rcv_nxt r)) (\<lambda>_.
        let r = reassembly_insert rcv_nxt pay r;
            (out, rcv_nxt, r) = drain_contiguous rcv_nxt r
        in in_order [assert_eq out [pay, load], assert_that (fin_reached fin_rcv_nxt r)])))"

lemma test_payload_eq: "s \<noteq> [] \<Longrightarrow> length s < 65536 \<Longrightarrow>
    test_payload s = Inr \<lparr>payload_data = map of_char s, payload_len = word_of_nat (length s)\<rparr>"
  by (simp add: test_payload_def from_test_str_def try_from_iter_fits)

text \<open>The iterator's first element is the head of what it yields to the end.\<close>

lemma drain_next_contiguous:
  "drain_next rcv_nxt r = (None, rcv_nxt', r') \<longleftrightarrow> drain_contiguous rcv_nxt r = ([], rcv_nxt', r')"
  by (auto simp: drain_next_def drain_contiguous_def drain_segments.simps [of rcv_nxt "segments r"] Let_def
      split: prod.splits option.splits)

lemma reassembly_tests_pass:
  "list_all passes [drains_segment_starting_at_rcv_nxt, does_not_drain_when_gap_remains,
     drains_multiple_once_gap_closes, discards_segment_before_rcv_nxt, keeps_longer_segment,
     replaces_shorter_segment, fin_not_reached_when_no_fin_marked,
     fin_not_reached_before_rcv_nxt_catches_up, fin_reached_once_rcv_nxt_catches_up, fin_reached_after_draining]"
  by (simp add: drains_segment_starting_at_rcv_nxt_def does_not_drain_when_gap_remains_def
      drains_multiple_once_gap_closes_def discards_segment_before_rcv_nxt_def keeps_longer_segment_def
      replaces_shorter_segment_def fin_not_reached_when_no_fin_marked_def
      fin_not_reached_before_rcv_nxt_catches_up_def fin_reached_once_rcv_nxt_catches_up_def
      fin_reached_after_draining_def test_payload_eq reassembly_insert_def reassembly_new_def
      drain_contiguous_def drain_next_def drain_segments.simps mark_fin_def fin_reached_def reassembly_len_def
      seq_add_def offset_from_len_def precedes_or_eq_def precedes_def seq_sub_def Let_def)

end
