(* ===== verification/Tests_Engine.thy ===== *)
theory Tests_Engine
  imports Fixtures
begin

text \<open>
  The unit tests beside \<open>stack/src/engine.rs\<close>. Each reading of the clock a test takes is a parameter,
  constrained where the test relies on it; what \<open>/dev/urandom\<close> returns is \<open>entropy\<close>.
\<close>

definition one_year_grace_period :: duration where
  "one_year_grace_period = 24 * 365 * 3600 * 1000000000"

definition test_engine :: "tcp_connections \<Rightarrow> unit engine" where
  "test_engine conns = engine_test_new () conns one_year_grace_period"

section \<open>Packets\<close>

definition ipv4_parse_error_is_skipped :: "instant \<Rightarrow> bytes \<Rightarrow> unit result" where
  "ipv4_parse_error_is_skipped now entropy =
     assert_err_with [''Skipping packet'', ''IPv4'']
       (snd (handle_packet test_app now (Inr entropy) (replicate 5 0) (test_engine connections_default)))"

definition tcp_parse_error_is_skipped :: "instant \<Rightarrow> bytes \<Rightarrow> unit result" where
  "tcp_parse_error_is_skipped now entropy =
     (let buf = replicate 1500 0 in
      and_then (test_try_new_incoming Tcp (seg_ip_pair client_syn) 4) (\<lambda>ipv4_hdr.
      and_then (test_write_into_incoming ipv4_hdr buf) (\<lambda>buf.
      and_then (try_get buf (RangeTo (unat (total_len ipv4_hdr)))) (\<lambda>bs.
      assert_err_with [''Skipping packet'', ''TCP'']
        (snd (handle_packet test_app now (Inr entropy) bs (test_engine connections_default)))))))"

definition syn_produces_a_reply :: "instant \<Rightarrow> bytes \<Rightarrow> unit result" where
  "syn_produces_a_reply now entropy =
     and_then (encode_test_pkt client_syn) (\<lambda>bs.
     and_then (snd (handle_packet test_app now (Inr entropy) bs (test_engine connections_default))) (\<lambda>outcome.
     assert_that (outcome_reply outcome \<noteq> None)))"

definition handshake_ack_produces_no_reply :: "instant \<Rightarrow> instant \<Rightarrow> bytes \<Rightarrow> unit result" where
  "handshake_ack_produces_no_reply before now entropy =
     and_then (encode_test_pkt client_ack_completing_handshake) (\<lambda>bs.
     and_then (snd (handle_packet test_app now (Inr entropy) bs
       (test_engine (with_syn_rcv before connections_default)))) (\<lambda>outcome.
     assert_that (outcome_reply outcome = None)))"

lemmas fixture_defs = client_syn_def client_ack_completing_handshake_def client_pkt_def server_reply_def
  server_syn_ack_def server_fin_ack_initiating_close_def test_key_def client_isn_def server_isn_def ip_pair_in_def

lemma segments_of_key: "key_of client_syn = test_key" "key_of client_ack_completing_handshake = test_key"
    "segment_to test_key \<lparr>info_seq_num = server_isn, info_ack_num = seq_add client_isn syn_byte_in,
       info_flags = SynAck, info_payload = None\<rparr> = server_syn_ack"
    "segment_to test_key \<lparr>info_seq_num = seq_add server_isn syn_byte_out, info_ack_num = seq_add client_isn syn_byte_in,
       info_flags = FinAck, info_payload = None\<rparr> = server_fin_ack_initiating_close"
  by (simp_all add: fixture_defs key_of_def segment_to_def from_pairs_and_info_def)

text \<open>A segment of the client without payload, as a packet that arrives.\<close>

lemma client_packet_arrives:
  assumes "seg_payload s = None" and "seg_offset_bytes s = 20"
  shows "encode_test_pkt s = Inr (encoded_pkt s)"
    and "parse_packet (encoded_pkt s) = Inr (Ipv4Packet (Ipv4Header 40 Tcp (seg_ip_pair s)) (RouterTcp s))"
  using assms encode_test_pkt_eq [of s] parse_encoded_pkt [of s] by (simp_all add: segment_wf_def)

lemma ipv4_parse_error_test_passes: "passes (ipv4_parse_error_is_skipped now entropy)"
proof -
  have "parse_packet (replicate 5 0) = Inl (Err (Dynamic (''Too short for IPv4 header ('' @ show_nat 5 @ '' bytes)'')))"
    by (simp add: parse_packet_def inner_parse_ipv4_def)
  then show ?thesis
    by (simp add: ipv4_parse_error_is_skipped_def handle_packet_def)
qed

lemma tcp_parse_error_test_passes: "passes (tcp_parse_error_is_skipped now entropy)"
proof -
  let ?h = "Ipv4Header 24 Tcp (seg_ip_pair client_syn)"
  let ?b = "ipv4_header_encoding ?h @ replicate 4 0"
  have "test_try_new_incoming Tcp (seg_ip_pair client_syn) 4 = Inr ?h"
    by (simp add: test_try_new_incoming_def inner_try_new_ipv4_def try_add_u16_def)
  moreover have "test_write_into_incoming ?h (replicate 1500 0) = Inr (ipv4_header_encoding ?h @ replicate 1480 0)"
    unfolding test_write_into_incoming_def by (subst inner_write_into_ipv4_eq) simp_all
  moreover have "try_get (ipv4_header_encoding ?h @ replicate 1480 0) (RangeTo 24) = Inr ?b"
    by (simp add: try_get_def in_bounds_def)
  moreover have "parse_packet ?b = Inl (Err (Dynamic (''Too short for TCP header ('' @ show_nat 4 @ '' bytes)'')))"
    by (simp add: parse_packet_def inner_parse_ipv4_encoding inner_parse_tcp_def)
  ultimately show ?thesis
    by (simp add: tcp_parse_error_is_skipped_def handle_packet_def Let_def)
qed

lemma syn_test_passes: "passes (syn_produces_a_reply now entropy)"
proof -
  let ?eng = "test_engine connections_default"
  have s: "seg_payload client_syn = None" "seg_offset_bytes client_syn = 20" "seg_flags client_syn = Syn"
    by (simp_all add: fixture_defs)
  obtain conns' info where d: "decide_reply test_app now (Inr entropy) client_syn (engine_app ?eng, connections ?eng) =
      (((), conns'), Inr (Some info))" and i: "info_payload info = None"
    by (simp add: decide_reply_def test_engine_def engine_test_new_def connections_default_def get_conn_def
        handle_unknown_conn_def s random_u32_def from_syn_ack_def insert_syn_rcv_def Let_def)
  obtain p where "packet_try_from (segment_to (key_of client_syn) info) = Inr p"
    using packet_try_from_fits [of info "key_of client_syn"] i by auto
  then have "snd (handle_packet test_app now (Inr entropy) (encoded_pkt client_syn) ?eng) =
      Inr \<lparr>incoming = Ipv4Packet (Ipv4Header 40 Tcp (seg_ip_pair client_syn)) (RouterTcp client_syn),
           outcome_reply = Some p\<rparr>"
    using handle_packet_tcp [OF client_packet_arrives(2) [OF s(1,2)] _ d, of "\<lambda>_. p"] by (simp add: reply_pairs)
  then show ?thesis by (simp add: syn_produces_a_reply_def client_packet_arrives(1) [OF s(1,2)])
qed

lemma handshake_ack_test_passes: "passes (handshake_ack_produces_no_reply before now entropy)"
proof -
  let ?seg = "client_ack_completing_handshake"
  let ?eng = "test_engine (with_syn_rcv before connections_default)"
  have s: "seg_payload ?seg = None" "seg_offset_bytes ?seg = 20"
    by (simp_all add: fixture_defs)
  obtain conns' where d: "decide_reply test_app now (Inr entropy) ?seg (engine_app ?eng, connections ?eng) =
      (((), conns'), Inr None)"
    by (simp add: decide_reply_def segments_of_key test_engine_def engine_test_new_def with_syn_rcv_def
        with_syn_rcv_and_pkt_last_sent_def handle_known_conn_def handle_syn_rcv_def Let_def split_beta)
       (simp add: fixture_defs seq_add_def precedes_def precedes_or_eq_def seq_sub_def
        check_seq_def complete_handshake_def receive_payload_def deliver_reassembled_def drain_contiguous_def
        drain_segments.simps reassembly_new_def fin_reached_def Let_def)
  have "snd (handle_packet test_app now (Inr entropy) (encoded_pkt ?seg) ?eng) =
      Inr \<lparr>incoming = Ipv4Packet (Ipv4Header 40 Tcp (seg_ip_pair ?seg)) (RouterTcp ?seg), outcome_reply = None\<rparr>"
    using handle_packet_tcp [OF client_packet_arrives(2) [OF s] _ d] by simp
  then show ?thesis by (simp add: handshake_ack_produces_no_reply_def client_packet_arrives(1) [OF s])
qed

section \<open>Retransmission\<close>

definition forwards_due_segments :: "instant \<Rightarrow> instant \<Rightarrow> instant \<Rightarrow> unit result" where
  "forwards_due_segments sent now later =
     (let eng = test_engine (with_syn_rcv sent (connections_test_new 0 5)) in
      and_then (collect_results (fst (engine_make_retransmissions now later eng))) (\<lambda>pkts.
      and_then (packet_try_from server_syn_ack) (\<lambda>p.
      assert_eq pkts [p])))"

section \<open>Shutdown\<close>

definition no_connections_reported :: "instant \<Rightarrow> instant \<Rightarrow> unit result" where
  "no_connections_reported clock now =
     (let (eng, r) = handle_shutdown clock now (test_engine connections_default) in
      and_then r (\<lambda>outcome.
      in_order [assert_eq outcome NoConnections, assert_that (shutdown_deadline eng = None)]))"

definition established_begins_draining :: "instant \<Rightarrow> instant \<Rightarrow> unit result" where
  "established_begins_draining clock now =
     (let (eng, r) = handle_shutdown clock now (test_engine (with_after_handshake connections_default)) in
      and_then r (\<lambda>outcome.
      and_then (packet_try_from server_fin_ack_initiating_close) (\<lambda>p.
      and_then (try_add_instant now one_year_grace_period) (\<lambda>deadline.
      in_order [assert_eq outcome (BeganDraining [p]), assert_eq (shutdown_deadline eng) (Some deadline)]))))"

definition second_call_reports_time_left :: "instant \<Rightarrow> instant \<Rightarrow> instant \<Rightarrow> unit result" where
  "second_call_reports_time_left clock now clock2 =
     (let (eng, r) = handle_shutdown clock now (test_engine (with_after_handshake connections_default)) in
      and_then r (\<lambda>_.
      and_then (try_add_instant now (5 * 1000000000)) (\<lambda>later.
      and_then (try_add_instant now one_year_grace_period) (\<lambda>expected_deadline.
      let (eng, r) = handle_shutdown clock2 later eng in
      and_then r (\<lambda>outcome.
      assert_eq outcome (AlreadyDraining (expected_deadline - later)))))))"

definition overflowing_deadline_errors :: "instant \<Rightarrow> instant \<Rightarrow> unit result" where
  "overflowing_deadline_errors clock now =
     assert_err_with [''Overflowed'']
       (snd (handle_shutdown clock now (engine_test_new () (with_after_handshake connections_default) duration_max)))"

section \<open>The poll timeout\<close>

text \<open>Setting the field of a test engine.\<close>

definition with_deadline :: "instant option \<Rightarrow> unit engine \<Rightarrow> unit engine" where
  "with_deadline d eng = eng\<lparr>shutdown_deadline := d\<rparr>"

definition instant_checked_sub :: "instant \<Rightarrow> duration \<Rightarrow> instant option" where
  "instant_checked_sub t d = (if d \<le> t then Some (t - d) else None)"

definition neither_deadline_gives_no_timeout :: "instant \<Rightarrow> instant \<Rightarrow> unit result" where
  "neither_deadline_gives_no_timeout later now =
     assert_eq (poll_timeout later now (test_engine connections_default)) None"

definition shutdown_deadline_alone :: "instant \<Rightarrow> instant \<Rightarrow> unit result" where
  "shutdown_deadline_alone later now =
     and_then (try_add_instant now (10 * 1000000000)) (\<lambda>deadline.
     assert_eq (poll_timeout later now (with_deadline (Some deadline) (test_engine connections_default)))
       (Some (10 * 1000000000)))"

definition pending_retransmission_alone :: "instant \<Rightarrow> instant \<Rightarrow> unit result" where
  "pending_retransmission_alone later now =
     assert_eq (poll_timeout later now (test_engine
         (with_syn_rcv_and_pkt_last_sent now (connections_test_new (750 * 1000000) 5))))
       (Some (750 * 1000000))"

definition earlier_retransmit_deadline_wins :: "instant \<Rightarrow> instant \<Rightarrow> unit result" where
  "earlier_retransmit_deadline_wins later now =
     and_then (try_add_instant now (30 * 1000000000)) (\<lambda>deadline.
     assert_eq (poll_timeout later now (with_deadline (Some deadline) (test_engine
         (with_syn_rcv_and_pkt_last_sent now (connections_test_new (250 * 1000000) 5)))))
       (Some (250 * 1000000)))"

definition earlier_shutdown_deadline_wins :: "instant \<Rightarrow> instant \<Rightarrow> instant \<Rightarrow> unit result" where
  "earlier_shutdown_deadline_wins later now sent =
     and_then (try_add_instant now (250 * 1000000)) (\<lambda>deadline.
     assert_eq (poll_timeout later now (with_deadline (Some deadline) (test_engine
         (with_syn_rcv sent (connections_test_new (30 * 1000000000) 5)))))
       (Some (250 * 1000000)))"

definition past_deadline_saturates_to_zero :: "instant \<Rightarrow> instant \<Rightarrow> unit result" where
  "past_deadline_saturates_to_zero later now =
     and_then (ok_or (instant_checked_sub now (10 * 1000000000)) (Static ''underflow'')) (\<lambda>deadline.
     assert_eq (poll_timeout later now (with_deadline (Some deadline) (test_engine connections_default))) (Some 0))"

section \<open>The grace period and draining\<close>

definition not_elapsed_with_no_deadline :: "instant \<Rightarrow> unit result" where
  "not_elapsed_with_no_deadline now =
     assert_that (\<not> grace_period_elapsed now (test_engine connections_default))"

definition not_elapsed_before_deadline :: "instant \<Rightarrow> unit result" where
  "not_elapsed_before_deadline now =
     and_then (try_add_instant now (10 * 1000000000)) (\<lambda>deadline.
     assert_that (\<not> grace_period_elapsed now (with_deadline (Some deadline) (test_engine connections_default))))"

definition elapsed_past_deadline :: "instant \<Rightarrow> unit result" where
  "elapsed_past_deadline now =
     and_then (ok_or (instant_checked_sub now (10 * 1000000000)) (Static ''underflow'')) (\<lambda>deadline.
     assert_that (grace_period_elapsed now (with_deadline (Some deadline) (test_engine connections_default))))"

definition elapsed_at_deadline :: "instant \<Rightarrow> unit result" where
  "elapsed_at_deadline now =
     assert_that (grace_period_elapsed now (with_deadline (Some now) (test_engine connections_default)))"

definition draining_false_with_no_deadline :: "unit result" where
  "draining_false_with_no_deadline = assert_that (\<not> draining_complete (test_engine connections_default))"

definition draining_false_with_no_deadline_but_closing :: "instant \<Rightarrow> unit result" where
  "draining_false_with_no_deadline_but_closing clock =
     (let (_, conns) = close_established clock (with_after_handshake connections_default)
      in assert_that (\<not> draining_complete (test_engine conns)))"

definition draining_false_with_deadline_but_closing :: "instant \<Rightarrow> instant \<Rightarrow> unit result" where
  "draining_false_with_deadline_but_closing clock now =
     (let (_, conns) = close_established clock (with_after_handshake connections_default)
      in assert_that (\<not> draining_complete (with_deadline (Some now) (test_engine conns))))"

definition draining_true_with_deadline_and_nothing_closing :: "instant \<Rightarrow> unit result" where
  "draining_true_with_deadline_and_nothing_closing now =
     assert_that (draining_complete (with_deadline (Some now) (test_engine connections_default)))"

section \<open>Running them\<close>

lemma syn_rcv_table:
  "table (with_syn_rcv_and_pkt_last_sent sent (connections_test_new rto n)) =
    [(test_key, \<lparr>tcp_state_of = SynReceived SynReceivedMark,
        snd_nxt = seq_add server_isn syn_byte_out, rcv_nxt = seq_add client_isn syn_byte_in, snd_una = server_isn,
        pending = [pending_new \<lparr>info_seq_num = server_isn, info_ack_num = seq_add client_isn syn_byte_in,
          info_flags = SynAck, info_payload = None\<rparr> sent],
        send_buffer = [], reassembly = reassembly_new\<rparr>)]"
  by (simp add: with_syn_rcv_and_pkt_last_sent_def connections_test_new_def set_conn_def)

lemma syn_rcv_due:
  assumes "sent + rto \<le> instant_max" and "rto \<le> duration_max"
  shows "time_due later (rto_config_of (with_syn_rcv_and_pkt_last_sent sent (connections_test_new rto n)))
      (pending_new info sent) = sent + rto"
  using assms
  by (simp add: with_syn_rcv_and_pkt_last_sent_def connections_test_new_def time_due_def pending_new_def
      retransmission_timeout_def clamp_def saturating_mul_def saturating_pow_2_def checked_add_instant_def)

text \<open>A segment of the server without payload, as a packet that leaves.\<close>

lemma server_packet_leaves:
  obtains p where "packet_try_from server_syn_ack = Inr p"
proof -
  obtain p where "packet_of_router (RouterTcp server_syn_ack) = Inr p"
    using packet_of_router_fits [of "RouterTcp server_syn_ack"] by (simp add: fixture_defs segment_wf_def)
  then show ?thesis using that by (simp add: packet_try_from_eq)
qed

lemma server_fin_leaves:
  obtains p where "packet_try_from server_fin_ack_initiating_close = Inr p"
proof -
  obtain p where "packet_of_router (RouterTcp server_fin_ack_initiating_close) = Inr p"
    using packet_of_router_fits [of "RouterTcp server_fin_ack_initiating_close"]
    by (simp add: fixture_defs segment_wf_def)
  then show ?thesis using that by (simp add: packet_try_from_eq)
qed

lemma forwards_due_segments_passes:
  assumes "sent \<le> now" and "now \<le> instant_max"
  shows "passes (forwards_due_segments sent now later)"
proof -
  let ?conns = "with_syn_rcv_and_pkt_last_sent sent (connections_test_new 0 5)"
  obtain p where p: "packet_try_from server_syn_ack = Inr p" by (rule server_packet_leaves)
  have due: "is_due now later ?conns (pending_new info sent)" for info
    using assms syn_rcv_due [of sent 0 later 5 info] by (simp add: is_due_def)
  have "max_retries ?conns = 5" by (simp add: with_syn_rcv_and_pkt_last_sent_def connections_test_new_def)
  moreover have "retries (pending_new info sent) = 0" "pend_info (pending_new info sent) = info" for info
    by (simp_all add: pending_new_def)
  ultimately have "fst (make_retransmissions now later ?conns) = [server_syn_ack]"
    by (simp add: make_retransmissions_def syn_rcv_table due get_conn_def exhausted_retries_def
        retransmit_info_def segments_of_key split_beta Let_def)
  then show ?thesis
    by (simp add: forwards_due_segments_def with_syn_rcv_def engine_make_retransmissions_def test_engine_def
        engine_test_new_def split_beta p Let_def)
qed

lemmas shutdown_defs = handle_shutdown_def test_engine_def engine_test_new_def with_deadline_def
  connections_default_def with_after_handshake_def after_handshake_def set_conn_def synced_test_new_def
  close_established_def close_conn_def closing_in_progress_def mid_close_def draining_complete_def
  grace_period_elapsed_def instant_checked_sub_def

lemma after_handshake_closes:
  "close_established clock (with_after_handshake connections_default) = (segs, conns) \<Longrightarrow>
     segs = [server_fin_ack_initiating_close] \<and> closing_in_progress conns"
  by (auto simp: shutdown_defs Let_def segments_of_key)

lemma draining_tests_pass:
  "passes draining_false_with_no_deadline" "passes (draining_false_with_no_deadline_but_closing clock)"
  "passes (draining_false_with_deadline_but_closing clock now)"
  "passes (draining_true_with_deadline_and_nothing_closing now)"
proof -
  obtain segs conns where c: "close_established clock (with_after_handshake connections_default) = (segs, conns)"
    by fastforce
  have "closing_in_progress conns" using after_handshake_closes [OF c] by simp
  moreover have "\<not> closing_in_progress connections_default"
    by (simp add: closing_in_progress_def connections_default_def)
  ultimately show "passes draining_false_with_no_deadline" "passes (draining_false_with_no_deadline_but_closing clock)"
    "passes (draining_false_with_deadline_but_closing clock now)"
    "passes (draining_true_with_deadline_and_nothing_closing now)"
    by (simp_all add: draining_false_with_no_deadline_def draining_false_with_no_deadline_but_closing_def
        draining_false_with_deadline_but_closing_def draining_true_with_deadline_and_nothing_closing_def
        draining_complete_def test_engine_def engine_test_new_def with_deadline_def c)
qed

lemma elapsed_tests_pass:
  assumes "10 * 1000000000 \<le> now" and "now + 10 * 1000000000 \<le> instant_max"
  shows "passes (not_elapsed_with_no_deadline now)" "passes (not_elapsed_before_deadline now)"
    "passes (elapsed_past_deadline now)" "passes (elapsed_at_deadline now)"
  using assms
  by (simp_all add: not_elapsed_with_no_deadline_def not_elapsed_before_deadline_def elapsed_past_deadline_def
      elapsed_at_deadline_def shutdown_defs try_add_instant_def checked_add_instant_def)

lemma shutdown_tests_pass:
  assumes "now + one_year_grace_period \<le> instant_max"
  shows "passes (no_connections_reported clock now)" "passes (established_begins_draining clock now)"
    "passes (second_call_reports_time_left clock now clock2)"
proof -
  obtain p where p: "packet_try_from server_fin_ack_initiating_close = Inr p" by (rule server_fin_leaves)
  obtain segs conns where c: "close_established clock (with_after_handshake connections_default) = (segs, conns)"
    by fastforce
  have s: "segs = [server_fin_ack_initiating_close]" "closing_in_progress conns"
    using after_handshake_closes [OF c] by simp_all
  have d: "try_add_instant now one_year_grace_period = Inr (now + one_year_grace_period)"
    "try_add_instant now (5 * 1000000000) = Inr (now + 5 * 1000000000)"
    using assms by (simp_all add: try_add_instant_def checked_add_instant_def one_year_grace_period_def)
  let ?eng = "test_engine (with_after_handshake connections_default)"
  have h: "handle_shutdown clock now ?eng =
      (?eng\<lparr>connections := conns, shutdown_deadline := Some (now + one_year_grace_period)\<rparr>, Inr (BeganDraining [p]))"
    by (simp add: handle_shutdown_def test_engine_def engine_test_new_def c s p d)
  show "passes (no_connections_reported clock now)"
    by (simp add: no_connections_reported_def shutdown_defs Let_def)
  show "passes (established_begins_draining clock now)"
    by (simp add: established_begins_draining_def h p d)
  show "passes (second_call_reports_time_left clock now clock2)"
    unfolding second_call_reports_time_left_def h d by (simp add: handle_shutdown_def)
qed

lemma overflowing_deadline_test_passes: "passes (overflowing_deadline_errors clock now)"
proof -
  obtain p where p: "packet_try_from server_fin_ack_initiating_close = Inr p" by (rule server_fin_leaves)
  obtain segs conns where c: "close_established clock (with_after_handshake connections_default) = (segs, conns)"
    by fastforce
  have s: "segs = [server_fin_ack_initiating_close]" "closing_in_progress conns"
    using after_handshake_closes [OF c] by simp_all
  have "instant_max < now + duration_max" by (simp add: instant_max_def duration_max_def)
  then have d: "try_add_instant now duration_max =
      Inl (Err (Dynamic (''Overflowed `Instant` adding '' @ show_nat (duration_max div 1000000000) @ '' seconds'')))"
    by (simp add: try_add_instant_def checked_add_instant_def)
  show ?thesis
    by (simp add: overflowing_deadline_errors_def handle_shutdown_def engine_test_new_def c s p d)
qed

lemma timeout_tests_pass:
  assumes "10 * 1000000000 \<le> now" and "now + 30 * 1000000000 \<le> instant_max" and "now \<le> sent"
    and "sent + 30 * 1000000000 \<le> instant_max"
  shows "passes (neither_deadline_gives_no_timeout later now)" "passes (shutdown_deadline_alone later now)"
    "passes (pending_retransmission_alone later now)" "passes (earlier_retransmit_deadline_wins later now)"
    "passes (earlier_shutdown_deadline_wins later now sent)" "passes (past_deadline_saturates_to_zero later now)"
proof -
  have m: "30 * 1000000000 \<le> duration_max" by (simp add: duration_max_def)
  have none: "next_retransmit_deadline later connections_default = None"
    by (simp add: next_retransmit_deadline_def connections_default_def)
  have due: "next_retransmit_deadline later (with_syn_rcv_and_pkt_last_sent t (connections_test_new rto 5)) = Some (t + rto)"
    if "t + rto \<le> instant_max" "rto \<le> duration_max" for t rto
    using that by (simp add: next_retransmit_deadline_def syn_rcv_table syn_rcv_due)
  note defs = poll_timeout_def test_engine_def engine_test_new_def with_deadline_def try_add_instant_def
    checked_add_instant_def with_syn_rcv_def instant_checked_sub_def
  show "passes (neither_deadline_gives_no_timeout later now)" "passes (shutdown_deadline_alone later now)"
    "passes (past_deadline_saturates_to_zero later now)"
    using assms by (simp_all add: neither_deadline_gives_no_timeout_def shutdown_deadline_alone_def
        past_deadline_saturates_to_zero_def defs none)
  show "passes (pending_retransmission_alone later now)" "passes (earlier_retransmit_deadline_wins later now)"
    "passes (earlier_shutdown_deadline_wins later now sent)"
    using assms m due [of now "750 * 1000000"] due [of now "250 * 1000000"] due [of sent "30 * 1000000000"]
    by (simp_all add: pending_retransmission_alone_def earlier_retransmit_deadline_wins_def
        earlier_shutdown_deadline_wins_def defs)
qed

end
