(* ===== verification/Tests_Server.thy ===== *)
theory Tests_Server
  imports Assertions Poll System Server_Config
begin

text \<open>
  The unit tests beside \<open>server/src/sys/poll.rs\<close> and \<open>server/src/sys/tun.rs\<close>. They run against the
  kernel; here they run against what \<open>poll\<close>, \<open>if_nametoindex\<close> and \<open>ioctl\<close> document, as far as the tests
  rely on it.
\<close>

section \<open>Waiting on sockets\<close>

text \<open>
  The sockets of a test: \<open>arrival fd\<close> is the millisecond, counted from the call, at which \<open>fd\<close> has
  data, 0 when it was written before and \<open>None\<close> when nothing is written. \<open>poll\<close> returns at the first
  arrival on a watched descriptor, at the latest when the timeout has passed; a negative timeout is
  none. Where neither happens it would not return, which no test lets happen.
\<close>

definition wakes_at :: "(int \<Rightarrow> nat option) \<Rightarrow> pollfd \<Rightarrow> nat option" where
  "wakes_at arrival fd = (if pfd fd < 0 then None else arrival (pfd fd))"

definition return_time :: "nat option \<Rightarrow> nat option \<Rightarrow> int \<Rightarrow> nat" where
  "return_time a b ms =
     Min (set_option a \<union> set_option b \<union> (if 0 \<le> ms then {nat ms} else {}))"

definition ready_by :: "nat \<Rightarrow> nat option \<Rightarrow> bool" where
  "ready_by now t = (case t of None \<Rightarrow> False | Some t \<Rightarrow> t \<le> now)"

definition sockets_poll :: "(int \<Rightarrow> nat option) \<Rightarrow> pollfd \<times> pollfd \<Rightarrow> int \<Rightarrow> int \<times> pollfd \<times> pollfd" where
  "sockets_poll arrival fds ms =
     (let (fd0, fd1) = fds;
          a = wakes_at arrival fd0; b = wakes_at arrival fd1;
          now = return_time a b ms;
          set_events = (\<lambda>fd t. fd\<lparr>revents := (if ready_by now t then pollin else 0)\<rparr>)
      in ((if ready_by now a then 1 else 0) + (if ready_by now b then 1 else 0), set_events fd0 a, set_events fd1 b))"

lemma sockets_poll_contract: "poll_contract (sockets_poll arrival)"
  by (auto simp: poll_contract_def sockets_poll_def Let_def wakes_at_def ready_by_def pollin_def split: option.splits)

text \<open>\<open>rx\<close> is descriptor 3 and \<open>shutdown_rx\<close> descriptor 5.\<close>

definition on_sockets :: "nat option \<Rightarrow> nat option \<Rightarrow> int \<Rightarrow> nat option" where
  "on_sockets data shutdown fd = (if fd = 3 then data else if fd = 5 then shutdown else None)"

definition poll_sockets ::
    "nat option \<Rightarrow> nat option \<Rightarrow> int option \<Rightarrow> duration option \<Rightarrow> poll_outcome result" where
  "poll_sockets data shutdown shutdown_fd timeout =
     (case readable (sockets_poll (on_sockets data shutdown)) (IoError OtherKind []) 3 shutdown_fd timeout of
        Inl e \<Rightarrow> Inl (Err (Io e))
      | Inr r \<Rightarrow> Inr r)"

text \<open>Joining the thread that writes late: its panic, its I/O error, or its end.\<close>

definition join_writer :: "panic_payload + (io_error + unit) \<Rightarrow> unit result" where
  "join_writer writer =
     (case writer of
        Inl p \<Rightarrow> Inl (Err (panic_error p))
      | Inr (Inl e) \<Rightarrow> Inl (Err (Io e))
      | Inr (Inr _) \<Rightarrow> Inr ())"

abbreviation wrote :: "panic_payload + (io_error + unit)" where "wrote \<equiv> Inr (Inr ())"

definition expect_poll :: "poll_outcome result \<Rightarrow> poll_outcome \<Rightarrow> unit result" where
  "expect_poll r outcome = and_then r (\<lambda>got. assert_eq got outcome)"

definition poll_readable_when_data_is_available :: "unit result" where
  "poll_readable_when_data_is_available = expect_poll (poll_sockets (Some 0) None None (Some 0)) Readable"

definition poll_timed_out_when_no_data :: "unit result" where
  "poll_timed_out_when_no_data = expect_poll (poll_sockets None None None (Some 0)) Timeout"

definition poll_handles_extreme_durations :: "unit result" where
  "poll_handles_extreme_durations = expect_poll (poll_sockets (Some 0) None None (Some duration_max)) Readable"

definition poll_blocks_until_data_arrives :: "unit result" where
  "poll_blocks_until_data_arrives =
     and_then (expect_poll (poll_sockets (Some 50) None None None) Readable) (\<lambda>_. join_writer wrote)"

definition poll_readable_when_data_arrives_in_time :: "unit result" where
  "poll_readable_when_data_arrives_in_time =
     and_then (expect_poll (poll_sockets (Some 50) None None (Some (100 * 1000000))) Readable) (\<lambda>_. join_writer wrote)"

definition poll_timed_out_when_data_arrives_too_late :: "unit result" where
  "poll_timed_out_when_data_arrives_too_late =
     and_then (expect_poll (poll_sockets (Some 100) None None (Some (50 * 1000000))) Timeout) (\<lambda>_. join_writer wrote)"

definition poll_woken_when_only_shutdown_fd :: "unit result" where
  "poll_woken_when_only_shutdown_fd =
     expect_poll (poll_sockets None (Some 0) (Some 5) (Some (50 * 1000000))) Shutdown"

definition poll_shutdown_fd_wakes_indefinite_block :: "unit result" where
  "poll_shutdown_fd_wakes_indefinite_block =
     and_then (expect_poll (poll_sockets None (Some 50) (Some 5) None) Shutdown) (\<lambda>_. join_writer wrote)"

definition poll_notices_both :: "unit result" where
  "poll_notices_both = expect_poll (poll_sockets (Some 0) (Some 0) (Some 5) (Some 0)) Both"

lemma poll_tests_pass:
  "list_all passes [poll_readable_when_data_is_available, poll_timed_out_when_no_data,
     poll_handles_extreme_durations, poll_blocks_until_data_arrives, poll_readable_when_data_arrives_in_time,
     poll_timed_out_when_data_arrives_too_late, poll_woken_when_only_shutdown_fd,
     poll_shutdown_fd_wakes_indefinite_block, poll_notices_both]"
  by (simp add: poll_readable_when_data_is_available_def poll_timed_out_when_no_data_def
      poll_handles_extreme_durations_def poll_blocks_until_data_arrives_def
      poll_readable_when_data_arrives_in_time_def poll_timed_out_when_data_arrives_too_late_def
      poll_woken_when_only_shutdown_fd_def poll_shutdown_fd_wakes_indefinite_block_def poll_notices_both_def
      expect_poll_def poll_sockets_def readable_def sockets_poll_def poll_fds_def timeout_ms_def wakes_at_def
      on_sockets_def return_time_def ready_by_def pollin_def join_writer_def duration_max_def Let_def
      passes_and_then assert_eq_def assert_that_def)

section \<open>Attaching\<close>

text \<open>
  The kernel's table of interfaces holds valid names only (\<open>dev_valid_name\<close>): not empty, shorter than
  16 bytes, neither \<open>.\<close> nor \<open>..\<close>, without slash, colon or white space.
\<close>

definition valid_device_name :: "bytes \<Rightarrow> bool" where
  "valid_device_name name \<longleftrightarrow> name \<noteq> [] \<and> length name < 16 \<and> name \<noteq> [46] \<and> name \<noteq> [46, 46] \<and>
     list_all (\<lambda>b. b \<noteq> 47 \<and> b \<noteq> 58 \<and> \<not> (9 \<le> b \<and> b \<le> 13) \<and> b \<noteq> 32) name"

definition tun_errors_for_nonexistent ::
    "(bytes \<Rightarrow> nat) \<Rightarrow> io_error + 'fd \<Rightarrow> ('fd \<Rightarrow> ifreq \<Rightarrow> int) \<Rightarrow> io_error \<Rightarrow> unit result" where
  "tun_errors_for_nonexistent if_nametoindex opened ioctl errno =
     assert_err_with [''does not exist''] (attach if_nametoindex opened ioctl errno ''nonexistent'')"

definition tun_errors_for_impossible_names ::
    "(bytes \<Rightarrow> nat) \<Rightarrow> io_error + 'fd \<Rightarrow> ('fd \<Rightarrow> ifreq \<Rightarrow> int) \<Rightarrow> io_error \<Rightarrow> unit result" where
  "tun_errors_for_impossible_names if_nametoindex opened ioctl errno =
     for_each [''/dev/null'', ''/proc/version'', ''.'', ''..'', '''', CHR 0x09 # ''un'',
         ''t'' @ [CHR 0x00, CHR 0x00] @ ''n'', ''1234567890123456''] (\<lambda>invalid_name.
       assert_err_with [''does not exist''] (attach if_nametoindex opened ioctl errno invalid_name))"

definition tun_attaches_to_existing ::
    "(bytes \<Rightarrow> nat) \<Rightarrow> io_error + 'fd \<Rightarrow> ('fd \<Rightarrow> ifreq \<Rightarrow> int) \<Rightarrow> io_error \<Rightarrow> config result \<Rightarrow> unit result" where
  "tun_attaches_to_existing if_nametoindex opened ioctl errno loaded =
     and_then loaded (\<lambda>cfg.
     and_then (attach if_nametoindex opened ioctl errno (tun_name cfg)) (\<lambda>_. Inr ()))"

text \<open>Two queues: the device file is opened twice.\<close>

definition tun_attaches_multiple_queues ::
    "(bytes \<Rightarrow> nat) \<Rightarrow> io_error + 'fd \<Rightarrow> io_error + 'fd \<Rightarrow> ('fd \<Rightarrow> ifreq \<Rightarrow> int) \<Rightarrow> io_error \<Rightarrow>
     config result \<Rightarrow> unit result" where
  "tun_attaches_multiple_queues if_nametoindex opened1 opened2 ioctl errno loaded =
     and_then loaded (\<lambda>cfg.
     and_then (attach if_nametoindex opened1 ioctl errno (tun_name cfg)) (\<lambda>first.
     and_then (attach if_nametoindex opened2 ioctl errno (tun_name cfg)) (\<lambda>second.
     assert_that (first \<noteq> second))))"

lemma missing_device:
  "0 \<in> set (map of_char name :: bytes) \<or> if_nametoindex (map of_char name) = 0 \<Longrightarrow>
   passes (assert_err_with [''does not exist''] (attach if_nametoindex opened ioctl errno name))"
  by (auto simp: attach_def intro!: str_contains_prepend)

lemma tun_tests_pass:
  assumes "if_nametoindex (map of_char ''nonexistent'') = 0"
    and "\<And>name. if_nametoindex name \<noteq> 0 \<Longrightarrow> valid_device_name name"
    and "loaded = Inr cfg" "if_nametoindex (map of_char (tun_name cfg)) \<noteq> 0" "0 \<notin> set (map of_char (tun_name cfg) :: bytes)"
    and "\<And>fd ifr. ioctl fd ifr = 0" "fd1 \<noteq> fd2"
  shows "passes (tun_errors_for_nonexistent if_nametoindex opened ioctl errno)"
    "passes (tun_errors_for_impossible_names if_nametoindex opened ioctl errno)"
    "passes (tun_attaches_to_existing if_nametoindex (Inr fd1) ioctl errno loaded)"
    "passes (tun_attaches_multiple_queues if_nametoindex (Inr fd1) (Inr fd2) ioctl errno loaded)"
proof -
  show "passes (tun_errors_for_nonexistent if_nametoindex opened ioctl errno)"
    unfolding tun_errors_for_nonexistent_def by (rule missing_device) (use assms(1) in simp)
  have invalid: "passes (assert_err_with [''does not exist''] (attach if_nametoindex opened ioctl errno name))"
    if "0 \<in> set (map of_char name :: bytes) \<or> \<not> valid_device_name (map of_char name)" for name
    using that assms(2) by (intro missing_device) blast
  show "passes (tun_errors_for_impossible_names if_nametoindex opened ioctl errno)"
    unfolding tun_errors_for_impossible_names_def passes_for_each
    by (intro ballI invalid) (auto simp: valid_device_name_def)
  show "passes (tun_attaches_to_existing if_nametoindex (Inr fd1) ioctl errno loaded)"
    "passes (tun_attaches_multiple_queues if_nametoindex (Inr fd1) (Inr fd2) ioctl errno loaded)"
    using assms by (simp_all add: tun_attaches_to_existing_def tun_attaches_multiple_queues_def attach_def)
qed

end
