(* ===== verification/Tests_Connection.thy ===== *)
theory Tests_Connection
  imports Fixtures Tests_Tcp
begin

text \<open>
  The scenario tests of one connection, \<open>stack/src/protocol/tcp/tests\<close>: establishing it
  (\<open>establish.rs\<close>), aborting it (\<open>abort.rs\<close>) and stray SYNs (\<open>stray_syn.rs\<close>). Each test hands
  segments to \<open>create_test_reply\<close> and compares the reply and the stored connection with what it
  spells out; \<open>now\<close> and \<open>t\<close> are readings of the clock, \<open>urandom\<close> the source of the initial number.
\<close>

definition create_reply_of ::
    "unit application \<Rightarrow> instant \<Rightarrow> io_error + bytes \<Rightarrow> in_segment \<Rightarrow> tcp_connections \<Rightarrow>
     (tcp_connections, out_segment option) stateful" where
  "create_reply_of app now urandom self conns =
     (let ((_, conns), r) = create_tcp_reply app now urandom self ((), conns) in (conns, r))"

definition create_test_reply ::
    "instant \<Rightarrow> io_error + bytes \<Rightarrow> in_segment \<Rightarrow> tcp_connections \<Rightarrow>
     (tcp_connections, out_segment option) stateful" where
  "create_test_reply now urandom self conns = create_reply_of test_app now urandom self conns"

text \<open>\<open>let reply = seg.create_test_reply(&mut connections)?\<close> and what follows it.\<close>

definition with_reply ::
    "(tcp_connections, out_segment option) stateful \<Rightarrow> (out_segment option \<Rightarrow> tcp_connections \<Rightarrow> unit result) \<Rightarrow>
     unit result" where
  "with_reply r f = (case r of (conns, reply) \<Rightarrow> and_then reply (\<lambda>reply. f reply conns))"

text \<open>\<open>assert_eq!(connections.try_get()?, &expected)\<close>.\<close>

definition assert_conn :: "conn_state \<Rightarrow> tcp_connections \<Rightarrow> unit result" where
  "assert_conn expected conns = and_then (test_try_get conns) (\<lambda>conn. assert_that (conn_state_eq conn expected))"

definition hello_len_out :: "(u32, dir_out) seq_offset" where "hello_len_out = SeqOffset 5"
definition hi_len_out :: "(u32, dir_out) seq_offset" where "hi_len_out = SeqOffset 2"
definition hey_len_out :: "(u32, dir_out) seq_offset" where "hey_len_out = SeqOffset 3"
definition hello_len_in :: "(u32, dir_in) seq_offset" where "hello_len_in = SeqOffset 5"
definition hi_len_in :: "(u32, dir_in) seq_offset" where "hi_len_in = SeqOffset 2"
definition hey_len_in :: "(u32, dir_in) seq_offset" where "hey_len_in = SeqOffset 3"

text \<open>\<open>Vec::pop\<close> and \<open>[T]::first\<close>.\<close>

definition vec_pop :: "'a list \<Rightarrow> ('a \<times> 'a list) option" where
  "vec_pop xs = (if xs = [] then None else Some (last xs, butlast xs))"

definition first_of :: "'a list \<Rightarrow> 'a option" where
  "first_of xs = (case xs of [] \<Rightarrow> None | x # _ \<Rightarrow> Some x)"

text \<open>What evaluates a scenario: the fixtures, the reply logic, and the arithmetic of sequence numbers.\<close>

lemmas scenario_fixtures = with_syn_rcv_def with_syn_rcv_and_pkt_last_sent_def with_after_handshake_def
  after_handshake_def connections_default_def rto_config_default_def window_after_handshake_def
  window_test_new_def synced_test_new_def test_try_get_def client_pkt_def server_reply_def test_key_def
  ip_pair_in_def client_isn_def server_isn_def hello_len_out_def hi_len_out_def hello_len_in_def hi_len_in_def
  hey_len_out_def hey_len_in_def test_get_snd_wnd_def test_insert_def vec_pop_def first_of_def

lemmas scenario_steps = create_test_reply_def create_reply_of_def create_tcp_reply_def decide_reply_def key_of_def handle_known_conn_def
  handle_unknown_conn_def handle_syn_rcv_def handle_established_def handle_fin_wait_1_def handle_fin_wait_2_def
  handle_close_wait_def handle_closing_def handle_last_ack_def known_conn_common_fallback_def infallibly_def
  beside_def reply_with_def is_syn_received_def pure_ack_def rst_def check_seq_def complete_handshake_def
  buffer_payload_def buffer_fin_def receive_payload_def deliver_def deliver_reassembled_def advance_past_fin_def
  close_on_in_order_fin_def close_wait_or_last_ack_def data_payload_def from_pairs_and_info_def
  get_conn_def set_conn_def remove_conn_def test_app_def shouting_test_app_def
  close_established_def close_conn_def segment_to_def

lemmas scenario_state = establish_def rcv_fin_def send_fin_def close_def rcv_ack_of_fin_def
  rcv_fin_before_fin_is_acked_def incoming_ack_update_def drain_transmittable_run max_payload_len_def
  reassembly_new_def mark_fin_def fin_reached_def reassembly_insert_def drain_contiguous_def drain_segments.simps
  pending_new_def is_covered_by_def conn_state_eq_def ip_swapped_def port_swapped_def

lemmas scenario_numbers = seq_add_def seq_sub_def offset_add_def point_sub_def precedes_def precedes_or_eq_def in_window_def
  offset_u32_from_u16_def offset_from_len_def len_or_default_offset_def usize_from_offset_def
from_test_str_def try_from_iter_fits usize_try_from_offset_def consumes_flag_def

lemmas scenario = with_reply_def assert_conn_def Let_def scenario_fixtures scenario_steps scenario_state
  scenario_numbers

section \<open>Establishing a connection\<close>

definition creates_valid_syn_ack :: "instant \<Rightarrow> io_error + bytes \<Rightarrow> unit result" where
  "creates_valid_syn_ack now urandom =
     with_reply (create_test_reply now urandom (client_pkt\<lparr>seg_seq_num := client_isn, seg_flags := Syn\<rparr>)
         connections_default) (\<lambda>reply conns.
     and_then (test_try_get conns) (\<lambda>conn.
     assert_eq reply (Some (server_reply\<lparr>seg_seq_num := snd_una conn, seg_ack_num := seq_add client_isn syn_byte_in,
       seg_flags := SynAck\<rparr>))))"

definition duplicate_syn_during_syn_received_resends_same_syn_ack ::
    "instant \<Rightarrow> instant \<Rightarrow> io_error + bytes \<Rightarrow> unit result" where
  "duplicate_syn_during_syn_received_resends_same_syn_ack t now urandom =
     (let conns = with_syn_rcv t connections_default in
      and_then (test_try_get conns) (\<lambda>initial_state.
      with_reply (create_test_reply now urandom (client_pkt\<lparr>seg_seq_num := client_isn, seg_flags := Syn\<rparr>) conns)
        (\<lambda>reply conns.
      in_order
        [assert_eq reply (Some (server_reply\<lparr>seg_seq_num := server_isn,
           seg_ack_num := seq_add client_isn syn_byte_in, seg_flags := SynAck\<rparr>)),
         assert_conn initial_state conns])))"

definition handshake_ack_without_data_establishes_connection_and_returns_none ::
    "instant \<Rightarrow> instant \<Rightarrow> io_error + bytes \<Rightarrow> unit result" where
  "handshake_ack_without_data_establishes_connection_and_returns_none t now urandom =
     (let conns = with_syn_rcv t connections_default in
      and_then (test_try_get conns) (\<lambda>cloned_state.
      let handshake_ack = client_pkt\<lparr>seg_seq_num := seq_add client_isn syn_byte_in,
            seg_ack_num := seq_add server_isn syn_byte_out\<rparr> in
      with_reply (create_test_reply now urandom handshake_ack conns) (\<lambda>reply conns.
      let window_state = window_test_new (seg_window handshake_ack) (seg_seq_num handshake_ack)
            (seg_ack_num handshake_ack);
          cloned_state = cloned_state\<lparr>tcp_state_of := Established (synced_test_new window_state),
            rcv_nxt := seq_add client_isn syn_byte_in, snd_una := seq_add (snd_una cloned_state) syn_byte_out\<rparr> in
      in_order [assert_eq reply None, assert_conn cloned_state conns])))"

definition handshake_ack_with_data_establishes_and_echoes ::
    "instant \<Rightarrow> instant \<Rightarrow> io_error + bytes \<Rightarrow> unit result" where
  "handshake_ack_with_data_establishes_and_echoes t now urandom =
     (let conns = with_syn_rcv t connections_default in
      and_then (test_try_get conns) (\<lambda>cloned_state.
      and_then (from_test_str ''Hello'') (\<lambda>hello.
      let ack = client_pkt\<lparr>seg_seq_num := seq_add client_isn syn_byte_in,
            seg_ack_num := seq_add server_isn syn_byte_out, seg_payload := hello\<rparr> in
      with_reply (create_test_reply now urandom ack conns) (\<lambda>reply conns.
      let window_state = window_test_new (seg_window ack) (seg_seq_num ack) (seg_ack_num ack);
          cloned_state = cloned_state\<lparr>tcp_state_of := Established (synced_test_new window_state),
            rcv_nxt := seq_add (rcv_nxt cloned_state) hello_len_in,
            snd_nxt := seq_add (snd_nxt cloned_state) hello_len_out,
            snd_una := seq_add (snd_una cloned_state) syn_byte_out\<rparr> in
      in_order
        [assert_eq reply (Some (server_reply\<lparr>seg_seq_num := seq_add server_isn syn_byte_out,
           seg_ack_num := seq_add (seq_add client_isn syn_byte_in) hello_len_in, seg_payload := hello\<rparr>)),
         assert_conn cloned_state conns]))))"

definition handshake_ack_with_out_of_order_seq_and_no_data_still_completes_handshake ::
    "instant \<Rightarrow> instant \<Rightarrow> io_error + bytes \<Rightarrow> unit result" where
  "handshake_ack_with_out_of_order_seq_and_no_data_still_completes_handshake t now urandom =
     (let conns = with_syn_rcv t connections_default in
      and_then (test_try_get conns) (\<lambda>cloned_state.
      let out_of_order = client_pkt\<lparr>seg_seq_num := seq_add (seq_add client_isn syn_byte_in) (SeqOffset 1),
            seg_ack_num := seq_add server_isn syn_byte_out\<rparr> in
      with_reply (create_test_reply now urandom out_of_order conns) (\<lambda>reply conns.
      in_order
        [assert_eq reply (Some (server_reply\<lparr>seg_seq_num := seq_add server_isn syn_byte_out,
           seg_ack_num := seq_add client_isn syn_byte_in\<rparr>)),
         assert_conn (cloned_state\<lparr>tcp_state_of := Established (synced_test_new (window_test_new
             (seg_window out_of_order) (seg_seq_num out_of_order) (seg_ack_num out_of_order))),
           snd_una := seq_add (snd_una cloned_state) syn_byte_out\<rparr>) conns])))"

definition acceptable_seq_but_unacceptable_ack_in_syn_rcv_gets_rst ::
    "instant \<Rightarrow> instant \<Rightarrow> io_error + bytes \<Rightarrow> unit result" where
  "acceptable_seq_but_unacceptable_ack_in_syn_rcv_gets_rst t now urandom =
     for_each [seq_add client_isn syn_byte_in, seq_add (seq_add client_isn syn_byte_in) (SeqOffset 1)]
       (\<lambda>client_seq.
     let conns = with_syn_rcv t connections_default in
     and_then (test_try_get conns) (\<lambda>initial_state.
     with_reply (create_test_reply now urandom
       (client_pkt\<lparr>seg_seq_num := client_seq, seg_ack_num := server_isn\<rparr>) conns) (\<lambda>reply conns.
     in_order
       [assert_eq reply (Some (server_reply\<lparr>seg_seq_num := server_isn, seg_flags := Rst\<rparr>)),
        assert_conn initial_state conns])))"

definition out_of_order_fin_ack_in_syn_rcv_still_completes_handshake_and_records_fin ::
    "instant \<Rightarrow> instant \<Rightarrow> io_error + bytes \<Rightarrow> unit result" where
  "out_of_order_fin_ack_in_syn_rcv_still_completes_handshake_and_records_fin t now urandom =
     (let conns = with_syn_rcv t connections_default in
      and_then (test_try_get conns) (\<lambda>cloned_state.
      let out_of_order = client_pkt\<lparr>seg_seq_num := seq_add (seq_add client_isn syn_byte_in) (SeqOffset 1),
            seg_ack_num := seq_add server_isn syn_byte_out, seg_flags := FinAck\<rparr> in
      with_reply (create_test_reply now urandom out_of_order conns) (\<lambda>reply conns.
      in_order
        [assert_eq reply (Some (server_reply\<lparr>seg_seq_num := seq_add server_isn syn_byte_out,
           seg_ack_num := seq_add client_isn syn_byte_in\<rparr>)),
         assert_conn (cloned_state\<lparr>tcp_state_of := Established (synced_test_new (window_test_new
             (seg_window out_of_order) (seg_seq_num out_of_order) (seg_ack_num out_of_order))),
           snd_una := seq_add (snd_una cloned_state) syn_byte_out,
           reassembly := mark_fin (seg_seq_num out_of_order) (reassembly cloned_state)\<rparr>) conns])))"

definition out_of_order_handshake_ack_with_data_still_completes_handshake_and_buffers_data ::
    "instant \<Rightarrow> instant \<Rightarrow> io_error + bytes \<Rightarrow> unit result" where
  "out_of_order_handshake_ack_with_data_still_completes_handshake_and_buffers_data t now urandom =
     (let conns = with_syn_rcv t connections_default in
      and_then (test_try_get conns) (\<lambda>cloned_state.
      and_then (from_test_str ''Hello'') (\<lambda>hello.
      let out_of_order = client_pkt\<lparr>seg_seq_num := seq_add (seq_add client_isn syn_byte_in) (SeqOffset 1),
            seg_ack_num := seq_add server_isn syn_byte_out, seg_payload := hello\<rparr> in
      with_reply (create_test_reply now urandom out_of_order conns) (\<lambda>reply conns.
      and_then (ok_or (seg_payload out_of_order) (Static ''Expected segment to carry a payload'')) (\<lambda>payload.
      in_order
        [assert_eq reply (Some (server_reply\<lparr>seg_seq_num := seq_add server_isn syn_byte_out,
           seg_ack_num := seq_add client_isn syn_byte_in\<rparr>)),
         assert_conn (cloned_state\<lparr>tcp_state_of := Established (synced_test_new (window_test_new
             (seg_window out_of_order) (seg_seq_num out_of_order) (seg_ack_num out_of_order))),
           snd_una := seq_add (snd_una cloned_state) syn_byte_out,
           reassembly := reassembly_insert (seg_seq_num out_of_order) payload (reassembly cloned_state)\<rparr>)
           conns])))))"

definition out_of_order_handshake_completing_ack_is_echoed_once_gap_closes ::
    "instant \<Rightarrow> instant \<Rightarrow> instant \<Rightarrow> io_error + bytes \<Rightarrow> unit result" where
  "out_of_order_handshake_completing_ack_is_echoed_once_gap_closes t now later urandom =
     and_then (from_test_str ''Hi'') (\<lambda>hi.
     and_then (from_test_str ''Hello'') (\<lambda>hello.
     and_then (from_test_str ''HelloHi'') (\<lambda>hello_hi.
     with_reply (create_test_reply now urandom (client_pkt\<lparr>
         seg_seq_num := seq_add (seq_add client_isn syn_byte_in) hello_len_in,
         seg_ack_num := seq_add server_isn syn_byte_out, seg_payload := hi\<rparr>)
         (with_syn_rcv t connections_default)) (\<lambda>hi_reply conns.
     and_then (assert_eq hi_reply (Some (server_reply\<lparr>seg_seq_num := seq_add server_isn syn_byte_out,
         seg_ack_num := seq_add client_isn syn_byte_in\<rparr>))) (\<lambda>_.
     with_reply (create_test_reply later urandom (client_pkt\<lparr>seg_seq_num := seq_add client_isn syn_byte_in,
         seg_ack_num := seq_add server_isn syn_byte_out, seg_payload := hello\<rparr>) conns) (\<lambda>hello_reply conns.
     assert_eq hello_reply (Some (server_reply\<lparr>seg_seq_num := seq_add server_isn syn_byte_out,
       seg_ack_num := seq_add (seq_add (seq_add client_isn syn_byte_in) hello_len_in) hi_len_in,
       seg_payload := hello_hi\<rparr>))))))))"

text \<open>Only the first test depends on the source of random numbers; it needs four bytes of it.\<close>

lemma syn_ack_test_passes: "passes (creates_valid_syn_ack now (Inr entropy))"
  by (simp add: creates_valid_syn_ack_def scenario random_u32_def from_syn_ack_def insert_syn_rcv_def)

lemma handshake_tests_pass:
  "passes (duplicate_syn_during_syn_received_resends_same_syn_ack t now urandom)"
  "passes (handshake_ack_without_data_establishes_connection_and_returns_none t now urandom)"
  "passes (handshake_ack_with_data_establishes_and_echoes t now urandom)"
  "passes (handshake_ack_with_out_of_order_seq_and_no_data_still_completes_handshake t now urandom)"
  "passes (acceptable_seq_but_unacceptable_ack_in_syn_rcv_gets_rst t now urandom)"
  "passes (out_of_order_fin_ack_in_syn_rcv_still_completes_handshake_and_records_fin t now urandom)"
  "passes (out_of_order_handshake_ack_with_data_still_completes_handshake_and_buffers_data t now urandom)"
  by (simp_all add: duplicate_syn_during_syn_received_resends_same_syn_ack_def
      handshake_ack_without_data_establishes_connection_and_returns_none_def
      handshake_ack_with_data_establishes_and_echoes_def
      handshake_ack_with_out_of_order_seq_and_no_data_still_completes_handshake_def
      acceptable_seq_but_unacceptable_ack_in_syn_rcv_gets_rst_def
      out_of_order_fin_ack_in_syn_rcv_still_completes_handshake_and_records_fin_def
      out_of_order_handshake_ack_with_data_still_completes_handshake_and_buffers_data_def scenario)

lemma gap_closes_test_passes:
  "passes (out_of_order_handshake_completing_ack_is_echoed_once_gap_closes t now later urandom)"
  by (simp add: out_of_order_handshake_completing_ack_is_echoed_once_gap_closes_def scenario)

section \<open>Aborting a connection\<close>

definition client_rst :: "dir_in seq_point \<Rightarrow> in_segment" where
  "client_rst seq_num = client_pkt\<lparr>seg_seq_num := seq_num, seg_flags := Rst\<rparr>"

definition rst_in_established_at_rcv_nxt_cleans_up_connection_and_returns_none ::
    "instant \<Rightarrow> io_error + bytes \<Rightarrow> unit result" where
  "rst_in_established_at_rcv_nxt_cleans_up_connection_and_returns_none now urandom =
     with_reply (create_test_reply now urandom (client_rst (seq_add client_isn syn_byte_in))
       (with_after_handshake connections_default)) (\<lambda>reply conns.
     in_order [assert_eq reply None, assert_err (test_try_get conns)])"

definition rst_in_established_within_window_but_not_at_rcv_nxt_gets_challenge_ack ::
    "instant \<Rightarrow> io_error + bytes \<Rightarrow> unit result" where
  "rst_in_established_within_window_but_not_at_rcv_nxt_gets_challenge_ack now urandom =
     (let conns = with_after_handshake connections_default in
      and_then (test_try_get conns) (\<lambda>initial_state.
      with_reply (create_test_reply now urandom (client_rst (seq_add client_isn (SeqOffset 4))) conns) (\<lambda>reply conns.
      in_order
        [assert_eq reply (Some (server_reply\<lparr>seg_seq_num := seq_add server_isn syn_byte_out,
           seg_ack_num := seq_add client_isn syn_byte_in\<rparr>)),
         assert_conn initial_state conns])))"

definition rst_in_established_with_out_of_window_seq_is_silently_dropped ::
    "instant \<Rightarrow> io_error + bytes \<Rightarrow> unit result" where
  "rst_in_established_with_out_of_window_seq_is_silently_dropped now urandom =
     (let conns = with_after_handshake connections_default in
      and_then (test_try_get conns) (\<lambda>initial_state.
      with_reply (create_test_reply now urandom (client_rst (point_sub client_isn (SeqOffset 10))) conns)
        (\<lambda>reply conns.
      in_order [assert_eq reply None, assert_conn initial_state conns])))"

definition rst_in_syn_received_at_rcv_nxt_cleans_up_connection_and_returns_none ::
    "instant \<Rightarrow> instant \<Rightarrow> io_error + bytes \<Rightarrow> unit result" where
  "rst_in_syn_received_at_rcv_nxt_cleans_up_connection_and_returns_none t now urandom =
     with_reply (create_test_reply now urandom (client_rst (seq_add client_isn syn_byte_in))
       (with_syn_rcv t connections_default)) (\<lambda>reply conns.
     in_order [assert_eq reply None, assert_err (test_try_get conns)])"

definition rst_in_syn_received_with_out_of_window_seq_is_silently_dropped ::
    "instant \<Rightarrow> instant \<Rightarrow> io_error + bytes \<Rightarrow> unit result" where
  "rst_in_syn_received_with_out_of_window_seq_is_silently_dropped t now urandom =
     (let conns = with_syn_rcv t connections_default in
      and_then (test_try_get conns) (\<lambda>initial_state.
      with_reply (create_test_reply now urandom (client_rst (point_sub client_isn (SeqOffset 10))) conns)
        (\<lambda>reply conns.
      in_order [assert_eq reply None, assert_conn initial_state conns])))"

definition rst_in_syn_received_within_window_but_not_at_rcv_nxt_gets_challenge_ack ::
    "instant \<Rightarrow> instant \<Rightarrow> io_error + bytes \<Rightarrow> unit result" where
  "rst_in_syn_received_within_window_but_not_at_rcv_nxt_gets_challenge_ack t now urandom =
     (let conns = with_syn_rcv t connections_default in
      and_then (test_try_get conns) (\<lambda>initial_state.
      with_reply (create_test_reply now urandom (client_rst (seq_add client_isn (SeqOffset 4))) conns) (\<lambda>reply conns.
      in_order
        [assert_eq reply (Some (server_reply\<lparr>seg_seq_num := seq_add server_isn syn_byte_out,
           seg_ack_num := seq_add client_isn syn_byte_in\<rparr>)),
         assert_conn initial_state conns])))"

definition rst_for_unknown_connection_is_silently_dropped :: "instant \<Rightarrow> io_error + bytes \<Rightarrow> unit result" where
  "rst_for_unknown_connection_is_silently_dropped now urandom =
     with_reply (create_test_reply now urandom (client_rst (seq_add client_isn syn_byte_in)) connections_default)
       (\<lambda>reply conns. in_order [assert_eq reply None, assert_err (test_try_get conns)])"

lemma abort_tests_pass:
  "passes (rst_in_established_at_rcv_nxt_cleans_up_connection_and_returns_none now urandom)"
  "passes (rst_in_established_within_window_but_not_at_rcv_nxt_gets_challenge_ack now urandom)"
  "passes (rst_in_established_with_out_of_window_seq_is_silently_dropped now urandom)"
  "passes (rst_in_syn_received_at_rcv_nxt_cleans_up_connection_and_returns_none t now urandom)"
  "passes (rst_in_syn_received_with_out_of_window_seq_is_silently_dropped t now urandom)"
  "passes (rst_in_syn_received_within_window_but_not_at_rcv_nxt_gets_challenge_ack t now urandom)"
  "passes (rst_for_unknown_connection_is_silently_dropped now urandom)"
  by (simp_all add: rst_in_established_at_rcv_nxt_cleans_up_connection_and_returns_none_def
      rst_in_established_within_window_but_not_at_rcv_nxt_gets_challenge_ack_def
      rst_in_established_with_out_of_window_seq_is_silently_dropped_def
      rst_in_syn_received_at_rcv_nxt_cleans_up_connection_and_returns_none_def
      rst_in_syn_received_with_out_of_window_seq_is_silently_dropped_def
      rst_in_syn_received_within_window_but_not_at_rcv_nxt_gets_challenge_ack_def
      rst_for_unknown_connection_is_silently_dropped_def client_rst_def scenario)

section \<open>Stray SYNs\<close>

definition stray_syn_out_of_window_gets_challenge_ack :: "instant \<Rightarrow> io_error + bytes \<Rightarrow> unit result" where
  "stray_syn_out_of_window_gets_challenge_ack now urandom =
     (let conns = with_after_handshake connections_default in
      and_then (test_try_get conns) (\<lambda>initial_state.
      with_reply (create_test_reply now urandom
        (client_pkt\<lparr>seg_seq_num := point_sub client_isn (SeqOffset 20), seg_flags := Syn\<rparr>) conns) (\<lambda>reply conns.
      in_order
        [assert_eq reply (Some (server_reply\<lparr>seg_seq_num := seq_add server_isn syn_byte_out,
           seg_ack_num := seq_add client_isn syn_byte_in\<rparr>)),
         assert_conn initial_state conns])))"

definition stray_syn_in_window_gets_challenge_ack :: "instant \<Rightarrow> io_error + bytes \<Rightarrow> unit result" where
  "stray_syn_in_window_gets_challenge_ack now urandom =
     (let conns = with_after_handshake connections_default in
      and_then (test_try_get conns) (\<lambda>initial_state.
      with_reply (create_test_reply now urandom
        (client_pkt\<lparr>seg_seq_num := seq_add client_isn syn_byte_in, seg_flags := Syn\<rparr>) conns) (\<lambda>reply conns.
      in_order
        [assert_eq reply (Some (server_reply\<lparr>seg_seq_num := seq_add server_isn syn_byte_out,
           seg_ack_num := seq_add client_isn syn_byte_in\<rparr>)),
         assert_conn initial_state conns])))"

definition stray_syn_in_fin_wait_1_gets_challenge_ack ::
    "instant \<Rightarrow> instant \<Rightarrow> io_error + bytes \<Rightarrow> unit result" where
  "stray_syn_in_fin_wait_1_gets_challenge_ack t now urandom =
     (let conns = snd (close_established t (with_after_handshake connections_default)) in
      and_then (test_try_get conns) (\<lambda>initial_state.
      and_then (assert_that (case tcp_state_of initial_state of FinWait1 _ \<Rightarrow> True | _ \<Rightarrow> False)) (\<lambda>_.
      with_reply (create_test_reply now urandom
        (client_pkt\<lparr>seg_seq_num := seq_add client_isn syn_byte_in, seg_flags := Syn\<rparr>) conns) (\<lambda>reply conns.
      in_order
        [assert_eq reply (Some (server_reply\<lparr>
           seg_seq_num := seq_add (seq_add server_isn syn_byte_out) fin_byte_out,
           seg_ack_num := seq_add client_isn syn_byte_in\<rparr>)),
         assert_conn initial_state conns]))))"

definition stray_syn_ack_gets_challenge_ack :: "instant \<Rightarrow> io_error + bytes \<Rightarrow> unit result" where
  "stray_syn_ack_gets_challenge_ack now urandom =
     (let conns = with_after_handshake connections_default in
      and_then (test_try_get conns) (\<lambda>initial_state.
      with_reply (create_test_reply now urandom (client_pkt\<lparr>seg_seq_num := seq_add client_isn syn_byte_in,
        seg_ack_num := seq_add server_isn syn_byte_out, seg_flags := SynAck\<rparr>) conns) (\<lambda>reply conns.
      in_order
        [assert_eq reply (Some (server_reply\<lparr>seg_seq_num := seq_add server_isn syn_byte_out,
           seg_ack_num := seq_add client_isn syn_byte_in\<rparr>)),
         assert_conn initial_state conns])))"

lemma stray_syn_tests_pass:
  "passes (stray_syn_out_of_window_gets_challenge_ack now urandom)"
  "passes (stray_syn_in_window_gets_challenge_ack now urandom)"
  "passes (stray_syn_in_fin_wait_1_gets_challenge_ack t now urandom)"
  "passes (stray_syn_ack_gets_challenge_ack now urandom)"
  by (simp_all add: stray_syn_out_of_window_gets_challenge_ack_def stray_syn_in_window_gets_challenge_ack_def
      stray_syn_in_fin_wait_1_gets_challenge_ack_def stray_syn_ack_gets_challenge_ack_def
      scenario)

end
