(* ===== verification/Tests_Transfer.thy ===== *)
theory Tests_Transfer
  imports Tests_Connection
begin

text \<open>
  The scenario tests of the data transfer on an established connection: the send window (\<open>window.rs\<close>),
  flow control (\<open>flow_control.rs\<close>) and data in order, out of order and repeated (\<open>data.rs\<close>), all under
  \<open>stack/src/protocol/tcp/tests\<close>.
\<close>

section \<open>The send window\<close>

definition new_ack_adopts_window_from_segment ::
    "instant \<Rightarrow> instant \<Rightarrow> io_error + bytes \<Rightarrow> unit result" where
  "new_ack_adopts_window_from_segment now1 now2 urandom =
     (let new_wnd = SeqOffset 12345 in
     let conns = with_after_handshake connections_default in
     and_then (test_try_get conns) (\<lambda>cloned_state.
     and_then (assert_that ((test_get_snd_wnd cloned_state) \<noteq> (Some new_wnd))) (\<lambda>_.
     and_then (from_test_str ''Hello'') (\<lambda>hello_bytes.
     with_reply (create_test_reply now1 urandom (client_pkt\<lparr>seg_seq_num := seq_add client_isn syn_byte_in,
       seg_ack_num := seq_add server_isn syn_byte_out, seg_payload := hello_bytes\<rparr>) conns) (\<lambda>_ conns.
     let cloned_state = cloned_state\<lparr>snd_nxt := seq_add (snd_nxt cloned_state) hello_len_out,
       rcv_nxt := seq_add (rcv_nxt cloned_state) hello_len_in\<rparr> in
     and_then (assert_conn cloned_state conns) (\<lambda>_.
     let window_update = client_pkt\<lparr>seg_seq_num := seq_add (seq_add client_isn syn_byte_in) hello_len_in,
       seg_ack_num := seq_add (seq_add server_isn syn_byte_out) hello_len_out, seg_window := new_wnd\<rparr> in
     with_reply (create_test_reply now2 urandom window_update conns) (\<lambda>reply conns.
     and_then (assert_eq reply None) (\<lambda>_.
     let cloned_state = cloned_state\<lparr>snd_una := seq_add (snd_una cloned_state) hello_len_out,
       tcp_state_of := Established (synced_test_new (window_test_new (seg_window window_update)
       (seg_seq_num window_update) (seg_ack_num window_update)))\<rparr> in
     assert_conn cloned_state conns))))))))"

definition stale_segment_does_not_clobber_send_window ::
    "instant \<Rightarrow> instant \<Rightarrow> io_error + bytes \<Rightarrow> unit result" where
  "stale_segment_does_not_clobber_send_window now1 now2 urandom =
     (let conns = with_after_handshake connections_default in
     and_then (test_try_get conns) (\<lambda>cloned_state.
     and_then (from_test_str ''World'') (\<lambda>world_bytes.
     let out_of_order = client_pkt\<lparr>seg_seq_num := seq_add (seq_add client_isn syn_byte_in) (SeqOffset 10),
       seg_ack_num := seq_add server_isn syn_byte_out, seg_window := SeqOffset 2000,
       seg_payload := world_bytes\<rparr> in
     with_reply (create_test_reply now1 urandom out_of_order conns) (\<lambda>reply conns.
     and_then (assert_eq reply (Some (server_reply\<lparr>seg_seq_num := seq_add server_isn syn_byte_out,
       seg_ack_num := seq_add client_isn syn_byte_in\<rparr>))) (\<lambda>_.
     let cloned_state = cloned_state\<lparr>tcp_state_of := Established
       (synced_test_new (window_test_new (seg_window out_of_order) (seg_seq_num out_of_order)
       (seg_ack_num out_of_order)))\<rparr> in
     and_then (ok_or (seg_payload out_of_order) (Static ''Expected segment to carry a payload'')) (\<lambda>payload.
     let cloned_state = cloned_state\<lparr>reassembly := reassembly_insert (seg_seq_num out_of_order) payload
       (reassembly cloned_state)\<rparr> in
     and_then (assert_conn cloned_state conns) (\<lambda>_.
     with_reply (create_test_reply now2 urandom (client_pkt\<lparr>seg_seq_num := seq_add
       (seq_add client_isn syn_byte_in) (SeqOffset 5), seg_ack_num := seq_add server_isn syn_byte_out,
       seg_window := SeqOffset 9999\<rparr>) conns) (\<lambda>reply conns.
     and_then (assert_eq reply None) (\<lambda>_.
     assert_conn cloned_state conns)))))))))"

definition same_seq_but_fresher_ack_updates_window ::
    "instant \<Rightarrow> instant \<Rightarrow> instant \<Rightarrow> instant \<Rightarrow> io_error + bytes \<Rightarrow> unit result" where
  "same_seq_but_fresher_ack_updates_window now1 now2 now3 now4 urandom =
     (let conns = with_after_handshake connections_default in
     and_then (test_try_get conns) (\<lambda>cloned_state.
     and_then (from_test_str ''Hello'') (\<lambda>hello_bytes.
     with_reply (create_test_reply now1 urandom (client_pkt\<lparr>seg_seq_num := seq_add client_isn syn_byte_in,
       seg_ack_num := seq_add server_isn syn_byte_out, seg_payload := hello_bytes\<rparr>) conns) (\<lambda>_ conns.
     let cloned_state = cloned_state\<lparr>snd_nxt := seq_add (snd_nxt cloned_state) hello_len_out,
       rcv_nxt := seq_add (rcv_nxt cloned_state) hello_len_in\<rparr> in
     and_then (assert_conn cloned_state conns) (\<lambda>_.
     and_then (from_test_str ''Hi'') (\<lambda>hi_bytes.
     let hi_pkt = client_pkt\<lparr>seg_seq_num := seq_add (seq_add client_isn syn_byte_in) hello_len_in,
       seg_ack_num := seq_add server_isn syn_byte_out, seg_payload := hi_bytes\<rparr> in
     with_reply (create_test_reply now2 urandom hi_pkt conns) (\<lambda>_ conns.
     let cloned_state = cloned_state\<lparr>snd_nxt := seq_add (snd_nxt cloned_state) hi_len_out,
       rcv_nxt := seq_add (rcv_nxt cloned_state) hi_len_in, tcp_state_of := Established
       (synced_test_new (window_test_new (seg_window hi_pkt) (seg_seq_num hi_pkt) (seg_ack_num hi_pkt)))\<rparr> in
     and_then (assert_conn cloned_state conns) (\<lambda>_.
     let window_update_1 = client_pkt\<lparr>seg_seq_num := seq_add (seq_add (seq_add client_isn syn_byte_in)
       hello_len_in) hi_len_in, seg_ack_num := seq_add (seq_add server_isn syn_byte_out) hello_len_out,
       seg_window := SeqOffset 1000\<rparr> in
     with_reply (create_test_reply now3 urandom window_update_1 conns) (\<lambda>reply conns.
     and_then (assert_eq reply None) (\<lambda>_.
     let cloned_state = cloned_state\<lparr>snd_una := seq_add (snd_una cloned_state) hello_len_out,
       tcp_state_of := Established (synced_test_new (window_test_new (seg_window window_update_1)
       (seg_seq_num window_update_1) (seg_ack_num window_update_1)))\<rparr> in
     and_then (assert_conn cloned_state conns) (\<lambda>_.
     let window_update_2 = client_pkt\<lparr>seg_seq_num := seq_add (seq_add (seq_add client_isn syn_byte_in)
       hello_len_in) hi_len_in, seg_ack_num := seq_add (seq_add (seq_add server_isn syn_byte_out)
       hello_len_out) hi_len_out, seg_window := SeqOffset 2000\<rparr> in
     with_reply (create_test_reply now4 urandom window_update_2 conns) (\<lambda>reply conns.
     and_then (assert_eq reply None) (\<lambda>_.
     let cloned_state = cloned_state\<lparr>snd_una := seq_add (snd_una cloned_state) hi_len_out,
       tcp_state_of := Established (synced_test_new (window_test_new (seg_window window_update_2)
       (seg_seq_num window_update_2) (seg_ack_num window_update_2)))\<rparr> in
     assert_conn cloned_state conns)))))))))))))"

definition duplicate_ack_updates_window ::
    "instant \<Rightarrow> instant \<Rightarrow> io_error + bytes \<Rightarrow> unit result" where
  "duplicate_ack_updates_window now1 now2 urandom =
     (let new_wnd = SeqOffset 777 in
     let conns = with_after_handshake connections_default in
     and_then (test_try_get conns) (\<lambda>cloned_state.
     and_then (assert_that ((test_get_snd_wnd cloned_state) \<noteq> (Some new_wnd))) (\<lambda>_.
     and_then (from_test_str ''Hello'') (\<lambda>hello_bytes.
     with_reply (create_test_reply now1 urandom (client_pkt\<lparr>seg_seq_num := seq_add client_isn syn_byte_in,
       seg_ack_num := seq_add server_isn syn_byte_out, seg_payload := hello_bytes\<rparr>) conns) (\<lambda>_ conns.
     let cloned_state = cloned_state\<lparr>snd_nxt := seq_add (snd_nxt cloned_state) hello_len_out,
       rcv_nxt := seq_add (rcv_nxt cloned_state) hello_len_in\<rparr> in
     and_then (assert_conn cloned_state conns) (\<lambda>_.
     let dup_ack_fresh_seq = client_pkt\<lparr>seg_seq_num := seq_add (seq_add client_isn syn_byte_in) hello_len_in,
       seg_ack_num := seq_add server_isn syn_byte_out, seg_window := new_wnd\<rparr> in
     with_reply (create_test_reply now2 urandom dup_ack_fresh_seq conns) (\<lambda>reply conns.
     and_then (assert_eq reply None) (\<lambda>_.
     let cloned_state = cloned_state\<lparr>tcp_state_of := Established
       (synced_test_new (window_test_new (seg_window dup_ack_fresh_seq) (seg_seq_num dup_ack_fresh_seq)
       (seg_ack_num dup_ack_fresh_seq)))\<rparr> in
     assert_conn cloned_state conns))))))))"

lemma window_tests_pass:
  "passes (new_ack_adopts_window_from_segment now1 now2 urandom)"
  "passes (stale_segment_does_not_clobber_send_window now1 now2 urandom)"
  "passes (same_seq_but_fresher_ack_updates_window now1 now2 now3 now4 urandom)"
  "passes (duplicate_ack_updates_window now1 now2 urandom)"
  by (simp_all add: new_ack_adopts_window_from_segment_def
      stale_segment_does_not_clobber_send_window_def
      same_seq_but_fresher_ack_updates_window_def
      duplicate_ack_updates_window_def scenario)

section \<open>Flow control\<close>

definition u32_try_from :: "nat \<Rightarrow> u32 result" where
  "u32_try_from n = (if n < 2 ^ 32 then Inr (word_of_nat n) else Inl (Err TryFromInt))"

definition after_handshake_with_snd_wnd :: "(u16, dir_out) seq_offset \<Rightarrow> conn_state" where
  "after_handshake_with_snd_wnd wnd =
     after_handshake\<lparr>tcp_state_of := Established (synced_test_new (window_test_new wnd
       (seq_add client_isn syn_byte_in) (seq_add server_isn syn_byte_out)))\<rparr>"

definition small_window_truncates_echoed_payload_and_buffers_the_rest ::
    "instant \<Rightarrow> io_error + bytes \<Rightarrow> unit result" where
  "small_window_truncates_echoed_payload_and_buffers_the_rest now1 urandom =
     (let window = SeqOffset 3 in
     let conns = connections_default in
     let expected_state = after_handshake_with_snd_wnd window in
     let conns = test_insert expected_state conns in
     and_then (from_test_str ''Hello'') (\<lambda>hello_bytes.
     with_reply (create_test_reply now1 urandom (client_pkt\<lparr>seg_seq_num := seq_add client_isn syn_byte_in,
       seg_ack_num := seq_add server_isn syn_byte_out, seg_window := window, seg_payload := hello_bytes\<rparr>)
       conns) (\<lambda>reply conns.
     and_then (from_test_str ''Hel'') (\<lambda>first_bytes.
     and_then (assert_eq reply (Some (server_reply\<lparr>seg_seq_num := seq_add server_isn syn_byte_out,
       seg_ack_num := seq_add (seq_add client_isn syn_byte_in) hello_len_in, seg_payload := first_bytes\<rparr>))) (\<lambda>_.
     let expected_state = expected_state\<lparr>snd_nxt := seq_add (snd_nxt expected_state)
       (offset_u32_from_u16 window), rcv_nxt := seq_add (rcv_nxt expected_state) hello_len_in,
       send_buffer := send_buffer expected_state @ (map of_char ''lo'')\<rparr> in
     assert_conn expected_state conns)))))"

definition unacked_bytes_count_toward_room_left_in_send_window ::
    "instant \<Rightarrow> instant \<Rightarrow> io_error + bytes \<Rightarrow> unit result" where
  "unacked_bytes_count_toward_room_left_in_send_window now1 now2 urandom =
     (let window = SeqOffset 3 in
     let conns = connections_default in
     let expected_state = after_handshake_with_snd_wnd window in
     let conns = test_insert expected_state conns in
     and_then (from_test_str ''Hello'') (\<lambda>hello_bytes.
     with_reply (create_test_reply now1 urandom (client_pkt\<lparr>seg_seq_num := seq_add client_isn syn_byte_in,
       seg_ack_num := seq_add server_isn syn_byte_out, seg_window := window, seg_payload := hello_bytes\<rparr>)
       conns) (\<lambda>_ conns.
     let expected_state = expected_state\<lparr>snd_nxt := seq_add (snd_nxt expected_state)
       (offset_u32_from_u16 window), rcv_nxt := seq_add (rcv_nxt expected_state) hello_len_in,
       send_buffer := send_buffer expected_state @ (map of_char ''lo'')\<rparr> in
     and_then (test_try_get conns) (\<lambda>state.
     and_then (assert_that (conn_state_eq state expected_state)) (\<lambda>_.
     and_then (assert_that (precedes (snd_una state) (snd_nxt state))) (\<lambda>_.
     let dup_ack_same_window = client_pkt\<lparr>seg_seq_num := seq_add (seq_add client_isn syn_byte_in) hello_len_in,
       seg_ack_num := seq_add server_isn syn_byte_out, seg_window := window\<rparr> in
     with_reply (create_test_reply now2 urandom dup_ack_same_window conns) (\<lambda>reply conns.
     and_then (assert_eq reply None) (\<lambda>_.
     let expected_state = expected_state\<lparr>tcp_state_of := Established
       (synced_test_new (window_test_new (seg_window dup_ack_same_window) (seg_seq_num dup_ack_same_window)
       (seg_ack_num dup_ack_same_window)))\<rparr> in
     assert_conn expected_state conns))))))))"

definition window_opening_via_ack_drains_buffered_remainder ::
    "instant \<Rightarrow> instant \<Rightarrow> io_error + bytes \<Rightarrow> unit result" where
  "window_opening_via_ack_drains_buffered_remainder now1 now2 urandom =
     (let hel_len = SeqOffset 3 in
     let lo_len = SeqOffset 2 in
     let initial_window = SeqOffset 3 in
     let larger_window = SeqOffset 10 in
     let conns = connections_default in
     let expected_state = after_handshake_with_snd_wnd initial_window in
     let conns = test_insert expected_state conns in
     and_then (from_test_str ''Hello'') (\<lambda>hello_bytes.
     with_reply (create_test_reply now1 urandom (client_pkt\<lparr>seg_seq_num := seq_add client_isn syn_byte_in,
       seg_ack_num := seq_add server_isn syn_byte_out, seg_window := initial_window,
       seg_payload := hello_bytes\<rparr>) conns) (\<lambda>_ conns.
     let expected_state = expected_state\<lparr>snd_nxt := seq_add (snd_nxt expected_state) hel_len,
       rcv_nxt := seq_add (rcv_nxt expected_state) hello_len_in, send_buffer := send_buffer expected_state @
       (map of_char ''lo'')\<rparr> in
     and_then (assert_conn expected_state conns) (\<lambda>_.
     let window_update = client_pkt\<lparr>seg_seq_num := seq_add (seq_add client_isn syn_byte_in) hello_len_in,
       seg_ack_num := seq_add (seq_add server_isn syn_byte_out) hel_len, seg_window := larger_window\<rparr> in
     with_reply (create_test_reply now2 urandom window_update conns) (\<lambda>reply conns.
     and_then (from_test_str ''lo'') (\<lambda>rest_bytes.
     and_then (assert_eq reply (Some (server_reply\<lparr>seg_seq_num := seq_add (seq_add server_isn syn_byte_out)
       hel_len, seg_ack_num := seq_add (seq_add client_isn syn_byte_in) hello_len_in,
       seg_payload := rest_bytes\<rparr>))) (\<lambda>_.
     let expected_state = expected_state\<lparr>snd_una := seq_add (snd_una expected_state) hel_len,
       snd_nxt := seq_add (snd_nxt expected_state) lo_len, tcp_state_of := Established
       (synced_test_new (window_test_new larger_window (seg_seq_num window_update)
       (seg_ack_num window_update))), send_buffer := []\<rparr> in
     assert_conn expected_state conns)))))))"

definition zero_window_buffers_entire_payload_and_gets_bare_ack ::
    "instant \<Rightarrow> io_error + bytes \<Rightarrow> unit result" where
  "zero_window_buffers_entire_payload_and_gets_bare_ack now1 urandom =
     (let zero_window = SeqOffset 0 in
     let conns = connections_default in
     let expected_state = after_handshake_with_snd_wnd zero_window in
     let conns = test_insert expected_state conns in
     and_then (from_test_str ''Hello'') (\<lambda>hello_bytes.
     with_reply (create_test_reply now1 urandom (client_pkt\<lparr>seg_seq_num := seq_add client_isn syn_byte_in,
       seg_ack_num := seq_add server_isn syn_byte_out, seg_window := zero_window, seg_payload := hello_bytes\<rparr>)
       conns) (\<lambda>reply conns.
     and_then (assert_eq reply (Some (server_reply\<lparr>seg_seq_num := seq_add server_isn syn_byte_out,
       seg_ack_num := seq_add (seq_add client_isn syn_byte_in) hello_len_in\<rparr>))) (\<lambda>_.
     let expected_state = expected_state\<lparr>rcv_nxt := seq_add (rcv_nxt expected_state) hello_len_in,
       send_buffer := send_buffer expected_state @ (map of_char ''Hello'')\<rparr> in
     assert_conn expected_state conns))))"

definition buffered_payload_larger_than_one_segment_is_capped_when_window_opens ::
    "instant \<Rightarrow> instant \<Rightarrow> io_error + bytes \<Rightarrow> unit result" where
  "buffered_payload_larger_than_one_segment_is_capped_when_window_opens now1 now2 urandom =
     (let zero_window = SeqOffset 0 in
     let wide_open_window = SeqOffset 0xFFFF in
     let conns = connections_default in
     let expected_state = after_handshake_with_snd_wnd zero_window in
     let conns = test_insert expected_state conns in
     let big_payload = replicate (max_payload_len + 100) (CHR ''a'') in
     and_then (u32_try_from (length big_payload)) (\<lambda>n0.
     let big_payload_len = SeqOffset n0 in
     and_then (from_test_str big_payload) (\<lambda>big_payload_bytes.
     with_reply (create_test_reply now1 urandom (client_pkt\<lparr>seg_seq_num := seq_add client_isn syn_byte_in,
       seg_ack_num := seq_add server_isn syn_byte_out, seg_window := zero_window,
       seg_payload := big_payload_bytes\<rparr>) conns) (\<lambda>_ conns.
     let expected_state = expected_state\<lparr>rcv_nxt := seq_add (rcv_nxt expected_state) big_payload_len,
       send_buffer := send_buffer expected_state @ map of_char big_payload\<rparr> in
     and_then (assert_conn expected_state conns) (\<lambda>_.
     let window_update = client_pkt\<lparr>seg_seq_num := seq_add (seq_add client_isn syn_byte_in) big_payload_len,
       seg_ack_num := seq_add server_isn syn_byte_out, seg_window := wide_open_window\<rparr> in
     and_then (from_test_str (replicate max_payload_len (CHR ''a''))) (\<lambda>capped_payload_bytes.
     with_reply (create_test_reply now2 urandom window_update conns) (\<lambda>reply conns.
     and_then (assert_eq reply (Some (server_reply\<lparr>seg_seq_num := seq_add server_isn syn_byte_out,
       seg_ack_num := seq_add (seq_add client_isn syn_byte_in) big_payload_len,
       seg_payload := capped_payload_bytes\<rparr>))) (\<lambda>_.
     and_then (u32_try_from max_payload_len) (\<lambda>n3.
     let expected_state = expected_state\<lparr>snd_nxt := seq_add (snd_nxt expected_state) (SeqOffset n3),
       tcp_state_of := Established (synced_test_new (window_test_new (seg_window window_update)
       (seg_seq_num window_update) (seg_ack_num window_update))),
       send_buffer := drop max_payload_len (send_buffer expected_state)\<rparr> in
     assert_conn expected_state conns)))))))))"

lemma flow_control_tests_pass:
  "passes (small_window_truncates_echoed_payload_and_buffers_the_rest now1 urandom)"
  "passes (unacked_bytes_count_toward_room_left_in_send_window now1 now2 urandom)"
  "passes (window_opening_via_ack_drains_buffered_remainder now1 now2 urandom)"
  "passes (zero_window_buffers_entire_payload_and_gets_bare_ack now1 urandom)"
  by (simp_all add: small_window_truncates_echoed_payload_and_buffers_the_rest_def
      unacked_bytes_count_toward_room_left_in_send_window_def
      window_opening_via_ack_drains_buffered_remainder_def
      zero_window_buffers_entire_payload_and_gets_bare_ack_def after_handshake_with_snd_wnd_def scenario)

lemma capped_segment_test_passes:
  "passes (buffered_payload_larger_than_one_segment_is_capped_when_window_opens now1 now2 urandom)"
  by (simp_all add: buffered_payload_larger_than_one_segment_is_capped_when_window_opens_def after_handshake_with_snd_wnd_def u32_try_from_def scenario)

section \<open>Data\<close>

definition creates_valid_data_echo ::
    "instant \<Rightarrow> io_error + bytes \<Rightarrow> unit result" where
  "creates_valid_data_echo now1 urandom =
     (let conns = with_after_handshake connections_default in
     and_then (from_test_str ''Hello'') (\<lambda>hello_bytes.
     with_reply (create_test_reply now1 urandom (client_pkt\<lparr>seg_seq_num := seq_add client_isn syn_byte_in,
       seg_ack_num := seq_add server_isn syn_byte_out, seg_payload := hello_bytes\<rparr>) conns) (\<lambda>reply conns.
     assert_eq reply (Some (server_reply\<lparr>seg_seq_num := seq_add server_isn syn_byte_out,
       seg_ack_num := seq_add (seq_add client_isn syn_byte_in) hello_len_in, seg_payload := hello_bytes\<rparr>)))))"

definition reply_payload_is_what_the_application_returns_not_just_echo ::
    "instant \<Rightarrow> io_error + bytes \<Rightarrow> unit result" where
  "reply_payload_is_what_the_application_returns_not_just_echo now1 urandom =
     (let conns = with_after_handshake connections_default in
     and_then (from_test_str ''Hello'') (\<lambda>hello_bytes.
     with_reply (create_reply_of shouting_test_app now1 urandom (client_pkt\<lparr>seg_seq_num := seq_add client_isn
       syn_byte_in, seg_ack_num := seq_add server_isn syn_byte_out, seg_payload := hello_bytes\<rparr>) conns)
       (\<lambda>reply conns.
     and_then (from_test_str ''HELLO'') (\<lambda>shouted_bytes.
     assert_eq reply (Some (server_reply\<lparr>seg_seq_num := seq_add server_isn syn_byte_out,
       seg_ack_num := seq_add (seq_add client_isn syn_byte_in) hello_len_in, seg_payload := shouted_bytes\<rparr>))))))"

definition pure_ack_on_established_connection_returns_none ::
    "instant \<Rightarrow> instant \<Rightarrow> io_error + bytes \<Rightarrow> unit result" where
  "pure_ack_on_established_connection_returns_none now1 now2 urandom =
     (let conns = with_after_handshake connections_default in
     and_then (test_try_get conns) (\<lambda>cloned_state.
     and_then (from_test_str ''Hello'') (\<lambda>hello_bytes.
     with_reply (create_test_reply now1 urandom (client_pkt\<lparr>seg_seq_num := seq_add client_isn syn_byte_in,
       seg_ack_num := seq_add server_isn syn_byte_out, seg_payload := hello_bytes\<rparr>) conns) (\<lambda>_ conns.
     let cloned_state = cloned_state\<lparr>snd_nxt := seq_add (snd_nxt cloned_state) hello_len_out,
       rcv_nxt := seq_add (rcv_nxt cloned_state) hello_len_in\<rparr> in
     let pure_ack = client_pkt\<lparr>seg_seq_num := seq_add (seq_add client_isn syn_byte_in) hello_len_in,
       seg_ack_num := seq_add (seq_add server_isn syn_byte_out) hello_len_out\<rparr> in
     with_reply (create_test_reply now2 urandom pure_ack conns) (\<lambda>reply conns.
     and_then (assert_eq reply None) (\<lambda>_.
     let cloned_state = cloned_state\<lparr>snd_una := seq_add (snd_una cloned_state) hello_len_out,
       tcp_state_of := Established (synced_test_new (window_test_new (seg_window pure_ack)
       (seg_seq_num pure_ack) (seg_ack_num pure_ack)))\<rparr> in
     assert_conn cloned_state conns))))))"

definition consecutive_replies_use_snd_nxt_for_seq_num ::
    "instant \<Rightarrow> instant \<Rightarrow> io_error + bytes \<Rightarrow> unit result" where
  "consecutive_replies_use_snd_nxt_for_seq_num now1 now2 urandom =
     (let conns = with_after_handshake connections_default in
     and_then (test_try_get conns) (\<lambda>cloned_state.
     and_then (from_test_str ''Hello'') (\<lambda>hello_bytes.
     with_reply (create_test_reply now1 urandom (client_pkt\<lparr>seg_seq_num := seq_add client_isn syn_byte_in,
       seg_ack_num := seq_add server_isn syn_byte_out, seg_payload := hello_bytes\<rparr>) conns) (\<lambda>reply1 conns.
     and_then (assert_eq reply1 (Some (server_reply\<lparr>seg_seq_num := seq_add server_isn syn_byte_out,
       seg_ack_num := seq_add (seq_add client_isn syn_byte_in) hello_len_in, seg_payload := hello_bytes\<rparr>))) (\<lambda>_.
     let cloned_state = cloned_state\<lparr>snd_nxt := seq_add (snd_nxt cloned_state) hello_len_out,
       rcv_nxt := seq_add (rcv_nxt cloned_state) hello_len_in\<rparr> in
     and_then (assert_conn cloned_state conns) (\<lambda>_.
     and_then (from_test_str ''Hi'') (\<lambda>hi_bytes.
     with_reply (create_test_reply now2 urandom (client_pkt\<lparr>seg_seq_num := seq_add
       (seq_add client_isn syn_byte_in) hello_len_in, seg_ack_num := seq_add server_isn syn_byte_out,
       seg_payload := hi_bytes\<rparr>) conns) (\<lambda>reply2 conns.
     assert_eq reply2 (Some (server_reply\<lparr>seg_seq_num := seq_add (seq_add server_isn syn_byte_out)
       hello_len_out, seg_ack_num := seq_add (seq_add (seq_add client_isn syn_byte_in) hello_len_in) hi_len_in,
       seg_payload := hi_bytes\<rparr>))))))))))"

definition old_ack_num_does_not_regress_snd_una ::
    "instant \<Rightarrow> instant \<Rightarrow> instant \<Rightarrow> io_error + bytes \<Rightarrow> unit result" where
  "old_ack_num_does_not_regress_snd_una now1 now2 now3 urandom =
     (let conns = with_after_handshake connections_default in
     and_then (test_try_get conns) (\<lambda>cloned_state.
     and_then (assert_eq (snd_una cloned_state) (seq_add server_isn syn_byte_out)) (\<lambda>_.
     and_then (from_test_str ''Hello'') (\<lambda>hello_bytes.
     with_reply (create_test_reply now1 urandom (client_pkt\<lparr>seg_seq_num := seq_add client_isn syn_byte_in,
       seg_ack_num := seq_add server_isn syn_byte_out, seg_payload := hello_bytes\<rparr>) conns) (\<lambda>reply1 conns.
     and_then (assert_eq reply1 (Some (server_reply\<lparr>seg_seq_num := seq_add server_isn syn_byte_out,
       seg_ack_num := seq_add (seq_add client_isn syn_byte_in) hello_len_in, seg_payload := hello_bytes\<rparr>))) (\<lambda>_.
     let cloned_state = cloned_state\<lparr>snd_nxt := seq_add (snd_nxt cloned_state) hello_len_out,
       rcv_nxt := seq_add (rcv_nxt cloned_state) hello_len_in\<rparr> in
     and_then (assert_conn cloned_state conns) (\<lambda>_.
     and_then (from_test_str ''Hi'') (\<lambda>hi_bytes.
     let hi_pkt = client_pkt\<lparr>seg_seq_num := seq_add (seq_add client_isn syn_byte_in) hello_len_in,
       seg_ack_num := seq_add (seq_add server_isn syn_byte_out) hello_len_out, seg_payload := hi_bytes\<rparr> in
     with_reply (create_test_reply now2 urandom hi_pkt conns) (\<lambda>reply2 conns.
     and_then (assert_eq reply2 (Some (server_reply\<lparr>seg_seq_num := seq_add (seq_add server_isn syn_byte_out)
       hello_len_out, seg_ack_num := seq_add (seq_add (seq_add client_isn syn_byte_in) hello_len_in) hi_len_in,
       seg_payload := hi_bytes\<rparr>))) (\<lambda>_.
     let cloned_state = cloned_state\<lparr>snd_nxt := seq_add (snd_nxt cloned_state) hi_len_out,
       rcv_nxt := seq_add (rcv_nxt cloned_state) hi_len_in, snd_una := seq_add (snd_una cloned_state)
       hello_len_out, tcp_state_of := Established (synced_test_new
       (window_test_new (seg_window hi_pkt) (seg_seq_num hi_pkt) (seg_ack_num hi_pkt)))\<rparr> in
     and_then (assert_conn cloned_state conns) (\<lambda>_.
     and_then (from_test_str ''Hey'') (\<lambda>hey_bytes.
     with_reply (create_test_reply now3 urandom (client_pkt\<lparr>seg_seq_num := seq_add
       (seq_add (seq_add client_isn syn_byte_in) hello_len_in) hi_len_in,
       seg_ack_num := seq_add server_isn syn_byte_out, seg_payload := hey_bytes\<rparr>) conns) (\<lambda>reply3 conns.
     and_then (assert_eq reply3 (Some (server_reply\<lparr>seg_seq_num := seq_add
       (seq_add (seq_add server_isn syn_byte_out) hello_len_out) hi_len_out,
       seg_ack_num := seq_add (seq_add (seq_add (seq_add client_isn syn_byte_in) hello_len_in) hi_len_in)
       hey_len_in, seg_payload := hey_bytes\<rparr>))) (\<lambda>_.
     let cloned_state = cloned_state\<lparr>snd_nxt := seq_add (snd_nxt cloned_state) hey_len_out,
       rcv_nxt := seq_add (rcv_nxt cloned_state) hey_len_in\<rparr> in
     assert_conn cloned_state conns))))))))))))))"

definition duplicate_data_pkt_gets_duplicate_ack_without_echo ::
    "instant \<Rightarrow> instant \<Rightarrow> instant \<Rightarrow> io_error + bytes \<Rightarrow> unit result" where
  "duplicate_data_pkt_gets_duplicate_ack_without_echo now1 now2 now3 urandom =
     (let conns = with_after_handshake connections_default in
     and_then (from_test_str ''Hello'') (\<lambda>hello_bytes.
     let hello = client_pkt\<lparr>seg_seq_num := seq_add client_isn syn_byte_in,
       seg_ack_num := seq_add server_isn syn_byte_out, seg_payload := hello_bytes\<rparr> in
     and_then (from_test_str ''Hi'') (\<lambda>hi_bytes.
     let hi = client_pkt\<lparr>seg_seq_num := seq_add (seq_add client_isn syn_byte_in) hello_len_in,
       seg_ack_num := seq_add (seq_add server_isn syn_byte_out) hello_len_out, seg_payload := hi_bytes\<rparr> in
     with_reply (create_test_reply now1 urandom hello conns) (\<lambda>reply conns.
     and_then (assert_eq reply (Some (server_reply\<lparr>seg_seq_num := seq_add server_isn syn_byte_out,
       seg_ack_num := seq_add (seq_add client_isn syn_byte_in) hello_len_in, seg_payload := hello_bytes\<rparr>))) (\<lambda>_.
     with_reply (create_test_reply now2 urandom hi conns) (\<lambda>reply conns.
     and_then (assert_eq reply (Some (server_reply\<lparr>seg_seq_num := seq_add (seq_add server_isn syn_byte_out)
       hello_len_out, seg_ack_num := seq_add (seq_add (seq_add client_isn syn_byte_in) hello_len_in) hi_len_in,
       seg_payload := hi_bytes\<rparr>))) (\<lambda>_.
     with_reply (create_test_reply now3 urandom hello conns) (\<lambda>reply conns.
     assert_eq reply (Some (server_reply\<lparr>seg_seq_num := seq_add
       (seq_add (seq_add server_isn syn_byte_out) hello_len_out) hi_len_out,
       seg_ack_num := seq_add (seq_add (seq_add client_isn syn_byte_in) hello_len_in) hi_len_in\<rparr>))))))))))"

definition stale_pure_ack_gets_duplicate_ack_without_updating_state ::
    "instant \<Rightarrow> io_error + bytes \<Rightarrow> unit result" where
  "stale_pure_ack_gets_duplicate_ack_without_updating_state now1 urandom =
     (let conns = with_after_handshake connections_default in
     and_then (test_try_get conns) (\<lambda>initial_state.
     let stale_pure_ack = client_pkt\<lparr>seg_seq_num := client_isn, seg_ack_num := seq_add server_isn syn_byte_out,
       seg_window := SeqOffset 1234\<rparr> in
     with_reply (create_test_reply now1 urandom stale_pure_ack conns) (\<lambda>reply conns.
     and_then (assert_eq reply (Some (server_reply\<lparr>seg_seq_num := seq_add server_isn syn_byte_out,
       seg_ack_num := seq_add client_isn syn_byte_in\<rparr>))) (\<lambda>_.
     assert_conn initial_state conns))))"

definition ack_for_unsent_data_is_dropped_and_gets_current_state_reply ::
    "instant \<Rightarrow> io_error + bytes \<Rightarrow> unit result" where
  "ack_for_unsent_data_is_dropped_and_gets_current_state_reply now1 urandom =
     (let conns = with_after_handshake connections_default in
     and_then (test_try_get conns) (\<lambda>initial_state.
     and_then (from_test_str ''Hello'') (\<lambda>hello_bytes.
     with_reply (create_test_reply now1 urandom (client_pkt\<lparr>seg_seq_num := seq_add client_isn syn_byte_in,
       seg_ack_num := seq_add server_isn (SeqOffset 20), seg_payload := hello_bytes\<rparr>) conns) (\<lambda>reply conns.
     and_then (assert_eq reply (Some (server_reply\<lparr>seg_seq_num := seq_add server_isn syn_byte_out,
       seg_ack_num := seq_add client_isn syn_byte_in\<rparr>))) (\<lambda>_.
     assert_conn initial_state conns)))))"

definition wraparound_ack_for_unsent_data_is_still_rejected ::
    "instant \<Rightarrow> io_error + bytes \<Rightarrow> unit result" where
  "wraparound_ack_for_unsent_data_is_still_rejected now1 urandom =
     (let conns = connections_default in
     let initial_state = after_handshake\<lparr>tcp_state_of := Established
       (synced_test_new (window_test_new (SeqOffset 0xFFFF) (seq_add client_isn syn_byte_in)
       (SeqPoint 0xFFFFFFFF))), snd_nxt := SeqPoint 0xFFFFFFFF, snd_una := SeqPoint 0xFFFFFFFF\<rparr> in
     let conns = test_insert initial_state conns in
     with_reply (create_test_reply now1 urandom (client_pkt\<lparr>seg_seq_num := seq_add client_isn syn_byte_in\<rparr>)
       conns) (\<lambda>reply conns.
     and_then (assert_eq reply (Some (server_reply\<lparr>seg_seq_num := SeqPoint 0xFFFFFFFF,
       seg_ack_num := seq_add client_isn syn_byte_in\<rparr>))) (\<lambda>_.
     assert_conn initial_state conns)))"

definition data_pkt_for_unknown_connection_gets_rst ::
    "instant \<Rightarrow> io_error + bytes \<Rightarrow> unit result" where
  "data_pkt_for_unknown_connection_gets_rst now1 urandom =
     (let conns = connections_default in
     and_then (from_test_str ''Hello'') (\<lambda>hello_bytes.
     with_reply (create_test_reply now1 urandom (client_pkt\<lparr>seg_seq_num := seq_add client_isn syn_byte_in,
       seg_ack_num := seq_add server_isn syn_byte_out, seg_payload := hello_bytes\<rparr>) conns) (\<lambda>reply conns.
     assert_eq reply (Some (server_reply\<lparr>seg_seq_num := seq_add server_isn syn_byte_out, seg_flags := Rst\<rparr>)))))"

definition out_of_order_data_is_buffered_and_gets_duplicate_ack ::
    "instant \<Rightarrow> io_error + bytes \<Rightarrow> unit result" where
  "out_of_order_data_is_buffered_and_gets_duplicate_ack now1 urandom =
     (let conns = with_after_handshake connections_default in
     and_then (from_test_str ''Hi'') (\<lambda>hi_bytes.
     with_reply (create_test_reply now1 urandom (client_pkt\<lparr>seg_seq_num := seq_add
       (seq_add client_isn syn_byte_in) hello_len_in, seg_ack_num := seq_add server_isn syn_byte_out,
       seg_payload := hi_bytes\<rparr>) conns) (\<lambda>reply conns.
     and_then (assert_eq reply (Some (server_reply\<lparr>seg_seq_num := seq_add server_isn syn_byte_out,
       seg_ack_num := seq_add client_isn syn_byte_in\<rparr>))) (\<lambda>_.
     and_then (test_try_get conns) (\<lambda>conn.
     assert_eq (length (segments (reassembly conn))) 1)))))"

definition buffered_out_of_order_data_is_echoed_once_gap_closes ::
    "instant \<Rightarrow> instant \<Rightarrow> io_error + bytes \<Rightarrow> unit result" where
  "buffered_out_of_order_data_is_echoed_once_gap_closes now1 now2 urandom =
     (let conns = with_after_handshake connections_default in
     and_then (from_test_str ''Hi'') (\<lambda>hi_bytes.
     with_reply (create_test_reply now1 urandom (client_pkt\<lparr>seg_seq_num := seq_add
       (seq_add client_isn syn_byte_in) hello_len_in, seg_ack_num := seq_add server_isn syn_byte_out,
       seg_payload := hi_bytes\<rparr>) conns) (\<lambda>_ conns.
     and_then (from_test_str ''Hello'') (\<lambda>hello_bytes.
     with_reply (create_test_reply now2 urandom (client_pkt\<lparr>seg_seq_num := seq_add client_isn syn_byte_in,
       seg_ack_num := seq_add server_isn syn_byte_out, seg_payload := hello_bytes\<rparr>) conns) (\<lambda>reply conns.
     and_then (from_test_str ''HelloHi'') (\<lambda>both_bytes.
     and_then (assert_eq reply (Some (server_reply\<lparr>seg_seq_num := seq_add server_isn syn_byte_out,
       seg_ack_num := seq_add (seq_add (seq_add client_isn syn_byte_in) hello_len_in) hi_len_in,
       seg_payload := both_bytes\<rparr>))) (\<lambda>_.
     and_then (test_try_get conns) (\<lambda>conn.
     assert_eq (length (segments (reassembly conn))) 0))))))))"

definition out_of_order_reassembly_respects_app_logic ::
    "instant \<Rightarrow> instant \<Rightarrow> io_error + bytes \<Rightarrow> unit result" where
  "out_of_order_reassembly_respects_app_logic now1 now2 urandom =
     (let conns = with_after_handshake connections_default in
     and_then (from_test_str ''lo'') (\<lambda>rest_bytes.
     with_reply (create_reply_of shouting_test_app now1 urandom (client_pkt\<lparr>seg_seq_num := seq_add
       (seq_add client_isn syn_byte_in) (SeqOffset 3), seg_ack_num := seq_add server_isn syn_byte_out,
       seg_payload := rest_bytes\<rparr>) conns) (\<lambda>_ conns.
     and_then (from_test_str ''hel'') (\<lambda>small_bytes.
     with_reply (create_reply_of shouting_test_app now2 urandom (client_pkt\<lparr>seg_seq_num := seq_add client_isn
       syn_byte_in, seg_ack_num := seq_add server_isn syn_byte_out, seg_payload := small_bytes\<rparr>) conns)
       (\<lambda>reply conns.
     and_then (from_test_str ''HELLO'') (\<lambda>shouted_bytes.
     and_then (assert_eq reply (Some (server_reply\<lparr>seg_seq_num := seq_add server_isn syn_byte_out,
       seg_ack_num := seq_add (seq_add client_isn syn_byte_in) hello_len_in, seg_payload := shouted_bytes\<rparr>)))
       (\<lambda>_.
     and_then (test_try_get conns) (\<lambda>conn.
     assert_eq (length (segments (reassembly conn))) 0))))))))"

definition seq_one_before_rcv_nxt_is_rejected ::
    "instant \<Rightarrow> io_error + bytes \<Rightarrow> unit result" where
  "seq_one_before_rcv_nxt_is_rejected now1 urandom =
     (let conns = with_after_handshake connections_default in
     and_then (test_try_get conns) (\<lambda>initial_state.
     and_then (from_test_str ''Hi'') (\<lambda>hi_bytes.
     with_reply (create_test_reply now1 urandom (client_pkt\<lparr>seg_seq_num := point_sub
       (seq_add client_isn syn_byte_in) (SeqOffset 1), seg_ack_num := seq_add server_isn syn_byte_out,
       seg_payload := hi_bytes\<rparr>) conns) (\<lambda>reply conns.
     and_then (assert_eq reply (Some (server_reply\<lparr>seg_seq_num := seq_add server_isn syn_byte_out,
       seg_ack_num := seq_add client_isn syn_byte_in\<rparr>))) (\<lambda>_.
     assert_conn initial_state conns)))))"

definition seq_at_last_acceptable_offset_is_still_buffered ::
    "instant \<Rightarrow> io_error + bytes \<Rightarrow> unit result" where
  "seq_at_last_acceptable_offset_is_still_buffered now1 urandom =
     (let conns = with_after_handshake connections_default in
     and_then (test_try_get conns) (\<lambda>cloned_state.
     and_then (from_test_str ''Hi'') (\<lambda>hi_bytes.
     let hi = client_pkt\<lparr>seg_seq_num := point_sub (seq_add (seq_add client_isn syn_byte_in)
       (offset_u32_from_u16 rcv_wnd)) (SeqOffset 1), seg_ack_num := seq_add server_isn syn_byte_out,
       seg_payload := hi_bytes\<rparr> in
     with_reply (create_test_reply now1 urandom hi conns) (\<lambda>reply conns.
     and_then (assert_eq reply (Some (server_reply\<lparr>seg_seq_num := seq_add server_isn syn_byte_out,
       seg_ack_num := seq_add client_isn syn_byte_in\<rparr>))) (\<lambda>_.
     let cloned_state = cloned_state\<lparr>tcp_state_of := Established
       (synced_test_new (window_test_new (seg_window hi) (seg_seq_num hi) (seg_ack_num hi)))\<rparr> in
     and_then (ok_or (seg_payload hi) (Static ''Expected \"Hi\" segment to carry a payload'')) (\<lambda>payload.
     let cloned_state = cloned_state\<lparr>reassembly := reassembly_insert (seg_seq_num hi) payload
       (reassembly cloned_state)\<rparr> in
     assert_conn cloned_state conns))))))"

definition seq_at_first_unacceptable_offset_is_rejected ::
    "instant \<Rightarrow> io_error + bytes \<Rightarrow> unit result" where
  "seq_at_first_unacceptable_offset_is_rejected now1 urandom =
     (let conns = with_after_handshake connections_default in
     and_then (test_try_get conns) (\<lambda>initial_state.
     and_then (from_test_str ''Hi'') (\<lambda>hi_bytes.
     with_reply (create_test_reply now1 urandom (client_pkt\<lparr>seg_seq_num := seq_add
       (seq_add client_isn syn_byte_in) (offset_u32_from_u16 rcv_wnd),
       seg_ack_num := seq_add server_isn syn_byte_out, seg_payload := hi_bytes\<rparr>) conns) (\<lambda>reply conns.
     and_then (assert_eq reply (Some (server_reply\<lparr>seg_seq_num := seq_add server_isn syn_byte_out,
       seg_ack_num := seq_add client_isn syn_byte_in\<rparr>))) (\<lambda>_.
     assert_conn initial_state conns)))))"

lemma data_tests_pass:
  "passes (creates_valid_data_echo now1 urandom)"
  "passes (reply_payload_is_what_the_application_returns_not_just_echo now1 urandom)"
  "passes (pure_ack_on_established_connection_returns_none now1 now2 urandom)"
  "passes (consecutive_replies_use_snd_nxt_for_seq_num now1 now2 urandom)"
  "passes (old_ack_num_does_not_regress_snd_una now1 now2 now3 urandom)"
  "passes (duplicate_data_pkt_gets_duplicate_ack_without_echo now1 now2 now3 urandom)"
  "passes (stale_pure_ack_gets_duplicate_ack_without_updating_state now1 urandom)"
  "passes (ack_for_unsent_data_is_dropped_and_gets_current_state_reply now1 urandom)"
  "passes (wraparound_ack_for_unsent_data_is_still_rejected now1 urandom)"
  "passes (data_pkt_for_unknown_connection_gets_rst now1 urandom)"
  "passes (out_of_order_data_is_buffered_and_gets_duplicate_ack now1 urandom)"
  "passes (buffered_out_of_order_data_is_echoed_once_gap_closes now1 now2 urandom)"
  "passes (out_of_order_reassembly_respects_app_logic now1 now2 urandom)"
  "passes (seq_one_before_rcv_nxt_is_rejected now1 urandom)"
  "passes (seq_at_last_acceptable_offset_is_still_buffered now1 urandom)"
  "passes (seq_at_first_unacceptable_offset_is_rejected now1 urandom)"
  by (simp_all add: creates_valid_data_echo_def
      reply_payload_is_what_the_application_returns_not_just_echo_def
      pure_ack_on_established_connection_returns_none_def
      consecutive_replies_use_snd_nxt_for_seq_num_def
      old_ack_num_does_not_regress_snd_una_def
      duplicate_data_pkt_gets_duplicate_ack_without_echo_def
      stale_pure_ack_gets_duplicate_ack_without_updating_state_def
      ack_for_unsent_data_is_dropped_and_gets_current_state_reply_def
      wraparound_ack_for_unsent_data_is_still_rejected_def
      data_pkt_for_unknown_connection_gets_rst_def
      out_of_order_data_is_buffered_and_gets_duplicate_ack_def
      buffered_out_of_order_data_is_echoed_once_gap_closes_def
      out_of_order_reassembly_respects_app_logic_def
      seq_one_before_rcv_nxt_is_rejected_def
      seq_at_last_acceptable_offset_is_still_buffered_def
      seq_at_first_unacceptable_offset_is_rejected_def to_ascii_uppercase_def scenario)

end
