(* ===== verification/Tests_Close.thy ===== *)
theory Tests_Close
  imports Tests_Transfer
begin

text \<open>
  The scenario tests of closing a connection, passively and actively:
  \<open>stack/src/protocol/tcp/tests/terminate.rs\<close>.
\<close>

definition states_after_sending_fin :: "tcp_state list" where
  "states_after_sending_fin =
     [FinWait1 (synced_test_new window_after_handshake), FinWait2 (synced_test_new window_after_handshake),
      Closing (synced_test_new window_after_handshake), LastAck (synced_test_new window_after_handshake)]"

definition fin_ack_in_syn_received_establishes_and_closes_immediately ::
    "instant \<Rightarrow> instant \<Rightarrow> io_error + bytes \<Rightarrow> unit result" where
  "fin_ack_in_syn_received_establishes_and_closes_immediately now1 now2 urandom =
     (let conns = with_syn_rcv now1 connections_default in
     and_then (test_try_get conns) (\<lambda>cloned_state.
     let client_fin_ack = client_pkt\<lparr>seg_seq_num := seq_add client_isn syn_byte_in,
       seg_ack_num := seq_add server_isn syn_byte_out, seg_flags := FinAck\<rparr> in
     with_reply (create_test_reply now2 urandom client_fin_ack conns) (\<lambda>reply conns.
     and_then (assert_eq reply (Some (server_reply\<lparr>seg_seq_num := seq_add server_isn syn_byte_out,
       seg_ack_num := seq_add (seq_add client_isn syn_byte_in) fin_byte_in, seg_flags := FinAck\<rparr>))) (\<lambda>_.
     let cloned_state = cloned_state\<lparr>tcp_state_of := LastAck (synced_test_new
       (window_test_new (seg_window client_fin_ack) (seg_seq_num client_fin_ack)
       (seg_ack_num client_fin_ack))), snd_una := seq_add (snd_una cloned_state) syn_byte_out,
       snd_nxt := seq_add (snd_nxt cloned_state) fin_byte_out, rcv_nxt := seq_add (rcv_nxt cloned_state)
       fin_byte_in\<rparr> in
     assert_conn cloned_state conns))))"

definition creates_valid_fin_ack ::
    "instant \<Rightarrow> io_error + bytes \<Rightarrow> unit result" where
  "creates_valid_fin_ack now1 urandom =
     (let conns = with_after_handshake connections_default in
     and_then (test_try_get conns) (\<lambda>cloned_state.
     let client_fin_ack = client_pkt\<lparr>seg_seq_num := seq_add client_isn syn_byte_in,
       seg_ack_num := seq_add server_isn syn_byte_out, seg_flags := FinAck\<rparr> in
     with_reply (create_test_reply now1 urandom client_fin_ack conns) (\<lambda>reply conns.
     and_then (assert_eq reply (Some (server_reply\<lparr>seg_seq_num := seq_add server_isn syn_byte_out,
       seg_ack_num := seq_add (seq_add client_isn syn_byte_in) fin_byte_in, seg_flags := FinAck\<rparr>))) (\<lambda>_.
     let cloned_state = cloned_state\<lparr>tcp_state_of := LastAck (synced_test_new
       (window_test_new (seg_window client_fin_ack) (seg_seq_num client_fin_ack)
       (seg_ack_num client_fin_ack))), snd_nxt := seq_add (snd_nxt cloned_state) syn_byte_out,
       rcv_nxt := seq_add (rcv_nxt cloned_state) fin_byte_in\<rparr> in
     assert_conn cloned_state conns))))"

definition fin_ack_acks_prior_data_and_advances_snd_una ::
    "instant \<Rightarrow> instant \<Rightarrow> io_error + bytes \<Rightarrow> unit result" where
  "fin_ack_acks_prior_data_and_advances_snd_una now1 now2 urandom =
     (let conns = with_after_handshake connections_default in
     and_then (test_try_get conns) (\<lambda>cloned_state.
     and_then (from_test_str ''Hello'') (\<lambda>hello_bytes.
     with_reply (create_test_reply now1 urandom (client_pkt\<lparr>seg_seq_num := seq_add client_isn syn_byte_in,
       seg_ack_num := seq_add server_isn syn_byte_out, seg_payload := hello_bytes\<rparr>) conns) (\<lambda>_ conns.
     let cloned_state = cloned_state\<lparr>snd_nxt := seq_add (snd_nxt cloned_state) hello_len_out,
       rcv_nxt := seq_add (rcv_nxt cloned_state) hello_len_in\<rparr> in
     and_then (test_try_get conns) (\<lambda>state.
     and_then (assert_eq (length (pending state), Option.bind (first_of (pending state))
       (\<lambda>seg. map_option payload_data (info_payload (pend_info seg)))) (1, Some (map of_char ''Hello''))) (\<lambda>_.
     let client_fin_ack = client_pkt\<lparr>seg_seq_num := seq_add (seq_add client_isn syn_byte_in) hello_len_in,
       seg_ack_num := seq_add (seq_add server_isn syn_byte_out) hello_len_out, seg_flags := FinAck\<rparr> in
     with_reply (create_test_reply now2 urandom client_fin_ack conns) (\<lambda>_ conns.
     let cloned_state = cloned_state\<lparr>tcp_state_of := LastAck (synced_test_new
       (window_test_new (seg_window client_fin_ack) (seg_seq_num client_fin_ack)
       (seg_ack_num client_fin_ack))), snd_nxt := seq_add (snd_nxt cloned_state) fin_byte_out,
       rcv_nxt := seq_add (rcv_nxt cloned_state) fin_byte_in, snd_una := seq_add (snd_una cloned_state)
       hello_len_out\<rparr> in
     and_then (test_try_get conns) (\<lambda>final_state.
     and_then (assert_that (conn_state_eq final_state cloned_state)) (\<lambda>_.
     assert_eq (length (pending final_state), map_option (\<lambda>seg. info_flags (pend_info seg))
       (first_of (pending final_state))) (1, Some FinAck))))))))))"

definition out_of_order_fin_ack_gets_duplicate_ack_without_closing ::
    "instant \<Rightarrow> io_error + bytes \<Rightarrow> unit result" where
  "out_of_order_fin_ack_gets_duplicate_ack_without_closing now1 urandom =
     (let conns = with_after_handshake connections_default in
     and_then (test_try_get conns) (\<lambda>cloned_state.
     let client_fin_ack = client_pkt\<lparr>seg_seq_num := seq_add (seq_add client_isn syn_byte_in) hello_len_in,
       seg_ack_num := seq_add server_isn syn_byte_out, seg_flags := FinAck\<rparr> in
     with_reply (create_test_reply now1 urandom client_fin_ack conns) (\<lambda>reply conns.
     and_then (assert_eq reply (Some (server_reply\<lparr>seg_seq_num := seq_add server_isn syn_byte_out,
       seg_ack_num := seq_add client_isn syn_byte_in\<rparr>))) (\<lambda>_.
     let cloned_state = cloned_state\<lparr>tcp_state_of := Established
       (synced_test_new (window_test_new (seg_window client_fin_ack) (seg_seq_num client_fin_ack)
       (seg_ack_num client_fin_ack))), reassembly := mark_fin (seg_seq_num client_fin_ack)
       (reassembly cloned_state)\<rparr> in
     assert_conn cloned_state conns))))"

definition out_of_order_fin_ack_with_data_completes_close_once_gap_closes ::
    "instant \<Rightarrow> instant \<Rightarrow> io_error + bytes \<Rightarrow> unit result" where
  "out_of_order_fin_ack_with_data_completes_close_once_gap_closes now1 now2 urandom =
     (let conns = with_after_handshake connections_default in
     and_then (test_try_get conns) (\<lambda>cloned_state.
     and_then (from_test_str ''Hi'') (\<lambda>hi_bytes.
     let fin_ack_with_data = client_pkt\<lparr>seg_seq_num := seq_add (seq_add client_isn syn_byte_in) hello_len_in,
       seg_ack_num := seq_add server_isn syn_byte_out, seg_flags := FinAck, seg_payload := hi_bytes\<rparr> in
     with_reply (create_test_reply now1 urandom fin_ack_with_data conns) (\<lambda>reply conns.
     and_then (assert_eq reply (Some (server_reply\<lparr>seg_seq_num := seq_add server_isn syn_byte_out,
       seg_ack_num := seq_add client_isn syn_byte_in\<rparr>))) (\<lambda>_.
     let cloned_state = cloned_state\<lparr>tcp_state_of := Established
       (synced_test_new (window_test_new (seg_window fin_ack_with_data) (seg_seq_num fin_ack_with_data)
       (seg_ack_num fin_ack_with_data)))\<rparr> in
     and_then
       (ok_or (seg_payload fin_ack_with_data) (Static ''Expected fin_ack_with_data to carry a payload''))
       (\<lambda>payload.
     let cloned_state = cloned_state\<lparr>reassembly := reassembly_insert (seg_seq_num fin_ack_with_data) payload
       (reassembly cloned_state)\<rparr> in
     let cloned_state = cloned_state\<lparr>reassembly := mark_fin (seq_add (seg_seq_num fin_ack_with_data) hi_len_in)
       (reassembly cloned_state)\<rparr> in
     and_then (assert_conn cloned_state conns) (\<lambda>_.
     and_then (from_test_str ''Hello'') (\<lambda>hello_bytes.
     let hello = client_pkt\<lparr>seg_seq_num := seq_add client_isn syn_byte_in,
       seg_ack_num := seq_add server_isn syn_byte_out, seg_payload := hello_bytes\<rparr> in
     and_then (from_test_str ''HelloHi'') (\<lambda>both_bytes.
     with_reply (create_test_reply now2 urandom hello conns) (\<lambda>reply conns.
     and_then (assert_eq reply (Some (server_reply\<lparr>seg_seq_num := seq_add server_isn syn_byte_out,
       seg_ack_num := seq_add (seq_add (seq_add (seq_add client_isn syn_byte_in) hello_len_in) hi_len_in)
       fin_byte_in, seg_flags := FinAck, seg_payload := both_bytes\<rparr>))) (\<lambda>_.
     let cloned_state = cloned_state\<lparr>reassembly := snd (snd (drain_contiguous
       (seq_add (seg_seq_num hello) hello_len_in) (reassembly cloned_state))),
       tcp_state_of := LastAck (synced_test_new (window_test_new (seg_window fin_ack_with_data)
       (seg_seq_num fin_ack_with_data) (seg_ack_num fin_ack_with_data))),
       snd_nxt := seq_add (snd_nxt cloned_state) (offset_add (offset_add hello_len_out hi_len_out)
       fin_byte_out), rcv_nxt := seq_add (rcv_nxt cloned_state) (offset_add (offset_add hello_len_in hi_len_in)
       fin_byte_in)\<rparr> in
     assert_conn cloned_state conns)))))))))))"

definition partial_ack_after_sending_our_fin_does_not_close_or_reset ::
    "instant \<Rightarrow> io_error + bytes \<Rightarrow> unit result" where
  "partial_ack_after_sending_our_fin_does_not_close_or_reset now1 urandom =
     for_each states_after_sending_fin (\<lambda>tcp_state.
     let conns = connections_default in
     let initial_state = after_handshake\<lparr>tcp_state_of := tcp_state,
       snd_nxt := seq_add (snd_nxt after_handshake) fin_byte_out\<rparr> in
     let conns = test_insert initial_state conns in
     let partial_ack = client_pkt\<lparr>seg_seq_num := seq_add client_isn syn_byte_in,
       seg_ack_num := seq_add server_isn syn_byte_out\<rparr> in
     with_reply (create_test_reply now1 urandom partial_ack conns) (\<lambda>reply conns.
     and_then (assert_eq reply None) (\<lambda>_.
     assert_conn initial_state conns)))"

definition final_ack_after_fin_ack_removes_connection_and_returns_none ::
    "instant \<Rightarrow> instant \<Rightarrow> io_error + bytes \<Rightarrow> unit result" where
  "final_ack_after_fin_ack_removes_connection_and_returns_none now1 now2 urandom =
     (let conns = with_after_handshake connections_default in
     and_then (test_try_get conns) (\<lambda>cloned_state.
     let client_fin_ack = client_pkt\<lparr>seg_seq_num := seq_add client_isn syn_byte_in,
       seg_ack_num := seq_add server_isn syn_byte_out, seg_flags := FinAck\<rparr> in
     with_reply (create_test_reply now1 urandom client_fin_ack conns) (\<lambda>_ conns.
     let cloned_state = cloned_state\<lparr>tcp_state_of := LastAck (synced_test_new
       (window_test_new (seg_window client_fin_ack) (seg_seq_num client_fin_ack)
       (seg_ack_num client_fin_ack))), snd_nxt := seq_add (snd_nxt cloned_state) fin_byte_out,
       rcv_nxt := seq_add (rcv_nxt cloned_state) fin_byte_in\<rparr> in
     and_then (assert_conn cloned_state conns) (\<lambda>_.
     with_reply (create_test_reply now2 urandom (client_pkt\<lparr>seg_seq_num := seq_add
       (seq_add client_isn syn_byte_in) fin_byte_in, seg_ack_num := seq_add (seq_add server_isn syn_byte_out)
       fin_byte_out\<rparr>) conns) (\<lambda>reply conns.
     and_then (assert_eq reply None) (\<lambda>_.
     assert_err (test_try_get conns)))))))"

definition close_established_sends_fin_ack_and_transitions_to_fin_wait_1 ::
    "instant \<Rightarrow> io_error + bytes \<Rightarrow> unit result" where
  "close_established_sends_fin_ack_and_transitions_to_fin_wait_1 now1 urandom =
     (let conns = with_after_handshake connections_default in
     and_then (test_try_get conns) (\<lambda>cloned_state.
     let (replies, conns) = close_established now1 conns in
     and_then (ok_or (vec_pop replies) (Static ''Expected one reply'')) (\<lambda>(reply, replies).
     and_then (assert_that (replies = [])) (\<lambda>_.
     and_then (assert_eq reply (server_reply\<lparr>seg_seq_num := seq_add server_isn syn_byte_out,
       seg_ack_num := seq_add client_isn syn_byte_in, seg_flags := FinAck\<rparr>)) (\<lambda>_.
     and_then (assert_eq (seg_ip_pair reply) (ip_swapped ip_pair_in)) (\<lambda>_.
     let cloned_state = cloned_state\<lparr>tcp_state_of := FinWait1 (synced_test_new window_after_handshake),
       snd_nxt := seq_add (snd_nxt cloned_state) fin_byte_out\<rparr> in
     assert_conn cloned_state conns))))))"

definition fin_wait_1_to_fin_wait_2_on_ack_of_our_fin ::
    "instant \<Rightarrow> instant \<Rightarrow> io_error + bytes \<Rightarrow> unit result" where
  "fin_wait_1_to_fin_wait_2_on_ack_of_our_fin now1 now2 urandom =
     (let conns = with_after_handshake connections_default in
     let conns = snd (close_established now1 conns) in
     and_then (test_try_get conns) (\<lambda>cloned_state.
     let ack_of_fin = client_pkt\<lparr>seg_seq_num := seq_add client_isn syn_byte_in,
       seg_ack_num := seq_add (seq_add server_isn syn_byte_out) fin_byte_out\<rparr> in
     with_reply (create_test_reply now2 urandom ack_of_fin conns) (\<lambda>reply conns.
     and_then (assert_eq reply None) (\<lambda>_.
     let cloned_state = cloned_state\<lparr>tcp_state_of := FinWait2
       (synced_test_new (window_test_new (seg_window ack_of_fin) (seg_seq_num ack_of_fin)
       (seg_ack_num ack_of_fin))), snd_una := seq_add (snd_una cloned_state) fin_byte_out\<rparr> in
     assert_conn cloned_state conns))))"

definition fin_wait_2_closes_on_fin_ack_from_peer ::
    "instant \<Rightarrow> instant \<Rightarrow> instant \<Rightarrow> io_error + bytes \<Rightarrow> unit result" where
  "fin_wait_2_closes_on_fin_ack_from_peer now1 now2 now3 urandom =
     (let conns = with_after_handshake connections_default in
     let conns = snd (close_established now1 conns) in
     and_then (test_try_get conns) (\<lambda>cloned_state.
     let ack_of_fin = client_pkt\<lparr>seg_seq_num := seq_add client_isn syn_byte_in,
       seg_ack_num := seq_add (seq_add server_isn syn_byte_out) fin_byte_out\<rparr> in
     with_reply (create_test_reply now2 urandom ack_of_fin conns) (\<lambda>reply conns.
     and_then (assert_eq reply None) (\<lambda>_.
     let cloned_state = cloned_state\<lparr>tcp_state_of := FinWait2
       (synced_test_new (window_test_new (seg_window ack_of_fin) (seg_seq_num ack_of_fin)
       (seg_ack_num ack_of_fin))), snd_una := seq_add (snd_una cloned_state) fin_byte_out\<rparr> in
     and_then (assert_conn cloned_state conns) (\<lambda>_.
     with_reply (create_test_reply now3 urandom (client_pkt\<lparr>seg_seq_num := seq_add client_isn syn_byte_in,
       seg_ack_num := seq_add (seq_add server_isn syn_byte_out) fin_byte_out, seg_flags := FinAck\<rparr>) conns)
       (\<lambda>fin_reply conns.
     and_then (assert_eq fin_reply (Some (server_reply\<lparr>seg_seq_num := seq_add (seq_add server_isn syn_byte_out)
       fin_byte_out, seg_ack_num := seq_add (seq_add client_isn syn_byte_in) fin_byte_in\<rparr>))) (\<lambda>_.
     assert_err (test_try_get conns))))))))"

definition fin_wait_1_closes_immediately_if_peers_fin_also_acks_ours ::
    "instant \<Rightarrow> instant \<Rightarrow> io_error + bytes \<Rightarrow> unit result" where
  "fin_wait_1_closes_immediately_if_peers_fin_also_acks_ours now1 now2 urandom =
     (let conns = with_after_handshake connections_default in
     let conns = snd (close_established now1 conns) in
     with_reply (create_test_reply now2 urandom (client_pkt\<lparr>seg_seq_num := seq_add client_isn syn_byte_in,
       seg_ack_num := seq_add (seq_add server_isn syn_byte_out) fin_byte_out, seg_flags := FinAck\<rparr>) conns)
       (\<lambda>reply conns.
     and_then (assert_eq reply (Some (server_reply\<lparr>seg_seq_num := seq_add (seq_add server_isn syn_byte_out)
       fin_byte_out, seg_ack_num := seq_add (seq_add client_isn syn_byte_in) fin_byte_in\<rparr>))) (\<lambda>_.
     assert_err (test_try_get conns))))"

definition data_after_our_fin_in_fin_wait_1_is_acked_without_echo ::
    "instant \<Rightarrow> instant \<Rightarrow> io_error + bytes \<Rightarrow> unit result" where
  "data_after_our_fin_in_fin_wait_1_is_acked_without_echo now1 now2 urandom =
     (let conns = with_after_handshake connections_default in
     let conns = snd (close_established now1 conns) in
     and_then (test_try_get conns) (\<lambda>cloned_state.
     and_then (from_test_str ''Hello'') (\<lambda>hello_bytes.
     with_reply (create_test_reply now2 urandom (client_pkt\<lparr>seg_seq_num := seq_add client_isn syn_byte_in,
       seg_ack_num := seq_add server_isn syn_byte_out, seg_payload := hello_bytes\<rparr>) conns) (\<lambda>reply conns.
     and_then (assert_eq reply (Some (server_reply\<lparr>seg_seq_num := seq_add (seq_add server_isn syn_byte_out)
       fin_byte_out, seg_ack_num := seq_add (seq_add client_isn syn_byte_in) hello_len_in\<rparr>))) (\<lambda>_.
     let cloned_state = cloned_state\<lparr>rcv_nxt := seq_add (rcv_nxt cloned_state) hello_len_in\<rparr> in
     assert_conn cloned_state conns)))))"

definition data_after_our_fin_in_fin_wait_2_is_acked_without_echo ::
    "instant \<Rightarrow> instant \<Rightarrow> instant \<Rightarrow> io_error + bytes \<Rightarrow> unit result" where
  "data_after_our_fin_in_fin_wait_2_is_acked_without_echo now1 now2 now3 urandom =
     (let conns = with_after_handshake connections_default in
     let conns = snd (close_established now1 conns) in
     and_then (test_try_get conns) (\<lambda>cloned_state.
     let ack_of_fin = client_pkt\<lparr>seg_seq_num := seq_add client_isn syn_byte_in,
       seg_ack_num := seq_add (seq_add server_isn syn_byte_out) fin_byte_out\<rparr> in
     with_reply (create_test_reply now2 urandom ack_of_fin conns) (\<lambda>reply conns.
     and_then (assert_eq reply None) (\<lambda>_.
     let cloned_state = cloned_state\<lparr>tcp_state_of := FinWait2
       (synced_test_new (window_test_new (seg_window ack_of_fin) (seg_seq_num ack_of_fin)
       (seg_ack_num ack_of_fin))), snd_una := seq_add (snd_una cloned_state) fin_byte_out\<rparr> in
     and_then (assert_conn cloned_state conns) (\<lambda>_.
     and_then (from_test_str ''Hello'') (\<lambda>hello_bytes.
     with_reply (create_test_reply now3 urandom (client_pkt\<lparr>seg_seq_num := seq_add client_isn syn_byte_in,
       seg_ack_num := seq_add (seq_add server_isn syn_byte_out) fin_byte_out, seg_payload := hello_bytes\<rparr>)
       conns) (\<lambda>reply conns.
     and_then (assert_eq reply (Some (server_reply\<lparr>seg_seq_num := seq_add (seq_add server_isn syn_byte_out)
       fin_byte_out, seg_ack_num := seq_add (seq_add client_isn syn_byte_in) hello_len_in\<rparr>))) (\<lambda>_.
     let cloned_state = cloned_state\<lparr>rcv_nxt := seq_add (rcv_nxt cloned_state) hello_len_in\<rparr> in
     assert_conn cloned_state conns))))))))"

definition simultaneous_close_transitions_through_closing_to_closed ::
    "instant \<Rightarrow> instant \<Rightarrow> instant \<Rightarrow> io_error + bytes \<Rightarrow> unit result" where
  "simultaneous_close_transitions_through_closing_to_closed now1 now2 now3 urandom =
     (let conns = with_after_handshake connections_default in
     let conns = snd (close_established now1 conns) in
     and_then (test_try_get conns) (\<lambda>cloned_state.
     let client_fin_ack = client_pkt\<lparr>seg_seq_num := seq_add client_isn syn_byte_in,
       seg_ack_num := seq_add server_isn syn_byte_out, seg_flags := FinAck\<rparr> in
     with_reply (create_test_reply now2 urandom client_fin_ack conns) (\<lambda>reply conns.
     and_then (assert_eq reply (Some (server_reply\<lparr>seg_seq_num := seq_add (seq_add server_isn syn_byte_out)
       fin_byte_out, seg_ack_num := seq_add (seq_add client_isn syn_byte_in) fin_byte_in\<rparr>))) (\<lambda>_.
     let cloned_state = cloned_state\<lparr>tcp_state_of := Closing (synced_test_new
       (window_test_new (seg_window client_fin_ack) (seg_seq_num client_fin_ack)
       (seg_ack_num client_fin_ack))), rcv_nxt := seq_add (rcv_nxt cloned_state) fin_byte_in\<rparr> in
     and_then (assert_conn cloned_state conns) (\<lambda>_.
     with_reply (create_test_reply now3 urandom (client_pkt\<lparr>seg_seq_num := seq_add
       (seq_add client_isn syn_byte_in) fin_byte_in, seg_ack_num := seq_add (seq_add server_isn syn_byte_out)
       fin_byte_out\<rparr>) conns) (\<lambda>reply conns.
     and_then (assert_eq reply None) (\<lambda>_.
     assert_err (test_try_get conns))))))))"

definition fin_ack_with_data_in_fin_wait_1_advances_rcv_nxt_past_data_and_fin ::
    "instant \<Rightarrow> instant \<Rightarrow> io_error + bytes \<Rightarrow> unit result" where
  "fin_ack_with_data_in_fin_wait_1_advances_rcv_nxt_past_data_and_fin now1 now2 urandom =
     (let conns = with_after_handshake connections_default in
     let conns = snd (close_established now1 conns) in
     and_then (test_try_get conns) (\<lambda>cloned_state.
     and_then (from_test_str ''Hello'') (\<lambda>hello_bytes.
     let fin_ack_with_data = client_pkt\<lparr>seg_seq_num := seq_add client_isn syn_byte_in,
       seg_ack_num := seq_add server_isn syn_byte_out, seg_flags := FinAck, seg_payload := hello_bytes\<rparr> in
     with_reply (create_test_reply now2 urandom fin_ack_with_data conns) (\<lambda>reply conns.
     and_then (assert_eq reply (Some (server_reply\<lparr>seg_seq_num := seq_add (seq_add server_isn syn_byte_out)
       fin_byte_out, seg_ack_num := seq_add (seq_add (seq_add client_isn syn_byte_in) hello_len_in)
       fin_byte_in\<rparr>))) (\<lambda>_.
     let cloned_state = cloned_state\<lparr>tcp_state_of := Closing (synced_test_new
       (window_test_new (seg_window fin_ack_with_data) (seg_seq_num fin_ack_with_data)
       (seg_ack_num fin_ack_with_data))), rcv_nxt := seq_add (rcv_nxt cloned_state)
       (offset_add hello_len_in fin_byte_in)\<rparr> in
     assert_conn cloned_state conns)))))"

definition fin_ack_with_data_in_fin_wait_1_acking_our_fin_closes_immediately ::
    "instant \<Rightarrow> instant \<Rightarrow> io_error + bytes \<Rightarrow> unit result" where
  "fin_ack_with_data_in_fin_wait_1_acking_our_fin_closes_immediately now1 now2 urandom =
     (let conns = with_after_handshake connections_default in
     let conns = snd (close_established now1 conns) in
     and_then (from_test_str ''Hello'') (\<lambda>hello_bytes.
     with_reply (create_test_reply now2 urandom (client_pkt\<lparr>seg_seq_num := seq_add client_isn syn_byte_in,
       seg_ack_num := seq_add (seq_add server_isn syn_byte_out) fin_byte_out, seg_flags := FinAck,
       seg_payload := hello_bytes\<rparr>) conns) (\<lambda>reply conns.
     and_then (assert_eq reply (Some (server_reply\<lparr>seg_seq_num := seq_add (seq_add server_isn syn_byte_out)
       fin_byte_out, seg_ack_num := seq_add (seq_add (seq_add client_isn syn_byte_in) hello_len_in)
       fin_byte_in\<rparr>))) (\<lambda>_.
     assert_err (test_try_get conns)))))"

definition fin_ack_with_data_in_fin_wait_2_advances_rcv_nxt_past_data_and_fin ::
    "instant \<Rightarrow> instant \<Rightarrow> instant \<Rightarrow> io_error + bytes \<Rightarrow> unit result" where
  "fin_ack_with_data_in_fin_wait_2_advances_rcv_nxt_past_data_and_fin now1 now2 now3 urandom =
     (let conns = with_after_handshake connections_default in
     let conns = snd (close_established now1 conns) in
     with_reply (create_test_reply now2 urandom (client_pkt\<lparr>seg_seq_num := seq_add client_isn syn_byte_in,
       seg_ack_num := seq_add (seq_add server_isn syn_byte_out) fin_byte_out\<rparr>) conns) (\<lambda>reply conns.
     and_then (assert_eq reply None) (\<lambda>_.
     and_then (from_test_str ''Hello'') (\<lambda>hello_bytes.
     with_reply (create_test_reply now3 urandom (client_pkt\<lparr>seg_seq_num := seq_add client_isn syn_byte_in,
       seg_ack_num := seq_add (seq_add server_isn syn_byte_out) fin_byte_out, seg_flags := FinAck,
       seg_payload := hello_bytes\<rparr>) conns) (\<lambda>reply conns.
     and_then (assert_eq reply (Some (server_reply\<lparr>seg_seq_num := seq_add (seq_add server_isn syn_byte_out)
       fin_byte_out, seg_ack_num := seq_add (seq_add (seq_add client_isn syn_byte_in) hello_len_in)
       fin_byte_in\<rparr>))) (\<lambda>_.
     assert_err (test_try_get conns)))))))"

definition fin_ack_with_data_in_established_echoes_data_and_starts_closing ::
    "instant \<Rightarrow> io_error + bytes \<Rightarrow> unit result" where
  "fin_ack_with_data_in_established_echoes_data_and_starts_closing now1 urandom =
     (let conns = with_after_handshake connections_default in
     and_then (test_try_get conns) (\<lambda>cloned_state.
     and_then (from_test_str ''Hello'') (\<lambda>hello_bytes.
     let fin_ack_with_data = client_pkt\<lparr>seg_seq_num := seq_add client_isn syn_byte_in,
       seg_ack_num := seq_add server_isn syn_byte_out, seg_flags := FinAck, seg_payload := hello_bytes\<rparr> in
     with_reply (create_test_reply now1 urandom fin_ack_with_data conns) (\<lambda>reply conns.
     and_then (assert_eq reply (Some (server_reply\<lparr>seg_seq_num := seq_add server_isn syn_byte_out,
       seg_ack_num := seq_add (seq_add (seq_add client_isn syn_byte_in) hello_len_in) fin_byte_in,
       seg_flags := FinAck, seg_payload := hello_bytes\<rparr>))) (\<lambda>_.
     let cloned_state = cloned_state\<lparr>tcp_state_of := LastAck (synced_test_new
       (window_test_new (seg_window fin_ack_with_data) (seg_seq_num fin_ack_with_data)
       (seg_ack_num fin_ack_with_data))), snd_nxt := seq_add (snd_nxt cloned_state)
       (offset_add hello_len_out fin_byte_out), rcv_nxt := seq_add (rcv_nxt cloned_state)
       (offset_add hello_len_in fin_byte_in)\<rparr> in
     assert_conn cloned_state conns)))))"

definition fin_ack_with_data_in_established_defers_fin_until_remainder_drains ::
    "instant \<Rightarrow> instant \<Rightarrow> io_error + bytes \<Rightarrow> unit result" where
  "fin_ack_with_data_in_established_defers_fin_until_remainder_drains now1 now2 urandom =
     (let small_window = SeqOffset 3 in
     let larger_window = SeqOffset 10 in
     let lo_len = SeqOffset 2 in
     let conns = connections_default in
     let expected_state = after_handshake\<lparr>tcp_state_of := Established
       (synced_test_new (window_test_new small_window (seq_add client_isn syn_byte_in)
       (seq_add server_isn syn_byte_out)))\<rparr> in
     let conns = test_insert expected_state conns in
     and_then (from_test_str ''Hello'') (\<lambda>hello_bytes.
     let fin_ack_with_data = client_pkt\<lparr>seg_seq_num := seq_add client_isn syn_byte_in,
       seg_ack_num := seq_add server_isn syn_byte_out, seg_window := small_window, seg_flags := FinAck,
       seg_payload := hello_bytes\<rparr> in
     and_then (from_test_str ''Hel'') (\<lambda>first_bytes.
     with_reply (create_test_reply now1 urandom fin_ack_with_data conns) (\<lambda>reply conns.
     and_then (assert_eq reply (Some (server_reply\<lparr>seg_seq_num := seq_add server_isn syn_byte_out,
       seg_ack_num := seq_add (seq_add (seq_add client_isn syn_byte_in) hello_len_in) fin_byte_in,
       seg_payload := first_bytes\<rparr>))) (\<lambda>_.
     let expected_state = expected_state\<lparr>tcp_state_of := CloseWait
       (synced_test_new (window_test_new (seg_window fin_ack_with_data) (seg_seq_num fin_ack_with_data)
       (seg_ack_num fin_ack_with_data))), snd_nxt := seq_add (snd_nxt expected_state)
       (offset_u32_from_u16 small_window), rcv_nxt := seq_add (rcv_nxt expected_state)
       (offset_add hello_len_in fin_byte_in), send_buffer := send_buffer expected_state @ (map of_char ''lo'')\<rparr>
       in
     and_then (assert_conn expected_state conns) (\<lambda>_.
     let window_update = client_pkt\<lparr>seg_seq_num := seq_add (seq_add (seq_add client_isn syn_byte_in)
       hello_len_in) fin_byte_in, seg_ack_num := seq_add (seq_add server_isn syn_byte_out)
       (offset_u32_from_u16 small_window), seg_window := larger_window\<rparr> in
     and_then (from_test_str ''lo'') (\<lambda>rest_bytes.
     with_reply (create_test_reply now2 urandom window_update conns) (\<lambda>reply conns.
     and_then (assert_eq reply (Some (server_reply\<lparr>seg_seq_num := seq_add (seq_add server_isn syn_byte_out)
       (offset_u32_from_u16 small_window), seg_ack_num := seq_add
       (seq_add (seq_add client_isn syn_byte_in) hello_len_in) fin_byte_in, seg_flags := FinAck,
       seg_payload := rest_bytes\<rparr>))) (\<lambda>_.
     let expected_state = expected_state\<lparr>tcp_state_of := LastAck
       (synced_test_new (window_test_new (seg_window window_update) (seg_seq_num window_update)
       (seg_ack_num window_update))), snd_una := seq_add (snd_una expected_state)
       (offset_u32_from_u16 small_window), snd_nxt := seq_add (snd_nxt expected_state)
       (offset_add lo_len fin_byte_out), send_buffer := []\<rparr> in
     assert_conn expected_state conns)))))))))"

definition reassembled_backlog_larger_than_one_segment_defers_fin_until_drained ::
    "instant \<Rightarrow> instant \<Rightarrow> instant \<Rightarrow> io_error + bytes \<Rightarrow> unit result" where
  "reassembled_backlog_larger_than_one_segment_defers_fin_until_drained now1 now2 now3 urandom =
     (let conns = with_after_handshake connections_default in
     and_then (test_try_get conns) (\<lambda>expected_state.
     let gap_payload = replicate (max_payload_len + 50) (CHR ''a'') in
     and_then (u32_try_from (length gap_payload)) (\<lambda>n0.
     let gap_len = SeqOffset n0 in
     let tail_payload = replicate 100 (CHR ''b'') in
     and_then (u32_try_from (length tail_payload)) (\<lambda>n1.
     let tail_len = SeqOffset n1 in
     and_then (from_test_str tail_payload) (\<lambda>tail_payload_bytes.
     let fin_ack_tail = client_pkt\<lparr>seg_seq_num := seq_add (seq_add client_isn syn_byte_in) gap_len,
       seg_ack_num := seq_add server_isn syn_byte_out, seg_flags := FinAck, seg_payload := tail_payload_bytes\<rparr>
       in
     with_reply (create_test_reply now1 urandom fin_ack_tail conns) (\<lambda>_ conns.
     and_then (ok_or (seg_payload fin_ack_tail) (Static ''Expected fin_ack_tail to carry a payload''))
       (\<lambda>payload.
     let expected_state = expected_state\<lparr>reassembly := reassembly_insert (seg_seq_num fin_ack_tail) payload
       (reassembly expected_state)\<rparr> in
     let expected_state = expected_state\<lparr>reassembly := mark_fin (seq_add (seg_seq_num fin_ack_tail) tail_len)
       (reassembly expected_state)\<rparr> in
     and_then (from_test_str gap_payload) (\<lambda>gap_payload_bytes.
     let gap_filler = client_pkt\<lparr>seg_seq_num := seq_add client_isn syn_byte_in,
       seg_ack_num := seq_add server_isn syn_byte_out, seg_payload := gap_payload_bytes\<rparr> in
     let capped_payload = replicate max_payload_len (CHR ''a'') in
     and_then (u32_try_from max_payload_len) (\<lambda>n5.
     let max_len = SeqOffset n5 in
     and_then (from_test_str capped_payload) (\<lambda>capped_payload_bytes.
     with_reply (create_test_reply now2 urandom gap_filler conns) (\<lambda>reply conns.
     and_then (assert_eq reply (Some (server_reply\<lparr>seg_seq_num := seq_add server_isn syn_byte_out,
       seg_ack_num := seq_add (seq_add (seq_add (seq_add client_isn syn_byte_in) gap_len) tail_len)
       fin_byte_in, seg_payload := capped_payload_bytes\<rparr>))) (\<lambda>_.
     let leftover = (replicate 50 (CHR ''a'')) @ tail_payload in
     let expected_state = expected_state\<lparr>reassembly := snd (snd
       (drain_contiguous (seq_add (seg_seq_num gap_filler) gap_len) (reassembly expected_state))),
       tcp_state_of := CloseWait (synced_test_new (window_test_new (seg_window fin_ack_tail)
       (seg_seq_num fin_ack_tail) (seg_ack_num fin_ack_tail))), snd_nxt := seq_add (snd_nxt expected_state)
       max_len, rcv_nxt := seq_add (rcv_nxt expected_state) (offset_add (offset_add gap_len tail_len)
       fin_byte_in), send_buffer := send_buffer expected_state @ map of_char leftover\<rparr> in
     and_then (assert_conn expected_state conns) (\<lambda>_.
     let window_update = client_pkt\<lparr>seg_seq_num := seq_add (seq_add
       (seq_add (seq_add client_isn syn_byte_in) gap_len) tail_len) fin_byte_in,
       seg_ack_num := seq_add (seq_add server_isn syn_byte_out) max_len\<rparr> in
     and_then (from_test_str leftover) (\<lambda>leftover_bytes.
     with_reply (create_test_reply now3 urandom window_update conns) (\<lambda>reply conns.
     and_then (assert_eq reply (Some (server_reply\<lparr>seg_seq_num := seq_add (seq_add server_isn syn_byte_out)
       max_len, seg_ack_num := seq_add (seq_add (seq_add (seq_add client_isn syn_byte_in) gap_len) tail_len)
       fin_byte_in, seg_flags := FinAck, seg_payload := leftover_bytes\<rparr>))) (\<lambda>_.
     let expected_state = expected_state\<lparr>tcp_state_of := LastAck
       (synced_test_new (window_test_new (seg_window window_update) (seg_seq_num window_update)
       (seg_ack_num window_update))), snd_una := seq_add (snd_una expected_state) max_len\<rparr> in
     and_then (u32_try_from (length leftover)) (\<lambda>n8.
     let expected_state = expected_state\<lparr>snd_nxt := seq_add (snd_nxt expected_state)
       (offset_add (SeqOffset n8) fin_byte_out), send_buffer := []\<rparr> in
     assert_conn expected_state conns)))))))))))))))))"

definition stale_retransmission_after_sending_our_fin_gets_duplicate_ack_not_rst ::
    "instant \<Rightarrow> io_error + bytes \<Rightarrow> unit result" where
  "stale_retransmission_after_sending_our_fin_gets_duplicate_ack_not_rst now1 urandom =
     for_each states_after_sending_fin (\<lambda>tcp_state.
     let conns = connections_default in
     let initial_state = after_handshake\<lparr>tcp_state_of := tcp_state\<rparr> in
     let conns = test_insert initial_state conns in
     and_then (from_test_str ''stale'') (\<lambda>stale_bytes.
     let stale_retransmission = client_pkt\<lparr>seg_seq_num := client_isn,
       seg_ack_num := seq_add server_isn syn_byte_out, seg_payload := stale_bytes\<rparr> in
     with_reply (create_test_reply now1 urandom stale_retransmission conns) (\<lambda>reply conns.
     and_then (assert_eq reply (Some (server_reply\<lparr>seg_seq_num := seq_add server_isn syn_byte_out,
       seg_ack_num := seq_add client_isn syn_byte_in\<rparr>))) (\<lambda>_.
     assert_conn initial_state conns))))"

definition stale_retransmission_in_close_wait_gets_duplicate_ack_not_rst ::
    "instant \<Rightarrow> io_error + bytes \<Rightarrow> unit result" where
  "stale_retransmission_in_close_wait_gets_duplicate_ack_not_rst now1 urandom =
     (let conns = connections_default in
     let initial_state = after_handshake\<lparr>tcp_state_of := CloseWait (synced_test_new window_after_handshake),
       send_buffer := map of_char ''leftover''\<rparr> in
     let conns = test_insert initial_state conns in
     and_then (from_test_str ''stale'') (\<lambda>stale_bytes.
     let stale_retransmission = client_pkt\<lparr>seg_seq_num := client_isn,
       seg_ack_num := seq_add server_isn syn_byte_out, seg_payload := stale_bytes\<rparr> in
     with_reply (create_test_reply now1 urandom stale_retransmission conns) (\<lambda>reply conns.
     and_then (assert_eq reply (Some (server_reply\<lparr>seg_seq_num := seq_add server_isn syn_byte_out,
       seg_ack_num := seq_add client_isn syn_byte_in\<rparr>))) (\<lambda>_.
     assert_conn initial_state conns))))"

definition stale_pure_ack_after_sending_our_fin_gets_duplicate_ack ::
    "instant \<Rightarrow> io_error + bytes \<Rightarrow> unit result" where
  "stale_pure_ack_after_sending_our_fin_gets_duplicate_ack now1 urandom =
     for_each states_after_sending_fin (\<lambda>tcp_state.
     let conns = connections_default in
     let initial_state = after_handshake\<lparr>tcp_state_of := tcp_state\<rparr> in
     let conns = test_insert initial_state conns in
     let stale_pure_ack = client_pkt\<lparr>seg_seq_num := client_isn, seg_ack_num := seq_add server_isn syn_byte_out,
       seg_window := SeqOffset 1234\<rparr> in
     with_reply (create_test_reply now1 urandom stale_pure_ack conns) (\<lambda>reply conns.
     and_then (assert_eq reply (Some (server_reply\<lparr>seg_seq_num := seq_add server_isn syn_byte_out,
       seg_ack_num := seq_add client_isn syn_byte_in\<rparr>))) (\<lambda>_.
     assert_conn initial_state conns)))"

definition stale_pure_ack_in_close_wait_gets_duplicate_ack ::
    "instant \<Rightarrow> io_error + bytes \<Rightarrow> unit result" where
  "stale_pure_ack_in_close_wait_gets_duplicate_ack now1 urandom =
     (let conns = connections_default in
     let initial_state = after_handshake\<lparr>tcp_state_of := CloseWait (synced_test_new window_after_handshake),
       send_buffer := map of_char ''leftover''\<rparr> in
     let conns = test_insert initial_state conns in
     let stale_pure_ack = client_pkt\<lparr>seg_seq_num := client_isn, seg_ack_num := seq_add server_isn syn_byte_out,
       seg_window := SeqOffset 1234\<rparr> in
     with_reply (create_test_reply now1 urandom stale_pure_ack conns) (\<lambda>reply conns.
     and_then (assert_eq reply (Some (server_reply\<lparr>seg_seq_num := seq_add server_isn syn_byte_out,
       seg_ack_num := seq_add client_isn syn_byte_in\<rparr>))) (\<lambda>_.
     assert_conn initial_state conns)))"

lemma close_tests_pass:
  "passes (fin_ack_in_syn_received_establishes_and_closes_immediately now1 now2 urandom)"
  "passes (creates_valid_fin_ack now1 urandom)"
  "passes (fin_ack_acks_prior_data_and_advances_snd_una now1 now2 urandom)"
  "passes (out_of_order_fin_ack_gets_duplicate_ack_without_closing now1 urandom)"
  "passes (out_of_order_fin_ack_with_data_completes_close_once_gap_closes now1 now2 urandom)"
  "passes (partial_ack_after_sending_our_fin_does_not_close_or_reset now1 urandom)"
  "passes (final_ack_after_fin_ack_removes_connection_and_returns_none now1 now2 urandom)"
  "passes (close_established_sends_fin_ack_and_transitions_to_fin_wait_1 now1 urandom)"
  "passes (fin_wait_1_to_fin_wait_2_on_ack_of_our_fin now1 now2 urandom)"
  "passes (fin_wait_2_closes_on_fin_ack_from_peer now1 now2 now3 urandom)"
  "passes (fin_wait_1_closes_immediately_if_peers_fin_also_acks_ours now1 now2 urandom)"
  "passes (data_after_our_fin_in_fin_wait_1_is_acked_without_echo now1 now2 urandom)"
  "passes (data_after_our_fin_in_fin_wait_2_is_acked_without_echo now1 now2 now3 urandom)"
  "passes (simultaneous_close_transitions_through_closing_to_closed now1 now2 now3 urandom)"
  "passes (fin_ack_with_data_in_fin_wait_1_advances_rcv_nxt_past_data_and_fin now1 now2 urandom)"
  "passes (fin_ack_with_data_in_fin_wait_1_acking_our_fin_closes_immediately now1 now2 urandom)"
  "passes (fin_ack_with_data_in_fin_wait_2_advances_rcv_nxt_past_data_and_fin now1 now2 now3 urandom)"
  "passes (fin_ack_with_data_in_established_echoes_data_and_starts_closing now1 urandom)"
  "passes (fin_ack_with_data_in_established_defers_fin_until_remainder_drains now1 now2 urandom)"
  "passes (stale_retransmission_after_sending_our_fin_gets_duplicate_ack_not_rst now1 urandom)"
  "passes (stale_retransmission_in_close_wait_gets_duplicate_ack_not_rst now1 urandom)"
  "passes (stale_pure_ack_after_sending_our_fin_gets_duplicate_ack now1 urandom)"
  "passes (stale_pure_ack_in_close_wait_gets_duplicate_ack now1 urandom)"
  by (simp_all add: fin_ack_in_syn_received_establishes_and_closes_immediately_def
      creates_valid_fin_ack_def
      fin_ack_acks_prior_data_and_advances_snd_una_def
      out_of_order_fin_ack_gets_duplicate_ack_without_closing_def
      out_of_order_fin_ack_with_data_completes_close_once_gap_closes_def
      partial_ack_after_sending_our_fin_does_not_close_or_reset_def
      final_ack_after_fin_ack_removes_connection_and_returns_none_def
      close_established_sends_fin_ack_and_transitions_to_fin_wait_1_def
      fin_wait_1_to_fin_wait_2_on_ack_of_our_fin_def
      fin_wait_2_closes_on_fin_ack_from_peer_def
      fin_wait_1_closes_immediately_if_peers_fin_also_acks_ours_def
      data_after_our_fin_in_fin_wait_1_is_acked_without_echo_def
      data_after_our_fin_in_fin_wait_2_is_acked_without_echo_def
      simultaneous_close_transitions_through_closing_to_closed_def
      fin_ack_with_data_in_fin_wait_1_advances_rcv_nxt_past_data_and_fin_def
      fin_ack_with_data_in_fin_wait_1_acking_our_fin_closes_immediately_def
      fin_ack_with_data_in_fin_wait_2_advances_rcv_nxt_past_data_and_fin_def
      fin_ack_with_data_in_established_echoes_data_and_starts_closing_def
      fin_ack_with_data_in_established_defers_fin_until_remainder_drains_def
      stale_retransmission_after_sending_our_fin_gets_duplicate_ack_not_rst_def
      stale_retransmission_in_close_wait_gets_duplicate_ack_not_rst_def
      stale_pure_ack_after_sending_our_fin_gets_duplicate_ack_def
      stale_pure_ack_in_close_wait_gets_duplicate_ack_def states_after_sending_fin_def scenario)

lemma backlog_test_passes:
  "passes (reassembled_backlog_larger_than_one_segment_defers_fin_until_drained now1 now2 now3 urandom)"
  by (simp_all add: reassembled_backlog_larger_than_one_segment_defers_fin_until_drained_def u32_try_from_def scenario)

end
