(* ===== verification/Tests_Retransmit.thy ===== *)
theory Tests_Retransmit
  imports Tests_Connection
begin

text \<open>
  The scenario tests of retransmission, \<open>stack/src/protocol/tcp/tests/retransmit.rs\<close>. The readings of the clock
  are parameters; a lemma about a test assumes of them what the test relies on.
\<close>

section \<open>Retransmission\<close>

text \<open>
  \<open>now\<close> is the reading for the retransmissions and \<open>later\<close> the one \<open>time_due\<close> falls back to.
\<close>

definition syn_ack_is_resent_while_due :: "instant \<Rightarrow> instant \<Rightarrow> instant \<Rightarrow> io_error + bytes \<Rightarrow> unit result" where
  "syn_ack_is_resent_while_due t now later urandom =
     (let conns = connections_test_new 0 5 in
     with_reply (create_test_reply t urandom (client_pkt\<lparr>seg_seq_num := client_isn, seg_flags := Syn\<rparr>) conns)
       (\<lambda>_ conns.
     and_then (test_try_get conns) (\<lambda>conn. let isn = snd_una conn in
     let (resent, conns) = make_retransmissions now later conns in
     and_then (ok_or (vec_pop resent) (Static ''Expected one retransmitted segment'')) (\<lambda>(reply, resent).
     in_order
       [assert_that (resent = []),
        assert_eq reply (server_reply\<lparr>seg_seq_num := isn, seg_ack_num := seq_add client_isn syn_byte_in,
          seg_flags := SynAck\<rparr>),
        assert_eq (seg_ip_pair reply) (ip_swapped ip_pair_in)]))))"

definition pending_segment_is_cleared_once_acked ::
    "instant \<Rightarrow> instant \<Rightarrow> instant \<Rightarrow> instant \<Rightarrow> io_error + bytes \<Rightarrow> unit result" where
  "pending_segment_is_cleared_once_acked t t' now later urandom =
     (let conns = connections_test_new 0 5 in
     with_reply (create_test_reply t urandom (client_pkt\<lparr>seg_seq_num := client_isn, seg_flags := Syn\<rparr>) conns)
       (\<lambda>_ conns.
     and_then (test_try_get conns) (\<lambda>conn. let isn = snd_una conn in
     with_reply (create_test_reply t' urandom (client_pkt\<lparr>seg_seq_num := seq_add client_isn syn_byte_in,
       seg_ack_num := seq_add isn syn_byte_out\<rparr>) conns) (\<lambda>_ conns.
     assert_that (fst (make_retransmissions now later conns) = [])))))"

definition data_echo_is_resent_unchanged ::
    "instant \<Rightarrow> instant \<Rightarrow> instant \<Rightarrow> io_error + bytes \<Rightarrow> unit result" where
  "data_echo_is_resent_unchanged t now later urandom =
     (let conns = with_after_handshake (connections_test_new 0 5) in
     and_then (from_test_str ''Hello'') (\<lambda>hello_bytes.
     with_reply (create_test_reply t urandom (client_pkt\<lparr>seg_seq_num := seq_add client_isn syn_byte_in,
       seg_ack_num := seq_add server_isn syn_byte_out, seg_payload := hello_bytes\<rparr>) conns) (\<lambda>_ conns.
     let (resent, conns) = make_retransmissions now later conns in
     and_then (ok_or (vec_pop resent) (Static ''Expected one retransmitted segment'')) (\<lambda>(reply, resent).
     in_order
       [assert_that (resent = []),
        assert_eq reply (server_reply\<lparr>seg_seq_num := seq_add server_isn syn_byte_out,
          seg_ack_num := seq_add (seq_add client_isn syn_byte_in) hello_len_in, seg_payload := hello_bytes\<rparr>)]))))"

definition fin_ack_is_resent_unchanged :: "instant \<Rightarrow> instant \<Rightarrow> instant \<Rightarrow> unit result" where
  "fin_ack_is_resent_unchanged t now later =
     (let conns = snd (close_established t (with_after_handshake (connections_test_new 0 5)));
          (resent, conns) = make_retransmissions now later conns in
     and_then (ok_or (vec_pop resent) (Static ''Expected one retransmitted segment'')) (\<lambda>(reply, resent).
     in_order
       [assert_that (resent = []),
        assert_eq reply (server_reply\<lparr>seg_seq_num := seq_add server_isn syn_byte_out,
          seg_ack_num := seq_add client_isn syn_byte_in, seg_flags := FinAck\<rparr>)]))"

definition multiple_unacked_segments_are_all_retransmitted ::
    "instant \<Rightarrow> instant \<Rightarrow> instant \<Rightarrow> instant \<Rightarrow> io_error + bytes \<Rightarrow> unit result" where
  "multiple_unacked_segments_are_all_retransmitted t t' now later urandom =
     (let conns = with_after_handshake (connections_test_new 0 5) in
     and_then (from_test_str ''Hello'') (\<lambda>hello_bytes.
     and_then (from_test_str ''Hi'') (\<lambda>hi_bytes.
     with_reply (create_test_reply t urandom (client_pkt\<lparr>seg_seq_num := seq_add client_isn syn_byte_in,
       seg_ack_num := seq_add server_isn syn_byte_out, seg_payload := hello_bytes\<rparr>) conns) (\<lambda>_ conns.
     with_reply (create_test_reply t' urandom (client_pkt\<lparr>
       seg_seq_num := seq_add (seq_add client_isn syn_byte_in) hello_len_in,
       seg_ack_num := seq_add server_isn syn_byte_out, seg_payload := hi_bytes\<rparr>) conns) (\<lambda>_ conns.
     case fst (make_retransmissions now later conns) of
       [hello, hi] \<Rightarrow>
         in_order
           [assert_eq hello (server_reply\<lparr>seg_seq_num := seq_add server_isn syn_byte_out,
              seg_ack_num := seq_add (seq_add client_isn syn_byte_in) hello_len_in, seg_payload := hello_bytes\<rparr>),
            assert_eq hi (server_reply\<lparr>seg_seq_num := seq_add (seq_add server_isn syn_byte_out) hello_len_out,
              seg_ack_num := seq_add (seq_add (seq_add client_isn syn_byte_in) hello_len_in) hi_len_in,
              seg_payload := hi_bytes\<rparr>)]
     | _ \<Rightarrow> Inl (Err (Static ''Expected exactly two retransmitted segments'')))))))"

text \<open>The loop \<open>for _ in 0..MAX_RETRIES\<close>, one reading of the clock for each round.\<close>

fun still_retried :: "instant \<Rightarrow> instant list \<Rightarrow> tcp_connections \<Rightarrow> (tcp_connections, unit) stateful" where
  "still_retried later [] conns = (conns, Inr ())"
| "still_retried later (now # nows) conns =
     (let (resent, conns) = make_retransmissions now later conns in
      run_then (conns, in_order
        [assert_eq (length resent) 1,
         and_then (test_try_get conns) (\<lambda>conn. assert_eq (tcp_state_of conn) (SynReceived SynReceivedMark))])
        (\<lambda>conns _. still_retried later nows conns))"

definition gives_up_after_max_retransmits ::
    "instant \<Rightarrow> instant list \<Rightarrow> instant \<Rightarrow> instant \<Rightarrow> io_error + bytes \<Rightarrow> unit result" where
  "gives_up_after_max_retransmits t nows now later urandom =
     (let conns = connections_test_new 0 3 in
     with_reply (create_test_reply t urandom (client_pkt\<lparr>seg_seq_num := client_isn, seg_flags := Syn\<rparr>) conns)
       (\<lambda>_ conns.
     let (conns, r) = still_retried later nows conns in
     and_then r (\<lambda>_.
     let (resent, conns) = make_retransmissions now later conns in
     in_order [assert_that (resent = []), assert_err (test_try_get conns)])))"

text \<open>One look at the connections at each of the given readings, and how many segments were resent.\<close>

fun resent_at :: "instant \<Rightarrow> instant list \<Rightarrow> tcp_connections \<Rightarrow> nat list" where
  "resent_at later [] conns = []"
| "resent_at later (now # nows) conns =
     (let (resent, conns) = make_retransmissions now later conns in length resent # resent_at later nows conns)"

definition retransmissions_back_off_exponentially ::
    "instant \<Rightarrow> instant list \<Rightarrow> instant \<Rightarrow> io_error + bytes \<Rightarrow> unit result" where
  "retransmissions_back_off_exponentially t nows later urandom =
     (let conns = with_after_handshake (connections_test_new (10 * 1000000) 3) in
     and_then (from_test_str ''Hello'') (\<lambda>hello_bytes.
     with_reply (create_test_reply t urandom (client_pkt\<lparr>seg_seq_num := seq_add client_isn syn_byte_in,
       seg_ack_num := seq_add server_isn syn_byte_out, seg_payload := hello_bytes\<rparr>) conns) (\<lambda>_ conns.
     assert_eq (resent_at later nows conns) [0, 1, 0, 1, 0, 1, 0])))"

lemmas retransmit_scenario = scenario connections_test_new_def make_retransmissions_def is_due_def time_due_def
  checked_add_instant_def retransmission_timeout_def clamp_def saturating_mul_def saturating_pow_2_def
  exhausted_retries_def saturating_inc_def retransmit_info_def random_u32_def from_syn_ack_def
  insert_syn_rcv_def word_le_nat_alt

lemma retransmit_tests_pass:
  assumes "t \<le> t'" and "t' \<le> now" and "now \<le> instant_max"
  shows "passes (syn_ack_is_resent_while_due t now later (Inr entropy))"
    and "passes (pending_segment_is_cleared_once_acked t t' now later (Inr entropy))"
    and "passes (data_echo_is_resent_unchanged t now later urandom)"
    and "passes (fin_ack_is_resent_unchanged t now later)"
    and "passes (multiple_unacked_segments_are_all_retransmitted t t' now later urandom)"
  using assms
  by (simp_all add: syn_ack_is_resent_while_due_def pending_segment_is_cleared_once_acked_def
      data_echo_is_resent_unchanged_def fin_ack_is_resent_unchanged_def
      multiple_unacked_segments_are_all_retransmitted_def retransmit_scenario)

lemma giving_up_test_passes:
  assumes "t \<le> t1" and "t1 \<le> t2" and "t2 \<le> t3" and "t3 \<le> now" and "now \<le> instant_max"
  shows "passes (gives_up_after_max_retransmits t [t1, t2, t3] now later (Inr entropy))"
  using assms by (simp add: gives_up_after_max_retransmits_def in_order.simps assert_eq_def assert_that_def retransmit_scenario)

text \<open>The sleeps of the test, in milliseconds, as bounds on the readings around them.\<close>

lemma back_off_test_passes:
  assumes "t \<le> t1" and "t1 < t + 10 * 1000000" and "t + 10 * 1000000 \<le> t2"
    and "t2 \<le> t3" and "t3 < t2 + 20 * 1000000" and "t2 + 20 * 1000000 \<le> t4"
    and "t4 \<le> t5" and "t5 < t4 + 40 * 1000000" and "t4 + 40 * 1000000 \<le> t6"
    and "t6 \<le> t7" and "t6 + 80 * 1000000 \<le> instant_max"
  shows "passes (retransmissions_back_off_exponentially t [t1, t2, t3, t4, t5, t6, t7] later urandom)"
  using assms by (simp add: retransmissions_back_off_exponentially_def retransmit_scenario duration_max_def)

end
