(* ===== verification/Tests_Segment.thy ===== *)
theory Tests_Segment
  imports Tests_Net Tests_Tcp
begin

text \<open>
  The tests of parsing and writing whole TCP segments, \<open>parse.rs\<close> and \<open>write.rs\<close> under
  \<open>stack/src/protocol/tcp/tests\<close>.
\<close>

section \<open>Parsing\<close>

definition correct_for_valid_segment :: "unit result" where
  "correct_for_valid_segment =
     (let data = [0x04, 0xD2, 0x00, 0x50, 0x00, 0x00, 0x00, 0x01, 0x00, 0x00, 0x00, 0x02, 0x50, 0x12, 0x72, 0x10,
                  0x00, 0xC4, 0x00, 0x00, 0x48, 0x65, 0x6C, 0x6C, 0x6F] in
      and_then (parse_tcp data ip_pair_in) (\<lambda>seg.
      in_order
        [assert_eq (seg_ports seg) (PortPair 1234 80), assert_eq (seg_seq_num seg) (SeqPoint 1),
         assert_eq (seg_ack_num seg) (SeqPoint 2), assert_eq (seg_offset_bytes seg) 20,
         assert_eq (seg_flags seg) SynAck, assert_eq (seg_window seg) (SeqOffset 29200),
         assert_eq (map_option payload_data (seg_payload seg)) (Some (map of_char ''Hello''))]))"

definition fails_when_too_short :: "unit result" where
  "fails_when_too_short = assert_err_with [''Too short''] (parse_tcp [0x04, 0xD2, 0x00, 0x50] ip_pair_in)"

definition fails_for_invalid_cksum :: "unit result" where
  "fails_for_invalid_cksum =
     assert_err_with [''checksum''] (parse_tcp
       [0x04, 0xD2, 0x00, 0x50, 0x00, 0x00, 0x00, 0x01, 0x00, 0x00, 0x00, 0x02, 0x50, 0x12, 0xFF, 0xFF,
        0x00, 0x00, 0x00, 0x00, 0x48, 0x65, 0x6C, 0x6C, 0x6F] ip_pair_in)"

definition handles_large_sequence_numbers :: "unit result" where
  "handles_large_sequence_numbers =
     and_then (parse_tcp
       [0x04, 0xD2, 0x00, 0x50, 0xFF, 0xFF, 0xFF, 0xFF, 0xFE, 0xDC, 0xBA, 0x98, 0x50, 0x10, 0xFF, 0xFF,
        0xDD, 0x3A, 0x00, 0x00] ip_pair_in) (\<lambda>seg.
     in_order [assert_eq (seg_seq_num seg) (SeqPoint 0xFFFFFFFF), assert_eq (seg_ack_num seg) (SeqPoint 0xFEDCBA98)])"

lemmas tcp_compute = udp_compute inner_parse_tcp_def flags_try_from_def u32_from_be_bytes_def try_from_iter_fits

lemma segment_parser_tests_pass:
  "list_all passes [correct_for_valid_segment, fails_when_too_short, fails_for_invalid_cksum,
     handles_large_sequence_numbers]"
  by (simp add: correct_for_valid_segment_def fails_when_too_short_def fails_for_invalid_cksum_def
      handles_large_sequence_numbers_def tcp_compute)

section \<open>Writing\<close>

definition write_into_produces_correct_bytes_with_no_payload :: "unit result" where
  "write_into_produces_correct_bytes_with_no_payload =
     (let seg = \<lparr>seg_ip_pair = ip_pair_out, seg_ports = PortPair 80 1234, seg_seq_num = SeqPoint 0x10000000,
            seg_ack_num = SeqPoint 0x00001001, seg_offset_bytes = 20, seg_flags = SynAck,
            seg_window = SeqOffset 29200, seg_payload = None\<rparr> in
      and_then (write_behind_header (write_tcp seg) (replicate 1500 0)) (\<lambda>reply.
      and_then (tcp_proto_len seg) (\<lambda>proto_len.
      and_then (pseudo_hdr_cksum (take 20 (drop 20 reply)) ip_pair_in Tcp) (\<lambda>cksum.
      in_order
        [assert_eq proto_len 20, assert_eq (take 2 (drop 20 reply)) [0x00, 0x50],
         assert_eq (take 2 (drop 22 reply)) [0x04, 0xD2],
         assert_eq (take 4 (drop 24 reply)) [0x10, 0x00, 0x00, 0x00],
         assert_eq (take 4 (drop 28 reply)) [0x00, 0x00, 0x10, 0x01],
         assert_eq (reply ! 32) 0x50, assert_eq (reply ! 33) 0x12,
         assert_eq (take 2 (drop 34 reply)) [0x72, 0x10], assert_eq (take 2 (drop 38 reply)) [0x00, 0x00],
         assert_eq cksum 0]))))"

definition write_into_produces_correct_bytes_with_payload :: "unit result" where
  "write_into_produces_correct_bytes_with_payload =
     and_then (from_test_str ''Hello'') (\<lambda>hello_bytes.
     let seg = \<lparr>seg_ip_pair = ip_pair_out, seg_ports = PortPair 80 1234, seg_seq_num = SeqPoint 1,
           seg_ack_num = SeqPoint 4102, seg_offset_bytes = 20, seg_flags = Ack, seg_window = SeqOffset 0xFFFF,
           seg_payload = hello_bytes\<rparr> in
     and_then (write_behind_header (write_tcp seg) (replicate 1500 0)) (\<lambda>reply.
     and_then (tcp_proto_len seg) (\<lambda>proto_len.
     and_then (pseudo_hdr_cksum (take 25 (drop 20 reply)) ip_pair_in Tcp) (\<lambda>cksum.
     in_order
       [assert_eq proto_len 25, assert_eq (take 5 (drop 40 reply)) (map of_char ''Hello''), assert_eq cksum 0]))))"

lemma written_behind_header:
  assumes "segment_wf s" and "length (tcp_encoding s) \<le> 1480"
  shows "write_behind_header (inner_write_into_tcp s) (replicate 1500 0) =
    Inr (replicate 20 0 @ tcp_encoding s @ replicate (1480 - length (tcp_encoding s)) 0)"
  using assms by (intro write_behind_header_encoding) (simp add: write_tcp_fits)

lemma nat_be_4: "nat_be 4 n = nat_be 2 (n div 65536) @ nat_be 2 n"
  using nat_be.simps(2) [of 3 n] nat_be.simps(2) [of 2 "n div 256"] nat_be_2
  by (simp add: div_mult2_eq [symmetric])

lemmas segment_encoding = tcp_encoding_def tcp_bytes_def tcp_checksum_def tcp_header_front_def u16_to_be_bytes_def
  u32_to_be_bytes_def seq_to_be_bytes_def offset_to_be_bytes_def nat_be_2 nat_be_4 ip_pair_out_def ip_swapped_def

lemma write_test_passes: "passes write_into_produces_correct_bytes_with_no_payload"
proof -
  let ?s = "\<lparr>seg_ip_pair = ip_pair_out, seg_ports = PortPair 80 1234, seg_seq_num = SeqPoint 0x10000000,
    seg_ack_num = SeqPoint 0x00001001, seg_offset_bytes = 20, seg_flags = SynAck, seg_window = SeqOffset 29200,
    seg_payload = None\<rparr> :: out_segment"
  let ?e = "[0x00, 0x50, 0x04, 0xD2, 0x10, 0, 0, 0, 0, 0, 0x10, 0x01, 0x50, 0x12, 0x72, 0x10, 0x04, 0x9D, 0, 0] :: bytes"
  have e: "tcp_encoding ?s = ?e" by (simp add: segment_encoding udp_compute)
  have "segment_wf ?s" by (simp add: segment_wf_def)
  with e have "write_behind_header (write_tcp ?s) (replicate 1500 0) = Inr (replicate 20 0 @ ?e @ replicate 1460 0)"
    using written_behind_header [of ?s] by (simp del: length_tcp_encoding)
  moreover have "tcp_proto_len ?s = Inr 20" by (simp add: inner_tcp_proto_len_def try_add_u16_def len_or_default_u16_def)
  moreover have "pseudo_hdr_cksum ?e ip_pair_in Tcp = Inr 0" by (simp add: udp_compute)
  ultimately show ?thesis by (simp add: write_into_produces_correct_bytes_with_no_payload_def nth_append)
qed

lemma write_payload_test_passes: "passes write_into_produces_correct_bytes_with_payload"
proof -
  let ?s = "\<lparr>seg_ip_pair = ip_pair_out, seg_ports = PortPair 80 1234, seg_seq_num = SeqPoint 1,
    seg_ack_num = SeqPoint 4102, seg_offset_bytes = 20, seg_flags = Ack, seg_window = SeqOffset 0xFFFF,
    seg_payload = Some \<lparr>payload_data = [72, 101, 108, 108, 111], payload_len = 5\<rparr>\<rparr> :: out_segment"
  let ?e = "[0x00, 0x50, 0x04, 0xD2, 0, 0, 0, 1, 0, 0, 0x10, 0x06, 0x50, 0x10, 0xFF, 0xFF, 0x62, 0xD2, 0, 0,
    72, 101, 108, 108, 111] :: bytes"
  have e: "tcp_encoding ?s = ?e" by (simp add: segment_encoding udp_compute)
  have "segment_wf ?s" by (simp add: segment_wf_def payload_wf_def)
  with e have "write_behind_header (write_tcp ?s) (replicate 1500 0) = Inr (replicate 20 0 @ ?e @ replicate 1455 0)"
    using written_behind_header [of ?s] by (simp del: length_tcp_encoding)
  moreover have "tcp_proto_len ?s = Inr 25" by (simp add: inner_tcp_proto_len_def try_add_u16_def len_or_default_u16_def)
  moreover have "pseudo_hdr_cksum ?e ip_pair_in Tcp = Inr 0" by (simp add: udp_compute)
  ultimately show ?thesis
    by (simp add: write_into_produces_correct_bytes_with_payload_def from_test_str_hello)
qed

end
