(* ===== verification/Tests_Loop.thy ===== *)
theory Tests_Loop
  imports Tests_Engine Tests_Connection Server
begin

text \<open>
  The tests of the server's loop, \<open>server/src/server/tests\<close>, over the scripted doubles of
  \<open>mocks.rs\<close>. A script of poll results and reads becomes the list of turns it stands for; \<open>env\<close> gives
  the readings of the clock and the random bytes of each turn, \<open>con\<close> and \<open>uni\<close> the console and the
  tables of Unicode, which a silent logger never consults.
\<close>

section \<open>The doubles\<close>

record mock_device =
  mock_reads :: "(io_error + bytes) list"
  mock_write_error :: "string option"

definition with_read_results :: "(io_error + bytes) list \<Rightarrow> mock_device" where
  "with_read_results results = \<lparr>mock_reads = results, mock_write_error = None\<rparr>"

definition with_failing_writes :: "string \<Rightarrow> mock_device \<Rightarrow> mock_device" where
  "with_failing_writes message self = self\<lparr>mock_write_error := Some message\<rparr>"

abbreviation io_other :: "string \<Rightarrow> io_error" where "io_other \<equiv> IoError OtherKind"

abbreviation interrupted :: io_error where "interrupted \<equiv> IoError Interrupted ''operation interrupted''"

text \<open>\<open>Read for MockDevice\<close>: the result with the buffer it leaves, and the reads that remain.\<close>

definition mock_read :: "bytes \<Rightarrow> (io_error + bytes) list \<Rightarrow> (io_error + bytes \<times> nat) \<times> (io_error + bytes) list" where
  "mock_read buf reads =
     (case reads of
        [] \<Rightarrow> (Inl (io_other ''Ran out of scripted reads''), [])
      | Inl e # reads \<Rightarrow> (Inl e, reads)
      | Inr data # reads \<Rightarrow>
          (case try_write (RangeTo (length data)) data buf of
             Inr buf \<Rightarrow> (Inr (buf, length data), reads)
           | Inl (Err e) \<Rightarrow> (Inl (io_other (display_error e)), reads)
           | Inl Panic \<Rightarrow> (Inl (io_other ''''), reads)))"

text \<open>\<open>Write for MockDevice\<close>, in the world of the server.\<close>

definition mock_world :: "console \<Rightarrow> unicode \<Rightarrow> mock_device \<Rightarrow> world" where
  "mock_world con uni device =
     \<lparr>console_of = con, unicode_of = uni, device_error = (\<lambda>_ _. map_option io_other (mock_write_error device))\<rparr>"

text \<open>
  \<open>MockPoll\<close>: the \<open>i\<close>-th call of \<open>poll\<close> starts the \<open>i\<close>-th turn; when the script is exhausted it
  fails. \<open>shutdown_check\<close> sees the number of calls made so far.
\<close>

fun scripted ::
    "(nat \<Rightarrow> turn) \<Rightarrow> (nat \<Rightarrow> bool) \<Rightarrow> nat \<Rightarrow> bytes \<Rightarrow> (io_error + bytes) list \<Rightarrow> (io_error + poll_outcome) list \<Rightarrow>
     turn list" where
  "scripted env check i buf reads [] = [(env i)\<lparr>poll_result := (\<lambda>_ _. Inl (io_other ''Poll script exhausted''))\<rparr>]"
| "scripted env check i buf reads (p # ps) =
     (let t = (env i)\<lparr>poll_result := (\<lambda>_ _. p), shutdown_flag := check (Suc i)\<rparr> in
      if p = Inr Readable \<or> p = Inr Both then
        let (r, reads) = mock_read buf reads;
            buf = (case r of Inr (buf, _) \<Rightarrow> buf | Inl _ \<Rightarrow> buf)
        in t\<lparr>read_result := r\<rparr> # scripted env check (Suc i) buf reads ps
      else t # scripted env check (Suc i) buf reads ps)"

text \<open>The arguments of each call of \<open>poll\<close>: the timeout, and whether the shutdown descriptor is watched.\<close>

fun poll_calls :: "world \<Rightarrow> turn list \<Rightarrow> server \<Rightarrow> (duration option \<times> bool) list" where
  "poll_calls w [] self = []"
| "poll_calls w (t # ts) self =
     (poll_timeout (poll_later t) (poll_now t) (engine_of self), \<not> draining self) #
     (case server_step w t self of
        (self, Inr False) \<Rightarrow> poll_calls w ts self
      | _ \<Rightarrow> [])"

definition immediate_grace_period :: duration where "immediate_grace_period = 0"

definition long_grace_period :: duration where "long_grace_period = 24 * 365 * 3600 * 1000000000"

record outcome =
  returned :: "unit result"
  write_history :: "bytes list"
  polled :: "(duration option \<times> bool) list"

definition test_server :: "tcp_connections \<Rightarrow> duration \<Rightarrow> instant \<Rightarrow> server" where
  "test_server conns grace started =
     \<lparr>write_buf = replicate 1500 0, engine_of = engine_test_new Echo conns grace,
      logger_of = logger_new Silent started 0, draining = False, sent = []\<rparr>"

text \<open>The result of the loop, with what the doubles recorded. A script always ends it.\<close>

definition run_test_server ::
    "world \<Rightarrow> instant \<Rightarrow> tcp_connections \<Rightarrow> turn list \<Rightarrow> duration \<Rightarrow> outcome" where
  "run_test_server w started conns ts grace =
     (let self = test_server conns grace started; (final, r) = server_run w ts self in
      \<lparr>returned = (case r of Some r \<Rightarrow> r | None \<Rightarrow> Inl Panic), write_history = sent final,
       polled = poll_calls w ts self\<rparr>)"

text \<open>What a test leaves open, and a run of the loop over a device and a script of polls.\<close>

record surroundings =
  env_console :: console
  env_unicode :: unicode
  env_turns :: "nat \<Rightarrow> turn"
  env_started :: instant

definition scripted_run ::
    "surroundings \<Rightarrow> tcp_connections \<Rightarrow> mock_device \<Rightarrow> (io_error + poll_outcome) list \<Rightarrow> (nat \<Rightarrow> bool) \<Rightarrow>
     duration \<Rightarrow> outcome" where
  "scripted_run env conns device polls check grace =
     run_test_server (mock_world (env_console env) (env_unicode env) device) (env_started env) conns
       (scripted (env_turns env) check 0 (replicate 1500 0) (mock_reads device) polls) grace"

text \<open>\<open>let [write] = device.write_history() else { return Err(..) }\<close>, and the same with two.\<close>

definition one_write :: "outcome \<Rightarrow> (bytes \<Rightarrow> unit result) \<Rightarrow> unit result" where
  "one_write outcome f =
     (case write_history outcome of
        [write] \<Rightarrow> f write
      | _ \<Rightarrow> Inl (Err (Static ''Expected exactly one write'')))"

definition two_writes :: "string \<Rightarrow> outcome \<Rightarrow> (bytes \<Rightarrow> bytes \<Rightarrow> unit result) \<Rightarrow> unit result" where
  "two_writes message outcome f =
     (case write_history outcome of [first, second] \<Rightarrow> f first second | _ \<Rightarrow> Inl (Err (Static message)))"

definition assert_decodes :: "bytes \<Rightarrow> out_segment \<Rightarrow> unit result" where
  "assert_decodes write expected = and_then (decode_test_pkt write) (\<lambda>seg. assert_eq seg expected)"

section \<open>Packets\<close>

definition malformed_pkt_is_skipped_without_propagating_or_writing :: "surroundings \<Rightarrow> unit result" where
  "malformed_pkt_is_skipped_without_propagating_or_writing env =
     (let run = scripted_run env connections_default (with_read_results [Inr (replicate 5 0)])
            [Inr Readable, Inl interrupted] (\<lambda>_. True) immediate_grace_period in
      in_order [assert_eq (returned run) (Inr ()), assert_that (write_history run = [])])"

definition valid_syn_producing_a_reply_is_sent :: "surroundings \<Rightarrow> unit result" where
  "valid_syn_producing_a_reply_is_sent env =
     and_then (encode_test_pkt client_syn) (\<lambda>syn.
     let run = scripted_run env connections_default (with_read_results [Inr syn])
           [Inr Readable, Inl interrupted] (\<lambda>_. True) immediate_grace_period in
     in_order [returned run, assert_eq (length (write_history run)) 1])"

definition valid_ack_completing_handshake_produces_no_reply :: "instant \<Rightarrow> surroundings \<Rightarrow> unit result" where
  "valid_ack_completing_handshake_produces_no_reply t env =
     (let message = ''boom from poll, unrelated to the ACK just processed'' in
      and_then (encode_test_pkt client_ack_completing_handshake) (\<lambda>ack.
      let run = scripted_run env (with_syn_rcv t connections_default) (with_read_results [Inr ack])
            [Inr Readable, Inl (io_other message)] (\<lambda>_. False) long_grace_period in
      in_order [assert_err_with [message] (returned run), assert_that (write_history run = [])]))"

section \<open>Errors\<close>

definition poll_error_unrelated_to_interruption_propagates :: "surroundings \<Rightarrow> unit result" where
  "poll_error_unrelated_to_interruption_propagates env =
     (let message = ''boom from poll'';
          run = scripted_run env connections_default (with_read_results []) [Inl (io_other message)]
            (\<lambda>_. False) long_grace_period in
      in_order [assert_err_with [message] (returned run), assert_that (write_history run = [])])"

definition read_error_unrelated_to_interruption_propagates :: "surroundings \<Rightarrow> unit result" where
  "read_error_unrelated_to_interruption_propagates env =
     (let message = ''boom from read'';
          run = scripted_run env connections_default (with_read_results [Inl (io_other message)]) [Inr Readable]
            (\<lambda>_. False) long_grace_period in
      in_order [assert_err_with [message] (returned run), assert_that (write_history run = [])])"

definition write_failure_while_sending_fin_ack_propagates :: "surroundings \<Rightarrow> unit result" where
  "write_failure_while_sending_fin_ack_propagates env =
     (let message = ''boom from write'';
          run = scripted_run env (with_after_handshake connections_default)
            (with_failing_writes message (with_read_results [])) [Inl interrupted] (\<lambda>_. True) long_grace_period in
      in_order [assert_err_with [message] (returned run), assert_that (write_history run = [])])"

section \<open>Interrupts\<close>

definition first_interrupt_with_established_connection_sends_fin_ack_and_continues ::
    "surroundings \<Rightarrow> unit result" where
  "first_interrupt_with_established_connection_sends_fin_ack_and_continues env =
     (let run = scripted_run env (with_after_handshake connections_default) (with_read_results [])
            [Inl interrupted, Inr Timeout] (\<lambda>_. True) immediate_grace_period in
      and_then (returned run) (\<lambda>_.
      one_write run (\<lambda>write. assert_decodes write server_fin_ack_initiating_close)))"

definition second_interrupt_while_draining_does_not_resend_or_exit :: "surroundings \<Rightarrow> unit result" where
  "second_interrupt_while_draining_does_not_resend_or_exit env =
     (let message = ''boom, unrelated to shutdown'';
          run = scripted_run env (with_after_handshake connections_default) (with_read_results [])
            [Inl interrupted, Inl interrupted, Inl (io_other message)] (\<lambda>_. True) long_grace_period in
      in_order
        [assert_err_with [message] (returned run), assert_eq (length (polled run)) 3,
         one_write run (\<lambda>write. assert_decodes write server_fin_ack_initiating_close)])"

definition interrupt_with_no_established_connections_exits_immediately :: "surroundings \<Rightarrow> unit result" where
  "interrupt_with_no_established_connections_exits_immediately env =
     (let run = scripted_run env connections_default (with_read_results [])
            [Inl interrupted, Inl (io_other ''other error'')] (\<lambda>_. True) immediate_grace_period in
      in_order [assert_eq (returned run) (Inr ()), assert_that (write_history run = [])])"

definition interrupt_unrelated_to_shutdown_is_ignored :: "surroundings \<Rightarrow> unit result" where
  "interrupt_unrelated_to_shutdown_is_ignored env =
     (let run = scripted_run env connections_default (with_read_results [])
            [Inl interrupted, Inl interrupted] (\<lambda>calls. 2 \<le> calls) immediate_grace_period in
      in_order
        [returned run, assert_eq (length (polled run)) 2, assert_that (write_history run = [])])"

definition read_interrupt_reaches_the_same_shutdown_handling_as_poll_interrupt :: "surroundings \<Rightarrow> unit result" where
  "read_interrupt_reaches_the_same_shutdown_handling_as_poll_interrupt env =
     (let run = scripted_run env connections_default (with_read_results [Inl interrupted]) [Inr Readable]
            (\<lambda>_. True) immediate_grace_period in
      in_order [returned run, assert_that (write_history run = [])])"

section \<open>Retransmission\<close>

definition due_retransmission_is_sent_as_real_io :: "instant \<Rightarrow> surroundings \<Rightarrow> unit result" where
  "due_retransmission_is_sent_as_real_io t env =
     (let run = scripted_run env (with_syn_rcv t (connections_test_new 0 5)) (with_read_results [])
            [Inr Timeout, Inl interrupted] (\<lambda>_. True) long_grace_period in
      and_then (returned run) (\<lambda>_. one_write run (\<lambda>write. assert_decodes write server_syn_ack)))"

definition retransmission_does_not_drop_the_connection :: "instant \<Rightarrow> surroundings \<Rightarrow> unit result" where
  "retransmission_does_not_drop_the_connection t env =
     (let run = scripted_run env (with_syn_rcv t (connections_test_new 0 5)) (with_read_results [])
            [Inr Timeout, Inr Timeout, Inl interrupted] (\<lambda>_. True) long_grace_period in
      and_then (returned run) (\<lambda>_.
      two_writes ''The connection should survive the first retransmit and produce a second'' run
        (\<lambda>first second. for_each [first, second] (\<lambda>write. assert_decodes write server_syn_ack))))"

definition gives_up_and_drops_connection_after_max_retries :: "instant \<Rightarrow> surroundings \<Rightarrow> unit result" where
  "gives_up_and_drops_connection_after_max_retries t env =
     (let run = scripted_run env (with_syn_rcv t (connections_test_new 0 2)) (with_read_results [])
            [Inr Timeout, Inr Timeout, Inr Timeout, Inl interrupted] (\<lambda>_. True) long_grace_period in
      and_then (returned run) (\<lambda>_.
      two_writes ''Only 2 retransmissions should be written before giving up, not 3'' run
        (\<lambda>first second. for_each [first, second] (\<lambda>write. assert_decodes write server_syn_ack))))"

section \<open>Shutdown\<close>

definition poll_timeout_reflects_shutdown_deadline_across_a_real_run :: "surroundings \<Rightarrow> unit result" where
  "poll_timeout_reflects_shutdown_deadline_across_a_real_run env =
     (let run = scripted_run env (with_after_handshake connections_default) (with_read_results [])
            [Inl interrupted, Inr Timeout] (\<lambda>_. True) immediate_grace_period in
      and_then (returned run) (\<lambda>_.
      in_order
        [assert_eq (map fst (polled run)) [None, Some 0],
         one_write run (\<lambda>write. assert_decodes write server_fin_ack_initiating_close)]))"

definition stops_watching_the_shutdown_fd_once_draining_begins :: "surroundings \<Rightarrow> unit result" where
  "stops_watching_the_shutdown_fd_once_draining_begins env =
     (let run = scripted_run env (with_after_handshake connections_default) (with_read_results [])
            [Inr Shutdown, Inr Timeout] (\<lambda>_. True) immediate_grace_period in
      and_then (returned run) (\<lambda>_. assert_eq (map snd (polled run)) [True, False]))"

definition exits_once_connections_finish_closing :: "surroundings \<Rightarrow> unit result" where
  "exits_once_connections_finish_closing env =
     and_then (encode_test_pkt client_fin_ack_completing_close) (\<lambda>fin_ack.
     let run = scripted_run env (with_after_handshake connections_default) (with_read_results [Inr fin_ack])
           [Inl interrupted, Inr Readable] (\<lambda>_. True) long_grace_period in
     and_then (returned run) (\<lambda>_.
     and_then (assert_eq (length (polled run)) 2) (\<lambda>_.
     two_writes ''The initial FIN-ACK and the final ACK completing the close should be written'' run
       (\<lambda>fin_ack final_ack. in_order
         [assert_decodes fin_ack server_fin_ack_initiating_close,
          assert_decodes final_ack server_final_ack_completing_close]))))"

definition woken_without_any_interrupt_still_reacts_to_shutdown :: "surroundings \<Rightarrow> unit result" where
  "woken_without_any_interrupt_still_reacts_to_shutdown env =
     returned (scripted_run env connections_default (with_read_results []) [Inr Shutdown] (\<lambda>_. True) long_grace_period)"

definition shutdown_is_noticed_right_after_handling_a_readable_packet :: "surroundings \<Rightarrow> unit result" where
  "shutdown_is_noticed_right_after_handling_a_readable_packet env =
     returned (scripted_run env connections_default (with_read_results [Inr (replicate 5 0)]) [Inr Both]
       (\<lambda>_. True) long_grace_period)"

section \<open>Running them\<close>

text \<open>A silent logger with an empty buffer stays as it is.\<close>

definition silent :: "logger \<Rightarrow> bool" where "silent l \<longleftrightarrow> level l = Silent \<and> log_buf l = []"

lemma silent_new [simp]: "silent (logger_new Silent started wid)"
  by (simp add: silent_def logger_new_def)

lemma silent_operations [simp]:
  assumes "silent l"
  shows "server_info con m l = (l, Inr ())" "server_newline l = l" "pkt_err con m l = l"
    "exchange con uni out l = (l, Inr ())" "non_reply_transmission con uni pkt b l = (l, Inr ())"
proof -
  have l: "level l = Silent" "flush con l = (l, Inr ())" for con
    using assms by (simp_all add: silent_def flush_def)
  then show "server_info con m l = (l, Inr ())" "server_newline l = l" "pkt_err con m l = l"
    by (simp_all add: server_info_def server_newline_def buffering_quiet)
  show "exchange con uni out l = (l, Inr ())" using l by (simp add: exchange_quiet)
  show "non_reply_transmission con uni pkt b l = (l, Inr ())"
    using l by (simp add: non_reply_transmission_def buffering_quiet)
qed

text \<open>A segment without payload as the packet it becomes.\<close>

definition plain :: "('d, 'r) tcp_segment \<Rightarrow> bool" where
  "plain s \<longleftrightarrow> seg_payload s = None \<and> seg_offset_bytes s = 20"

definition plain_packet :: "out_segment \<Rightarrow> out_packet" where
  "plain_packet s = Ipv4Packet (Ipv4Header 40 Tcp (seg_ip_pair s)) (RouterTcp s)"

lemma plain_leaves [simp]:
  assumes "plain s"
  shows "packet_try_from s = Inr (plain_packet s)"
  using assms packet_of_router_fits [of "RouterTcp s"]
  by (simp add: plain_def packet_try_from_eq plain_packet_def segment_wf_def)

lemma plain_decodes [simp]:
  assumes "plain s"
  shows "decode_test_pkt (packet_encoding (plain_packet s)) = Inr s"
  using assms by (intro decode_written plain_leaves) (simp_all add: plain_def segment_wf_def)

lemma plain_sent [simp]:
  assumes "plain s" and "length buf = 1500"
  shows "send_pkt w (plain_packet s) \<lparr>write_buf = buf, engine_of = eng, logger_of = l, draining = d, sent = out\<rparr> =
    (let bs = packet_encoding (plain_packet s);
         self = \<lparr>write_buf = bs @ drop 40 buf, engine_of = eng, logger_of = l, draining = d, sent = out\<rparr>
     in case device_error w out bs of
          Some e \<Rightarrow> (self, Inl (Err (Io e)))
        | None \<Rightarrow> (self\<lparr>sent := out @ [bs]\<rparr>, Inr ()))"
proof -
  let ?p = "plain_packet s"
  have "packet_of_router (RouterTcp s) = Inr ?p" "router_wf (RouterTcp s)" "length (router_encoding (RouterTcp s)) = 20"
    using plain_leaves [OF assms(1)] assms(1) by (simp_all add: packet_try_from_eq plain_def segment_wf_def)
  from write_packet_fits [OF this(1,2), of buf] this(3) assms(2)
  have "write_packet ?p buf = Inr (packet_encoding ?p @ drop (length (packet_encoding ?p)) buf)"
    "unat (packet_total_len ?p) = length (packet_encoding ?p)" by simp_all
  moreover have "packet_total_len ?p = 40" by (simp add: packet_total_len_def plain_packet_def)
  ultimately show ?thesis
    by (simp add: send_pkt_def try_get_def in_bounds_def Let_def split: option.split)
qed

lemma plain_encoding_length [simp]: "plain s \<Longrightarrow> length (packet_encoding (plain_packet s)) = 40"
  by (simp add: packet_encoding_def plain_packet_def plain_def)

lemma plain_fixtures [simp]:
  "plain server_syn_ack" "plain server_fin_ack_initiating_close" "plain server_final_ack_completing_close"
  by (simp_all add: plain_def fixture_defs server_final_ack_completing_close_def)

text \<open>What the tests rely on of the clock: it does not go back, and is more than a year from its end.\<close>

definition clock_runs :: "surroundings \<Rightarrow> bool" where
  "clock_runs env \<longleftrightarrow>
     (\<forall>i. turn_now (env_turns env i) + long_grace_period \<le> instant_max \<and> engine_now (env_turns env i) \<le> instant_max \<and>
       (\<forall>j > i. turn_now (env_turns env i) \<le> turn_now (env_turns env j) \<and>
          engine_now (env_turns env i) \<le> engine_now (env_turns env j) \<and>
          turn_now (env_turns env i) \<le> poll_now (env_turns env j) \<and>
          engine_now (env_turns env i) \<le> poll_now (env_turns env j)))"

text \<open>The tables of the tests.\<close>

definition closing_conns :: "instant \<Rightarrow> tcp_connections" where
  "closing_conns t = snd (close_established t (with_after_handshake connections_default))"

definition resent_syn_ack :: "instant \<Rightarrow> u8 \<Rightarrow> u8 \<Rightarrow> tcp_connections" where
  "resent_syn_ack t n limit =
     set_conn test_key
       \<lparr>tcp_state_of = SynReceived SynReceivedMark,
        snd_nxt = seq_add server_isn syn_byte_out, rcv_nxt = seq_add client_isn syn_byte_in, snd_una = server_isn,
        pending = [(pending_new
          \<lparr>info_seq_num = server_isn, info_ack_num = seq_add client_isn syn_byte_in, info_flags = SynAck,
           info_payload = None\<rparr> t)\<lparr>retries := n\<rparr>],
        send_buffer = [], reassembly = reassembly_new\<rparr> (connections_test_new 0 limit)"

lemma closing_conns [simp]:
  "close_established t (with_after_handshake connections_default) = ([server_fin_ack_initiating_close], closing_conns t)"
  "closing_in_progress (closing_conns t)"
  using after_handshake_closes [of t "fst (close_established t (with_after_handshake connections_default))"
    "snd (close_established t (with_after_handshake connections_default))"]
  by (simp_all add: closing_conns_def prod_eq_iff)

lemma default_conns [simp]:
  "close_established t connections_default = ([], connections_default)"
  "\<not> closing_in_progress connections_default"
  "close_established t (resent_syn_ack t' n k) = ([], resent_syn_ack t' n k)"
  "\<not> closing_in_progress (resent_syn_ack t' n k)"
  "close_established t (connections_test_new 0 k) = ([], connections_test_new 0 k)"
  "\<not> closing_in_progress (connections_test_new 0 k)"
  by (simp_all add: close_established_def close_conn_def closing_in_progress_def connections_default_def
      resent_syn_ack_def connections_test_new_def set_conn_def mid_close_def Let_def)

lemma retransmit_deadlines [simp]:
  "next_retransmit_deadline later (with_after_handshake connections_default) = None"
  "t \<le> instant_max \<Longrightarrow> next_retransmit_deadline later (closing_conns t) = Some t"
  by (simp_all add: closing_conns_def next_retransmit_deadline_def shutdown_defs time_due_def pending_new_def
      retransmission_timeout_def clamp_def saturating_mul_def checked_add_instant_def rto_config_default_def Let_def)

lemma syn_ack_resent:
  assumes "t \<le> now" and "now \<le> instant_max" and "n < limit"
  shows "make_retransmissions now later (resent_syn_ack t n limit) = ([server_syn_ack], resent_syn_ack now (n + 1) limit)"
proof -
  have u: "unat limit < 256" by (rule unat_u8_bound)
  have l: "unat n < unat limit" using assms(3) by (simp only: word_less_nat_alt)
  with u have "unat n \<noteq> 255" by linarith
  then have n: "\<not> limit \<le> n" "n \<noteq> 255" using assms(3) by auto
  then show ?thesis
    using assms(1,2)
    by (simp add: make_retransmissions_def resent_syn_ack_def connections_test_new_def set_conn_def is_due_def
        time_due_def pending_new_def retransmission_timeout_def clamp_def saturating_mul_def checked_add_instant_def
        exhausted_retries_def retransmit_info_def saturating_inc_def get_conn_def segments_of_key Let_def)
qed

lemma syn_ack_given_up:
  assumes "t \<le> now" and "now \<le> instant_max"
  shows "make_retransmissions now later (resent_syn_ack t limit limit) = ([], connections_test_new 0 limit)"
  using assms
  by (simp add: make_retransmissions_def resent_syn_ack_def connections_test_new_def set_conn_def is_due_def
      time_due_def pending_new_def retransmission_timeout_def clamp_def saturating_mul_def checked_add_instant_def
      exhausted_retries_def get_conn_def remove_conn_def Let_def)

lemma syn_rcv_resent: "with_syn_rcv t (connections_test_new 0 limit) = resent_syn_ack t 0 limit"
  by (simp add: with_syn_rcv_def with_syn_rcv_and_pkt_last_sent_def resent_syn_ack_def pending_new_def)

lemma too_short_is_skipped [simp]:
  assumes "length data < 20" and "silent (logger_of self)"
  shows "handle_read w t data self = (self, Inr ())"
  using assms by (simp add: handle_read_def handle_packet_def parse_packet_def inner_parse_ipv4_def Let_def)

lemma mock_reads_fit [simp]:
  "length data \<le> length buf \<Longrightarrow> mock_read buf (Inr data # reads) = (Inr (data @ drop (length data) buf, length data), reads)"
  "mock_read buf (Inl e # reads) = (Inl e, reads)"
  by (simp_all add: mock_read_def try_write_fits overwrite_def)

lemma data_of_buffer [simp]: "n = length data \<Longrightarrow> try_get (data @ rest) (RangeTo n) = Inr data"
  by (simp add: try_get_def in_bounds_def)

lemma length_encoded_pkt [simp]: "plain s \<Longrightarrow> length (encoded_pkt s) = 40"
  by (simp add: encoded_pkt_def plain_def)

lemma plain_reply [simp]: "info_payload i = None \<Longrightarrow> plain (segment_to k i)"
  by (simp add: plain_def segment_to_def from_pairs_and_info_def)

lemma plain_arrives:
  fixes self :: server
  defines "d \<equiv> \<lambda>t seg. decide_reply server_app_ops (engine_now t) (turn_urandom t) seg
    (engine_app (engine_of self), connections (engine_of self))"
  assumes "plain seg" and "silent (logger_of self)"
    and "case snd (d t seg) of Inl _ \<Rightarrow> False | Inr None \<Rightarrow> True | Inr (Some i) \<Rightarrow> info_payload i = None"
  shows "handle_read w t (encoded_pkt seg) self =
    (case d t seg of
       (_, Inl _) \<Rightarrow> (self, Inr ())
     | ((app', conns'), Inr info) \<Rightarrow>
         let self = self\<lparr>engine_of := (engine_of self)\<lparr>engine_app := app', connections := conns'\<rparr>\<rparr>;
             reply = map_option (\<lambda>i. plain_packet (segment_to (key_of seg) i)) info in
         run_then (case reply of None \<Rightarrow> (self, Inr ()) | Some p \<Rightarrow> send_pkt w p self)
           (\<lambda>self _. with_logger (exchange (console_of w) (unicode_of w)
             \<lparr>incoming = Ipv4Packet (Ipv4Header 40 Tcp (seg_ip_pair seg)) (RouterTcp seg), outcome_reply = reply\<rparr>) self))"
proof -
  have s: "seg_payload seg = None" "seg_offset_bytes seg = 20" using assms(2) by (simp_all add: plain_def)
  obtain app' conns' info where e: "d t seg = ((app', conns'), Inr info)"
    using assms(4) by (cases "d t seg") (auto split: sum.splits)
  have "packet_try_from (segment_to (key_of seg) i) = Inr (plain_packet (segment_to (key_of seg) i))" if "info = Some i" for i
    using assms(4) that by (intro plain_leaves) (simp add: e)
  then show ?thesis
    using handle_packet_tcp [OF client_packet_arrives(2) [OF s] _ e [unfolded d_def],
        of "\<lambda>i. plain_packet (segment_to (key_of seg) i)"]
    by (cases info) (simp_all add: e handle_read_def reply_pairs Let_def)
qed

lemma plain_clients [simp]:
  "plain client_syn" "plain client_ack_completing_handshake" "plain client_fin_ack_completing_close"
  by (simp_all add: plain_def fixture_defs client_fin_ack_completing_close_def)

lemmas loop = scripted_run_def run_test_server_def test_server_def engine_test_new_def with_read_results_def
  with_failing_writes_def mock_world_def server_step_def check_shutdown_def handle_shutdown_interrupt_def
  handle_shutdown_def handle_timeout_def handle_readable_def engine_make_retransmissions_def with_logger_def
  one_write_def two_writes_def assert_decodes_def try_add_instant_def checked_add_instant_def
  immediate_grace_period_def grace_period_elapsed_def poll_timeout_def option_list_def Let_def

lemma clock_readings:
  assumes "clock_runs env"
  shows "turn_now (env_turns env i) + long_grace_period \<le> instant_max"
    and "turn_now (env_turns env i) \<le> instant_max"
    and "engine_now (env_turns env i) \<le> instant_max"
    and "turn_now (env_turns env i) \<le> turn_now (env_turns env (Suc i))"
    and "engine_now (env_turns env i) \<le> engine_now (env_turns env (Suc i))"
    and "turn_now (env_turns env i) \<le> poll_now (env_turns env (Suc i))"
    and "engine_now (env_turns env i) \<le> poll_now (env_turns env (Suc i))"
proof -
  have "turn_now (env_turns env i) + long_grace_period \<le> instant_max" using assms by (simp add: clock_runs_def)
  then show "turn_now (env_turns env i) + long_grace_period \<le> instant_max" "turn_now (env_turns env i) \<le> instant_max"
    by linarith+
qed (use assms in \<open>simp_all add: clock_runs_def\<close>)

lemmas first_readings = clock_readings clock_readings [of _ 0, simplified] clock_readings [of _ 1, simplified]

lemma loop_error_tests_pass:
  assumes "clock_runs env"
  shows "passes (poll_error_unrelated_to_interruption_propagates env)"
    and "passes (read_error_unrelated_to_interruption_propagates env)"
    and "passes (write_failure_while_sending_fin_ack_propagates env)"
  by (simp_all add: poll_error_unrelated_to_interruption_propagates_def
      read_error_unrelated_to_interruption_propagates_def write_failure_while_sending_fin_ack_propagates_def
      loop first_readings [OF assms])

lemma loop_interrupt_tests_pass:
  assumes "clock_runs env"
  shows "passes (first_interrupt_with_established_connection_sends_fin_ack_and_continues env)"
    and "passes (second_interrupt_while_draining_does_not_resend_or_exit env)"
    and "passes (interrupt_with_no_established_connections_exits_immediately env)"
    and "passes (interrupt_unrelated_to_shutdown_is_ignored env)"
    and "passes (read_interrupt_reaches_the_same_shutdown_handling_as_poll_interrupt env)"
  by (simp_all add: first_interrupt_with_established_connection_sends_fin_ack_and_continues_def
      second_interrupt_while_draining_does_not_resend_or_exit_def
      interrupt_with_no_established_connections_exits_immediately_def
      interrupt_unrelated_to_shutdown_is_ignored_def
      read_interrupt_reaches_the_same_shutdown_handling_as_poll_interrupt_def loop first_readings [OF assms])

lemma loop_shutdown_tests_pass:
  assumes "clock_runs env"
  shows "passes (poll_timeout_reflects_shutdown_deadline_across_a_real_run env)"
    and "passes (stops_watching_the_shutdown_fd_once_draining_begins env)"
    and "passes (woken_without_any_interrupt_still_reacts_to_shutdown env)"
  by (simp_all add: poll_timeout_reflects_shutdown_deadline_across_a_real_run_def
      stops_watching_the_shutdown_fd_once_draining_begins_def
      woken_without_any_interrupt_still_reacts_to_shutdown_def loop min_le_iff_disj first_readings [OF assms])

lemma loop_retransmit_tests_pass:
  assumes "clock_runs env" and "t \<le> engine_now (env_turns env 0)"
  shows "passes (due_retransmission_is_sent_as_real_io t env)"
    and "passes (retransmission_does_not_drop_the_connection t env)"
    and "passes (gives_up_and_drops_connection_after_max_retries t env)"
  using assms(2)
  by (simp_all add: due_retransmission_is_sent_as_real_io_def retransmission_does_not_drop_the_connection_def
      gives_up_and_drops_connection_after_max_retries_def loop first_readings [OF assms(1)]
      syn_rcv_resent syn_ack_resent syn_ack_given_up)

lemma loop_malformed_tests_pass:
  assumes "clock_runs env"
  shows "passes (malformed_pkt_is_skipped_without_propagating_or_writing env)"
    and "passes (shutdown_is_noticed_right_after_handling_a_readable_packet env)"
  by (simp_all add: malformed_pkt_is_skipped_without_propagating_or_writing_def
      shutdown_is_noticed_right_after_handling_a_readable_packet_def loop first_readings [OF assms])

lemma handshake_ack_absorbed:
  "\<exists>conns'. decide_reply server_app_ops now entropy client_ack_completing_handshake
     (Echo, with_syn_rcv t connections_default) = ((Echo, conns'), Inr None)"
  by (simp add: scenario client_ack_completing_handshake_def server_app_ops_def)

lemma close_completed:
  "\<exists>i. decide_reply server_app_ops now entropy client_fin_ack_completing_close (Echo, closing_conns t) =
     ((Echo, connections_default), Inr (Some i)) \<and>
     info_payload i = None \<and> segment_to (key_of client_fin_ack_completing_close) i = server_final_ack_completing_close"
  by (simp add: scenario closing_conns_def client_fin_ack_completing_close_def
      server_final_ack_completing_close_def server_app_ops_def)

lemma syn_answered:
  "\<exists>i conns'. decide_reply server_app_ops now (Inr entropy) client_syn (Echo, connections_default) =
     ((Echo, conns'), Inr (Some i)) \<and> info_payload i = None \<and>
     (\<forall>t. close_established t conns' = ([], conns')) \<and> \<not> closing_in_progress conns'"
  by (simp add: scenario client_syn_def random_u32_def from_syn_ack_def insert_syn_rcv_def closing_in_progress_def
      mid_close_def)

lemma loop_packet_tests_pass:
  assumes "clock_runs env"
  shows "passes (valid_ack_completing_handshake_produces_no_reply t env)"
    and "passes (exits_once_connections_finish_closing env)"
    and "turn_urandom (env_turns env 0) = Inr entropy \<Longrightarrow> passes (valid_syn_producing_a_reply_is_sent env)"
proof -
  have encodes: "encode_test_pkt s = Inr (encoded_pkt s)" if "plain s" for s
    using that by (intro client_packet_arrives(1)) (simp_all add: plain_def)
  note eval = loop encodes draining_complete_def plain_arrives first_readings [OF assms]
  obtain conns' where "decide_reply server_app_ops (engine_now (env_turns env 0)) (turn_urandom (env_turns env 0))
      client_ack_completing_handshake (Echo, with_syn_rcv t connections_default) = ((Echo, conns'), Inr None)"
    using handshake_ack_absorbed by blast
  then show "passes (valid_ack_completing_handshake_produces_no_reply t env)"
    by (simp add: valid_ack_completing_handshake_produces_no_reply_def eval)
  obtain i where "decide_reply server_app_ops (engine_now (env_turns env 1)) (turn_urandom (env_turns env 1))
      client_fin_ack_completing_close (Echo, closing_conns (engine_now (env_turns env 0))) =
      ((Echo, connections_default), Inr (Some i))" "info_payload i = None"
      "segment_to (key_of client_fin_ack_completing_close) i = server_final_ack_completing_close"
    using close_completed by blast
  then show "passes (exits_once_connections_finish_closing env)"
    by (simp add: exits_once_connections_finish_closing_def eval)
  assume "turn_urandom (env_turns env 0) = Inr entropy"
  moreover obtain i conns' where "decide_reply server_app_ops (engine_now (env_turns env 0)) (Inr entropy)
      client_syn (Echo, connections_default) = ((Echo, conns'), Inr (Some i))" "info_payload i = None"
      "\<And>t. close_established t conns' = ([], conns')" "\<not> closing_in_progress conns'"
    using syn_answered by blast
  ultimately show "passes (valid_syn_producing_a_reply_is_sent env)"
    by (simp add: valid_syn_producing_a_reply_is_sent_def eval)
qed

end
