(* ===== verification/Tests_System.thy ===== *)
theory Tests_System
  imports Workers Assertions
begin

text \<open>
  The test \<open>server/tests/shutdown_signal.rs\<close>: the installed handler flips the flag and wakes the eventfd.
  The state of the signal is threaded through; what \<open>poll\<close> finds in it is the parameter \<open>libc_poll\<close>, and
  the writes of the handler that the raised signal runs return \<open>writes\<close>.
\<close>

definition from_io :: "io_error + 'a \<Rightarrow> 'a result" where
  "from_io r = (case r of Inl e \<Rightarrow> Inl (Err (Io e)) | Inr x \<Rightarrow> Inr x)"

definition shutdown_flag_starts_false_and_flips_on_sigint ::
    "(signal_state \<Rightarrow> pollfd \<times> pollfd \<Rightarrow> int \<Rightarrow> int \<times> pollfd \<times> pollfd) \<Rightarrow> io_error \<Rightarrow> 'set signal_calls \<Rightarrow> int \<Rightarrow>
     write_result list \<Rightarrow> unit result" where
  "shutdown_flag_starts_false_and_flips_on_sigint libc_poll errno libc never_readable writes =
     (let (shutdown, installed) = install libc errno signal_state_new in
      and_then installed (\<lambda>_.
      and_then (assert_that (\<not> load_flag shutdown)) (\<lambda>_.
      and_then (from_io (readable (libc_poll shutdown) errno never_readable (Some (eventfd_raw shutdown)) (Some 0))) (\<lambda>p.
      and_then (assert_eq p Timeout) (\<lambda>_.
      case shutdown_signal_handler writes shutdown of
        (shutdown, Some Returned) \<Rightarrow>
          and_then (assert_that (load_flag shutdown)) (\<lambda>_.
          and_then (from_io (readable (libc_poll shutdown) errno never_readable (Some (eventfd_raw shutdown)) (Some 0)))
            (\<lambda>p. assert_eq p Shutdown))
      | _ \<Rightarrow> Inl Panic)))))"

text \<open>The socket whose peer writes nothing: no condition is ever set on it, and polls do not fail.\<close>

definition never_ready :: "(pollfd \<times> pollfd \<Rightarrow> int \<Rightarrow> int \<times> pollfd \<times> pollfd) \<Rightarrow> int \<Rightarrow> bool" where
  "never_ready libc_poll fd \<longleftrightarrow> (\<forall>fd0 fd1 ms r fd0' fd1'. libc_poll (fd0, fd1) ms = (r, fd0', fd1') \<longrightarrow>
     0 \<le> r \<and> (pfd fd0 = fd \<longrightarrow> revents fd0' = 0))"

lemma quiet_socket_polled:
  assumes "polls_eventfd libc_poll sig" and "never_ready libc_poll fd" and "0 \<le> eventfd_raw sig"
  shows "readable libc_poll errno fd (Some (eventfd_raw sig)) timeout =
    Inr (if 0 < eventfd_count sig then Shutdown else Timeout)"
proof -
  obtain r fd0 fd1 where p: "libc_poll (poll_fds fd (Some (eventfd_raw sig))) (timeout_ms timeout) = (r, fd0, fd1)"
    using prod_cases3 by blast
  then have "0 \<le> r" "revents fd0 = 0" "revents fd1 \<noteq> 0 \<longleftrightarrow> 0 < eventfd_count sig"
    using assms(1,2) unfolding polls_eventfd_def never_ready_def poll_fds_def by fastforce+
  with readable_exact [of libc_poll fd "Some (eventfd_raw sig)" timeout r fd0 fd1 errno] p assms(1)
  show ?thesis by (auto simp: polls_eventfd_def failed_def)
qed

lemma handler_keeps_fd: "eventfd_raw (fst (shutdown_signal_handler rs self)) = eventfd_raw self"
proof -
  have "eventfd_raw (fst (write_loop rs self)) = eventfd_raw self" for self
    by (induction rs self rule: write_loop.induct) simp_all
  then show ?thesis by (simp add: shutdown_signal_handler_def)
qed

lemma shutdown_signal_test_passes:
  assumes "\<And>sig. 0 \<le> eventfd_raw sig \<Longrightarrow> polls_eventfd (libc_poll sig) sig" and "\<And>sig. never_ready (libc_poll sig) fd"
    and "snd (install libc errno signal_state_new) = Inr ()" and "\<And>sig. snd (shutdown_signal_handler writes sig) = Some Returned"
  shows "passes (shutdown_flag_starts_false_and_flips_on_sigint libc_poll errno libc fd writes)"
proof -
  obtain sig where i: "install libc errno signal_state_new = (sig, Inr ())"
    using assms(3) by (metis prod.collapse)
  then have sig: "0 \<le> eventfd_raw sig" "\<not> load_flag sig" "eventfd_count sig = 0"
    using install_registers [OF i] by (simp_all add: load_flag_def signal_state_new_def)
  obtain sig' where h: "shutdown_signal_handler writes sig = (sig', Some Returned)"
    using assms(4) by (metis prod.collapse)
  then have "signalled sig'" "eventfd_raw sig' = eventfd_raw sig"
    using handler_returns_signalled handler_keeps_fd [of writes sig] by simp_all
  with h i sig show ?thesis
    using quiet_socket_polled [OF assms(1,2), of sig] quiet_socket_polled [OF assms(1,2), of sig']
    by (simp add: shutdown_flag_starts_false_and_flips_on_sigint_def from_io_def signalled_def)
qed

text \<open>A system in which the test passes: descriptor 3 is the eventfd, and the first write is interrupted.\<close>

definition quiet_system :: "signal_state \<Rightarrow> pollfd \<times> pollfd \<Rightarrow> int \<Rightarrow> int \<times> pollfd \<times> pollfd" where
  "quiet_system sig fds ms =
     (if 0 < eventfd_count sig \<and> pfd (snd fds) = eventfd_raw sig \<and> 0 \<le> pfd (snd fds)
      then (1, (fst fds)\<lparr>revents := 0\<rparr>, (snd fds)\<lparr>revents := 1\<rparr>)
      else (0, (fst fds)\<lparr>revents := 0\<rparr>, (snd fds)\<lparr>revents := 0\<rparr>))"

definition quiet_calls :: "int set signal_calls" where
  "quiet_calls = \<lparr>zeroed_set = {}, eventfd_call = (\<lambda>_ _. 3), sigemptyset_call = (\<lambda>_. (0, {})),
     sigaddset_call = (\<lambda>set sig. (0, insert sig set)), sigaction_call = (\<lambda>_ _. 0), sigmask_call = (\<lambda>_ _. 0)\<rparr>"

lemma shutdown_signal_test_runs:
  "passes (shutdown_flag_starts_false_and_flips_on_sigint quiet_system (IoError OtherKind []) quiet_calls 4
     [FailedWrite eintr, Written 8])"
proof (rule shutdown_signal_test_passes)
  show "polls_eventfd (quiet_system sig) sig" if "0 \<le> eventfd_raw sig" for sig
    using that by (auto simp: polls_eventfd_def poll_contract_def quiet_system_def split: if_splits)
qed (auto simp: never_ready_def quiet_system_def quiet_calls_def install_def shutdown_signal_handler_def Let_def
  split: if_splits)

end
