(* ===== verification/Isolation.thy ===== *)
theory Isolation
  imports Server_Invariant Fixtures
begin

text \<open>
  What the engine of the server does for one client does not depend on the others: noninterference of
  the connections that share a table, by the unwinding conditions of the locale \<open>isolated\<close>, interpreted
  for the engine with the server's applications.
\<close>

section \<open>Unwinding\<close>

text \<open>A run of a machine: its final state and everything it put out.\<close>

fun run_events :: "('e \<Rightarrow> 's \<Rightarrow> 's \<times> 'o list) \<Rightarrow> 'e list \<Rightarrow> 's \<Rightarrow> 's \<times> 'o list" where
  "run_events step [] s = (s, [])"
| "run_events step (e # es) s =
     (let (s, out) = step e s; (s, out') = run_events step es s in (s, out @ out'))"

text \<open>
  An observer sees \<open>view\<close> of the state and the outputs that are \<open>mine\<close>. An event that does not concern
  him changes neither, and what one that does leads to depends on his view only.
\<close>

locale isolated =
  fixes step :: "'e \<Rightarrow> 's \<Rightarrow> 's \<times> 'o list" and concerns :: "'e \<Rightarrow> bool" and mine :: "'o \<Rightarrow> bool"
    and view :: "'s \<Rightarrow> 'v" and good :: "'s \<Rightarrow> bool"
  assumes good_step: "good s \<Longrightarrow> good (fst (step e s))"
    and locally_respects: "good s \<Longrightarrow> \<not> concerns e \<Longrightarrow>
      view (fst (step e s)) = view s \<and> filter mine (snd (step e s)) = []"
    and step_consistent: "good s \<Longrightarrow> good t \<Longrightarrow> view s = view t \<Longrightarrow> concerns e \<Longrightarrow>
      view (fst (step e s)) = view (fst (step e t)) \<and>
      filter mine (snd (step e s)) = filter mine (snd (step e t))"
begin

text \<open>Events that do not concern the observer can be dropped.\<close>

lemma purged_run:
  assumes "good s"
  shows "good (fst (run_events step (filter concerns es) s))" "good (fst (run_events step es s))"
    "view (fst (run_events step es s)) = view (fst (run_events step (filter concerns es) s)) \<and>
     filter mine (snd (run_events step es s)) = filter mine (snd (run_events step (filter concerns es) s))"
proof -
  have "good s \<and> good t \<and> view s = view t \<Longrightarrow>
      good (fst (run_events step es s)) \<and> good (fst (run_events step (filter concerns es) t)) \<and>
      view (fst (run_events step es s)) = view (fst (run_events step (filter concerns es) t)) \<and>
      filter mine (snd (run_events step es s)) = filter mine (snd (run_events step (filter concerns es) t))" for t
    using assms
  proof (induction es arbitrary: s t)
    case (Cons e es)
    show ?case
    proof (cases "concerns e")
      case True
      then show ?thesis
        using Cons.IH [of "fst (step e s)" "fst (step e t)"] Cons.prems good_step step_consistent [of s t e]
        by (simp add: split_beta Let_def)
    next
      case False
      then show ?thesis
        using Cons.IH [of "fst (step e s)" t] Cons.prems good_step locally_respects [of s e]
        by (simp add: split_beta Let_def)
    qed
  qed simp
  from this [of s] assms show "good (fst (run_events step (filter concerns es) s))" "good (fst (run_events step es s))"
    "view (fst (run_events step es s)) = view (fst (run_events step (filter concerns es) s)) \<and>
     filter mine (snd (run_events step es s)) = filter mine (snd (run_events step (filter concerns es) s))"
    by simp_all
qed

lemma consistent_run:
  assumes "good s" and "good t" and "view s = view t" and "list_all concerns es"
  shows "view (fst (run_events step es s)) = view (fst (run_events step es t)) \<and>
    filter mine (snd (run_events step es s)) = filter mine (snd (run_events step es t))"
  using assms
proof (induction es arbitrary: s t)
  case (Cons e es)
  then show ?case
    using Cons.IH [of "fst (step e s)" "fst (step e t)"] good_step step_consistent [of s t e]
    by (simp add: split_beta Let_def)
qed simp

lemma noninterference:
  assumes "good s" and "good t" and "view s = view t" and "filter concerns es = filter concerns es'"
  shows "view (fst (run_events step es s)) = view (fst (run_events step es' t)) \<and>
    filter mine (snd (run_events step es s)) = filter mine (snd (run_events step es' t))"
  using purged_run(3) [OF assms(1), of es] purged_run(3) [OF assms(2), of es'] assms(4)
    consistent_run [OF assms(1-3), of "filter concerns es'"]
  by (simp add: list_all_iff)

end

section \<open>The application\<close>

text \<open>The server's applications keep no state, so neither does any handler that calls them.\<close>

definition stateless :: "'a application \<Rightarrow> bool" where
  "stateless ops \<longleftrightarrow> (\<forall>app data. fst (handle_tcp ops app data) = app \<and> fst (handle_udp ops app data) = app)"

lemma server_app_stateless: "stateless server_app_ops"
proof -
  have "fst (handle_tcp server_app_ops app data) = app \<and> fst (handle_udp server_app_ops app data) = app" for app data
    by (cases app) (simp_all add: server_app_ops_def)
  then show ?thesis by (simp add: stateless_def)
qed

lemma deliveries_keep_app:
  assumes "stateless ops"
  shows "fst (deliver ops p s) = fst s" "fst (receive_payload ops maybe s) = fst s"
    "fst (deliver_reassembled ops s) = fst s"
proof -
  show d: "fst (deliver ops p s) = fst s" for p s
    using assms by (simp add: deliver_def stateless_def split_beta Let_def)
  show "fst (receive_payload ops maybe s) = fst s"
    by (simp add: receive_payload_def d split: option.split)
  have "fst (fold (deliver ops) ps s) = fst s" for ps s
    by (induction ps arbitrary: s) (simp_all add: d)
  then show "fst (deliver_reassembled ops s) = fst s"
    by (simp add: deliver_reassembled_def split_beta Let_def)
qed

lemma beside_keeps_app [simp]:
  "fst (fst (beside app r)) = app" "fst (fst (infallibly app d)) = app" "fst (reply_with r') = fst r'"
  by (simp_all add: beside_def infallibly_def reply_with_def run_then_cases split: sum.split)

lemma send_part_keeps_app:
  assumes "\<And>conn x. fst (fst (f (app, conn) x)) = app"
  shows "fst (fst (run_then (beside app r) f)) = app"
  using assms by (simp add: run_then_cases beside_def split: sum.split)

lemma handler_keeps_app:
  assumes "stateless ops"
  shows "fst (fst (handle_known_conn ops now seg (app, conn))) = app"
proof -
  note keep = deliveries_keep_app [OF assms]
  have "fst (fst (close_on_in_order_fin ops now seg p est (app, c))) = app" for p est c
    by (simp add: close_on_in_order_fin_def keep split_beta Let_def)
  note keep = this keep send_part_keeps_app
  have "fst (fst (handle_syn_rcv ops now seg sr (app, conn))) = app" for sr
    by (simp add: handle_syn_rcv_def keep split_beta Let_def split: option.split)
  moreover have "fst (fst (handle_established ops now seg est (app, conn))) = app" for est
    by (simp add: handle_established_def keep split_beta Let_def split: option.split)
  ultimately show ?thesis by (simp add: handle_known_conn_def split: tcp_state.split)
qed

section \<open>One connection of the table\<close>

text \<open>What a segment does to the entry of its own connection, read off that entry alone.\<close>

datatype change = Keep | Put conn_state | Drop

definition apply_change :: "conn_key \<Rightarrow> change \<Rightarrow> tcp_connections \<Rightarrow> tcp_connections" where
  "apply_change key c conns =
     (case c of Keep \<Rightarrow> conns | Put conn \<Rightarrow> set_conn key conn conns | Drop \<Rightarrow> remove_conn key conns)"

definition changed :: "change \<Rightarrow> conn_state option \<Rightarrow> conn_state option" where
  "changed c entry = (case c of Keep \<Rightarrow> entry | Put conn \<Rightarrow> Some conn | Drop \<Rightarrow> None)"

lemma apply_change_simps [simp]:
  "get_conn k (apply_change key c conns) = (if k = key then changed c (get_conn k conns) else get_conn k conns)"
  "rto_config_of (apply_change key c conns) = rto_config_of conns"
  "max_retries (apply_change key c conns) = max_retries conns"
  "table_wf conns \<Longrightarrow> table_wf (apply_change key c conns)"
  by (cases c; simp add: apply_change_def changed_def)+

definition decide_entry ::
    "'a application \<Rightarrow> instant \<Rightarrow> io_error + bytes \<Rightarrow> in_segment \<Rightarrow> 'a \<Rightarrow> conn_state option \<Rightarrow>
     'a \<times> change \<times> send_info option result" where
  "decide_entry ops now urandom seg app entry =
     (case entry of
        None \<Rightarrow>
          (case handle_unknown_conn now urandom seg (key_of seg) (connections_new 0 0) of
             (conns, r) \<Rightarrow> (app, (case get_conn (key_of seg) conns of None \<Rightarrow> Keep | Some conn \<Rightarrow> Put conn), r))
      | Some conn \<Rightarrow>
          (case handle_known_conn ops now seg (app, conn) of
             ((app, conn), Inl e) \<Rightarrow> (app, Put conn, Inl e)
           | ((app, conn), Inr (reply, remove_it)) \<Rightarrow> (app, if remove_it then Drop else Put conn, Inr reply)))"

lemma remove_set_conn [simp]: "remove_conn key (set_conn key conn conns) = remove_conn key conns"
  by (simp add: remove_conn_def set_conn_def delete_update_same)

lemma decide_reply_by_entry:
  "decide_reply ops now urandom seg (app, conns) =
     (case decide_entry ops now urandom seg app (get_conn (key_of seg) conns) of
        (app', c, r) \<Rightarrow> ((app', apply_change (key_of seg) c conns), r))"
proof (cases "get_conn (key_of seg) conns")
  case None
  have "get_conn (key_of seg) (connections_new 0 0) = None" by (simp add: get_conn_def connections_new_def)
  with None show ?thesis
    by (cases "random_u32 urandom")
       (simp_all add: decide_reply_def decide_entry_def handle_unknown_conn_def from_syn_ack_def insert_syn_rcv_def
        apply_change_def set_conn_def get_conn_def connections_new_def Let_def)
next
  case (Some conn)
  then show ?thesis
    by (cases "handle_known_conn ops now seg (app, conn)"; cases "snd (handle_known_conn ops now seg (app, conn))")
       (auto simp: decide_reply_def decide_entry_def apply_change_def Let_def)
qed

lemma decide_entry_keeps_app:
  assumes "stateless ops"
  shows "fst (decide_entry ops now urandom seg app entry) = app"
proof (cases entry)
  case (Some conn)
  then show ?thesis
    using handler_keeps_app [OF assms, of now seg app conn]
    by (cases "handle_known_conn ops now seg (app, conn)"; cases "snd (handle_known_conn ops now seg (app, conn))")
       (auto simp: decide_entry_def)
qed (simp add: decide_entry_def split_beta)

section \<open>The engine as a machine\<close>

text \<open>
  The events are packets and retransmission passes; a shutdown concerns every connection at once. The
  outputs are the packets to be sent, or the errors in their place.
\<close>

datatype engine_event = Received instant "io_error + bytes" bytes | Passed instant instant

definition engine_happens :: "engine_event \<Rightarrow> server_app engine \<Rightarrow> server_app engine \<times> out_packet result list" where
  "engine_happens ev eng =
     (case ev of
        Received now urandom data \<Rightarrow>
          (case handle_packet server_app_ops now urandom data eng of
             (eng, r) \<Rightarrow> (eng, case r of Inl _ \<Rightarrow> [] | Inr outcome \<Rightarrow> map Inr (option_list (outcome_reply outcome))))
      | Passed now later \<Rightarrow>
          (case engine_make_retransmissions now later eng of (pkts, eng) \<Rightarrow> (eng, pkts)))"

text \<open>The packets that come from a client's endpoint of a connection, and those that go to it.\<close>

definition comes_from :: "conn_key \<Rightarrow> in_segment \<Rightarrow> bool" where
  "comes_from k s \<longleftrightarrow> ip_src (seg_ip_pair s) = client_ip k \<and> port_src (seg_ports s) = client_port k \<and>
     ip_dst (seg_ip_pair s) = server_ip k \<and> port_dst (seg_ports s) = server_port k"

definition concerns_conn :: "conn_key \<Rightarrow> engine_event \<Rightarrow> bool" where
  "concerns_conn k ev =
     (case ev of
        Passed _ _ \<Rightarrow> True
      | Received _ _ data \<Rightarrow>
          (case parse_packet data of
             Inr pkt \<Rightarrow> (case router pkt of RouterTcp seg \<Rightarrow> comes_from k seg | _ \<Rightarrow> False)
           | Inl _ \<Rightarrow> False))"

definition goes_to :: "conn_key \<Rightarrow> out_segment \<Rightarrow> bool" where
  "goes_to k s \<longleftrightarrow> ip_dst (seg_ip_pair s) = client_ip k \<and> port_dst (seg_ports s) = client_port k \<and>
     ip_src (seg_ip_pair s) = server_ip k \<and> port_src (seg_ports s) = server_port k"

definition addressed_to :: "conn_key \<Rightarrow> out_packet result \<Rightarrow> bool" where
  "addressed_to k r =
     (case r of Inr pkt \<Rightarrow> (case router pkt of RouterTcp s \<Rightarrow> goes_to k s | _ \<Rightarrow> False) | Inl _ \<Rightarrow> False)"

definition conn_view ::
    "conn_key \<Rightarrow> server_app engine \<Rightarrow> conn_state option \<times> rto_config \<times> u8 \<times> server_app" where
  "conn_view k eng =
     (get_conn k (connections eng), rto_config_of (connections eng), max_retries (connections eng), engine_app eng)"

lemma comes_from_key: "comes_from k s \<longleftrightarrow> key_of s = k"
  by (cases k) (auto simp: comes_from_def key_of_def)

lemma goes_to_segment [simp]: "goes_to k (segment_to k' info) \<longleftrightarrow> k = k'"
  by (cases k; cases k') (auto simp: goes_to_def segment_to_def from_pairs_and_info_def)

lemma addressed_conversion: "addressed_to k (packet_try_from s) \<Longrightarrow> goes_to k s"
  by (auto simp: addressed_to_def packet_try_from_def and_then_Inr_iff split: sum.splits)

text \<open>A packet in terms of the entry of its connection.\<close>

definition reply_packets :: "conn_key \<Rightarrow> send_info option result \<Rightarrow> out_packet result list" where
  "reply_packets k r =
     (case r of
        Inr (Some info) \<Rightarrow> (case packet_try_from (segment_to k info) of Inl _ \<Rightarrow> [] | Inr p \<Rightarrow> [Inr p])
      | _ \<Rightarrow> [])"

lemma received_tcp:
  assumes "parse_packet data = Inr pkt" and "router pkt = RouterTcp seg"
  shows "engine_happens (Received now urandom data) eng =
    (case decide_entry server_app_ops now urandom seg (engine_app eng) (get_conn (key_of seg) (connections eng)) of
       (app', c, r) \<Rightarrow>
         (eng\<lparr>engine_app := app', connections := apply_change (key_of seg) c (connections eng)\<rparr>,
          reply_packets (key_of seg) r))"
proof -
  obtain app' c r where d: "decide_entry server_app_ops now urandom seg (engine_app eng)
      (get_conn (key_of seg) (connections eng)) = (app', c, r)" by (metis prod_cases3)
  note step = engine_happens_def handle_packet_def assms create_reply_def create_tcp_reply_def d [simplified]
    decide_reply_by_entry reply_packets_def reply_pairs packet_try_from_eq option_list_def Let_def
  show ?thesis
  proof (cases r)
    case (Inl e)
    then show ?thesis by (cases e) (simp_all add: step)
  next
    case (Inr reply)
    show ?thesis
    proof (cases reply)
      case (Some info)
      then show ?thesis
        by (cases "packet_of_router (RouterTcp (segment_to (key_of seg) info))"; cases "projl
          (packet_of_router (RouterTcp (segment_to (key_of seg) info)))") (simp_all add: step Inr)
    qed (simp add: step Inr)
  qed
qed

lemma reply_packets_addressed: "filter (addressed_to k) (reply_packets k' r) = (if k = k' then reply_packets k' r else [])"
proof -
  have "addressed_to k (Inr p) \<longleftrightarrow> k = k'" if "packet_try_from (segment_to k' info) = Inr p" for p info
    using that by (auto simp: addressed_to_def packet_try_from_def and_then_Inr_iff)
  then show ?thesis by (auto simp: reply_packets_def split: sum.split option.split)
qed

text \<open>A packet that is not TCP, or does not parse.\<close>

lemma received_other:
  assumes "\<And>pkt seg. parse_packet data = Inr pkt \<Longrightarrow> router pkt \<noteq> RouterTcp seg"
  shows "conn_view k (fst (engine_happens (Received now urandom data) eng)) = conn_view k eng"
    and "connections (fst (engine_happens (Received now urandom data) eng)) = connections eng"
    and "filter (addressed_to k) (snd (engine_happens (Received now urandom data) eng)) = []"
proof -
  let ?s = "engine_happens (Received now urandom data) eng"
  have "conn_view k (fst ?s) = conn_view k eng \<and> connections (fst ?s) = connections eng \<and> filter (addressed_to k) (snd ?s) = []"
  proof (cases "parse_packet data")
    case (Inl e)
    then show ?thesis by (cases e) (simp_all add: engine_happens_def handle_packet_def)
  next
    case (Inr pkt)
    note step = engine_happens_def handle_packet_def Inr create_reply_def option_list_def Let_def conn_view_def
      packet_of_router_def
    have not_tcp: "\<not> addressed_to k (Inr p)" if "packet_of_router r = Inr p" "\<And>s. r \<noteq> RouterTcp s" for p r
      using that by (cases r) (auto simp: addressed_to_def packet_of_router_def and_then_Inr_iff)
    show ?thesis
    proof (cases "router pkt")
      case (RouterIcmp m)
      let ?r = "RouterIcmp (create_icmp_reply m) :: out_router"
      show ?thesis using not_tcp [of ?r]
        by (cases "packet_of_router ?r"; cases "projl (packet_of_router ?r)")
          (simp_all add: engine_happens_def handle_packet_def Inr create_reply_def option_list_def Let_def conn_view_def
            RouterIcmp)
    next
      case (RouterUdp d)
      obtain app' r where u: "create_udp_reply server_app_ops (engine_app eng) d = (app', r)" by fastforce
      then have "app' = engine_app eng"
        using server_app_stateless by (auto simp: create_udp_reply_def stateless_def split_beta Let_def)
      then show ?thesis using not_tcp [of "RouterUdp r"] u
        by (cases "packet_of_router (RouterUdp r)"; cases "projl (packet_of_router (RouterUdp r))")
          (simp_all add: engine_happens_def handle_packet_def Inr create_reply_def option_list_def Let_def conn_view_def
            RouterUdp)
    qed (use assms Inr in blast)
  qed
  then show "conn_view k (fst ?s) = conn_view k eng" and "connections (fst ?s) = connections eng"
    and "filter (addressed_to k) (snd ?s) = []" by simp_all
qed

text \<open>What a pass does to one connection, and what it sends for it.\<close>

lemma filter_concat_key:
  assumes "distinct keys" and "\<And>k'. filter P (f k') = (if k' = k then f k' else [])"
  shows "filter P (concat (map f keys)) = (if k \<in> set keys then f k else [])"
  using assms by (induction keys) auto

lemma filter_resent: "filter (goes_to k) (resent now later conns k' conn) = (if k' = k then resent now later conns k' conn else [])"
  by (auto simp: resent_def filter_map o_def)

lemma pass_sends:
  assumes wf: "table_wf conns" and run: "make_retransmissions now later conns = (segs, conns')"
  shows "filter (goes_to k) segs =
    (case get_conn k conns of
       None \<Rightarrow> []
     | Some conn \<Rightarrow> if gives_up now later conns conn then [] else resent now later conns k conn)"
proof -
  define keys where "keys = map fst (filter (\<lambda>(_, conn). list_ex (is_due now later conns) (pending conn)) (table conns))"
  have run': "retransmit_keys now later keys conns = (segs, conns')"
    using run by (simp add: make_retransmissions_def keys_def)
  have d: "distinct keys" using wf by (simp add: keys_def table_wf_def distinct_map_filter)
  have keys: "k \<in> set keys \<longleftrightarrow> (\<exists>conn. get_conn k conns = Some conn \<and> list_ex (is_due now later conns) (pending conn))" for k
    using get_conn_iff [OF wf] by (force simp: keys_def)
  then have known: "\<forall>k \<in> set keys. get_conn k conns \<noteq> None" by auto
  define f where "f = (\<lambda>k. let conn = the (get_conn k conns) in
    if gives_up now later conns conn then [] else resent now later conns k conn)"
  have "segs = concat (map f keys)" unfolding f_def by (rule retransmit_keys_spec(2) [OF run' d known])
  moreover have "filter (goes_to k) (f k') = (if k' = k then f k' else [])" for k'
    by (simp add: f_def Let_def filter_resent)
  ultimately have "filter (goes_to k) segs = (if k \<in> set keys then f k else [])"
    using filter_concat_key [OF d, of "goes_to k" f k] by simp
  then show ?thesis
    using keys [of k] not_due(3) [of now later conns _ k] by (auto simp: f_def Let_def split: option.split)
qed

lemma filter_conversions:
  "filter (addressed_to k) (map packet_try_from segs) = filter (addressed_to k) (map packet_try_from (filter (goes_to k) segs))"
  using addressed_conversion by (induction segs) auto

lemma passed_view:
  assumes "table_wf (connections eng)"
  shows "conn_view k (fst (engine_happens (Passed now later) eng)) =
      (Option.bind (get_conn k (connections eng)) (\<lambda>conn.
         if gives_up now later (connections eng) conn then None else Some (resend now later (connections eng) conn)),
       rto_config_of (connections eng), max_retries (connections eng), engine_app eng)"
    and "table_wf (connections (fst (engine_happens (Passed now later) eng)))"
    and "filter (addressed_to k) (snd (engine_happens (Passed now later) eng)) =
      (case get_conn k (connections eng) of
         None \<Rightarrow> []
       | Some conn \<Rightarrow>
           if gives_up now later (connections eng) conn then []
           else filter (addressed_to k) (map packet_try_from (resent now later (connections eng) k conn)))"
proof -
  let ?conns = "connections eng"
  obtain segs conns' where run: "make_retransmissions now later ?conns = (segs, conns')" by fastforce
  then have h: "engine_happens (Passed now later) eng = (eng\<lparr>connections := conns'\<rparr>, map packet_try_from segs)"
    by (simp add: engine_happens_def engine_make_retransmissions_def)
  note spec = make_retransmissions_spec [OF assms run]
  show "conn_view k (fst (engine_happens (Passed now later) eng)) =
      (Option.bind (get_conn k ?conns) (\<lambda>conn.
         if gives_up now later ?conns conn then None else Some (resend now later ?conns conn)),
       rto_config_of ?conns, max_retries ?conns, engine_app eng)"
    and "table_wf (connections (fst (engine_happens (Passed now later) eng)))"
    using spec(1) [of k] spec(3-5) by (simp_all add: conn_view_def h)
  show "filter (addressed_to k) (snd (engine_happens (Passed now later) eng)) =
      (case get_conn k ?conns of
         None \<Rightarrow> []
       | Some conn \<Rightarrow>
           if gives_up now later ?conns conn then []
           else filter (addressed_to k) (map packet_try_from (resent now later ?conns k conn)))"
    unfolding h snd_conv filter_conversions [of k segs] pass_sends [OF assms run] by (simp split: option.split)
qed

section \<open>Connections do not interfere\<close>

lemma received_good:
  assumes "table_wf (connections eng)"
  shows "table_wf (connections (fst (engine_happens ev eng)))"
proof (cases ev)
  case (Received now urandom data)
  show ?thesis
  proof (cases "\<exists>pkt seg. parse_packet data = Inr pkt \<and> router pkt = RouterTcp seg")
    case True
    then show ?thesis using assms received_tcp by (auto simp: Received split: prod.split)
  next
    case False
    then show ?thesis using assms received_other(2) [of data] by (simp add: Received)
  qed
next
  case (Passed now later)
  then show ?thesis using passed_view(2) [OF assms] by simp
qed

interpretation conn: isolated engine_happens "concerns_conn k" "addressed_to k" "conn_view k" "\<lambda>eng. table_wf (connections eng)" for k
proof
  show "table_wf (connections (fst (engine_happens ev eng)))" if "table_wf (connections eng)" for eng :: "server_app engine" and ev
    using that by (rule received_good)
next
  fix eng :: "server_app engine" and ev assume wf: "table_wf (connections eng)" and other: "\<not> concerns_conn k ev"
  then obtain now urandom data where ev: "ev = Received now urandom data"
    by (cases ev) (auto simp: concerns_conn_def)
  show "conn_view k (fst (engine_happens ev eng)) = conn_view k eng \<and>
      filter (addressed_to k) (snd (engine_happens ev eng)) = []"
  proof (cases "\<exists>pkt seg. parse_packet data = Inr pkt \<and> router pkt = RouterTcp seg")
    case True
    then obtain pkt seg where pkt: "parse_packet data = Inr pkt" "router pkt = RouterTcp seg" by blast
    then have "key_of seg \<noteq> k" using other by (simp add: ev concerns_conn_def comes_from_key)
    then show ?thesis
      using decide_entry_keeps_app [OF server_app_stateless, of now urandom seg "engine_app eng"
          "get_conn (key_of seg) (connections eng)"]
      by (auto simp: ev received_tcp [OF pkt] conn_view_def reply_packets_addressed split: prod.split)
  next
    case False
    then show ?thesis using received_other(1,3) [of data] by (simp add: ev)
  qed
next
  fix eng eng' :: "server_app engine" and ev
  assume wf: "table_wf (connections eng)" "table_wf (connections eng')" and same: "conn_view k eng = conn_view k eng'"
    and mine: "concerns_conn k ev"
  show "conn_view k (fst (engine_happens ev eng)) = conn_view k (fst (engine_happens ev eng')) \<and>
      filter (addressed_to k) (snd (engine_happens ev eng)) = filter (addressed_to k) (snd (engine_happens ev eng'))"
  proof (cases ev)
    case (Received now urandom data)
    then obtain pkt seg where pkt: "parse_packet data = Inr pkt" "router pkt = RouterTcp seg" and k: "key_of seg = k"
      using mine by (auto simp: concerns_conn_def comes_from_key split: sum.splits protocol_router.splits)
    then show ?thesis using same
      by (auto simp: Received received_tcp [OF pkt] conn_view_def split: prod.split)
  next
    case (Passed now later)
    from same have state: "gives_up now later (connections eng) = gives_up now later (connections eng')"
      "resend now later (connections eng) = resend now later (connections eng')"
      "resent now later (connections eng) = resent now later (connections eng')"
      "get_conn k (connections eng) = get_conn k (connections eng')"
      "rto_config_of (connections eng) = rto_config_of (connections eng')"
      "max_retries (connections eng) = max_retries (connections eng')" "engine_app eng = engine_app eng'"
      by (simp_all add: conn_view_def fun_eq_iff gives_up_def resend_def resent_def
          is_due_cong [of "connections eng" "connections eng'"])
    show ?thesis
      unfolding Passed passed_view(1,3) [OF wf(1)] passed_view(1,3) [OF wf(2)] state by simp
  qed
qed

text \<open>
  C9: The connections of a client do not interfere. Take two engines that agree on the connection of one
  pair of endpoints, the timer configuration and the application, whatever else their tables hold,
  and two sequences of packets and retransmission passes that agree on the passes and on the packets of
  that pair, whatever other packets stand between them: then the connection ends in the same
  state, and the packets sent to that client are the same, in the same order.
\<close>

theorem connections_do_not_interfere:
  assumes "table_wf (connections eng)" and "table_wf (connections eng')"
    and "conn_view k eng = conn_view k eng'"
    and "filter (concerns_conn k) evs = filter (concerns_conn k) evs'"
  shows "conn_view k (fst (run_events engine_happens evs eng)) = conn_view k (fst (run_events engine_happens evs' eng')) \<and>
    filter (addressed_to k) (snd (run_events engine_happens evs eng)) =
    filter (addressed_to k) (snd (run_events engine_happens evs' eng'))"
  by (rule conn.noninterference [OF assms])

text \<open>Two clients behind one address: the SYN of the one makes no difference to the answer to the other's.\<close>

definition neighbour_syn :: in_segment where
  "neighbour_syn = client_syn\<lparr>seg_ports := PortPair 40000 (port_dst (seg_ports client_syn))\<rparr>"

theorem connections_do_not_interfere_witness:
  "let eng = engine_test_new Echo connections_default 0;
       neighbour = Received 1 (Inr [1, 2, 3, 4]) (encoded_pkt neighbour_syn);
       client = Received 2 (Inr [5, 6, 7, 8]) (encoded_pkt client_syn) in
   \<not> concerns_conn test_key neighbour \<and> concerns_conn test_key client \<and>
   conn_view test_key (fst (run_events engine_happens [neighbour, client, Passed 3 3] eng)) =
   conn_view test_key (fst (run_events engine_happens [client, Passed 3 3] eng)) \<and>
   filter (addressed_to test_key) (snd (run_events engine_happens [neighbour, client, Passed 3 3] eng)) =
   filter (addressed_to test_key) (snd (run_events engine_happens [client, Passed 3 3] eng))"
proof -
  let ?eng = "engine_test_new Echo connections_default 0"
  let ?n = "Received 1 (Inr [1, 2, 3, 4]) (encoded_pkt neighbour_syn)"
  let ?c = "Received 2 (Inr [5, 6, 7, 8]) (encoded_pkt client_syn)"
  have parse: "parse_packet (encoded_pkt s) = Inr (Ipv4Packet (Ipv4Header 40 Tcp (seg_ip_pair s)) (RouterTcp s))"
    if "seg_payload s = None" "seg_offset_bytes s = 20" for s
    using parse_encoded_pkt [of s] that by (simp add: segment_wf_def)
  have c: "\<not> concerns_conn test_key ?n" "concerns_conn test_key ?c" "concerns_conn test_key (Passed 3 3)"
    by (simp_all add: concerns_conn_def parse comes_from_def neighbour_syn_def client_syn_def client_pkt_def test_key_def
        ip_pair_in_def)
  moreover have "table_wf (connections ?eng)"
    by (simp add: engine_test_new_def connections_default_def table_wf_def)
  note connections_do_not_interfere [OF this this refl, of test_key "[?n, ?c, Passed 3 3]" "[?c, Passed 3 3]"]
  ultimately show ?thesis by (simp add: Let_def)
qed

end
