(* ===== verification/Spec2Isabelle.thy ===== *)
theory Spec2Isabelle
  imports Checksum Protocol Ipv4_Header Icmp_Echo Udp Ipv4_Packet Tcp_Scenarios Engine_Properties Server_Properties System Loadgen Tcp_Delivery Tcp_Output Tcp_Diagram Flow_Control Echo_Service Retransmission Workers Packet_Types Fixtures Error_Debug Tests_Utils Tests_Net Tests_Tcp Tests_Engine Tests_Server Tests_Connection Tests_Transfer Tests_Close Tests_Retransmit Tests_Segment Tests_Loop Tests_System Isolation
begin

text \<open>
  Typenet: a verification library for a userspace IPv4/ICMP/UDP/TCP stack.

  The program. \<open>typenet\<close> is a Rust workspace. The crate \<open>stack\<close> holds the protocol stack, without
  I/O; \<open>server\<close> moves packets between a TUN device and the stack; \<open>loadgen\<close> is a test client;
  \<open>utils\<close> holds errors and checked operations. A worker of the server (\<open>server/src/server.rs\<close>) polls
  its queue of the device, feeds its own engine, writes the replies and logs the exchange. An \<open>Engine\<close> (\<open>stack/src/engine.rs\<close>) owns all protocol
  state: the application and the table of TCP connections. Its caller feeds it packets
  (\<open>handle_packet\<close>), timer events (\<open>make_retransmissions\<close>) and shutdown signals
  (\<open>handle_shutdown\<close>), and asks it how long to sleep (\<open>poll_timeout\<close>). A packet is parsed by
  \<open>Ipv4Packet::parse\<close>, which dispatches to ICMP, UDP or TCP; a reply is created by the same
  dispatch and written back with fresh checksums. TCP replies come from \<open>SendInfo::decide_reply\<close>,
  which looks the connection up, runs the handler of its state, and removes it when the handler
  says so.

  The theories, in the order in which they build on each other:

  \<^item> \<open>Prelude\<close>: machine integers, big-endian bytes, \<open>as_chunks\<close>, and lemmas on them; \<open>Text\<close>: functions
    on strings.
  \<^item> \<open>Utils\<close> (\<open>utils/src\<close>): errors as values, \<open>?\<close> as \<open>and_then\<close> and \<open>run_then\<close>, checked addition and
    slice access, with \<open>Inl Panic\<close> for a panic of the standard library.
  \<^item> \<open>Checksum\<close> (\<open>checksum.rs\<close>): four implementations of the Internet checksum; the locale
    \<open>inet_checksum\<close> states what its users rely on and is interpreted for all four.
  \<^item> \<open>Addr_Pairs\<close> (\<open>direction.rs\<close>, \<open>addr_pairs.rs\<close>, \<open>application.rs\<close>): directions as phantom types,
    address and port pairs, the application's operations as a record.
  \<^item> \<open>Protocol\<close> (\<open>protocol.rs\<close>): protocol numbers, the pseudo header, the locale \<open>encode\<close>.
  \<^item> \<open>Ipv4_Header\<close>, \<open>Icmp_Echo\<close>, \<open>Udp\<close>: the files of these names; parsers, writers, round trips, and
    the interpretations of \<open>encode\<close>.
  \<^item> \<open>Seq_Space\<close> (\<open>tcp/seq_space.rs\<close>): circular comparison, as distances \<open>ahead a b\<close>.
  \<^item> \<open>Tcp_Payload\<close> (\<open>tcp/flags.rs\<close>, \<open>tcp/payload.rs\<close>), \<open>Tcp_Segment\<close> (\<open>tcp.rs\<close>): segments on the wire.
  \<^item> \<open>Reassembly\<close> (\<open>tcp/reassembly.rs\<close>): out-of-order data, with the peer's stream as its abstraction.
  \<^item> \<open>Pending_Segment\<close> (\<open>tcp/pending_segment.rs\<close>): what may have to be sent again, and when.
  \<^item> \<open>Tcp_State\<close> (\<open>tcp/state.rs\<close>): the connection, acknowledgments, the invariant \<open>send_inv\<close>.
  \<^item> \<open>Connections\<close> (\<open>tcp/connections.rs\<close>): the table, retransmission, active close.
  \<^item> \<open>Send_Info\<close> (\<open>tcp/send_info.rs\<close>): the reply logic, one definition per handler.
  \<^item> \<open>Conn_Contract\<close>, \<open>Conn_Handlers\<close>: the contract of a handler as the locale \<open>conn_handler\<close> (the
    invariant, no way back, well-formed replies, the application's stream) and its seven
    interpretations, one for each handler.
  \<^item> \<open>Ipv4_Packet\<close> (\<open>ipv4_packet.rs\<close>): whole packets and the protocol router.
  \<^item> \<open>Engine\<close> (\<open>engine.rs\<close>): the engine and the invariant of the table.
  \<^item> \<open>Tcp_Properties\<close>, \<open>Tcp_Scenarios\<close>, \<open>Table_Properties\<close>, \<open>Engine_Properties\<close>: the properties of the
    reply logic, of definite courses of a connection, of the table, and of the engine.
  \<^item> \<open>Packet_Types\<close>: what a well-typed packet is, and that a reply is one, back to its sender.
  \<^item> \<open>Conversations\<close>: histories of one connection, that is any interleaving of segments, timer runs and
    active closes, with the numbers they carry; \<open>recording\<close> keeps what the application was given and
    appended beside the connection. One event is what \<open>decide_reply\<close>, \<open>make_retransmissions\<close> or
    \<open>close_established\<close> does to that connection.
  \<^item> \<open>Tcp_Streams\<close>, \<open>Tcp_Delivery\<close>, \<open>Tcp_Output\<close>: over all such histories, what the application has
    received is a prefix of the peer's stream; it is the whole stream once every piece has arrived, in
    any order and with duplicates; and what the peer can have received is what the application appended.
  \<^item> \<open>Tcp_Diagram\<close>: the state diagram of RFC 9293 with its labelled arcs, and the arcs an event takes a
    connection along; \<open>Flow_Control\<close>: the window last advertised by RFC 9293's rule, and that it is kept.
  \<^item> \<open>Display\<close> (\<open>display.rs\<close> and the \<open>Display\<close> implementations): packets and payloads as text.
  \<^item> \<open>Logger\<close>, \<open>Server_Config\<close>, \<open>Poll\<close> (\<open>server/src/logger.rs\<close>, \<open>application.rs\<close>, \<open>config.rs\<close>,
    \<open>sys/poll.rs\<close>): the log of a worker, the applications, the environment, waiting.
  \<^item> \<open>Server\<close> (\<open>server/src/server.rs\<close>): one turn of the loop, and the loop over a list of turns.
  \<^item> \<open>System\<close> (\<open>server/src/sys\<close>): installing the signal handler, the handler with its eventfd, signal masks,
    attaching to a TUN device.
  \<^item> \<open>Server_Invariant\<close>, \<open>Server_Properties\<close>: the invariant of the loop and its properties.
  \<^item> \<open>Echo_Service\<close>: an application between the two streams, from the peer back to the peer; the locale
    \<open>stream_service\<close> states what such an application promises, interpreted for the server's and the
    tests' applications.
  \<^item> \<open>Isolation\<close>: noninterference of the connections that share a table; the locale \<open>isolated\<close> states
    the unwinding conditions, interpreted for the engine and the endpoints of any client.
  \<^item> \<open>Retransmission\<close>: the timer runs until a silent peer is given up.
  \<^item> \<open>Workers\<close> (\<open>server/src/main.rs\<close>): attaching the queues, the thread scope and its joins, and the
    worker threads as a step relation that interleaves their turns with the signal.
  \<^item> \<open>Loadgen\<close> (\<open>loadgen/src\<close>): the test client and its report.
  \<^item> \<open>Error_Debug\<close> (\<open>utils/src/error.rs\<close>): what \<open>Debug\<close> prints for an error, with its backtrace.
  \<^item> \<open>Assertions\<close>, \<open>Fixtures\<close> (\<open>tcp/test_utils.rs\<close>), \<open>Tests_Utils\<close>, \<open>Tests_Net\<close>, \<open>Tests_Tcp\<close>,
    \<open>Tests_Engine\<close>, \<open>Tests_Server\<close>: the unit tests in the files of the code, one definition each.
  \<^item> \<open>Tests_Connection\<close>, \<open>Tests_Transfer\<close>, \<open>Tests_Close\<close>, \<open>Tests_Retransmit\<close>, \<open>Tests_Segment\<close>
    (\<open>stack/src/protocol/tcp/tests\<close>): the scenario tests of a connection.
  \<^item> \<open>Tests_Loop\<close> (\<open>server/src/server/tests\<close>): the tests of the loop, over a scripted device and poll.
  \<^item> \<open>Tests_System\<close> (\<open>server/tests/shutdown_signal.rs\<close>): the signal handler and the poll after it.

  Conformance. A test is a computation of type \<open>unit result\<close>, a failed assertion a panic. The
  theories \<open>Tests_\<close>... prove that the model passes the tests of the crates \<open>stack\<close>, \<open>server\<close> and
  \<open>utils\<close>, by evaluation where the test is closed, and for every reading of the clock it allows where
  it takes one. They guard the translation: a definition that departs from the code on a tested case
  fails here.

  How the code is modelled. A struct is a record (or a datatype with selectors), an enum a datatype,
  a word a \<open>w word\<close> with its wrap-around, \<open>usize\<close> a \<open>nat\<close>, a \<open>Duration\<close> and an \<open>Instant\<close> a number of
  nanoseconds with the bounds of the standard library. A function that mutates through a reference
  and may fail returns the new state beside the result, so that what it changed before an error
  stays changed. The \<open>HashMap\<close> of connections is an association list whose order stands for the
  unspecified iteration order. Every reading of the clock, of \<open>/dev/urandom\<close> and of the environment
  is a parameter, and so are the operations of the application. The server's loop is given what the
  environment does, one record \<open>turn\<close> per round; stdout and the device are functions that accept or
  refuse a write, and the model records what was accepted. The definitions are executable.

  The loops are structural recursions over their input, so no fuel is needed; the server's loop
  has no bound of its own and recurses on the turns, where no result means that it still runs;
  \<open>drain_segments\<close> recurses on the length of the buffer, which each round shortens.

  What the lemmas show. Checksums: all implementations compute RFC 1071, stored checksums verify,
  damage is noticed. Encoders: \<open>encode\<close> gives that writing never panics, writes
  exactly the encoding and fails only for lack of room; parsers read back what was written. TCP:
  the invariant (\<open>conn_inv\<close>: at most 65536 sequence numbers in flight, each covered
  by a segment held for retransmission) is kept by every handler, by retransmission and by active
  close, and holds in every state the engine reaches by packets that are \<open>placeable\<close> (below); in-order delivery in both directions
  over every history; flow control by the window last advertised; numbering; connections that do not
  interfere; the state diagram, event by event; handshake and teardown; resets; retransmission until a
  silent peer is given up; shutdown, with the loss of data the window did not yet allow
  (\<open>shutdown_loses_unsent_data\<close>). Server: the loop drives the engine only by the engine's own steps; what
  it writes is valid; packets do not end it, unless one of them closes the last connection of a
  shutdown, and the end of the grace period does; it never sleeps past a retransmission; all with the
  exceptions that are stated as theorems: a packet with a short IPv4 header ends it, a busy device keeps
  it from ending, a failed device makes it spin. The workers of \<open>main\<close> do not influence each other, a
  signal reaches each of them, and \<open>main\<close> returns the first error in the order of joining, but only when
  every worker has ended. Log: no control characters of a payload, no content below the full level.

  The hypothesis \<open>ack_placeable\<close>. The circular comparison of sequence numbers is not antisymmetric
  at a distance of \<open>2^31\<close>. An acknowledgment at the antipode of SND.UNA passes both tests of
  acceptability when nothing is in flight; \<open>antipodal_fin_breaks_connection\<close> shows what follows. The
  theorems about the send side exclude this one number and hold for the other \<open>2^32 - 1\<close>. It stands as a
  hypothesis in the theorems about one segment or packet (\<open>placeable_packet\<close>), in \<open>event_ok\<close> for the
  conversations of a connection, and as the premise of the step relations \<open>engine_step\<close>, \<open>serves\<close> and
  \<open>system_step\<close> (\<open>placeable_turn\<close>): what is proved of the states they reach, the invariant and the validity
  of what is written, holds as long as no such segment is read. \<open>handle_packet_never_panics\<close>, the state diagram, the
  protection against resets and the isolation of connections need no such hypothesis.

  Not modelled: what the system calls behind \<open>server/src/sys\<close> do, and so the three
  tests of \<open>server/tests\<close> that observe how the kernel delivers a signal; the
  benchmark of the checksums; memory safety of the unsafe blocks, the orderings of the atomic
  flag, the failure of the system to start a thread, and the threads of the test client, which
  share nothing; floating point, of which only two fields of the test client's report depend;
  backtraces and \<open>Debug\<close> texts of the standard library; and whether a
  \<open>Cow\<close> borrows.
\<close>

end
